(* ===== verification/Prelude.thy ===== *)
theory Prelude
  imports Main "HOL-Library.Word" "HOL-Library.Signed_Division"
begin

text \<open>
  Shared vocabulary of the development: the machine types of the Go code (64-bit counters,
  durations, instants), the lists of concurrent calls a component is running, and the
  collections of facts that the component theories extend.

  \<^item> \<open>counter\<close> is an \<open>atomic.Int64\<close> or \<open>atomic.Uint64\<close>: 64 bits, \<open>+\<close> and \<open>-\<close> wrap around,
    \<open>sint\<close> and \<open>uint\<close> read it as Go does.
  \<^item> \<open>duration\<close> is a \<open>time.Duration\<close> in nanoseconds. It is kept as an integer; wherever the code
    computes with durations the model writes the 64-bit wrap-around out with \<open>wrap64\<close>.
  \<^item> \<open>instant\<close> is a point in time in nanoseconds (\<open>time.Now().UnixNano()\<close>).
\<close>

named_theorems record_laws
  \<open>what an operation of a component does to the fields of its state\<close>

named_theorems step_intros
  \<open>steps of a component that are enabled\<close>

section \<open>Machine integers\<close>

type_synonym counter = "64 word"
type_synonym duration = int
type_synonym instant = int

text \<open>The units of package \<open>time\<close>.\<close>

abbreviation (input) Millisecond :: duration where "Millisecond \<equiv> 1000000"
abbreviation (input) Second :: duration where "Second \<equiv> 1000000000"
abbreviation (input) Minute :: duration where "Minute \<equiv> 60000000000"
abbreviation (input) Hour :: duration where "Hour \<equiv> 3600000000000"

definition min_int64 :: int where
  "min_int64 = - (2 ^ 63)"

definition max_int64 :: int where
  "max_int64 = 2 ^ 63 - 1"

text \<open>Two's complement reduction to 64 bits, as Go's \<open>int64\<close> arithmetic does it.\<close>

definition wrap64 :: "int \<Rightarrow> int" where
  "wrap64 x = (x + 2 ^ 63) mod 2 ^ 64 - 2 ^ 63"

text \<open>\<open>Time.Sub\<close> (and \<open>time.Since\<close>) saturates at the limits of a \<open>Duration\<close>.\<close>

definition sat64 :: "int \<Rightarrow> int" where
  "sat64 x = max min_int64 (min max_int64 x)"

definition time_sub :: "instant \<Rightarrow> instant \<Rightarrow> duration" where
  "time_sub t u = sat64 (t - u)"

lemma wrap64_id: "min_int64 \<le> x \<Longrightarrow> x \<le> max_int64 \<Longrightarrow> wrap64 x = x"
  by (simp add: wrap64_def min_int64_def max_int64_def)

lemma wrap64_range: "min_int64 \<le> wrap64 x \<and> wrap64 x \<le> max_int64"
proof -
  have "0 \<le> (x + 2 ^ 63) mod 2 ^ 64" "(x + 2 ^ 63) mod 2 ^ 64 < (2::int) ^ 64" by simp_all
  then show ?thesis by (simp add: wrap64_def min_int64_def max_int64_def)
qed

lemma wrap64_cong: "wrap64 x mod 2 ^ 64 = x mod 2 ^ 64"
  by (simp add: wrap64_def mod_diff_left_eq)

lemma sat64_id: "min_int64 \<le> x \<Longrightarrow> x \<le> max_int64 \<Longrightarrow> sat64 x = x"
  by (simp add: sat64_def)

lemma sat64_ge_iff: "k \<le> max_int64 \<Longrightarrow> min_int64 < k \<Longrightarrow> k \<le> sat64 x \<longleftrightarrow> k \<le> x"
  by (auto simp: sat64_def)

lemma sat64_gt_iff: "k < max_int64 \<Longrightarrow> min_int64 \<le> k \<Longrightarrow> k < sat64 x \<longleftrightarrow> k < x"
  by (auto simp: sat64_def)

section \<open>Counters\<close>

text \<open>
  A counter that stays far below \<open>2\<^sup>6\<^sup>3\<close> reads back as the integer that was added up; this is
  the only fact the threshold tests of the code need about the wrap-around.
\<close>

lemma sint_inc:
  assumes "0 \<le> sint (c::counter)" and "sint c < 2 ^ 62"
  shows "sint (c + 1) = sint c + 1"
  using assms by (simp add: sint_word_add signed_take_bit_int_eq_self)

lemma sint_of_nat_counter: "n < 2 ^ 62 \<Longrightarrow> sint (of_nat n :: counter) = int n"
  by (simp add: signed_take_bit_int_eq_self signed_of_nat)

section \<open>Decimal numbers\<close>

text \<open>\<open>%d\<close> of a non-negative number.\<close>

fun decimal :: "nat \<Rightarrow> string" where
  "decimal n = (if n < 10 then [char_of (48 + n)] else decimal (n div 10) @ [char_of (48 + n mod 10)])"

declare decimal.simps [simp del]

section \<open>Errors as values\<close>

text \<open>
  A Go function returning \<open>error\<close> is modelled by an option: \<open>None\<close> is \<open>nil\<close>. A function
  returning \<open>(T, error)\<close> returns a sum, \<open>Inl\<close> the error.
\<close>

abbreviation is_ok :: "'e option \<Rightarrow> bool" where
  "is_ok r \<equiv> r = None"

section \<open>Lists of concurrent calls\<close>

text \<open>
  Concurrent calls of an operation are the elements of a list; a step of one call is an update
  at its index. \<open>countp P xs\<close> is the number of calls in a given phase.
\<close>

definition countp :: "('a \<Rightarrow> bool) \<Rightarrow> 'a list \<Rightarrow> nat" where
  "countp P xs = length (filter P xs)"

lemma countp_Nil [simp]: "countp P [] = 0"
  by (simp add: countp_def)

lemma countp_Cons [simp]: "countp P (x # xs) = of_bool (P x) + countp P xs"
  by (simp add: countp_def)

lemma countp_append [simp]: "countp P (xs @ ys) = countp P xs + countp P ys"
  by (simp add: countp_def)

lemma countp_le_length: "countp P xs \<le> length xs"
  by (simp add: countp_def)

text \<open>
  The law of one step: the phase a call leaves loses one, the phase it enters gains one.
\<close>

lemma countp_update:
  "i < length xs \<Longrightarrow> countp P (xs[i := v]) + of_bool (P (xs ! i)) = countp P xs + of_bool (P v)"
proof (induction xs arbitrary: i)
  case Nil
  then show ?case by simp
next
  case (Cons x xs)
  then show ?case by (cases i) auto
qed

lemma countp_update_same:
  "i < length xs \<Longrightarrow> P (xs ! i) = P v \<Longrightarrow> countp P (xs[i := v]) = countp P xs"
  using countp_update [of i xs P v] by simp

lemma countp_update_enter:
  "i < length xs \<Longrightarrow> \<not> P (xs ! i) \<Longrightarrow> P v \<Longrightarrow> countp P (xs[i := v]) = Suc (countp P xs)"
  using countp_update [of i xs P v] by simp

lemma countp_update_leave:
  "i < length xs \<Longrightarrow> P (xs ! i) \<Longrightarrow> \<not> P v \<Longrightarrow> Suc (countp P (xs[i := v])) = countp P xs"
  using countp_update [of i xs P v] by simp

lemma countp_pos: "i < length xs \<Longrightarrow> P (xs ! i) \<Longrightarrow> 0 < countp P xs"
  by (auto simp: countp_def filter_empty_conv)

lemmas countp_updates = countp_update_same countp_update_enter countp_update_leave

end
