(* ===== verification/GoFloat.thy ===== *)
theory GoFloat
  imports Complex_Main Prelude "HOL-Library.Log_Nat"
begin

text \<open>
  Go's \<open>float64\<close>: IEEE 754 binary64 values with round-to-nearest-even, as exact rationals. The
  two zeros are not told apart (no operation of the code can observe the difference). Every
  operation computes the exact rational result and rounds it once, as amd64 does.

  The facts the components use: rounding is monotone, it is the identity on representable values,
  and every integer of magnitude at most \<open>2\<^sup>5\<^sup>3\<close> is representable.
\<close>

section \<open>Rounding a rational to 53 significant bits\<close>

text \<open>Round half to even, to an integer.\<close>

definition rne :: "rat \<Rightarrow> int" where
  "rne q = (let f = \<lfloor>q\<rfloor>; d = q - of_int f
            in if d < 1 / 2 then f else if d > 1 / 2 then f + 1
               else if even f then f else f + 1)"

text \<open>The binary exponent of a positive rational: \<open>2\<^sup>k \<le> q < 2\<^sup>k\<^sup>+\<^sup>1\<close>.\<close>

definition ilog2 :: "rat \<Rightarrow> int" where
  "ilog2 q = (let (a, b) = quotient_of q; k = bitlen a - bitlen b
              in if 2 powi k \<le> q then k else k - 1)"

text \<open>The weight of the last significant bit; subnormal numbers stop at \<open>2\<^sup>-\<^sup>1\<^sup>0\<^sup>7\<^sup>4\<close>.\<close>

definition fexp :: "rat \<Rightarrow> int" where
  "fexp q = max (ilog2 \<bar>q\<bar> - 52) (- 1074)"

definition flr :: "rat \<Rightarrow> rat" where
  "flr q = (if q = 0 then 0 else of_int (rne (q / 2 powi fexp q)) * 2 powi fexp q)"

subsection \<open>Rounding to an integer\<close>

lemma rne_bounds: "\<lfloor>q\<rfloor> \<le> rne q \<and> rne q \<le> \<lfloor>q\<rfloor> + 1"
  by (simp add: rne_def Let_def)

lemma rne_of_int [simp]: "rne (of_int n) = n"
  by (simp add: rne_def)

lemma rne_mono:
  assumes "p \<le> q"
  shows "rne p \<le> rne q"
proof (cases "\<lfloor>p\<rfloor> = \<lfloor>q\<rfloor>")
  case True
  with assms show ?thesis by (auto simp: rne_def Let_def)
next
  case False
  with assms have "\<lfloor>p\<rfloor> + 1 \<le> \<lfloor>q\<rfloor>" using floor_mono [OF assms] by linarith
  with rne_bounds [of p] rne_bounds [of q] show ?thesis by linarith
qed

lemma rne_le_int: "q \<le> of_int n \<Longrightarrow> rne q \<le> n"
  using rne_mono [of q "of_int n"] by simp

lemma rne_ge_int: "of_int n \<le> q \<Longrightarrow> n \<le> rne q"
  using rne_mono [of "of_int n" q] by simp

lemma rne_minus: "rne (- q) = - rne q"
proof (cases "q = of_int \<lfloor>q\<rfloor>")
  case True
  then show ?thesis by (metis of_int_minus rne_of_int)
next
  case False
  then have c: "\<lceil>q\<rceil> = \<lfloor>q\<rfloor> + 1"
    by (metis ceiling_altdef)
  then have f: "\<lfloor>- q\<rfloor> = - \<lfloor>q\<rfloor> - 1" by (simp add: floor_minus)
  show ?thesis by (auto simp: rne_def Let_def f field_simps)
qed

subsection \<open>The exponent\<close>

lemma powi_pos [simp]: "(0::rat) < 2 powi k"
  by simp

lemma powi_add2: "(2::rat) powi (a + b) = 2 powi a * 2 powi b"
  by (simp add: power_int_add)

lemma powi_mono2: "a \<le> b \<Longrightarrow> (2::rat) powi a \<le> 2 powi b"
  by (rule power_int_increasing) auto

lemma powi_less2: "(2::rat) powi a < 2 powi b \<Longrightarrow> a < b"
  using powi_mono2 [of b a] by linarith

lemma powi_of_int: "0 \<le> k \<Longrightarrow> (2::rat) powi k = of_int (2 ^ nat k)"
  by (simp add: power_int_def)

lemma powi_le_of_int: "0 \<le> j \<Longrightarrow> 2 ^ nat j \<le> n \<Longrightarrow> (2::rat) powi j \<le> of_int n"
  unfolding powi_of_int by (rule of_int_le_iff [THEN iffD2])

lemma ilog2_bounds:
  assumes "0 < q"
  shows "2 powi ilog2 q \<le> q \<and> q < 2 powi (ilog2 q + 1)"
proof -
  obtain a b where ab: "quotient_of q = (a, b)" by (cases "quotient_of q")
  then have q: "q = of_int a / of_int b" and b: "0 < b"
    by (auto simp: quotient_of_div quotient_of_denom_pos)
  with assms have a: "0 < a" by (simp add: zero_less_divide_iff)
  define m n where "m = bitlen a" and "n = bitlen b"
  have m0: "1 \<le> m" and n0: "1 \<le> n"
    using a b bitlen_nonneg [of a] bitlen_nonneg [of b] bitlen_eq_zero_iff [of a] bitlen_eq_zero_iff [of b]
    by (auto simp: m_def n_def)
  have A: "2 powi (m - 1) \<le> (of_int a :: rat)" "(of_int a :: rat) < 2 powi m"
    using bitlen_bounds [OF a] m0 by (auto simp: m_def [symmetric] powi_of_int simp del: of_int_power)
  have B: "2 powi (n - 1) \<le> (of_int b :: rat)" "(of_int b :: rat) < 2 powi n"
    using bitlen_bounds [OF b] n0 by (auto simp: n_def [symmetric] powi_of_int simp del: of_int_power)
  have pb: "(0::rat) < of_int b" using b by simp
  have lo: "2 powi (m - n - 1) \<le> q"
  proof -
    have "2 powi (m - n - 1) * of_int b \<le> 2 powi (m - n - 1) * (2::rat) powi n"
      using B(2) by (intro mult_left_mono) auto
    also have "\<dots> = 2 powi (m - 1)" by (simp flip: powi_add2)
    also have "\<dots> \<le> of_int a" by (rule A(1))
    finally show ?thesis using pb by (simp add: q pos_le_divide_eq)
  qed
  have hi: "q < 2 powi (m - n + 1)"
  proof -
    have "of_int a < (2::rat) powi (m - n + 1) * 2 powi (n - 1)"
      using A(2) by (simp flip: powi_add2)
    also have "\<dots> \<le> 2 powi (m - n + 1) * of_int b"
      using B(1) by (intro mult_left_mono) auto
    finally show ?thesis using pb by (simp add: q pos_divide_less_eq)
  qed
  show ?thesis
    using lo hi by (auto simp: ilog2_def ab Let_def m_def [symmetric] n_def [symmetric] algebra_simps)
qed

lemma ilog2_mono:
  assumes "0 < p" and "p \<le> q"
  shows "ilog2 p \<le> ilog2 q"
proof -
  have "2 powi ilog2 p \<le> p" using ilog2_bounds [OF assms(1)] by simp
  also have "p \<le> q" by (rule assms)
  also have "q < 2 powi (ilog2 q + 1)" using ilog2_bounds [of q] assms by simp
  finally show ?thesis using powi_less2 by force
qed

lemma ilog2_unique:
  assumes "2 powi k \<le> q" and "q < 2 powi (k + 1)"
  shows "ilog2 q = k"
proof -
  have q: "0 < q" using assms(1) powi_pos [of k] by linarith
  have "(2::rat) powi k < 2 powi (ilog2 q + 1)" and "(2::rat) powi ilog2 q < 2 powi (k + 1)"
    using ilog2_bounds [OF q] assms by linarith+
  then show ?thesis using powi_less2 [of k "ilog2 q + 1"] powi_less2 [of "ilog2 q" "k + 1"] by simp
qed

lemma fexp_minus [simp]: "fexp (- q) = fexp q"
  by (simp add: fexp_def)

lemma fexp_mono: "0 < p \<Longrightarrow> p \<le> q \<Longrightarrow> fexp p \<le> fexp q"
  using ilog2_mono [of p q] by (auto simp: fexp_def)

subsection \<open>Rounding is monotone and exact where it can be\<close>

lemma flr_0 [simp]: "flr 0 = 0"
  by (simp add: flr_def)

lemma flr_minus: "flr (- q) = - flr q"
  by (simp add: flr_def rne_minus flip: minus_divide_left)

lemma flr_nonneg: "0 \<le> q \<Longrightarrow> 0 \<le> flr q"
  using rne_ge_int [of 0 "q / 2 powi fexp q"] by (simp add: flr_def)

lemma flr_le_power:
  assumes "q \<le> 2 powi k" and "fexp q \<le> k"
  shows "flr q \<le> 2 powi k"
proof (cases "q = 0")
  case False
  have split: "(2::rat) powi k = 2 powi (k - fexp q) * 2 powi fexp q" by (simp flip: powi_add2)
  have "q / 2 powi fexp q \<le> 2 powi (k - fexp q)"
    using assms(1) split by (simp add: pos_divide_le_eq)
  also have "\<dots> = of_int (2 ^ nat (k - fexp q))" using assms(2) by (intro powi_of_int) simp
  finally have "rne (q / 2 powi fexp q) \<le> 2 ^ nat (k - fexp q)" by (rule rne_le_int)
  then have "of_int (rne (q / 2 powi fexp q)) \<le> (of_int (2 ^ nat (k - fexp q)) :: rat)"
    by (rule of_int_le_iff [THEN iffD2])
  also have "\<dots> = 2 powi (k - fexp q)" using assms(2) by (intro powi_of_int [symmetric]) simp
  finally show ?thesis using False split by (simp add: flr_def)
qed simp

lemma flr_ge_power:
  assumes "2 powi k \<le> q" and "fexp q \<le> k"
  shows "2 powi k \<le> flr q"
proof -
  have q0: "q \<noteq> 0" using assms(1) powi_pos [of k] by linarith
  have split: "(2::rat) powi k = 2 powi (k - fexp q) * 2 powi fexp q" by (simp flip: powi_add2)
  have "of_int (2 ^ nat (k - fexp q)) = (2::rat) powi (k - fexp q)"
    using assms(2) by (intro powi_of_int [symmetric]) simp
  also have "\<dots> \<le> q / 2 powi fexp q" using assms(1) split by (simp add: pos_le_divide_eq)
  finally have "2 ^ nat (k - fexp q) \<le> rne (q / 2 powi fexp q)" by (rule rne_ge_int)
  then have "(2::rat) powi (k - fexp q) \<le> of_int (rne (q / 2 powi fexp q))"
    using assms(2) by (intro powi_le_of_int) auto
  then have "2 powi (k - fexp q) * 2 powi fexp q \<le> of_int (rne (q / 2 powi fexp q)) * (2::rat) powi fexp q"
    by (rule mult_right_mono) simp
  then show ?thesis using q0 split by (simp add: flr_def)
qed

lemma flr_mono_pos:
  assumes "0 < p" and "p \<le> q"
  shows "flr p \<le> flr q"
proof (cases "fexp p = fexp q")
  case True
  have "p / 2 powi fexp q \<le> q / 2 powi fexp q" using assms(2) by (intro divide_right_mono) auto
  then have "rne (p / 2 powi fexp q) \<le> rne (q / 2 powi fexp q)" by (rule rne_mono)
  with True assms show ?thesis by (simp add: flr_def)
next
  case False
  with fexp_mono [OF assms] have lt: "fexp p < fexp q" by simp
  then have e: "fexp q = ilog2 q - 52" and le: "ilog2 p + 1 \<le> ilog2 q" and ep: "fexp p \<le> ilog2 q"
    using assms by (auto simp: fexp_def)
  have "p < 2 powi (ilog2 p + 1)" using ilog2_bounds [OF assms(1)] by simp
  also have "\<dots> \<le> 2 powi ilog2 q" using le by (rule powi_mono2)
  finally have "flr p \<le> 2 powi ilog2 q" using ep by (intro flr_le_power) auto
  also have "\<dots> \<le> flr q" using ilog2_bounds [of q] assms e by (intro flr_ge_power) auto
  finally show ?thesis .
qed

lemma flr_mono: "p \<le> q \<Longrightarrow> flr p \<le> flr q"
proof -
  assume le: "p \<le> q"
  consider "0 < p" | "p \<le> 0" "0 \<le> q" | "q < 0" by linarith
  then show "flr p \<le> flr q"
  proof cases
    case 1
    then show ?thesis using le by (rule flr_mono_pos)
  next
    case 2
    then show ?thesis using flr_nonneg [of q] flr_nonneg [of "- p"] by (simp add: flr_minus)
  next
    case 3
    then show ?thesis using le flr_mono_pos [of "- q" "- p"] by (simp add: flr_minus)
  qed
qed

text \<open>The values of the format: rounding leaves them alone.\<close>

definition representable :: "rat \<Rightarrow> bool" where
  "representable r \<longleftrightarrow> flr r = r"

lemma flr_exact_small:
  assumes n: "\<bar>n\<bar> < 2 ^ 53" and k: "- 1074 \<le> k"
  shows "flr (of_int n * 2 powi k) = of_int n * 2 powi k"
proof (cases "n = 0")
  case False
  let ?q = "of_int n * 2 powi k :: rat"
  have pos: "0 < \<bar>?q\<bar>" using False by simp
  have "of_int \<bar>n\<bar> < (2::rat) powi 53"
    using n by (simp add: powi_of_int)
  then have "of_int \<bar>n\<bar> * 2 powi k < (2::rat) powi 53 * 2 powi k"
    by (rule mult_strict_right_mono) simp
  then have "\<bar>?q\<bar> < 2 powi (53 + k)"
    by (simp add: abs_mult powi_add2)
  then have "ilog2 \<bar>?q\<bar> < 53 + k"
    using ilog2_bounds [OF pos] by (intro powi_less2) linarith
  then have e: "fexp ?q \<le> k" using k by (simp add: fexp_def)
  have "?q / 2 powi fexp ?q = of_int n * 2 powi (k - fexp ?q)"
    by (simp add: power_int_diff)
  also have "\<dots> = of_int (n * 2 ^ nat (k - fexp ?q))" using e by (simp add: powi_of_int)
  finally have i: "?q / 2 powi fexp ?q = of_int (n * 2 ^ nat (k - fexp ?q))" .
  then have "of_int (rne (?q / 2 powi fexp ?q)) = ?q / 2 powi fexp ?q" by (metis rne_of_int)
  then show ?thesis using False by (simp add: flr_def)
qed simp

lemma representable_int: "\<bar>n\<bar> < 2 ^ 53 \<Longrightarrow> representable (of_int n)"
  using flr_exact_small [of n 0] by (simp add: representable_def)

lemma representable_0 [simp]: "representable 0"
  and representable_1 [simp]: "representable 1"
  and representable_numeral: "(numeral m :: int) < 2 ^ 53 \<Longrightarrow> representable (numeral m)"
  using representable_int [of 0] representable_int [of 1] representable_int [of "numeral m"] by simp_all

lemma flr_int: "\<bar>n\<bar> < 2 ^ 53 \<Longrightarrow> flr (of_int n) = of_int n"
  using representable_int by (simp add: representable_def)

lemma flr_le_representable: "q \<le> r \<Longrightarrow> representable r \<Longrightarrow> flr q \<le> r"
  using flr_mono [of q r] by (simp add: representable_def)

lemma flr_ge_representable: "r \<le> q \<Longrightarrow> representable r \<Longrightarrow> r \<le> flr q"
  using flr_mono [of r q] by (simp add: representable_def)

section \<open>The type and its operations\<close>

datatype float64 = NaN | PosInf | NegInf | Fin rat

text \<open>Rounding with overflow: a result of magnitude \<open>2\<^sup>1\<^sup>0\<^sup>2\<^sup>4\<close> or more is infinite.\<close>

definition fl :: "rat \<Rightarrow> float64" where
  "fl q = (let r = flr q in
     if 2 powi 1024 \<le> r then PosInf else if r \<le> - (2 powi 1024) then NegInf else Fin r)"

text \<open>Conversion of an integer and of a decimal constant.\<close>

abbreviation f_of_int :: "int \<Rightarrow> float64" where
  "f_of_int n \<equiv> fl (of_int n)"

fun f_lt :: "float64 \<Rightarrow> float64 \<Rightarrow> bool" where
  "f_lt NaN _ = False"
| "f_lt _ NaN = False"
| "f_lt PosInf _ = False"
| "f_lt _ NegInf = False"
| "f_lt NegInf _ = True"
| "f_lt _ PosInf = True"
| "f_lt (Fin p) (Fin q) = (p < q)"

fun f_le :: "float64 \<Rightarrow> float64 \<Rightarrow> bool" where
  "f_le NaN _ = False"
| "f_le _ NaN = False"
| "f_le _ PosInf = True"
| "f_le NegInf _ = True"
| "f_le PosInf _ = False"
| "f_le _ NegInf = False"
| "f_le (Fin p) (Fin q) = (p \<le> q)"

abbreviation f_gt :: "float64 \<Rightarrow> float64 \<Rightarrow> bool" where "f_gt x y \<equiv> f_lt y x"
abbreviation f_ge :: "float64 \<Rightarrow> float64 \<Rightarrow> bool" where "f_ge x y \<equiv> f_le y x"

fun f_neg :: "float64 \<Rightarrow> float64" where
  "f_neg NaN = NaN"
| "f_neg PosInf = NegInf"
| "f_neg NegInf = PosInf"
| "f_neg (Fin p) = Fin (- p)"

fun f_add :: "float64 \<Rightarrow> float64 \<Rightarrow> float64" where
  "f_add (Fin p) (Fin q) = fl (p + q)"
| "f_add NaN _ = NaN"
| "f_add _ NaN = NaN"
| "f_add PosInf NegInf = NaN"
| "f_add NegInf PosInf = NaN"
| "f_add PosInf _ = PosInf"
| "f_add _ PosInf = PosInf"
| "f_add NegInf _ = NegInf"
| "f_add _ NegInf = NegInf"

abbreviation f_sub :: "float64 \<Rightarrow> float64 \<Rightarrow> float64" where
  "f_sub x y \<equiv> f_add x (f_neg y)"

text \<open>The sign of a value, 0 for a zero.\<close>

fun f_sgn :: "float64 \<Rightarrow> rat" where
  "f_sgn NaN = 0"
| "f_sgn PosInf = 1"
| "f_sgn NegInf = - 1"
| "f_sgn (Fin p) = sgn p"

definition f_inf :: "rat \<Rightarrow> float64" where
  "f_inf s = (if s > 0 then PosInf else if s < 0 then NegInf else NaN)"

fun f_mul :: "float64 \<Rightarrow> float64 \<Rightarrow> float64" where
  "f_mul (Fin p) (Fin q) = fl (p * q)"
| "f_mul NaN _ = NaN"
| "f_mul _ NaN = NaN"
| "f_mul x y = f_inf (f_sgn x * f_sgn y)"

text \<open>A zero divisor is taken as the positive zero, the only one the code can divide by.\<close>

fun f_div :: "float64 \<Rightarrow> float64 \<Rightarrow> float64" where
  "f_div NaN _ = NaN"
| "f_div _ NaN = NaN"
| "f_div (Fin p) (Fin q) = (if q = 0 then f_inf (sgn p) else fl (p / q))"
| "f_div (Fin p) _ = Fin 0"
| "f_div x (Fin q) = f_inf (f_sgn x * (if q = 0 then 1 else sgn q))"
| "f_div _ _ = NaN"

text \<open>
  Conversion to a 64-bit integer truncates. Outside the range of the target the result is left to
  the implementation by the language; \<open>oor\<close> is what the implementation returns there.
\<close>

definition rat_trunc :: "rat \<Rightarrow> int" where
  "rat_trunc p = (if p < 0 then \<lceil>p\<rceil> else \<lfloor>p\<rfloor>)"

fun f_to_int :: "int \<Rightarrow> int \<Rightarrow> (float64 \<Rightarrow> int) \<Rightarrow> float64 \<Rightarrow> int" where
  "f_to_int lo hi oor (Fin p) =
     (let n = rat_trunc p in if lo \<le> n \<and> n \<le> hi then n else oor (Fin p))"
| "f_to_int lo hi oor x = oor x"

abbreviation f_to_int64 :: "(float64 \<Rightarrow> int) \<Rightarrow> float64 \<Rightarrow> int" where
  "f_to_int64 \<equiv> f_to_int min_int64 max_int64"

abbreviation f_to_uint64 :: "(float64 \<Rightarrow> int) \<Rightarrow> float64 \<Rightarrow> int" where
  "f_to_uint64 \<equiv> f_to_int 0 (2 ^ 64 - 1)"

text \<open>\<open>math.Ceil\<close>: exact, a float64 of magnitude \<open>2\<^sup>5\<^sup>2\<close> or more being an integer already.\<close>

fun f_ceil :: "float64 \<Rightarrow> float64" where
  "f_ceil (Fin p) = Fin (of_int \<lceil>p\<rceil>)"
| "f_ceil x = x"

text \<open>
  \<open>math.Pow(x, n)\<close> for a whole \<open>n \<ge> 0\<close>: repeated squaring of the significand in \<open>[1/2, 1)\<close>, with
  the exponent kept apart, as in \<open>math/pow.go\<close>. The loop gives up when the exponent is certain to
  overflow.
\<close>

fun pow_loop :: "nat \<Rightarrow> rat \<Rightarrow> int \<Rightarrow> rat \<Rightarrow> int \<Rightarrow> rat \<times> int" where
  "pow_loop i a1 ae x1 xe =
     (if i = 0 then (a1, ae)
      else if xe < - 4096 \<or> 4096 < xe then (a1, ae + xe)
      else let (a1', ae') = (if odd i then (flr (a1 * x1), ae + xe) else (a1, ae));
               x2 = flr (x1 * x1)
           in if x2 < 1 / 2 then pow_loop (i div 2) a1' ae' (flr (x2 + x2)) (2 * xe - 1)
              else pow_loop (i div 2) a1' ae' x2 (2 * xe))"

declare pow_loop.simps [simp del]

definition math_Pow :: "float64 \<Rightarrow> nat \<Rightarrow> float64" where
  "math_Pow x n =
     (if n = 0 \<or> x = Fin 1 then Fin 1
      else if n = 1 then x
      else case x of
        NaN \<Rightarrow> NaN
      | PosInf \<Rightarrow> PosInf
      | NegInf \<Rightarrow> (if odd n then NegInf else PosInf)
      | Fin q \<Rightarrow>
          if q = 0 then Fin 0
          else let xe = ilog2 \<bar>q\<bar> + 1;
                   (a1, ae) = pow_loop n 1 0 (q / 2 powi xe) xe
               in fl (a1 * 2 powi ae))"

subsection \<open>Finite results\<close>

lemma fl_Fin: "- (2 powi 1024) < flr q \<Longrightarrow> flr q < 2 powi 1024 \<Longrightarrow> fl q = Fin (flr q)"
  by (auto simp: fl_def Let_def)

lemma representable_powi: "- 1074 \<le> k \<Longrightarrow> representable (2 powi k)"
  using flr_exact_small [of 1 k] by (simp add: representable_def)

lemma representable_minus: "representable r \<Longrightarrow> representable (- r)"
  by (simp add: representable_def flr_minus)

lemma fl_small:
  assumes "\<bar>q\<bar> \<le> 2 powi 1023"
  shows "fl q = Fin (flr q)"
proof (rule fl_Fin)
  have r: "representable (2 powi 1023)" by (rule representable_powi) simp
  have lt: "(2::rat) powi 1023 < 2 powi 1024" by simp
  have "flr q \<le> 2 powi 1023" using assms r by (intro flr_le_representable) auto
  with lt show "flr q < 2 powi 1024" by linarith
  have "- (2 powi 1023) \<le> flr q" using assms r by (intro flr_ge_representable representable_minus) auto
  with lt show "- (2 powi 1024) < flr q" by linarith
qed

lemma small_powi_1023: "\<bar>q\<bar> \<le> 2 ^ 100 \<Longrightarrow> \<bar>q\<bar> \<le> (2::rat) powi 1023"
  using powi_mono2 [of 100 1023] by (simp add: powi_of_int)

lemma f_of_int_exact: "\<bar>n\<bar> < 2 ^ 53 \<Longrightarrow> f_of_int n = Fin (of_int n)"
  by (subst fl_small; auto simp: flr_int intro!: small_powi_1023)

lemma f_le_Fin_trans: "f_le x y \<Longrightarrow> f_le y z \<Longrightarrow> f_le x z"
  by (cases x; cases y; cases z) auto

lemma f_le_not_lt: "f_le x y \<Longrightarrow> \<not> f_lt y x"
  by (cases x; cases y) auto

lemma f_not_lt_le: "\<not> f_lt y x \<Longrightarrow> x \<noteq> NaN \<Longrightarrow> y \<noteq> NaN \<Longrightarrow> f_le x y"
  by (cases x; cases y) auto

lemma f_lt_NaN [simp]: "\<not> f_lt NaN x" "\<not> f_lt x NaN" "\<not> f_le NaN x" "\<not> f_le x NaN"
  by (cases x; simp)+

lemma fl_mono: "p \<le> q \<Longrightarrow> f_le (fl p) (fl q)"
  using flr_mono [of p q] by (auto simp: fl_def Let_def)

lemma fl_representable: "representable r \<Longrightarrow> \<bar>r\<bar> \<le> 2 ^ 100 \<Longrightarrow> fl r = Fin r"
  using fl_small [OF small_powi_1023, of r] by (simp add: representable_def)

lemma representable_dyadic:
  "\<bar>n\<bar> < 2 ^ 53 \<Longrightarrow> k \<le> 1074 \<Longrightarrow> representable (of_int n / 2 ^ k)"
  using flr_exact_small [of n "- int k"] by (simp add: representable_def power_int_minus divide_inverse)

lemma representable_half [simp]: "representable (1 / 2)"
  using representable_dyadic [of 1 1] by simp

lemma fl_half [simp]: "fl (1 / 2) = Fin (1 / 2)"
  by (rule fl_representable) auto

lemma fl_0 [simp]: "fl 0 = Fin 0" and fl_1 [simp]: "fl 1 = Fin 1"
  by (rule fl_representable; simp)+

text \<open>
  Evaluating a constant: the exponent \<open>k\<close> and the significand \<open>n\<close> are given and checked.
\<close>

lemma rne_eqI:
  assumes "\<bar>q - of_int n\<bar> < 1 / 2"
  shows "rne q = n"
proof (cases "of_int n \<le> q")
  case True
  with assms have "\<lfloor>q\<rfloor> = n" by (intro floor_unique) linarith+
  with True assms show ?thesis by (simp add: rne_def)
next
  case False
  with assms have "\<lfloor>q\<rfloor> = n - 1" by (intro floor_unique) auto
  with False assms show ?thesis by (simp add: rne_def)
qed

lemma fl_value:
  assumes "2 powi k \<le> q" and "q < 2 powi (k + 1)" and "- 1022 \<le> k" and "k < 1023"
    and "\<bar>q / 2 powi (k - 52) - of_int n\<bar> < 1 / 2"
  shows "fl q = Fin (of_int n * 2 powi (k - 52))"
proof -
  have q: "0 < q" using assms(1) powi_pos [of k] by linarith
  have "\<bar>q\<bar> \<le> 2 powi 1023" using q assms(2,4) powi_mono2 [of "k + 1" 1023] by simp
  then have "fl q = Fin (flr q)" by (rule fl_small)
  moreover have "fexp q = k - 52" using q assms(3) ilog2_unique [OF assms(1,2)] by (simp add: fexp_def)
  ultimately show ?thesis using q rne_eqI [OF assms(5)] by (simp add: flr_def)
qed

section \<open>Durations in seconds\<close>

text \<open>\<open>Duration.Seconds()\<close>: whole seconds plus the rest.\<close>

definition seconds :: "duration \<Rightarrow> float64" where
  "seconds d = f_add (f_of_int (d sdiv Second)) (f_div (f_of_int (d smod Second)) (f_of_int Second))"

lemma seconds_whole: "0 \<le> n \<Longrightarrow> n < 2 ^ 53 \<Longrightarrow> seconds (n * Second) = Fin (of_int n)"
proof -
  assume n: "0 \<le> n" "n < 2 ^ 53"
  have "(n * Second) sdiv Second = n" "(n * Second) smod Second = 0"
    using n by (auto simp: signed_divide_int_def signed_modulo_int_def sgn_if)
  then show ?thesis using n f_of_int_exact [of Second] by (simp add: seconds_def f_of_int_exact flr_int)
qed

text \<open>A part of a second is truncated to no second at all.\<close>

lemma seconds_part:
  assumes "0 \<le> d" and "d < Second"
  obtains q where "seconds d = Fin q" "0 \<le> q" "q < 1"
proof -
  let ?r = "of_int (2 ^ 30 - 1) / 2 ^ 30 :: rat"
  let ?q = "flr (of_int d / of_int Second)"
  have r: "representable ?r" by (rule representable_dyadic) auto
  have "of_int d \<le> (of_int (Second - 1) :: rat)" using assms(2) by (intro of_int_le_iff [THEN iffD2]) simp
  then have le: "of_int d / of_int Second \<le> ?r" by simp
  have q: "0 \<le> ?q" using assms(1) by (intro flr_nonneg) simp
  have q2: "?q \<le> ?r" using le r by (rule flr_le_representable)
  have q': "0 \<le> flr ?q" "flr ?q \<le> ?r" using q flr_le_representable [OF q2 r] by (simp_all add: flr_nonneg)
  have "of_int d / of_int Second \<le> (2 ^ 100 :: rat)" "?q \<le> 2 ^ 100" 
    using order_trans [OF le, of "2 ^ 100"] order_trans [OF q2, of "2 ^ 100"] by simp_all
  then have "fl (of_int d / of_int Second) = Fin ?q" "fl ?q = Fin (flr ?q)"
    using assms(1) q by (auto intro!: fl_small small_powi_1023)
  moreover have "f_of_int d = Fin (of_int d)" "f_of_int Second = Fin (of_int Second)"
    using assms f_of_int_exact [of d] f_of_int_exact [of Second] by simp_all
  moreover have "d sdiv Second = 0" "d smod Second = d"
    using assms by (auto simp: signed_divide_int_def signed_modulo_int_def sgn_if)
  ultimately have "seconds d = Fin (flr ?q)" by (simp add: seconds_def)
  with q' show thesis by (intro that [of "flr ?q"]) auto
qed

end
