(* ===== verification/GoChannel.thy ===== *)
theory GoChannel
  imports Prelude
begin

text \<open>
  Buffered Go channels and the \<open>select\<close> statements the library uses on them, and the interface
  \<open>bounded_fifo\<close> the components rely on: a channel hands its elements out in the order they were
  put in and never holds more than its capacity.

  All channels of the code are buffered, so a send and a receive are single atomic steps. A send
  on a closed channel panics; a receive from a closed channel first drains the buffer and then
  yields the zero value at once.
\<close>

section \<open>Channels\<close>

record 'a chan =
  ch_buf :: "'a list"
  ch_cap :: nat
  ch_closed :: bool

definition make_chan :: "nat \<Rightarrow> 'a chan" where
  "make_chan n = \<lparr>ch_buf = [], ch_cap = n, ch_closed = False\<rparr>"

datatype 'a send_result = Sent "'a chan" | SendBlocks | SendPanics

definition chan_send :: "'a chan \<Rightarrow> 'a \<Rightarrow> 'a send_result" where
  "chan_send c x =
     (if ch_closed c then SendPanics
      else if length (ch_buf c) < ch_cap c then Sent (c\<lparr>ch_buf := ch_buf c @ [x]\<rparr>)
      else SendBlocks)"

datatype 'a recv_result = Received 'a "'a chan" | RecvClosed | RecvBlocks

definition chan_recv :: "'a chan \<Rightarrow> 'a recv_result" where
  "chan_recv c =
     (case ch_buf c of
        x # xs \<Rightarrow> Received x (c\<lparr>ch_buf := xs\<rparr>)
      | [] \<Rightarrow> if ch_closed c then RecvClosed else RecvBlocks)"

text \<open>\<open>close(c)\<close>; \<open>None\<close> is the panic on a channel that is closed already.\<close>

definition chan_close :: "'a chan \<Rightarrow> 'a chan option" where
  "chan_close c = (if ch_closed c then None else Some (c\<lparr>ch_closed := True\<rparr>))"

text \<open>
  \<open>select { case c <- x: ... case <-done: ... default: ... }\<close>. When both the send and the
  \<open>done\<close> case are ready Go picks one of them at random: \<open>pick\<close> says which. Without a \<open>default\<close>
  branch, \<open>SelDefault\<close> means that the statement blocks.
\<close>

datatype 'a select_result = SelSent "'a chan" | SelDone | SelPanic | SelDefault

definition select_send :: "bool \<Rightarrow> bool \<Rightarrow> 'a chan \<Rightarrow> 'a \<Rightarrow> 'a select_result" where
  "select_send pick done c x =
     (case chan_send c x of
        Sent c' \<Rightarrow> if done \<and> pick then SelDone else SelSent c'
      | SendPanics \<Rightarrow> if done \<and> pick then SelDone else SelPanic
      | SendBlocks \<Rightarrow> if done then SelDone else SelDefault)"

section \<open>The interface the components use\<close>

datatype 'a qop = Put 'a | Take

fun puts :: "'a qop list \<Rightarrow> 'a list" where
  "puts [] = []"
| "puts (Put x # ops) = x # puts ops"
| "puts (Take # ops) = puts ops"

locale bounded_fifo =
  fixes items :: "'c \<Rightarrow> 'a list"
    and room :: "'c \<Rightarrow> nat"
    and put :: "'c \<Rightarrow> 'a \<Rightarrow> 'c option"
    and take_one :: "'c \<Rightarrow> ('a \<times> 'c) option"
  assumes put_items: "put c x = Some c' \<Longrightarrow> items c' = items c @ [x]"
    and put_room: "put c x = Some c' \<Longrightarrow> room c' = room c"
    and put_fits: "put c x = Some c' \<Longrightarrow> length (items c) < room c"
    and take_items: "take_one c = Some (x, c') \<Longrightarrow> items c = x # items c'"
    and take_room: "take_one c = Some (x, c') \<Longrightarrow> room c' = room c"
    and take_ready: "items c \<noteq> [] \<Longrightarrow> take_one c \<noteq> None"
begin

text \<open>A sequence of operations, with the elements it takes out.\<close>

fun run :: "'a qop list \<Rightarrow> 'c \<Rightarrow> ('a list \<times> 'c) option" where
  "run [] c = Some ([], c)"
| "run (Put x # ops) c = (case put c x of None \<Rightarrow> None | Some c' \<Rightarrow> run ops c')"
| "run (Take # ops) c =
     (case take_one c of
        None \<Rightarrow> None
      | Some (x, c') \<Rightarrow> map_option (\<lambda>(xs, d). (x # xs, d)) (run ops c'))"

lemma run_fifo: "run ops c = Some (out, c') \<Longrightarrow> items c @ puts ops = out @ items c'"
proof (induction ops arbitrary: c out)
  case Nil
  then show ?case by simp
next
  case (Cons op ops)
  then show ?case
    by (cases op) (fastforce split: option.splits simp: put_items dest: take_items)+
qed

lemma run_bound:
  "run ops c = Some (out, c') \<Longrightarrow> length (items c) \<le> room c
     \<Longrightarrow> length (items c') \<le> room c' \<and> room c' = room c"
proof (induction ops arbitrary: c out)
  case Nil
  then show ?case by simp
next
  case (Cons op ops)
  show ?case
  proof (cases op)
    case (Put x)
    with Cons.prems obtain d where d: "put c x = Some d" "run ops d = Some (out, c')"
      by (auto split: option.splits)
    then have "length (items d) \<le> room d" using put_items put_fits put_room by fastforce
    with d Cons.IH [OF d(2)] put_room show ?thesis by simp
  next
    case Take
    with Cons.prems obtain x d out' where d: "take_one c = Some (x, d)" "run ops d = Some (out', c')"
      by (auto split: option.splits)
    then have "length (items d) \<le> room d" using take_items take_room Cons.prems(2) by fastforce
    with d Cons.IH [OF d(2)] take_room show ?thesis by simp
  qed
qed

text \<open>What was put in and not yet taken out is what the channel holds.\<close>

lemma run_length:
  "run ops c = Some (out, c') \<Longrightarrow> length (items c) + length (puts ops) = length out + length (items c')"
  using run_fifo [of ops c out c'] by (metis length_append)

end

definition chan_put :: "'a chan \<Rightarrow> 'a \<Rightarrow> 'a chan option" where
  "chan_put c x = (case chan_send c x of Sent c' \<Rightarrow> Some c' | _ \<Rightarrow> None)"

definition chan_take :: "'a chan \<Rightarrow> ('a \<times> 'a chan) option" where
  "chan_take c = (case chan_recv c of Received x c' \<Rightarrow> Some (x, c') | _ \<Rightarrow> None)"

interpretation ch: bounded_fifo ch_buf ch_cap chan_put chan_take
  by unfold_locales
    (auto simp: chan_put_def chan_take_def chan_send_def chan_recv_def
      split: if_splits list.splits)

section \<open>Semaphores\<close>

text \<open>A channel of empty structs is its length.\<close>

lemma unit_list_eq: "(xs :: unit list) = ys \<longleftrightarrow> length xs = length ys"
proof (induction xs arbitrary: ys)
  case (Cons x xs)
  then show ?case by (cases ys) auto
qed auto

section \<open>Laws of the operations\<close>

lemma make_chan_simps [simp]:
  "ch_buf (make_chan n) = []" "ch_cap (make_chan n) = n" "ch_closed (make_chan n) = False"
  by (simp_all add: make_chan_def)

lemma chan_send_Sent_iff:
  "chan_send c x = Sent c' \<longleftrightarrow>
     \<not> ch_closed c \<and> length (ch_buf c) < ch_cap c \<and> c' = c\<lparr>ch_buf := ch_buf c @ [x]\<rparr>"
  by (auto simp: chan_send_def)

lemma chan_recv_Received_iff:
  "chan_recv c = Received x c' \<longleftrightarrow>
     (\<exists>xs. ch_buf c = x # xs \<and> c' = c\<lparr>ch_buf := xs\<rparr>)"
  by (auto simp: chan_recv_def split: list.splits)

lemma chan_recv_RecvClosed_iff: "chan_recv c = RecvClosed \<longleftrightarrow> ch_buf c = [] \<and> ch_closed c"
  by (auto simp: chan_recv_def split: list.splits)

lemma chan_recv_RecvBlocks_iff: "chan_recv c = RecvBlocks \<longleftrightarrow> ch_buf c = [] \<and> \<not> ch_closed c"
  by (auto simp: chan_recv_def split: list.splits)

lemma select_send_SelSent_iff:
  "select_send pick done c x = SelSent c' \<longleftrightarrow>
     \<not> ch_closed c \<and> length (ch_buf c) < ch_cap c \<and> \<not> (done \<and> pick)
     \<and> c' = c\<lparr>ch_buf := ch_buf c @ [x]\<rparr>"
  by (auto simp: select_send_def chan_send_def)

lemma select_send_SelDone_iff:
  "select_send pick done c x = SelDone \<longleftrightarrow>
     done \<and> (pick \<or> (\<not> ch_closed c \<and> ch_cap c \<le> length (ch_buf c)))"
  by (auto simp: select_send_def chan_send_def)

lemma select_send_SelPanic_iff:
  "select_send pick done c x = SelPanic \<longleftrightarrow> ch_closed c \<and> \<not> (done \<and> pick)"
  by (auto simp: select_send_def chan_send_def)

lemma select_send_SelDefault_iff:
  "select_send pick done c x = SelDefault \<longleftrightarrow>
     \<not> ch_closed c \<and> ch_cap c \<le> length (ch_buf c) \<and> \<not> done"
  by (auto simp: select_send_def chan_send_def)

lemmas select_send_iffs =
  select_send_SelSent_iff select_send_SelDone_iff select_send_SelPanic_iff select_send_SelDefault_iff

lemmas chan_recv_iffs =
  chan_recv_Received_iff chan_recv_RecvClosed_iff chan_recv_RecvBlocks_iff

end
