(* ===== verification/GoErrors.thy ===== *)
theory GoErrors
  imports Prelude
begin

text \<open>
  The error values of the library (\<open>src/errors.go\<close>, and the error blocks at the head of
  \<open>src/deadletter.go\<close> and \<open>src/pubsub.go\<close>), with the part of the packages \<open>errors\<close>,
  \<open>fmt\<close> and \<open>context\<close> the code uses on them.

  One datatype stands for each \<open>var ( ... )\<close> group of sentinels; two sentinels with the same
  text are still two values, as in Go. A composed error records what it wraps: the operand of a
  \<open>%w\<close> verb is reachable by \<open>errors.Is\<close>, the operand of a \<open>%v\<close> verb is only text and is lost.
\<close>

section \<open>Sentinels\<close>

datatype common_err = ErrInvalidConfig | ErrContextCancelled | ErrInvalidOperation

datatype bloom_err =
    ErrEmptyItem | ErrItemTooLong | ErrCapacityExceeded | ErrStoreUnavailable
  | ErrInvalidFalsePositive | ErrInvalidExpectedItems | ErrInvalidSize | ErrInvalidHashCount
  | ErrStoreOperationFailed | ErrSerializationFailed | ErrDeserializationFailed | ErrFilterClosed

datatype bulkhead_err =
    ErrBulkheadClosed | ErrBulkheadTimeout | ErrBulkheadRejected | ErrBulkheadQueueFull
  | ErrBulkheadUnhealthy

datatype breaker_err =
    ErrCircuitBreakerOpen | ErrCircuitBreakerTimeout | ErrCircuitBreakerForced | ErrOperationPanic

datatype dlq_err =
    ErrDLQClosed | ErrDLQTimeout | ErrDLQQueueFull | ErrDLQHandlerNotFound
  | ErrDLQMaxRetriesExceeded | ErrDLQOperationFailed

datatype dlq_local_err = ErrNoHandlerRegistered | ErrMaxRetriesExceeded | ErrHandlerRejectedRetry

datatype redlock_err =
    ErrRedlockTimeout | ErrRedlockQuorumFailed | ErrRedlockNotAcquired | ErrRedlockExpired
  | ErrRedlockNoClients

datatype redlock_op_err =
    ErrRedlockClosed | ErrRedlockInvalidConfig | ErrRedlockInvalidResource | ErrRedlockInvalidTTL
  | ErrRedlockInvalidTimeout | ErrRedlockLockNotAcquired | ErrRedlockLockAcquisitionFailed
  | ErrRedlockLockReleaseFailed | ErrRedlockLockExtensionFailed | ErrRedlockQuorumNotReached
  | ErrRedlockContextCancelled | ErrRedlockLockExpired | ErrRedlockClientUnavailable
  | ErrRedlockInvalidQuorum

datatype pool_err =
    ErrPoolClosed | ErrPoolTimeout | ErrPoolQueueFull | ErrPoolNoWorkers | ErrPoolJobFailed
  | ErrWorkerChannelFull | ErrPoolInvalidConfigPool | ErrPoolContextCancelled
  | ErrPoolInvalidJobPool | ErrPoolJobQueueFullPool | ErrPoolWorkerCreationFailedPool
  | ErrPoolScalingFailedPool | ErrPoolNoResultsAvailablePool

datatype pool_op_err =
    ErrPoolInvalidJob | ErrPoolJobQueueFull | ErrPoolWorkerCreationFailed | ErrPoolScalingFailed
  | ErrPoolNoResultsAvailable

datatype pubsub_err =
    ErrPubSubClosed | ErrPubSubTimeout | ErrPubSubTopicNotFound | ErrPubSubSubscriberNotFound
  | ErrPubSubMessageInvalid | ErrPubSubDeliveryFailed

datatype pubsub_op_err =
    ErrInvalidConfigPubSub | ErrTopicNotFoundPubSub | ErrSubscriptionNotFound
  | ErrMessageTooLargePubSub | ErrSubscriptionClosedPubSub | ErrPublisherClosedPubSub
  | ErrContextCancelledPubSub | ErrMessageDeliveryFailed | ErrStoreUnavailablePubSub
  | ErrInvalidMessagePubSub | ErrTopicClosedPubSub | ErrSubscriptionLimitPubSub
  | ErrConcurrencyLimitPubSub | ErrBatchTooLargePubSub | ErrInvalidHeadersPubSub
  | ErrCircuitBreakerOpenPubSub | ErrDeadLetterQueuePubSub | ErrTimeoutPubSub
  | ErrPanicRecoveredPubSub

datatype retry_err =
    ErrRetryTimeout | ErrRetryMaxAttemptsExceeded | ErrRetryNonRetryable | ErrRetryOperationFailed
  | ErrNoRetryHandlerRegistered | ErrMaxRetriesExceededRetry | ErrHandlerRejectedRetryRetry

datatype retry_op_err =
    ErrRetryInvalidPolicy | ErrRetryBudgetExceeded | ErrRetryOperationTimeout
  | ErrRetryRateLimitExceeded | ErrRetryInvalidTimeout | ErrRetryInvalidRateLimit
  | ErrRetryInvalidRateLimitWindow | ErrRetryInvalidJitterPercent | ErrRetryInvalidMultiplier
  | ErrRetryInvalidInitialDelay

datatype sentinel =
    ECommon common_err | EBloom bloom_err | EBulkhead bulkhead_err | EBreaker breaker_err
  | EDLQ dlq_err | EDLQLocal dlq_local_err | ERedlock redlock_err | ERedlockOp redlock_op_err
  | EPool pool_err | EPoolOp pool_op_err | EPubSub pubsub_err | EPubSubOp pubsub_op_err
  | ERetry retry_err | ERetryOp retry_op_err

section \<open>Error values\<close>

text \<open>
  \<^item> \<open>Sentinel s\<close>: one of the package variables above.
  \<^item> \<open>ErrText t\<close>: \<open>errors.New(t)\<close> or \<open>fmt.Errorf(t, ...)\<close> without \<open>%w\<close>, evaluated in a call.
  \<^item> \<open>Errorf es\<close>: \<open>fmt.Errorf\<close> with the operands \<open>es\<close> under \<open>%w\<close> verbs.
  \<^item> \<open>CtxCanceled\<close>, \<open>CtxDeadlineExceeded\<close>: what \<open>ctx.Err()\<close> returns.
  \<^item> \<open>UserErr ty n u\<close>: an error of the caller, of concrete type \<open>ty\<close> and identity \<open>n\<close>, whose
    \<open>Unwrap\<close> returns \<open>u\<close>.
  \<^item> \<open>RetryableError e\<close>: the wrapper type of \<open>src/retry.go\<close>.
\<close>

datatype goerr =
    Sentinel sentinel
  | ErrText string
  | Errorf "goerr list"
  | CtxCanceled
  | CtxDeadlineExceeded
  | UserErr nat nat "goerr option"
  | RetryableError goerr

text \<open>
  Go's \<open>==\<close> on two error values. Texts and composed errors are pointers made afresh by each call,
  so no target that existed before the call equals them.
\<close>

fun same_error :: "goerr \<Rightarrow> goerr \<Rightarrow> bool" where
  "same_error (Sentinel s) (Sentinel t) = (s = t)"
| "same_error CtxCanceled CtxCanceled = True"
| "same_error CtxDeadlineExceeded CtxDeadlineExceeded = True"
| "same_error (UserErr ty n _) (UserErr ty' n' _) = (ty = ty' \<and> n = n')"
| "same_error (RetryableError e) (RetryableError e') = same_error e e'"
| "same_error _ _ = False"

text \<open>\<open>errors.Is\<close>: the error or something it wraps equals the target.\<close>

fun errors_is :: "goerr \<Rightarrow> goerr \<Rightarrow> bool" where
  "errors_is (Sentinel s) t = same_error (Sentinel s) t"
| "errors_is (ErrText x) t = False"
| "errors_is (Errorf es) t = list_ex (\<lambda>e. errors_is e t) es"
| "errors_is CtxCanceled t = same_error CtxCanceled t"
| "errors_is CtxDeadlineExceeded t = same_error CtxDeadlineExceeded t"
| "errors_is (UserErr ty n None) t = same_error (UserErr ty n None) t"
| "errors_is (UserErr ty n (Some u)) t = (same_error (UserErr ty n (Some u)) t \<or> errors_is u t)"
| "errors_is (RetryableError e) t = (same_error (RetryableError e) t \<or> errors_is e t)"

text \<open>\<open>errors.As\<close> with a target of type \<open>RetryableError\<close>.\<close>

fun errors_as_retryable :: "goerr \<Rightarrow> bool" where
  "errors_as_retryable (RetryableError e) = True"
| "errors_as_retryable (Errorf es) = list_ex errors_as_retryable es"
| "errors_as_retryable (UserErr ty n (Some u)) = errors_as_retryable u"
| "errors_as_retryable _ = False"

text \<open>
  The concrete type of an error value, which \<open>atomic.Value.Store\<close> compares with the type stored
  first. \<open>fmt.Errorf\<close> returns another type for each of no, one and several \<open>%w\<close> verbs.
\<close>

datatype errtype =
    T_errorString | T_wrapError | T_wrapErrors | T_deadlineExceededError
  | T_user nat | T_RetryableError

fun concrete_type :: "goerr \<Rightarrow> errtype" where
  "concrete_type (Sentinel _) = T_errorString"
| "concrete_type (ErrText _) = T_errorString"
| "concrete_type (Errorf es) =
     (case es of [] \<Rightarrow> T_errorString | [_] \<Rightarrow> T_wrapError | _ \<Rightarrow> T_wrapErrors)"
| "concrete_type CtxCanceled = T_errorString"
| "concrete_type CtxDeadlineExceeded = T_deadlineExceededError"
| "concrete_type (UserErr ty _ _) = T_user ty"
| "concrete_type (RetryableError _) = T_RetryableError"

abbreviation common :: "common_err \<Rightarrow> goerr" where "common e \<equiv> Sentinel (ECommon e)"

text \<open>\<open>fmt.Errorf("%w: %v", e, x)\<close> keeps \<open>e\<close> and loses the identity of \<open>x\<close>.\<close>

abbreviation wrapping :: "goerr \<Rightarrow> goerr" where "wrapping e \<equiv> Errorf [e]"

lemma errors_is_sentinel [simp]: "errors_is (Sentinel s) (Sentinel t) \<longleftrightarrow> s = t"
  by simp

lemma errors_is_wrapping: "errors_is (wrapping e) t \<longleftrightarrow> errors_is e t"
  by simp

lemma same_error_refl: "concrete_type e = T_user k \<Longrightarrow> same_error e e"
  by (cases e) (auto split: list.splits)

lemma errors_is_same: "same_error e t \<Longrightarrow> errors_is e t"
proof (cases e)
  case (UserErr ty n u)
  then show "same_error e t \<Longrightarrow> errors_is e t" by (cases u) auto
qed auto

section \<open>Panics\<close>

text \<open>
  A Go call returns or panics. The panics the code can raise itself are named; \<open>UserPanic\<close> is a
  panic of a function the caller passed in.
\<close>

datatype panic =
    SendOnClosedChannel
  | CloseOfClosedChannel
  | NilDereference
  | InconsistentAtomicValue
  | FailedTypeAssertion
  | IndexOutOfRange
  | SliceLengthOutOfRange
  | IntegerDivideByZero
  | NilWriter
  | NilParentContext
  | NegativeWaitGroup
  | UserPanic nat

datatype 'a outcome = Returns 'a | Panics panic

end
