(* ===== verification/GoContext.thy ===== *)
theory GoContext
  imports GoErrors
begin

text \<open>
  \<open>context.Context\<close> as the code uses it: a context is cancelled by its owner at some instant, or
  expires at its deadline, or neither. \<open>ctx.Err()\<close> and \<open>ctx.Done()\<close> are functions of the
  context and the current time; timers fire on time.
\<close>

record ctx =
  cancelled_at :: "instant option"
  deadline :: "instant option"

definition Background :: ctx where
  "Background = \<lparr>cancelled_at = None, deadline = None\<rparr>"

definition passed :: "instant option \<Rightarrow> instant \<Rightarrow> bool" where
  "passed t now = (case t of None \<Rightarrow> False | Some u \<Rightarrow> u \<le> now)"

text \<open>The first of the two causes is the error for good.\<close>

definition ctx_err :: "instant \<Rightarrow> ctx \<Rightarrow> goerr option" where
  "ctx_err now c =
     (if passed (cancelled_at c) now
        \<and> (case deadline c of None \<Rightarrow> True | Some d \<Rightarrow> the (cancelled_at c) < d)
      then Some CtxCanceled
      else if passed (deadline c) now then Some CtxDeadlineExceeded
      else None)"

abbreviation ctx_done :: "instant \<Rightarrow> ctx \<Rightarrow> bool" where
  "ctx_done now c \<equiv> ctx_err now c \<noteq> None"

text \<open>\<open>context.WithTimeout(parent, d)\<close>: the earlier of the two deadlines.\<close>

definition WithTimeout :: "instant \<Rightarrow> duration \<Rightarrow> ctx \<Rightarrow> ctx" where
  "WithTimeout now d c = c\<lparr>deadline :=
     Some (case deadline c of None \<Rightarrow> now + d | Some d0 \<Rightarrow> min d0 (now + d))\<rparr>"

lemma ctx_done_iff: "ctx_done now c \<longleftrightarrow> passed (cancelled_at c) now \<or> passed (deadline c) now"
  by (auto simp: ctx_err_def passed_def split: option.splits)

lemma passed_mono: "passed t now \<Longrightarrow> now \<le> now' \<Longrightarrow> passed t now'"
  by (auto simp: passed_def split: option.splits)

text \<open>A context that is done stays done, with the same error.\<close>

lemma ctx_err_stable: "ctx_err now c = Some e \<Longrightarrow> now \<le> now' \<Longrightarrow> ctx_err now' c = Some e"
  by (auto simp: ctx_err_def passed_def split: option.splits if_splits)

lemma ctx_done_mono: "ctx_done now c \<Longrightarrow> now \<le> now' \<Longrightarrow> ctx_done now' c"
  using ctx_err_stable [of now c _ now'] by auto

lemma ctx_err_cases: "ctx_err now c = Some e \<Longrightarrow> e = CtxCanceled \<or> e = CtxDeadlineExceeded"
  by (auto simp: ctx_err_def split: if_splits)

lemma ctx_err_Background [simp]: "ctx_err now Background = None"
  by (simp add: ctx_err_def Background_def passed_def)

lemma WithTimeout_deadline: "\<exists>d. deadline (WithTimeout now t c) = Some d \<and> d \<le> now + t"
  by (auto simp: WithTimeout_def split: option.splits)

lemma WithTimeout_cancelled [simp]: "cancelled_at (WithTimeout now t c) = cancelled_at c"
  by (simp add: WithTimeout_def)

lemma WithTimeout_done: "now + t \<le> now' \<Longrightarrow> ctx_done now' (WithTimeout now t c)"
  unfolding ctx_done_iff by (auto simp: WithTimeout_def passed_def split: option.splits)

lemma WithTimeout_parent_done: "ctx_done now' c \<Longrightarrow> ctx_done now' (WithTimeout now t c)"
  unfolding ctx_done_iff by (auto simp: WithTimeout_def passed_def split: option.splits)

text \<open>The instant at which a context becomes done.\<close>

definition done_at :: "ctx \<Rightarrow> instant option" where
  "done_at c = (case (cancelled_at c, deadline c) of
       (None, d) \<Rightarrow> d
     | (Some t, None) \<Rightarrow> Some t
     | (Some t, Some d) \<Rightarrow> Some (min t d))"

text \<open>
  \<open>select { case <-time.After(d): case <-ctx.Done(): }\<close>, started at \<open>now\<close>: when it is decided, and
  whether the context decided it. The goroutine wakes \<open>lag\<close> after the first of the two events;
  \<open>pick\<close> is the choice of the \<open>select\<close> when both have happened by then.
\<close>

definition timer_wait :: "nat \<Rightarrow> bool \<Rightarrow> duration \<Rightarrow> instant \<Rightarrow> ctx \<Rightarrow> instant \<times> bool" where
  "timer_wait lag pick d now c =
     (let due = now + max 0 d;
          first = (case done_at c of None \<Rightarrow> due | Some t \<Rightarrow> min due (max now t));
          wake = first + int lag
      in (wake, ctx_done wake c \<and> (wake < due \<or> pick)))"

lemma timer_wait_later: "timer_wait lag pick d now c = (t, b) \<Longrightarrow> now \<le> t"
  by (auto simp: timer_wait_def Let_def split: option.splits)

lemma timer_wait_done: "timer_wait lag pick d now c = (t, True) \<Longrightarrow> ctx_done t c"
  by (auto simp: timer_wait_def Let_def)

end
