(* ===== verification/Lifecycle.thy ===== *)
theory Lifecycle
  imports GoErrors
begin

text \<open>
  Two contracts every component of the library has.

  \<^item> \<open>config_check\<close>: a constructor validates the configuration it is given and then fills in
    defaults; filling in defaults keeps a valid configuration valid, so the component runs with a
    configuration inside the documented limits.
  \<^item> \<open>closable\<close>: closing sets a flag once; a second close leaves the component alone; and
    \<open>guarded\<close>: an operation refuses to run on a closed component and leaves it alone.
\<close>

section \<open>Configurations\<close>

locale config_check =
  fixes validate :: "'c \<Rightarrow> goerr option"
    and defaults :: "'c \<Rightarrow> 'c"
  assumes defaults_valid: "validate c = None \<Longrightarrow> validate (defaults c) = None"
    and defaults_idem: "validate c = None \<Longrightarrow> defaults (defaults c) = defaults c"
begin

text \<open>The shape of every constructor of the library.\<close>

definition construct :: "goerr \<Rightarrow> ('c \<Rightarrow> 's) \<Rightarrow> 'c \<Rightarrow> goerr + 's" where
  "construct e mk c =
     (case validate c of Some _ \<Rightarrow> Inl (wrapping e) | None \<Rightarrow> Inr (mk (defaults c)))"

lemma construct_Inr: "construct e mk c = Inr s \<Longrightarrow> \<exists>d. s = mk d \<and> validate d = None \<and> defaults d = d"
  using defaults_valid defaults_idem by (auto simp: construct_def split: option.splits)

lemma construct_Inl: "construct e mk c = Inl err \<Longrightarrow> validate c \<noteq> None \<and> err = wrapping e"
  by (auto simp: construct_def split: option.splits)

lemma construct_ok_iff: "(\<exists>s. construct e mk c = Inr s) \<longleftrightarrow> validate c = None"
  by (auto simp: construct_def split: option.splits)

end

section \<open>Closing\<close>

locale closable =
  fixes close :: "'s \<Rightarrow> goerr option \<times> 's"
    and closed :: "'s \<Rightarrow> bool"
  assumes close_closes: "closed (snd (close s))"
    and close_first: "\<not> closed s \<Longrightarrow> fst (close s) = None"
    and close_again: "closed s \<Longrightarrow> snd (close s) = s"
begin

lemma close_idem: "snd (close (snd (close s))) = snd (close s)"
  by (rule close_again) (rule close_closes)

fun close_times :: "nat \<Rightarrow> 's \<Rightarrow> 's" where
  "close_times 0 s = s"
| "close_times (Suc n) s = close_times n (snd (close s))"

lemma close_times_closed: "closed s \<Longrightarrow> close_times n s = s"
  by (induction n) (auto simp: close_again)

lemma close_times_once: "close_times (Suc n) s = snd (close s)"
  by (simp add: close_times_closed close_closes)

end

locale guarded = closable close closed
  for close :: "'s \<Rightarrow> goerr option \<times> 's" and closed :: "'s \<Rightarrow> bool" +
  fixes op :: "'a \<Rightarrow> 's \<Rightarrow> 'r \<times> 's"
    and refused :: "'a \<Rightarrow> 'r"
  assumes refuses: "closed s \<Longrightarrow> op a s = (refused a, s)"
begin

fun run_ops :: "'a list \<Rightarrow> 's \<Rightarrow> 'r list \<times> 's" where
  "run_ops [] s = ([], s)"
| "run_ops (a # as) s = (let (r, s') = op a s; (rs, s'') = run_ops as s' in (r # rs, s''))"

text \<open>After a close every later operation is refused and nothing changes any more.\<close>

lemma run_ops_closed: "closed s \<Longrightarrow> run_ops as s = (map refused as, s)"
  by (induction as) (auto simp: refuses)

lemma after_close: "run_ops as (snd (close s)) = (map refused as, snd (close s))"
  by (rule run_ops_closed) (rule close_closes)

end

end
