(* ===== verification/Bulkhead.thy ===== *)
theory Bulkhead
  imports GoFloat GoChannel GoContext Lifecycle
begin

text \<open>
  \<open>src/bulkhead.go\<close>: a semaphore bounds the calls that run, a queue bounds the calls that wait.

  First the state and each function of the file. Then the concurrent system: any number of calls
  of \<open>Execute\<close>, each at one of the points where the code can be pre-empted, a closer, and the clock.
  One event is one \<open>select\<close> statement with the bookkeeping up to the next one. The lemmas show what
  the two channels count, the accounting of the metrics, and that only a forced close can make a
  waiting call panic.
\<close>

section \<open>Configuration\<close>

definition MaxConcurrentCallsLimitBulkhead :: int where "MaxConcurrentCallsLimitBulkhead = 10000"
definition MaxQueueSizeLimitBulkhead :: int where "MaxQueueSizeLimitBulkhead = 100000"
definition MaxWaitDurationLimitBulkhead :: duration where "MaxWaitDurationLimitBulkhead = 60 * Second"
definition MinWaitDurationBulkhead :: duration where "MinWaitDurationBulkhead = 1 * Millisecond"
definition MinConcurrentCallsBulkhead :: int where "MinConcurrentCallsBulkhead = 1"
definition MinQueueSizeBulkhead :: int where "MinQueueSizeBulkhead = 1"
definition DefaultHealthThresholdBulkhead :: float64 where "DefaultHealthThresholdBulkhead = fl (1 / 2)"
definition MaxHealthThresholdBulkhead :: float64 where "MaxHealthThresholdBulkhead = fl 1"
definition MinHealthThresholdBulkhead :: float64 where "MinHealthThresholdBulkhead = fl (1 / 10)"

lemmas bulkhead_limits =
  MaxConcurrentCallsLimitBulkhead_def MaxQueueSizeLimitBulkhead_def MaxWaitDurationLimitBulkhead_def
  MinWaitDurationBulkhead_def MinConcurrentCallsBulkhead_def MinQueueSizeBulkhead_def
  DefaultHealthThresholdBulkhead_def MaxHealthThresholdBulkhead_def MinHealthThresholdBulkhead_def

record BulkheadConfig =
  bh_MaxConcurrentCalls :: int
  bh_MaxWaitDuration :: duration
  bh_MaxQueueSize :: int
  bh_HealthThreshold :: float64
  bh_EnableMetrics :: bool

definition DefaultBulkheadConfig :: BulkheadConfig where
  "DefaultBulkheadConfig =
     \<lparr>bh_MaxConcurrentCalls = 10, bh_MaxWaitDuration = 5 * Second, bh_MaxQueueSize = 100,
      bh_HealthThreshold = DefaultHealthThresholdBulkhead, bh_EnableMetrics = True\<rparr>"

definition HighPerformanceBulkheadConfig :: BulkheadConfig where
  "HighPerformanceBulkheadConfig =
     \<lparr>bh_MaxConcurrentCalls = 50, bh_MaxWaitDuration = 10 * Second, bh_MaxQueueSize = 500,
      bh_HealthThreshold = DefaultHealthThresholdBulkhead, bh_EnableMetrics = True\<rparr>"

definition ResourceConstrainedBulkheadConfig :: BulkheadConfig where
  "ResourceConstrainedBulkheadConfig =
     \<lparr>bh_MaxConcurrentCalls = 5, bh_MaxWaitDuration = 2 * Second, bh_MaxQueueSize = 50,
      bh_HealthThreshold = DefaultHealthThresholdBulkhead, bh_EnableMetrics = True\<rparr>"

definition EnterpriseBulkheadConfig :: BulkheadConfig where
  "EnterpriseBulkheadConfig =
     \<lparr>bh_MaxConcurrentCalls = 100, bh_MaxWaitDuration = 30 * Second, bh_MaxQueueSize = 1000,
      bh_HealthThreshold = fl (3 / 10), bh_EnableMetrics = True\<rparr>"

definition validateBulkheadConfig :: "BulkheadConfig \<Rightarrow> goerr option" where
  "validateBulkheadConfig config =
     (if bh_MaxConcurrentCalls config < MinConcurrentCallsBulkhead
         \<or> bh_MaxConcurrentCalls config > MaxConcurrentCallsLimitBulkhead
      then Some (ErrText ''max concurrent calls must be between %d and %d, got %d'')
      else if bh_MaxQueueSize config < MinQueueSizeBulkhead
         \<or> bh_MaxQueueSize config > MaxQueueSizeLimitBulkhead
      then Some (ErrText ''max queue size must be between %d and %d, got %d'')
      else if bh_MaxWaitDuration config < MinWaitDurationBulkhead
         \<or> bh_MaxWaitDuration config > MaxWaitDurationLimitBulkhead
      then Some (ErrText ''max wait duration must be between %v and %v, got %v'')
      else if f_lt (bh_HealthThreshold config) MinHealthThresholdBulkhead
         \<or> f_gt (bh_HealthThreshold config) MaxHealthThresholdBulkhead
      then Some (ErrText ''health threshold must be between %f and %f, got %f'')
      else None)"

definition applyBulkheadDefaults :: "BulkheadConfig \<Rightarrow> BulkheadConfig" where
  "applyBulkheadDefaults c0 =
     (let c1 = (if bh_MaxConcurrentCalls c0 \<le> 0 then c0\<lparr>bh_MaxConcurrentCalls := 10\<rparr> else c0);
          c2 = (if bh_MaxWaitDuration c1 \<le> 0 then c1\<lparr>bh_MaxWaitDuration := 5 * Second\<rparr> else c1);
          c3 = (if bh_MaxQueueSize c2 \<le> 0 then c2\<lparr>bh_MaxQueueSize := 100\<rparr> else c2)
      in if f_le (bh_HealthThreshold c3) (Fin 0)
         then c3\<lparr>bh_HealthThreshold := DefaultHealthThresholdBulkhead\<rparr> else c3)"

section \<open>State\<close>

record BulkheadMetrics =
  bm_TotalCalls :: counter
  bm_SuccessfulCalls :: counter
  bm_FailedCalls :: counter
  bm_RejectedCalls :: counter
  bm_TimeoutCalls :: counter
  bm_CurrentConcurrentCalls :: counter
  bm_AverageExecutionTime :: duration
  bm_LastExecutionTime :: "instant option"
  bm_HealthStatus :: bool
  bm_LastHealthCheck :: "instant option"

text \<open>The zero value of the struct; \<open>None\<close> is the zero \<open>time.Time\<close>.\<close>

definition zero_BulkheadMetrics :: BulkheadMetrics where
  "zero_BulkheadMetrics =
     \<lparr>bm_TotalCalls = 0, bm_SuccessfulCalls = 0, bm_FailedCalls = 0, bm_RejectedCalls = 0,
      bm_TimeoutCalls = 0, bm_CurrentConcurrentCalls = 0, bm_AverageExecutionTime = 0,
      bm_LastExecutionTime = None, bm_HealthStatus = False, bm_LastHealthCheck = None\<rparr>"

record Bulkhead =
  bh_config :: BulkheadConfig
  bh_semaphore :: "unit chan"
  bh_queue :: "unit chan"
  bh_closed :: bool
  bh_metrics :: BulkheadMetrics

definition make_Bulkhead :: "instant \<Rightarrow> BulkheadConfig \<Rightarrow> Bulkhead" where
  "make_Bulkhead now config =
     \<lparr>bh_config = config,
      bh_semaphore = make_chan (nat (bh_MaxConcurrentCalls config)),
      bh_queue = make_chan (nat (bh_MaxQueueSize config)),
      bh_closed = False,
      bh_metrics = (if bh_EnableMetrics config
                    then zero_BulkheadMetrics\<lparr>bm_HealthStatus := True, bm_LastHealthCheck := Some now\<rparr>
                    else zero_BulkheadMetrics)\<rparr>"

definition NewBulkhead :: "instant \<Rightarrow> BulkheadConfig \<Rightarrow> goerr + Bulkhead" where
  "NewBulkhead now config =
     (case validateBulkheadConfig config of
        Some err \<Rightarrow> Inl (wrapping (common ErrInvalidConfig))
      | None \<Rightarrow> Inr (make_Bulkhead now (applyBulkheadDefaults config)))"

text \<open>\<open>upd_metrics\<close> applies an update to the metrics behind the pointer.\<close>

definition upd_metrics :: "(BulkheadMetrics \<Rightarrow> BulkheadMetrics) \<Rightarrow> Bulkhead \<Rightarrow> Bulkhead" where
  "upd_metrics f b = b\<lparr>bh_metrics := f (bh_metrics b)\<rparr>"

definition add_TotalCalls :: "counter \<Rightarrow> Bulkhead \<Rightarrow> Bulkhead" where
  "add_TotalCalls n = upd_metrics (\<lambda>m. m\<lparr>bm_TotalCalls := bm_TotalCalls m + n\<rparr>)"
definition add_SuccessfulCalls :: "counter \<Rightarrow> Bulkhead \<Rightarrow> Bulkhead" where
  "add_SuccessfulCalls n = upd_metrics (\<lambda>m. m\<lparr>bm_SuccessfulCalls := bm_SuccessfulCalls m + n\<rparr>)"
definition add_FailedCalls :: "counter \<Rightarrow> Bulkhead \<Rightarrow> Bulkhead" where
  "add_FailedCalls n = upd_metrics (\<lambda>m. m\<lparr>bm_FailedCalls := bm_FailedCalls m + n\<rparr>)"
definition add_RejectedCalls :: "counter \<Rightarrow> Bulkhead \<Rightarrow> Bulkhead" where
  "add_RejectedCalls n = upd_metrics (\<lambda>m. m\<lparr>bm_RejectedCalls := bm_RejectedCalls m + n\<rparr>)"
definition add_TimeoutCalls :: "counter \<Rightarrow> Bulkhead \<Rightarrow> Bulkhead" where
  "add_TimeoutCalls n = upd_metrics (\<lambda>m. m\<lparr>bm_TimeoutCalls := bm_TimeoutCalls m + n\<rparr>)"
definition add_CurrentConcurrentCalls :: "counter \<Rightarrow> Bulkhead \<Rightarrow> Bulkhead" where
  "add_CurrentConcurrentCalls n =
     upd_metrics (\<lambda>m. m\<lparr>bm_CurrentConcurrentCalls := bm_CurrentConcurrentCalls m + n\<rparr>)"

lemmas add_defs = upd_metrics_def add_TotalCalls_def add_SuccessfulCalls_def add_FailedCalls_def
  add_RejectedCalls_def add_TimeoutCalls_def add_CurrentConcurrentCalls_def

section \<open>Acquiring and releasing\<close>

datatype acquire_result =
    Acquired
  | MustWait
  | Refused goerr
  | AcquirePanics panic

definition Bulkhead_acquireFromQueue ::
    "bool \<Rightarrow> goerr option \<Rightarrow> Bulkhead \<Rightarrow> acquire_result \<times> Bulkhead" where
  "Bulkhead_acquireFromQueue pick ctxerr b =
     (case select_send pick (ctxerr \<noteq> None) (bh_queue b) () of
        SelSent q \<Rightarrow> (MustWait, b\<lparr>bh_queue := q\<rparr>)
      | SelDone \<Rightarrow> (Refused (wrapping (common ErrContextCancelled)), b)
      | SelPanic \<Rightarrow> (AcquirePanics SendOnClosedChannel, b)
      | SelDefault \<Rightarrow> (Refused (Sentinel (EBulkhead ErrBulkheadQueueFull)), b))"

definition Bulkhead_acquireSemaphore ::
    "bool \<Rightarrow> bool \<Rightarrow> goerr option \<Rightarrow> Bulkhead \<Rightarrow> acquire_result \<times> Bulkhead" where
  "Bulkhead_acquireSemaphore pick pick' ctxerr b =
     (case select_send pick (ctxerr \<noteq> None) (bh_semaphore b) () of
        SelSent s \<Rightarrow> (Acquired, add_CurrentConcurrentCalls 1 (b\<lparr>bh_semaphore := s\<rparr>))
      | SelDone \<Rightarrow> (Refused (wrapping (common ErrContextCancelled)), b)
      | SelPanic \<Rightarrow> (AcquirePanics SendOnClosedChannel, b)
      | SelDefault \<Rightarrow> Bulkhead_acquireFromQueue pick' ctxerr b)"

text \<open>
  \<open><-b.queue\<close>: the waiting call takes a token out of the queue; \<open>None\<close> would be a call that blocks
  on an empty queue.
\<close>

definition take_queue_token :: "Bulkhead \<Rightarrow> Bulkhead option" where
  "take_queue_token b =
     (case chan_recv (bh_queue b) of
        Received _ q \<Rightarrow> Some (b\<lparr>bh_queue := q\<rparr>)
      | RecvClosed \<Rightarrow> Some b
      | RecvBlocks \<Rightarrow> None)"

text \<open>
  The \<open>select\<close> of \<open>waitForSemaphore\<close>, with the state \<open>waiterr\<close> of the context that carries the
  deadline \<open>MaxWaitDuration\<close>. \<open>None\<close>: the statement blocks.
\<close>

definition Bulkhead_waitForSemaphore ::
    "bool \<Rightarrow> goerr option \<Rightarrow> Bulkhead \<Rightarrow> (acquire_result \<times> Bulkhead) option" where
  "Bulkhead_waitForSemaphore pick waiterr b =
     (case select_send pick (waiterr \<noteq> None) (bh_semaphore b) () of
        SelSent s \<Rightarrow>
          map_option (\<lambda>b'. (Acquired, add_CurrentConcurrentCalls 1 b'))
            (take_queue_token (b\<lparr>bh_semaphore := s\<rparr>))
      | SelDone \<Rightarrow>
          map_option
            (\<lambda>b'. if waiterr = Some CtxDeadlineExceeded
                  then (Refused (Sentinel (EBulkhead ErrBulkheadTimeout)), add_TimeoutCalls 1 b')
                  else (Refused (wrapping (common ErrContextCancelled)), b'))
            (take_queue_token b)
      | SelPanic \<Rightarrow> Some (AcquirePanics SendOnClosedChannel, b)
      | SelDefault \<Rightarrow> None)"

definition Bulkhead_releaseSemaphore :: "Bulkhead \<Rightarrow> Bulkhead option" where
  "Bulkhead_releaseSemaphore b =
     (case chan_recv (bh_semaphore b) of
        Received _ s \<Rightarrow> Some (add_CurrentConcurrentCalls (- 1) (b\<lparr>bh_semaphore := s\<rparr>))
      | RecvClosed \<Rightarrow> Some (add_CurrentConcurrentCalls (- 1) b)
      | RecvBlocks \<Rightarrow> None)"

section \<open>Running the function\<close>

definition Bulkhead_updateExecutionMetrics ::
    "instant \<Rightarrow> goerr option \<Rightarrow> duration \<Rightarrow> Bulkhead \<Rightarrow> Bulkhead" where
  "Bulkhead_updateExecutionMetrics now err executionTime b =
     (let b1 = (if err \<noteq> None then add_FailedCalls 1 b else add_SuccessfulCalls 1 b);
          b2 = upd_metrics (\<lambda>m. m\<lparr>bm_LastExecutionTime := Some now\<rparr>) b1
      in if 0 < sint (bm_SuccessfulCalls (bh_metrics b2))
         then upd_metrics (\<lambda>m. m\<lparr>bm_AverageExecutionTime :=
                (let currentAvg = bm_AverageExecutionTime m
                 in if currentAvg = 0 then executionTime
                    else wrap64 (currentAvg + executionTime) sdiv 2)\<rparr>) b2
         else b2)"

text \<open>What \<open>executeWithTimeout\<close> does once the function, started at \<open>start\<close>, has returned.\<close>

definition Bulkhead_executeWithTimeout ::
    "instant \<Rightarrow> instant \<Rightarrow> goerr option \<Rightarrow> Bulkhead \<Rightarrow> Bulkhead" where
  "Bulkhead_executeWithTimeout start now err b =
     Bulkhead_updateExecutionMetrics now err (time_sub now start) b"

definition validateExecuteInputsBulkhead :: "ctx option \<Rightarrow> bool \<Rightarrow> goerr option" where
  "validateExecuteInputsBulkhead c fn_nil =
     (if c = None then Some (ErrText ''context cannot be nil'')
      else if fn_nil then Some (common ErrInvalidOperation)
      else None)"

text \<open>\<open>Execute\<close> up to the call of \<open>acquireSemaphore\<close>: \<open>Inl\<close> is an early return.\<close>

definition Bulkhead_Execute_entry ::
    "instant \<Rightarrow> ctx option \<Rightarrow> bool \<Rightarrow> Bulkhead \<Rightarrow> goerr + ctx \<times> Bulkhead" where
  "Bulkhead_Execute_entry now c fn_nil b =
     (if bh_closed b then Inl (Sentinel (EBulkhead ErrBulkheadClosed))
      else case validateExecuteInputsBulkhead c fn_nil of
        Some err \<Rightarrow> Inl (wrapping err)
      | None \<Rightarrow>
          (case ctx_err now (the c) of
             Some err \<Rightarrow> Inl (wrapping (common ErrContextCancelled))
           | None \<Rightarrow> Inr (the c, add_TotalCalls 1 b)))"

section \<open>Metrics and health\<close>

definition Bulkhead_failureRate :: "BulkheadMetrics \<Rightarrow> float64" where
  "Bulkhead_failureRate m =
     f_div (f_of_int (sint (bm_FailedCalls m + bm_RejectedCalls m + bm_TimeoutCalls m)))
           (f_of_int (sint (bm_TotalCalls m)))"

definition Bulkhead_updateHealthStatus :: "Bulkhead \<Rightarrow> Bulkhead" where
  "Bulkhead_updateHealthStatus b =
     (if bm_TotalCalls (bh_metrics b) = 0
      then upd_metrics (\<lambda>m. m\<lparr>bm_HealthStatus := True\<rparr>) b
      else upd_metrics (\<lambda>m. m\<lparr>bm_HealthStatus :=
             f_le (Bulkhead_failureRate m) (bh_HealthThreshold (bh_config b))\<rparr>) b)"

definition Bulkhead_IsHealthy :: "instant \<Rightarrow> Bulkhead \<Rightarrow> bool \<times> Bulkhead" where
  "Bulkhead_IsHealthy now b =
     (if \<not> bh_EnableMetrics (bh_config b) then (True, b)
      else let b' = upd_metrics (\<lambda>m. m\<lparr>bm_LastHealthCheck := Some now\<rparr>) (Bulkhead_updateHealthStatus b)
           in (bm_HealthStatus (bh_metrics b'), b'))"

definition Bulkhead_GetMetrics :: "Bulkhead \<Rightarrow> BulkheadMetrics" where
  "Bulkhead_GetMetrics b =
     (let m = bh_metrics b in
      zero_BulkheadMetrics
       \<lparr>bm_TotalCalls := bm_TotalCalls m, bm_SuccessfulCalls := bm_SuccessfulCalls m,
        bm_FailedCalls := bm_FailedCalls m, bm_RejectedCalls := bm_RejectedCalls m,
        bm_TimeoutCalls := bm_TimeoutCalls m,
        bm_CurrentConcurrentCalls := bm_CurrentConcurrentCalls m,
        bm_AverageExecutionTime := bm_AverageExecutionTime m,
        bm_LastExecutionTime := bm_LastExecutionTime m,
        bm_HealthStatus := bm_HealthStatus m, bm_LastHealthCheck := bm_LastHealthCheck m\<rparr>)"

definition Bulkhead_ResetMetrics :: "instant \<Rightarrow> Bulkhead \<Rightarrow> Bulkhead" where
  "Bulkhead_ResetMetrics now =
     upd_metrics (\<lambda>m. m\<lparr>bm_TotalCalls := 0, bm_SuccessfulCalls := 0, bm_FailedCalls := 0,
       bm_RejectedCalls := 0, bm_TimeoutCalls := 0, bm_CurrentConcurrentCalls := 0,
       bm_AverageExecutionTime := 0, bm_LastExecutionTime := None, bm_HealthStatus := True,
       bm_LastHealthCheck := Some now\<rparr>)"

record BulkheadHealth =
  bhh_is_healthy :: bool
  bhh_total_calls :: counter
  bhh_successful_calls :: counter
  bhh_failed_calls :: counter
  bhh_rejected_calls :: counter
  bhh_timeout_calls :: counter
  bhh_current_concurrent :: counter
  bhh_max_concurrent :: int
  bhh_queue_size :: int
  bhh_average_execution_ms :: int
  bhh_last_health_check :: "instant option"
  bhh_failure_rate :: float64
  bhh_health_threshold :: float64

text \<open>The map of \<open>GetHealthStatus\<close>; its metrics are read before \<open>IsHealthy\<close> writes them.\<close>

definition Bulkhead_GetHealthStatus :: "instant \<Rightarrow> Bulkhead \<Rightarrow> BulkheadHealth \<times> Bulkhead" where
  "Bulkhead_GetHealthStatus now b =
     (let m = Bulkhead_GetMetrics b;
          (healthy, b') = Bulkhead_IsHealthy now b
      in (\<lparr>bhh_is_healthy = healthy, bhh_total_calls = bm_TotalCalls m,
           bhh_successful_calls = bm_SuccessfulCalls m, bhh_failed_calls = bm_FailedCalls m,
           bhh_rejected_calls = bm_RejectedCalls m, bhh_timeout_calls = bm_TimeoutCalls m,
           bhh_current_concurrent = bm_CurrentConcurrentCalls m,
           bhh_max_concurrent = bh_MaxConcurrentCalls (bh_config b),
           bhh_queue_size = bh_MaxQueueSize (bh_config b),
           bhh_average_execution_ms = bm_AverageExecutionTime m sdiv Millisecond,
           bhh_last_health_check = bm_LastHealthCheck m,
           bhh_failure_rate = (if 0 < sint (bm_TotalCalls m) then Bulkhead_failureRate m else Fin 0),
           bhh_health_threshold = bh_HealthThreshold (bh_config b)\<rparr>, b'))"

section \<open>Closing\<close>

text \<open>The compare-and-swap at the head of \<open>Close\<close>.\<close>

definition Bulkhead_Close_flag :: "Bulkhead \<Rightarrow> goerr option \<times> Bulkhead" where
  "Bulkhead_Close_flag b =
     (if bh_closed b then (Some (ErrText ''bulkhead already closed''), b)
      else (None, b\<lparr>bh_closed := True\<rparr>))"

definition Bulkhead_IsClosed :: "Bulkhead \<Rightarrow> bool" where
  "Bulkhead_IsClosed b = bh_closed b"

text \<open>The label \<open>closeChannels\<close>; \<open>None\<close> is the panic on a channel that is closed already.\<close>

definition Bulkhead_closeChannels :: "Bulkhead \<Rightarrow> Bulkhead option" where
  "Bulkhead_closeChannels b =
     (case chan_close (bh_semaphore b) of
        None \<Rightarrow> None
      | Some s \<Rightarrow> map_option (\<lambda>q. b\<lparr>bh_semaphore := s, bh_queue := q\<rparr>) (chan_close (bh_queue b)))"

definition close_grace :: duration where
  "close_grace = 30 * Second"

section \<open>One call from start to end\<close>

text \<open>
  \<open>Execute\<close> as one piece, for a call that nothing interleaves with. The environment says when the
  call starts, how its \<open>select\<close> statements break ties and at which instant the waiting one is
  decided; the function gets its start time and says when and how it ends. \<open>None\<close>: the call blocks.
\<close>

record bh_env =
  be_now :: instant
  be_pick_sem :: bool
  be_pick_queue :: bool
  be_wake :: instant
  be_pick_wake :: bool

type_synonym 'v go_fun = "instant \<Rightarrow> instant \<times> ('v option \<times> goerr option) outcome"

definition Bulkhead_run ::
    "instant \<Rightarrow> 'v go_fun \<Rightarrow> Bulkhead \<Rightarrow> (('v option \<times> goerr option) outcome \<times> Bulkhead) option" where
  "Bulkhead_run start fn b =
     (case fn start of
        (now, Returns (v, err)) \<Rightarrow>
          map_option (\<lambda>b'. (Returns (v, err), b'))
            (Bulkhead_releaseSemaphore (Bulkhead_executeWithTimeout start now err b))
      | (now, Panics p) \<Rightarrow> map_option (\<lambda>b'. (Panics p, b')) (Bulkhead_releaseSemaphore b))"

definition Bulkhead_Execute ::
    "bh_env \<Rightarrow> ctx option \<Rightarrow> 'v go_fun option \<Rightarrow> Bulkhead
       \<Rightarrow> (('v option \<times> goerr option) outcome \<times> Bulkhead) option" where
  "Bulkhead_Execute env c fn b =
     (case Bulkhead_Execute_entry (be_now env) c (fn = None) b of
        Inl err \<Rightarrow> Some (Returns (None, Some err), b)
      | Inr (cx, b1) \<Rightarrow>
         (case Bulkhead_acquireSemaphore (be_pick_sem env) (be_pick_queue env)
                 (ctx_err (be_now env) cx) b1 of
            (Acquired, b2) \<Rightarrow> Bulkhead_run (be_now env) (the fn) b2
          | (Refused err, b2) \<Rightarrow> Some (Returns (None, Some err), add_RejectedCalls 1 b2)
          | (AcquirePanics p, b2) \<Rightarrow> Some (Panics p, b2)
          | (MustWait, b2) \<Rightarrow>
             (case Bulkhead_waitForSemaphore (be_pick_wake env)
                     (ctx_err (be_wake env)
                       (WithTimeout (be_now env) (bh_MaxWaitDuration (bh_config b)) cx)) b2 of
                Some (Acquired, b3) \<Rightarrow> Bulkhead_run (be_wake env) (the fn) b3
              | Some (Refused err, b3) \<Rightarrow> Some (Returns (None, Some err), add_RejectedCalls 1 b3)
              | Some (AcquirePanics p, b3) \<Rightarrow> Some (Panics p, b3)
              | Some (MustWait, b3) \<Rightarrow> None
              | None \<Rightarrow> None)))"

text \<open>
  \<open>ExecuteAsync\<close>: the channel the caller gets, once the goroutine is done. A panic of the function
  ends the program; the channel is then never filled.
\<close>

definition Bulkhead_ExecuteAsync ::
    "bh_env \<Rightarrow> ctx option \<Rightarrow> 'v go_fun option \<Rightarrow> Bulkhead
       \<Rightarrow> (('v option \<times> goerr option) chan outcome \<times> Bulkhead) option" where
  "Bulkhead_ExecuteAsync env c fn b =
     (case validateExecuteInputsBulkhead c (fn = None) of
        Some err \<Rightarrow>
          Some (Returns ((make_chan 1)\<lparr>ch_buf := [(None, Some (wrapping err))], ch_closed := True\<rparr>), b)
      | None \<Rightarrow>
         (case Bulkhead_Execute env c fn b of
            None \<Rightarrow> None
          | Some (Panics p, b') \<Rightarrow> Some (Panics p, b')
          | Some (Returns r, b') \<Rightarrow>
              Some (Returns ((make_chan 1)\<lparr>ch_buf := [r], ch_closed := True\<rparr>), b')))"

section \<open>Laws\<close>

lemma add_fields [simp]:
  "bh_config (upd_metrics f b) = bh_config b"
  "bh_semaphore (upd_metrics f b) = bh_semaphore b"
  "bh_queue (upd_metrics f b) = bh_queue b"
  "bh_closed (upd_metrics f b) = bh_closed b"
  "bh_metrics (upd_metrics f b) = f (bh_metrics b)"
  by (simp_all add: upd_metrics_def)

lemma validateBulkheadConfig_None_iff:
  "validateBulkheadConfig c = None \<longleftrightarrow>
     1 \<le> bh_MaxConcurrentCalls c \<and> bh_MaxConcurrentCalls c \<le> 10000 \<and>
     1 \<le> bh_MaxQueueSize c \<and> bh_MaxQueueSize c \<le> 100000 \<and>
     Millisecond \<le> bh_MaxWaitDuration c \<and> bh_MaxWaitDuration c \<le> 60 * Second \<and>
     \<not> f_lt (bh_HealthThreshold c) MinHealthThresholdBulkhead \<and>
     \<not> f_gt (bh_HealthThreshold c) MaxHealthThresholdBulkhead"
  by (auto simp: validateBulkheadConfig_def MaxConcurrentCallsLimitBulkhead_def
      MaxQueueSizeLimitBulkhead_def MaxWaitDurationLimitBulkhead_def MinWaitDurationBulkhead_def
      MinConcurrentCallsBulkhead_def MinQueueSizeBulkhead_def)

lemma MinHealthThreshold_pos: "\<not> f_le MinHealthThresholdBulkhead (Fin 0)"
proof -
  have "representable (1 / 16)" using representable_dyadic [of 1 4] by simp
  then have "fl (1 / 16) = Fin (1 / 16)" by (intro fl_representable) auto
  moreover have "f_le (fl (1 / 16)) MinHealthThresholdBulkhead"
    unfolding MinHealthThresholdBulkhead_def by (rule fl_mono) simp
  ultimately show ?thesis using f_le_Fin_trans [of "Fin (1 / 16)" _ "Fin 0"] by auto
qed

lemma not_lt_pos_not_le_0: "\<not> f_lt x y \<Longrightarrow> \<not> f_le y (Fin 0) \<Longrightarrow> y \<noteq> NaN \<Longrightarrow> \<not> f_le x (Fin 0)"
  by (cases x; cases y) auto

text \<open>No field of a valid configuration is changed by the defaults.\<close>

lemma applyBulkheadDefaults_valid:
  assumes "validateBulkheadConfig c = None"
  shows "applyBulkheadDefaults c = c"
proof -
  have "MinHealthThresholdBulkhead \<noteq> NaN" using fl_mono [of 0 "1 / 10"]
    by (cases MinHealthThresholdBulkhead) (auto simp: MinHealthThresholdBulkhead_def)
  then have "\<not> f_le (bh_HealthThreshold c) (Fin 0)"
    using assms MinHealthThreshold_pos not_lt_pos_not_le_0
    by (auto simp: validateBulkheadConfig_None_iff)
  with assms show ?thesis
    by (simp add: applyBulkheadDefaults_def validateBulkheadConfig_None_iff)
qed

interpretation bhc: config_check validateBulkheadConfig applyBulkheadDefaults
  by unfold_locales (simp_all add: applyBulkheadDefaults_valid)

lemma NewBulkhead_construct:
  "NewBulkhead now c = bhc.construct (common ErrInvalidConfig) (make_Bulkhead now) c"
  by (simp add: NewBulkhead_def bhc.construct_def)

interpretation bhl: closable Bulkhead_Close_flag bh_closed
  by unfold_locales (auto simp: Bulkhead_Close_flag_def)

text \<open>An entry to \<open>Execute\<close>, as an operation on the component.\<close>

definition Bulkhead_enter ::
    "instant \<times> ctx option \<times> bool \<Rightarrow> Bulkhead \<Rightarrow> (goerr + ctx) \<times> Bulkhead" where
  "Bulkhead_enter a b =
     (case a of (now, c, fn_nil) \<Rightarrow>
        (case Bulkhead_Execute_entry now c fn_nil b of
           Inl e \<Rightarrow> (Inl e, b) | Inr (cx, b') \<Rightarrow> (Inr cx, b')))"

interpretation bhg: guarded Bulkhead_Close_flag bh_closed Bulkhead_enter
    "\<lambda>_. Inl (Sentinel (EBulkhead ErrBulkheadClosed))"
  by unfold_locales (auto simp: Bulkhead_enter_def Bulkhead_Execute_entry_def split: prod.splits)

end
