(* ===== verification/Runs.thy ===== *)
theory Runs
  imports Prelude
begin

text \<open>
  Runs of a system whose steps are events, as the locales \<open>event_runs\<close> and, with the states it can
  reach, \<open>reachable_runs\<close>. An event that cannot happen in a state gives \<open>None\<close>. What is proved here is
  what the systems of the library share: a run of reachable states stays among them, and a system in
  which some measure can always be decreased has a run to where it cannot.
\<close>

lemma sum_list_update_less:
  fixes w :: "'a \<Rightarrow> nat"
  assumes "i < length xs" and "w v < w (xs ! i)"
  shows "(\<Sum>x\<leftarrow>xs[i := v]. w x) < (\<Sum>x\<leftarrow>xs. w x)"
  using assms
proof (induction xs arbitrary: i)
  case (Cons x xs)
  then show ?case by (cases i) simp_all
qed simp

text \<open>The same for a relation.\<close>

lemma steps_to:
  fixes m :: "'s \<Rightarrow> nat"
  assumes "I s"
    and closer: "\<And>s. I s \<Longrightarrow> \<not> goal s \<Longrightarrow> \<exists>s'. rtranclp r s s' \<and> I s' \<and> m s' < m s"
  shows "\<exists>s'. rtranclp r s s' \<and> I s' \<and> goal s'"
  using \<open>I s\<close>
proof (induction "m s" arbitrary: s rule: less_induct)
  case less
  show ?case
  proof (cases "goal s")
    case True
    with less.prems show ?thesis by blast
  next
    case False
    with closer less.prems obtain s1 where s1: "rtranclp r s s1" "I s1" "m s1 < m s" by blast
    with less.hyps obtain s' where "rtranclp r s1 s'" "I s'" "goal s'" by blast
    with rtranclp_trans [OF s1(1)] show ?thesis by blast
  qed
qed

locale event_runs =
  fixes step :: "'e \<Rightarrow> 's \<Rightarrow> 's option"
    and run :: "'e list \<Rightarrow> 's \<Rightarrow> 's option"
  assumes run_Nil: "run [] s = Some s"
    and run_Cons: "run (e # es) s = (case step e s of None \<Rightarrow> None | Some s' \<Rightarrow> run es s')"
begin

lemma run_append: "run (es @ fs) s = (case run es s of None \<Rightarrow> None | Some s' \<Rightarrow> run fs s')"
  by (induction es arbitrary: s) (auto simp: run_Nil run_Cons split: option.split)

lemma run_ConsI: "step e s = Some s' \<Longrightarrow> run es s' = Some s'' \<Longrightarrow> run (e # es) s = Some s''"
  by (simp add: run_Cons)

lemma run_appendI: "run es s = Some s' \<Longrightarrow> run fs s' = Some s'' \<Longrightarrow> run (es @ fs) s = Some s''"
  by (simp add: run_append)

text \<open>If as long as the goal is not reached some good event brings the system closer to it, there is a
  run of good events to the goal.\<close>

lemma run_to:
  fixes m :: "'s \<Rightarrow> nat"
  assumes "I s"
    and closer: "\<And>s. I s \<Longrightarrow> \<not> goal s \<Longrightarrow> \<exists>e s'. good e \<and> step e s = Some s' \<and> I s' \<and> m s' < m s"
  shows "\<exists>es s'. list_all good es \<and> run es s = Some s' \<and> I s' \<and> goal s'"
  using \<open>I s\<close>
proof (induction "m s" arbitrary: s rule: less_induct)
  case less
  show ?case
  proof (cases "goal s")
    case True
    with less.prems show ?thesis by (intro exI [of _ "[]"] exI [of _ s]) (simp add: run_Nil)
  next
    case False
    with closer less.prems obtain e s1 where e: "good e" "step e s = Some s1" "I s1" "m s1 < m s" by blast
    with less.hyps obtain es s' where "list_all good es" "run es s1 = Some s'" "I s'" "goal s'" by blast
    with e show ?thesis by (intro exI [of _ "e # es"] exI [of _ s']) (simp add: run_Cons)
  qed
qed

end

locale reachable_runs = event_runs step run
  for step :: "'e \<Rightarrow> 's \<Rightarrow> 's option" and run :: "'e list \<Rightarrow> 's \<Rightarrow> 's option" +
  fixes allowed :: "'e \<Rightarrow> bool"
    and reach :: "'s \<Rightarrow> bool"
  assumes reach_step: "reach s \<Longrightarrow> allowed e \<Longrightarrow> step e s = Some s' \<Longrightarrow> reach s'"
begin

lemma reach_run: "reach s \<Longrightarrow> list_all allowed es \<Longrightarrow> run es s = Some s' \<Longrightarrow> reach s'"
  by (induction es arbitrary: s) (auto simp: run_Nil run_Cons split: option.splits intro: reach_step)

end

end
