(* ===== verification/BulkheadSystem.thy ===== *)
theory BulkheadSystem
  imports Bulkhead Runs
begin

text \<open>
  The concurrent system around one bulkhead: the calls of \<open>Execute\<close> in flight, the clock, and a
  call of \<open>Close\<close>. The events are executable, so a concrete run is evaluated by the kernel; the
  reachable states are an inductive predicate, and the invariants are proved by rule induction.
\<close>

section \<open>Calls, events, steps\<close>

text \<open>Where a call of \<open>Execute\<close> can be: before \<open>acquireSemaphore\<close>, in the \<open>select\<close> of
  \<open>waitForSemaphore\<close> (with its timeout context), inside the function, or finished.\<close>

datatype bh_call =
    BhEntered ctx
  | BhWaiting ctx
  | BhRunning instant
  | BhReturned "goerr option"
  | BhPanicked panic

fun is_entered :: "bh_call \<Rightarrow> bool" where
  "is_entered (BhEntered _) = True" | "is_entered _ = False"
fun is_waiting :: "bh_call \<Rightarrow> bool" where
  "is_waiting (BhWaiting _) = True" | "is_waiting _ = False"
fun is_running :: "bh_call \<Rightarrow> bool" where
  "is_running (BhRunning _) = True" | "is_running _ = False"

record bh_sys =
  bs_b :: Bulkhead
  bs_calls :: "bh_call list"
  bs_now :: instant
  bs_draining :: "instant option"
  bs_chclosed :: bool

datatype bh_event =
    BhCall "ctx option" bool
  | BhAcquire nat bool bool
  | BhWake nat bool
  | BhReturn nat "goerr option"
  | BhFnPanic nat nat
  | BhTick nat
  | BhClose
  | BhClosePoll
  | BhCloseForce
  | BhReset
  | BhHealth

definition bh_init :: "BulkheadConfig \<Rightarrow> instant \<Rightarrow> bh_sys" where
  "bh_init cfg now =
     \<lparr>bs_b = make_Bulkhead now (applyBulkheadDefaults cfg), bs_calls = [], bs_now = now,
      bs_draining = None, bs_chclosed = False\<rparr>"

text \<open>Call \<open>i\<close> moves on, and the bulkhead with it.\<close>

definition bh_move :: "nat \<Rightarrow> bh_call \<Rightarrow> Bulkhead \<Rightarrow> bh_sys \<Rightarrow> bh_sys" where
  "bh_move i c b s = s\<lparr>bs_b := b, bs_calls := (bs_calls s)[i := c]\<rparr>"

definition call_at :: "bh_sys \<Rightarrow> nat \<Rightarrow> bh_call option" where
  "call_at s i = (if i < length (bs_calls s) then Some (bs_calls s ! i) else None)"

definition bh_acquired :: "nat \<Rightarrow> ctx \<Rightarrow> acquire_result \<times> Bulkhead \<Rightarrow> bh_sys \<Rightarrow> bh_sys" where
  "bh_acquired i cx r s =
     (case r of
        (Acquired, b) \<Rightarrow> bh_move i (BhRunning (bs_now s)) b s
      | (MustWait, b) \<Rightarrow>
          bh_move i (BhWaiting (WithTimeout (bs_now s) (bh_MaxWaitDuration (bh_config b)) cx)) b s
      | (Refused err, b) \<Rightarrow> bh_move i (BhReturned (Some err)) (add_RejectedCalls 1 b) s
      | (AcquirePanics p, b) \<Rightarrow> bh_move i (BhPanicked p) b s)"

definition bh_close_channels :: "bh_sys \<Rightarrow> bh_sys option" where
  "bh_close_channels s =
     map_option (\<lambda>b. s\<lparr>bs_b := b, bs_chclosed := True\<rparr>) (Bulkhead_closeChannels (bs_b s))"

text \<open>\<open>None\<close>: the event cannot happen in this state.\<close>

fun bh_step :: "bh_event \<Rightarrow> bh_sys \<Rightarrow> bh_sys option" where
  "bh_step (BhCall c fn_nil) s =
     (case Bulkhead_Execute_entry (bs_now s) c fn_nil (bs_b s) of
        Inl err \<Rightarrow> Some (s\<lparr>bs_calls := bs_calls s @ [BhReturned (Some err)]\<rparr>)
      | Inr (cx, b) \<Rightarrow> Some (s\<lparr>bs_b := b, bs_calls := bs_calls s @ [BhEntered cx]\<rparr>))"
| "bh_step (BhAcquire i pick pick') s =
     (case call_at s i of
        Some (BhEntered cx) \<Rightarrow>
          Some (bh_acquired i cx
            (Bulkhead_acquireSemaphore pick pick' (ctx_err (bs_now s) cx) (bs_b s)) s)
      | _ \<Rightarrow> None)"
| "bh_step (BhWake i pick) s =
     (case call_at s i of
        Some (BhWaiting cx) \<Rightarrow>
          (case Bulkhead_waitForSemaphore pick (ctx_err (bs_now s) cx) (bs_b s) of
             None \<Rightarrow> None
           | Some r \<Rightarrow> Some (bh_acquired i cx r s))
      | _ \<Rightarrow> None)"
| "bh_step (BhReturn i err) s =
     (case call_at s i of
        Some (BhRunning start) \<Rightarrow>
          map_option (\<lambda>b. bh_move i (BhReturned err) b s)
            (Bulkhead_releaseSemaphore (Bulkhead_executeWithTimeout start (bs_now s) err (bs_b s)))
      | _ \<Rightarrow> None)"
| "bh_step (BhFnPanic i n) s =
     (case call_at s i of
        Some (BhRunning start) \<Rightarrow>
          map_option (\<lambda>b. bh_move i (BhPanicked (UserPanic n)) b s) (Bulkhead_releaseSemaphore (bs_b s))
      | _ \<Rightarrow> None)"
| "bh_step (BhTick d) s = Some (s\<lparr>bs_now := bs_now s + int d\<rparr>)"
| "bh_step BhClose s =
     (case Bulkhead_Close_flag (bs_b s) of
        (None, b) \<Rightarrow> Some (s\<lparr>bs_b := b, bs_draining := Some (bs_now s)\<rparr>)
      | (Some _, _) \<Rightarrow> Some s)"
| "bh_step BhClosePoll s =
     (if bs_draining s \<noteq> None \<and> \<not> bs_chclosed s
         \<and> bm_CurrentConcurrentCalls (bh_metrics (bs_b s)) = 0
      then bh_close_channels s else None)"
| "bh_step BhCloseForce s =
     (case bs_draining s of
        Some t \<Rightarrow> if \<not> bs_chclosed s \<and> t + close_grace \<le> bs_now s then bh_close_channels s else None
      | None \<Rightarrow> None)"
| "bh_step BhReset s = Some (s\<lparr>bs_b := Bulkhead_ResetMetrics (bs_now s) (bs_b s)\<rparr>)"
| "bh_step BhHealth s = Some (s\<lparr>bs_b := snd (Bulkhead_IsHealthy (bs_now s) (bs_b s))\<rparr>)"

fun bh_run :: "bh_event list \<Rightarrow> bh_sys \<Rightarrow> bh_sys option" where
  "bh_run [] s = Some s"
| "bh_run (e # es) s = (case bh_step e s of None \<Rightarrow> None | Some s' \<Rightarrow> bh_run es s')"

text \<open>The states reachable by events that satisfy \<open>P\<close>.\<close>

inductive bh_reach :: "(bh_event \<Rightarrow> bool) \<Rightarrow> BulkheadConfig \<Rightarrow> bh_sys \<Rightarrow> bool"
  for P cfg where
  init: "validateBulkheadConfig cfg = None \<Longrightarrow> bh_reach P cfg (bh_init cfg now)"
| step: "bh_reach P cfg s \<Longrightarrow> P e \<Longrightarrow> bh_step e s = Some s' \<Longrightarrow> bh_reach P cfg s'"

interpretation bhr: reachable_runs bh_step bh_run P "bh_reach P cfg" for P cfg
  by unfold_locales (auto intro: bh_reach.step)

lemma bh_reach_weaken: "bh_reach P cfg s \<Longrightarrow> bh_reach (\<lambda>_. True) cfg s"
  by (induction rule: bh_reach.induct) (auto intro: bh_reach.intros)

section \<open>What one step of a call does\<close>

lemma acquireSemaphore_cases:
  assumes "Bulkhead_acquireSemaphore p p' ce b = (r, b')"
  obtains
    (acquired) "r = Acquired" "\<not> ch_closed (bh_semaphore b)"
      "length (ch_buf (bh_semaphore b)) < ch_cap (bh_semaphore b)"
      "b' = add_CurrentConcurrentCalls 1
              (b\<lparr>bh_semaphore := (bh_semaphore b)\<lparr>ch_buf := ch_buf (bh_semaphore b) @ [()]\<rparr>\<rparr>)"
  | (queued) "r = MustWait" "\<not> ch_closed (bh_queue b)"
      "length (ch_buf (bh_queue b)) < ch_cap (bh_queue b)"
      "ch_cap (bh_semaphore b) \<le> length (ch_buf (bh_semaphore b))"
      "b' = b\<lparr>bh_queue := (bh_queue b)\<lparr>ch_buf := ch_buf (bh_queue b) @ [()]\<rparr>\<rparr>"
  | (refused) e where "r = Refused e" "b' = b"
  | (panics) "r = AcquirePanics SendOnClosedChannel" "b' = b"
      "ch_closed (bh_semaphore b) \<or> ch_closed (bh_queue b)"
proof (cases "select_send p (ce \<noteq> None) (bh_semaphore b) ()")
  case (SelSent c)
  with assms have "r = Acquired" "b' = add_CurrentConcurrentCalls 1 (b\<lparr>bh_semaphore := c\<rparr>)"
    by (simp_all only: Bulkhead_acquireSemaphore_def select_result.case prod.inject)
  with SelSent acquired show thesis by (simp only: select_send_SelSent_iff) blast
next
  case SelDone
  with assms refused show thesis
    by (simp only: Bulkhead_acquireSemaphore_def select_result.case prod.inject) blast
next
  case SelPanic
  with assms panics show thesis
    by (simp only: Bulkhead_acquireSemaphore_def select_result.case prod.inject select_send_SelPanic_iff) blast
next
  case SelDefault
  with assms have q: "Bulkhead_acquireFromQueue p' ce b = (r, b')"
    by (simp only: Bulkhead_acquireSemaphore_def select_result.case)
  show thesis
  proof (cases "select_send p' (ce \<noteq> None) (bh_queue b) ()")
    case (SelSent c)
    with q have "r = MustWait" "b' = b\<lparr>bh_queue := c\<rparr>"
      by (simp_all only: Bulkhead_acquireFromQueue_def select_result.case prod.inject)
    with SelSent SelDefault queued show thesis
      by (simp only: select_send_SelSent_iff select_send_SelDefault_iff) blast
  next
    case SelDone
    with q refused show thesis
      by (simp only: Bulkhead_acquireFromQueue_def select_result.case prod.inject) blast
  next
    case SelPanic
    with q panics show thesis
      by (simp only: Bulkhead_acquireFromQueue_def select_result.case prod.inject select_send_SelPanic_iff) blast
  next
    case SelDefault
    with q refused show thesis
      by (simp only: Bulkhead_acquireFromQueue_def select_result.case prod.inject) blast
  qed
qed

lemma take_queue_token_cases:
  assumes "take_queue_token b = Some b'"
  obtains (token) xs where "ch_buf (bh_queue b) = () # xs"
      "b' = b\<lparr>bh_queue := (bh_queue b)\<lparr>ch_buf := xs\<rparr>\<rparr>"
  | (drained) "ch_buf (bh_queue b) = []" "ch_closed (bh_queue b)" "b' = b"
proof (cases "ch_buf (bh_queue b)")
  case Nil
  with assms drained show thesis
    by (simp add: take_queue_token_def chan_recv_def split: if_splits)
next
  case (Cons x xs)
  with assms token show thesis by (simp add: take_queue_token_def chan_recv_def)
qed

lemma waitForSemaphore_cases:
  assumes "Bulkhead_waitForSemaphore p we b = Some (r, b')"
  obtains
    (acquired) t where "r = Acquired" "\<not> ch_closed (bh_semaphore b)"
      "length (ch_buf (bh_semaphore b)) < ch_cap (bh_semaphore b)"
      "take_queue_token (b\<lparr>bh_semaphore := (bh_semaphore b)\<lparr>ch_buf := ch_buf (bh_semaphore b) @ [()]\<rparr>\<rparr>)
         = Some t"
      "b' = add_CurrentConcurrentCalls 1 t"
  | (timeout) t where "r = Refused (Sentinel (EBulkhead ErrBulkheadTimeout))"
      "we = Some CtxDeadlineExceeded" "take_queue_token b = Some t" "b' = add_TimeoutCalls 1 t"
  | (cancelled) "r = Refused (wrapping (common ErrContextCancelled))" "take_queue_token b = Some b'"
  | (panics) "r = AcquirePanics SendOnClosedChannel" "b' = b" "ch_closed (bh_semaphore b)"
proof (cases "select_send p (we \<noteq> None) (bh_semaphore b) ()")
  case (SelSent c)
  with assms obtain t where "take_queue_token (b\<lparr>bh_semaphore := c\<rparr>) = Some t" "r = Acquired"
      "b' = add_CurrentConcurrentCalls 1 t"
    by (auto simp only: Bulkhead_waitForSemaphore_def select_result.case map_option_eq_Some prod.inject)
  with SelSent acquired show thesis by (simp only: select_send_SelSent_iff) blast
next
  case SelDone
  with assms obtain t where "take_queue_token b = Some t"
      "(r, b') = (if we = Some CtxDeadlineExceeded
         then (Refused (Sentinel (EBulkhead ErrBulkheadTimeout)), add_TimeoutCalls 1 t)
         else (Refused (wrapping (common ErrContextCancelled)), t))"
    by (auto simp only: Bulkhead_waitForSemaphore_def select_result.case map_option_eq_Some)
  with timeout cancelled show thesis by (simp split: if_splits)
next
  case SelPanic
  with assms panics show thesis
    by (simp only: Bulkhead_waitForSemaphore_def select_result.case option.inject prod.inject
        select_send_SelPanic_iff)
next
  case SelDefault
  with assms show thesis by (simp only: Bulkhead_waitForSemaphore_def select_result.case) simp
qed

lemma releaseSemaphore_cases:
  assumes "Bulkhead_releaseSemaphore b = Some b'"
  obtains (token) xs where "ch_buf (bh_semaphore b) = () # xs"
      "b' = add_CurrentConcurrentCalls (- 1) (b\<lparr>bh_semaphore := (bh_semaphore b)\<lparr>ch_buf := xs\<rparr>\<rparr>)"
  | (drained) "ch_buf (bh_semaphore b) = []" "ch_closed (bh_semaphore b)"
      "b' = add_CurrentConcurrentCalls (- 1) b"
proof (cases "ch_buf (bh_semaphore b)")
  case Nil
  with assms drained show thesis
    by (simp add: Bulkhead_releaseSemaphore_def chan_recv_def split: if_splits)
next
  case (Cons x xs)
  with assms token show thesis by (simp add: Bulkhead_releaseSemaphore_def chan_recv_def)
qed

text \<open>The metrics of a finished call: nothing but the metrics changes.\<close>

lemma executeWithTimeout_frame [simp]:
  "bh_config (Bulkhead_executeWithTimeout st now err b) = bh_config b"
  "bh_semaphore (Bulkhead_executeWithTimeout st now err b) = bh_semaphore b"
  "bh_queue (Bulkhead_executeWithTimeout st now err b) = bh_queue b"
  "bh_closed (Bulkhead_executeWithTimeout st now err b) = bh_closed b"
  by (simp_all add: Bulkhead_executeWithTimeout_def Bulkhead_updateExecutionMetrics_def Let_def
      add_FailedCalls_def add_SuccessfulCalls_def)

lemma IsHealthy_frame [simp]:
  "bh_config (snd (Bulkhead_IsHealthy now b)) = bh_config b"
  "bh_semaphore (snd (Bulkhead_IsHealthy now b)) = bh_semaphore b"
  "bh_queue (snd (Bulkhead_IsHealthy now b)) = bh_queue b"
  "bh_closed (snd (Bulkhead_IsHealthy now b)) = bh_closed b"
  by (simp_all add: Bulkhead_IsHealthy_def Bulkhead_updateHealthStatus_def Let_def)

lemma ResetMetrics_frame [simp]:
  "bh_config (Bulkhead_ResetMetrics now b) = bh_config b"
  "bh_semaphore (Bulkhead_ResetMetrics now b) = bh_semaphore b"
  "bh_queue (Bulkhead_ResetMetrics now b) = bh_queue b"
  "bh_closed (Bulkhead_ResetMetrics now b) = bh_closed b"
  by (simp_all add: Bulkhead_ResetMetrics_def)

lemma add_frame [simp]:
  "bh_config (add_CurrentConcurrentCalls n b) = bh_config b"
  "bh_semaphore (add_CurrentConcurrentCalls n b) = bh_semaphore b"
  "bh_queue (add_CurrentConcurrentCalls n b) = bh_queue b"
  "bh_closed (add_CurrentConcurrentCalls n b) = bh_closed b"
  "bh_config (add_TimeoutCalls n b) = bh_config b"
  "bh_semaphore (add_TimeoutCalls n b) = bh_semaphore b"
  "bh_queue (add_TimeoutCalls n b) = bh_queue b"
  "bh_closed (add_TimeoutCalls n b) = bh_closed b"
  "bh_config (add_RejectedCalls n b) = bh_config b"
  "bh_semaphore (add_RejectedCalls n b) = bh_semaphore b"
  "bh_queue (add_RejectedCalls n b) = bh_queue b"
  "bh_closed (add_RejectedCalls n b) = bh_closed b"
  "bh_config (add_TotalCalls n b) = bh_config b"
  "bh_semaphore (add_TotalCalls n b) = bh_semaphore b"
  "bh_queue (add_TotalCalls n b) = bh_queue b"
  "bh_closed (add_TotalCalls n b) = bh_closed b"
  by (simp_all add: add_defs)

lemma Execute_entry_cases:
  assumes "Bulkhead_Execute_entry now c fn_nil b = Inr (cx, b')"
  shows "c = Some cx" "\<not> fn_nil" "\<not> bh_closed b" "ctx_err now cx = None" "b' = add_TotalCalls 1 b"
  using assms
  by (auto simp: Bulkhead_Execute_entry_def validateExecuteInputsBulkhead_def
      split: if_splits option.splits)

lemma bh_step_call:
  assumes "bh_step (BhCall c f) s = Some s'"
  obtains
    (turned_away) err where "s' = s\<lparr>bs_calls := bs_calls s @ [BhReturned (Some err)]\<rparr>"
  | (entered) cx where "ctx_err (bs_now s) cx = None"
      "s' = s\<lparr>bs_b := add_TotalCalls 1 (bs_b s), bs_calls := bs_calls s @ [BhEntered cx]\<rparr>"
  using assms Execute_entry_cases [of "bs_now s" c f "bs_b s"]
  by (auto split: sum.splits)

text \<open>The effects of a step, one case per kind of event.\<close>

lemma bh_step_cases:
  assumes e: "bh_step e s = Some s'"
  obtains
    (turned_away) err where "s' = s\<lparr>bs_calls := bs_calls s @ [BhReturned (Some err)]\<rparr>"
  | (entered) cx where "ctx_err (bs_now s) cx = None"
      "s' = s\<lparr>bs_b := add_TotalCalls 1 (bs_b s), bs_calls := bs_calls s @ [BhEntered cx]\<rparr>"
  | (acquire) i cx p p' r b where "call_at s i = Some (BhEntered cx)"
      "Bulkhead_acquireSemaphore p p' (ctx_err (bs_now s) cx) (bs_b s) = (r, b)"
      "s' = bh_acquired i cx (r, b) s"
  | (wake) i cx p r b where "call_at s i = Some (BhWaiting cx)"
      "Bulkhead_waitForSemaphore p (ctx_err (bs_now s) cx) (bs_b s) = Some (r, b)"
      "s' = bh_acquired i cx (r, b) s"
  | (returned) i t err b where "call_at s i = Some (BhRunning t)"
      "Bulkhead_releaseSemaphore (Bulkhead_executeWithTimeout t (bs_now s) err (bs_b s)) = Some b"
      "s' = bh_move i (BhReturned err) b s"
  | (fn_panic) i t n b where "call_at s i = Some (BhRunning t)"
      "Bulkhead_releaseSemaphore (bs_b s) = Some b" "s' = bh_move i (BhPanicked (UserPanic n)) b s"
  | (flagged) "s' = s\<lparr>bs_b := (bs_b s)\<lparr>bh_closed := True\<rparr>, bs_draining := Some (bs_now s)\<rparr>"
  | (channels) "bs_draining s \<noteq> None" "bh_close_channels s = Some s'"
  | (reset) "e = BhReset" "s' = s\<lparr>bs_b := Bulkhead_ResetMetrics (bs_now s) (bs_b s)\<rparr>"
  | (health) "s' = s\<lparr>bs_b := snd (Bulkhead_IsHealthy (bs_now s) (bs_b s))\<rparr>"
  | (tick) t where "s' = s\<lparr>bs_now := t\<rparr>"
proof (cases e)
  case (BhCall c f)
  with e have "bh_step (BhCall c f) s = Some s'" by simp
  then show thesis by (rule bh_step_call) (rule turned_away entered; assumption)+
next
  case (BhAcquire i p p')
  with e obtain cx where "call_at s i = Some (BhEntered cx)"
    "s' = bh_acquired i cx (Bulkhead_acquireSemaphore p p' (ctx_err (bs_now s) cx) (bs_b s)) s"
    by (auto split: option.splits bh_call.splits)
  with acquire show thesis by (metis surj_pair)
next
  case BhClose
  with e flagged tick [of "bs_now s"] show thesis
    by (auto simp: Bulkhead_Close_flag_def split: if_splits)
next
  case (BhWake i p)
  with e obtain cx r b where "call_at s i = Some (BhWaiting cx)"
    "Bulkhead_waitForSemaphore p (ctx_err (bs_now s) cx) (bs_b s) = Some (r, b)"
    "s' = bh_acquired i cx (r, b) s"
    by (auto split: option.splits bh_call.splits)
  then show thesis by (rule wake)
next
  case (BhReturn i err)
  with e obtain t b where "call_at s i = Some (BhRunning t)"
    "Bulkhead_releaseSemaphore (Bulkhead_executeWithTimeout t (bs_now s) err (bs_b s)) = Some b"
    "s' = bh_move i (BhReturned err) b s"
    by (auto split: option.splits bh_call.splits)
  then show thesis by (rule returned)
next
  case (BhFnPanic i n)
  with e obtain t b where "call_at s i = Some (BhRunning t)"
    "Bulkhead_releaseSemaphore (bs_b s) = Some b" "s' = bh_move i (BhPanicked (UserPanic n)) b s"
    by (auto split: option.splits bh_call.splits)
  then show thesis by (rule fn_panic)
next
  case BhClosePoll
  with e channels show thesis by (simp split: if_splits)
next
  case BhCloseForce
  with e channels show thesis by (simp split: if_splits option.splits)
next
  case (BhTick d)
  with e tick [of "bs_now s + int d"] show thesis by simp
next
  case BhReset
  with e have "s' = s\<lparr>bs_b := Bulkhead_ResetMetrics (bs_now s) (bs_b s)\<rparr>" by simp
  with BhReset show thesis by (rule reset)
next
  case BhHealth
  with e have "s' = s\<lparr>bs_b := snd (Bulkhead_IsHealthy (bs_now s) (bs_b s))\<rparr>" by simp
  then show thesis by (rule health)
qed

section \<open>What the two channels count\<close>

text \<open>
  The tokens in the semaphore are the running calls; the tokens in the queue are the waiting calls,
  as long as the channels are open (a waiting call that panics on the closed semaphore leaves its
  token behind).
\<close>

definition bh_inv :: "BulkheadConfig \<Rightarrow> bh_sys \<Rightarrow> bool" where
  "bh_inv cfg s \<longleftrightarrow>
     (let b = bs_b s; sem = bh_semaphore b; q = bh_queue b in
      bh_config b = cfg
      \<and> ch_cap sem = nat (bh_MaxConcurrentCalls cfg) \<and> ch_cap q = nat (bh_MaxQueueSize cfg)
      \<and> ch_closed sem = bs_chclosed s \<and> ch_closed q = bs_chclosed s
      \<and> length (ch_buf sem) = countp is_running (bs_calls s)
      \<and> countp is_waiting (bs_calls s) \<le> length (ch_buf q)
      \<and> (\<not> bs_chclosed s \<longrightarrow> length (ch_buf q) = countp is_waiting (bs_calls s))
      \<and> length (ch_buf sem) \<le> ch_cap sem \<and> length (ch_buf q) \<le> ch_cap q
      \<and> bh_closed b = (bs_draining s \<noteq> None)
      \<and> (\<not> bs_chclosed s \<longrightarrow> BhPanicked SendOnClosedChannel \<notin> set (bs_calls s)))"

lemma call_at_Some: "call_at s i = Some c \<longleftrightarrow> i < length (bs_calls s) \<and> bs_calls s ! i = c"
  by (auto simp: call_at_def)

lemma bh_inv_init:
  "validateBulkheadConfig cfg = None \<Longrightarrow> bh_inv cfg (bh_init cfg now)"
  by (simp add: bh_inv_def bh_init_def make_Bulkhead_def applyBulkheadDefaults_valid)

lemma set_update_notin:
  "y \<notin> set xs \<Longrightarrow> x \<noteq> y \<Longrightarrow> y \<notin> set (xs[i := x])"
  using set_update_subset_insert [of xs i x] by auto

lemma bh_inv_move:
  assumes inv: "bh_inv cfg s" and i: "call_at s i = Some c"
    and b: "bh_config b = cfg" "ch_cap (bh_semaphore b) = ch_cap (bh_semaphore (bs_b s))"
      "ch_cap (bh_queue b) = ch_cap (bh_queue (bs_b s))"
      "ch_closed (bh_semaphore b) = bs_chclosed s" "ch_closed (bh_queue b) = bs_chclosed s"
      "bh_closed b = bh_closed (bs_b s)"
    and sem: "length (ch_buf (bh_semaphore b)) + of_bool (is_running c)
        = length (ch_buf (bh_semaphore (bs_b s))) + of_bool (is_running c')"
      "length (ch_buf (bh_semaphore b)) \<le> ch_cap (bh_semaphore b)"
    and q: "length (ch_buf (bh_queue (bs_b s))) + of_bool (is_waiting c')
        \<le> length (ch_buf (bh_queue b)) + of_bool (is_waiting c)"
      "\<not> bs_chclosed s \<Longrightarrow> length (ch_buf (bh_queue b)) + of_bool (is_waiting c)
        = length (ch_buf (bh_queue (bs_b s))) + of_bool (is_waiting c')"
      "length (ch_buf (bh_queue b)) \<le> ch_cap (bh_queue b)"
    and p: "\<not> bs_chclosed s \<Longrightarrow> c' \<noteq> BhPanicked SendOnClosedChannel"
  shows "bh_inv cfg (bh_move i c' b s)"
proof -
  have len: "i < length (bs_calls s)" "bs_calls s ! i = c" using i by (auto simp: call_at_Some)
  have "countp is_running ((bs_calls s)[i := c']) + of_bool (is_running c)
          = countp is_running (bs_calls s) + of_bool (is_running c')"
    "countp is_waiting ((bs_calls s)[i := c']) + of_bool (is_waiting c)
          = countp is_waiting (bs_calls s) + of_bool (is_waiting c')"
    using countp_update [OF len(1)] len(2) by auto
  moreover have "\<not> bs_chclosed s \<Longrightarrow> BhPanicked SendOnClosedChannel \<notin> set ((bs_calls s)[i := c'])"
    using p inv by (intro set_update_notin) (auto simp: bh_inv_def Let_def)
  ultimately show ?thesis
    using inv b sem q unfolding bh_inv_def bh_move_def Let_def by (cases "bs_chclosed s") simp_all
qed

lemma bh_invD:
  assumes "bh_inv cfg s"
  shows "bh_config (bs_b s) = cfg"
    and "ch_closed (bh_semaphore (bs_b s)) = bs_chclosed s"
    and "ch_closed (bh_queue (bs_b s)) = bs_chclosed s"
    and "length (ch_buf (bh_semaphore (bs_b s))) \<le> ch_cap (bh_semaphore (bs_b s))"
    and "length (ch_buf (bh_queue (bs_b s))) \<le> ch_cap (bh_queue (bs_b s))"
    and "length (ch_buf (bh_semaphore (bs_b s))) = countp is_running (bs_calls s)"
    and "countp is_waiting (bs_calls s) \<le> length (ch_buf (bh_queue (bs_b s)))"
    and "bh_closed (bs_b s) = (bs_draining s \<noteq> None)"
  using assms by (simp_all add: bh_inv_def Let_def)

lemma take_queue_token_frame:
  assumes "take_queue_token b = Some t"
  shows "bh_config t = bh_config b" "bh_semaphore t = bh_semaphore b" "bh_closed t = bh_closed b"
    "ch_cap (bh_queue t) = ch_cap (bh_queue b)" "ch_closed (bh_queue t) = ch_closed (bh_queue b)"
    "length (ch_buf (bh_queue b)) \<le> Suc (length (ch_buf (bh_queue t)))"
    "length (ch_buf (bh_queue t)) \<le> length (ch_buf (bh_queue b))"
    "ch_buf (bh_queue b) \<noteq> [] \<Longrightarrow> Suc (length (ch_buf (bh_queue t))) = length (ch_buf (bh_queue b))"
  using assms by (auto elim!: take_queue_token_cases)

text \<open>A call that waits or runs has a token of its own in the channel.\<close>

lemma waiting_token:
  "bh_inv cfg s \<Longrightarrow> call_at s i = Some (BhWaiting cx) \<Longrightarrow> ch_buf (bh_queue (bs_b s)) \<noteq> []"
  using countp_pos [of i "bs_calls s" is_waiting] bh_invD(7) [of cfg s]
  by (auto simp: call_at_Some)

lemma running_token:
  "bh_inv cfg s \<Longrightarrow> call_at s i = Some (BhRunning t) \<Longrightarrow> ch_buf (bh_semaphore (bs_b s)) \<noteq> []"
  using countp_pos [of i "bs_calls s" is_running] bh_invD(6) [of cfg s]
  by (auto simp: call_at_Some)

lemma bh_acquired_simps:
  "bh_acquired i cx (Acquired, b) s = bh_move i (BhRunning (bs_now s)) b s"
  "bh_acquired i cx (MustWait, b) s =
     bh_move i (BhWaiting (WithTimeout (bs_now s) (bh_MaxWaitDuration (bh_config b)) cx)) b s"
  "bh_acquired i cx (Refused err, b) s = bh_move i (BhReturned (Some err)) (add_RejectedCalls 1 b) s"
  "bh_acquired i cx (AcquirePanics p, b) s = bh_move i (BhPanicked p) b s"
  by (simp_all add: bh_acquired_def)

lemma bh_inv_acquire:
  assumes inv: "bh_inv cfg s" and i: "call_at s i = Some (BhEntered cx)"
    and r: "Bulkhead_acquireSemaphore p p' ce (bs_b s) = (r, b)"
  shows "bh_inv cfg (bh_acquired i cx (r, b) s)"
  using r
proof (cases rule: acquireSemaphore_cases)
  case acquired
  show ?thesis unfolding acquired(1) bh_acquired_simps
    by (rule bh_inv_move [OF inv i]) (use acquired bh_invD [OF inv] in simp_all)
next
  case queued
  show ?thesis unfolding queued(1) bh_acquired_simps
    by (rule bh_inv_move [OF inv i]) (use queued bh_invD [OF inv] in simp_all)
next
  case (refused e)
  show ?thesis unfolding refused(1) bh_acquired_simps
    by (rule bh_inv_move [OF inv i]) (use refused bh_invD [OF inv] in simp_all)
next
  case panics
  show ?thesis unfolding panics(1) bh_acquired_simps
    by (rule bh_inv_move [OF inv i]) (use panics bh_invD [OF inv] in simp_all)
qed

lemma bh_inv_wake:
  assumes inv: "bh_inv cfg s" and i: "call_at s i = Some (BhWaiting cx)"
    and r: "Bulkhead_waitForSemaphore p we (bs_b s) = Some (r, b)"
  shows "bh_inv cfg (bh_acquired i cx' (r, b) s)"
proof -
  note ne = waiting_token [OF inv i]
  from r show ?thesis
  proof (cases rule: waitForSemaphore_cases)
    case (acquired t)
    note t = take_queue_token_frame [OF acquired(4)]
    show ?thesis unfolding acquired(1) bh_acquired_simps
      by (rule bh_inv_move [OF inv i]) (use acquired ne t bh_invD [OF inv] in simp_all)
  next
    case (timeout t)
    note t = take_queue_token_frame [OF timeout(3)]
    show ?thesis unfolding timeout(1) bh_acquired_simps
      by (rule bh_inv_move [OF inv i]) (use timeout ne t bh_invD [OF inv] in simp_all)
  next
    case cancelled
    note t = take_queue_token_frame [OF cancelled(2)]
    show ?thesis unfolding cancelled(1) bh_acquired_simps
      by (rule bh_inv_move [OF inv i]) (use ne t bh_invD [OF inv] in simp_all)
  next
    case panics
    show ?thesis unfolding panics(1) bh_acquired_simps
      by (rule bh_inv_move [OF inv i]) (use panics bh_invD [OF inv] in simp_all)
  qed
qed

lemma bh_inv_release:
  assumes inv: "bh_inv cfg s" and i: "call_at s i = Some (BhRunning t)"
    and b0: "bh_config b0 = bh_config (bs_b s)" "bh_semaphore b0 = bh_semaphore (bs_b s)"
      "bh_queue b0 = bh_queue (bs_b s)" "bh_closed b0 = bh_closed (bs_b s)"
    and r: "Bulkhead_releaseSemaphore b0 = Some b"
    and c': "\<not> is_running c'" "\<not> is_waiting c'" "c' \<noteq> BhPanicked SendOnClosedChannel"
  shows "bh_inv cfg (bh_move i c' b s)"
  using r
proof (cases rule: releaseSemaphore_cases)
  case (token xs)
  show ?thesis
    by (rule bh_inv_move [OF inv i]) (use token b0 c' bh_invD [OF inv] in simp_all)
next
  case drained
  with running_token [OF inv i] b0 show ?thesis by simp
qed

lemma bh_inv_closeChannels:
  assumes inv: "bh_inv cfg s" and d: "bs_draining s \<noteq> None"
    and c: "bh_close_channels s = Some s'"
  shows "bh_inv cfg s'"
proof -
  let ?close = "\<lambda>c. c\<lparr>ch_closed := True\<rparr> :: unit chan"
  from c have s': "s' = s\<lparr>bs_b := (bs_b s)\<lparr>bh_semaphore := ?close (bh_semaphore (bs_b s)),
      bh_queue := ?close (bh_queue (bs_b s))\<rparr>, bs_chclosed := True\<rparr>"
    by (auto simp: bh_close_channels_def Bulkhead_closeChannels_def chan_close_def split: if_splits)
  show ?thesis unfolding s' using inv d by (simp add: bh_inv_def Let_def)
qed

lemma bh_inv_frame:
  "bh_inv cfg s \<Longrightarrow> bs_calls s' = bs_calls s \<Longrightarrow> bs_chclosed s' = bs_chclosed s
    \<Longrightarrow> bh_config (bs_b s') = bh_config (bs_b s)
    \<Longrightarrow> bh_semaphore (bs_b s') = bh_semaphore (bs_b s) \<Longrightarrow> bh_queue (bs_b s') = bh_queue (bs_b s)
    \<Longrightarrow> bh_closed (bs_b s') = (bs_draining s' \<noteq> None) \<Longrightarrow> bh_inv cfg s'"
  by (simp add: bh_inv_def Let_def)

lemma bh_inv_step:
  assumes inv: "bh_inv cfg s" and e: "bh_step e s = Some s'"
  shows "bh_inv cfg s'"
  using e
proof (cases rule: bh_step_cases)
  case (turned_away err)
  then show ?thesis using inv by (simp add: bh_inv_def Let_def)
next
  case (entered cx)
  then show ?thesis using inv by (simp add: bh_inv_def Let_def)
next
  case (returned i t err b)
  show ?thesis unfolding returned(3)
    by (rule bh_inv_release [OF inv returned(1) _ _ _ _ returned(2)]) simp_all
next
  case (fn_panic i t n b)
  show ?thesis unfolding fn_panic(3)
    by (rule bh_inv_release [OF inv fn_panic(1) _ _ _ _ fn_panic(2)]) simp_all
next
  case (acquire i cx p p' r b)
  then show ?thesis using bh_inv_acquire [OF inv] by simp
next
  case (wake i cx p r b)
  then show ?thesis using bh_inv_wake [OF inv] by simp
next
  case channels
  then show ?thesis by (rule bh_inv_closeChannels [OF inv])
qed (use bh_invD(8) [OF inv] in \<open>simp_all add: bh_inv_frame [OF inv]\<close>)

lemma bh_reach_inv: "bh_reach P cfg s \<Longrightarrow> bh_inv cfg s"
  by (induction rule: bh_reach.induct) (blast intro: bh_inv_init bh_inv_step)+

section \<open>The accounting of the metrics\<close>

text \<open>Calls that were counted on entry and have not been settled as a success, a failure or a
  rejection: those in flight, and those that ended in a panic.\<close>

fun is_unsettled :: "bh_call \<Rightarrow> bool" where
  "is_unsettled (BhReturned _) = False" | "is_unsettled _ = True"

definition bh_settled :: "BulkheadMetrics \<Rightarrow> counter" where
  "bh_settled m = bm_SuccessfulCalls m + bm_FailedCalls m + bm_RejectedCalls m"

definition bh_acct :: "bh_sys \<Rightarrow> bool" where
  "bh_acct s \<longleftrightarrow>
     (let m = bh_metrics (bs_b s) in
      bm_TotalCalls m = bh_settled m + of_nat (countp is_unsettled (bs_calls s))
      \<and> bm_CurrentConcurrentCalls m = of_nat (countp is_running (bs_calls s)))"

lemma countp_update_word:
  "i < length xs \<Longrightarrow>
     (of_nat (countp P (xs[i := v])) :: counter) + of_bool (P (xs ! i))
       = of_nat (countp P xs) + of_bool (P v)"
  using arg_cong [OF countp_update [of i xs P v], of "of_nat :: nat \<Rightarrow> counter"] by simp

lemma bh_acct_move:
  assumes a: "bh_acct s" and i: "call_at s i = Some c"
    and t: "bm_TotalCalls (bh_metrics b) = bm_TotalCalls (bh_metrics (bs_b s))"
    and st: "bh_settled (bh_metrics b) + of_bool (is_unsettled c')
        = bh_settled (bh_metrics (bs_b s)) + of_bool (is_unsettled c)"
    and cc: "bm_CurrentConcurrentCalls (bh_metrics b) + of_bool (is_running c)
        = bm_CurrentConcurrentCalls (bh_metrics (bs_b s)) + of_bool (is_running c')"
  shows "bh_acct (bh_move i c' b s)"
proof -
  have len: "i < length (bs_calls s)" "bs_calls s ! i = c" using i by (auto simp: call_at_Some)
  let ?n = "\<lambda>P. of_nat (countp P ((bs_calls s)[i := c'])) :: counter"
  have u: "?n is_unsettled = of_nat (countp is_unsettled (bs_calls s)) + of_bool (is_unsettled c')
      - of_bool (is_unsettled c)"
    and r: "?n is_running = of_nat (countp is_running (bs_calls s)) + of_bool (is_running c')
      - of_bool (is_running c)"
    using countp_update_word [OF len(1)] len(2) by (simp_all add: eq_diff_eq)
  have st': "bh_settled (bh_metrics b) = bh_settled (bh_metrics (bs_b s)) + of_bool (is_unsettled c)
      - of_bool (is_unsettled c')" using st by (simp add: eq_diff_eq)
  have cc': "bm_CurrentConcurrentCalls (bh_metrics b) = bm_CurrentConcurrentCalls (bh_metrics (bs_b s))
      + of_bool (is_running c') - of_bool (is_running c)" using cc by (simp add: eq_diff_eq)
  show ?thesis
    using a unfolding bh_acct_def bh_move_def Let_def by (simp add: t u r st' cc')
qed

lemma add_metrics [simp]:
  "bh_metrics (add_TotalCalls n b) = (bh_metrics b)\<lparr>bm_TotalCalls := bm_TotalCalls (bh_metrics b) + n\<rparr>"
  "bh_metrics (add_RejectedCalls n b)
     = (bh_metrics b)\<lparr>bm_RejectedCalls := bm_RejectedCalls (bh_metrics b) + n\<rparr>"
  "bh_metrics (add_TimeoutCalls n b)
     = (bh_metrics b)\<lparr>bm_TimeoutCalls := bm_TimeoutCalls (bh_metrics b) + n\<rparr>"
  "bh_metrics (add_CurrentConcurrentCalls n b)
     = (bh_metrics b)\<lparr>bm_CurrentConcurrentCalls := bm_CurrentConcurrentCalls (bh_metrics b) + n\<rparr>"
  by (simp_all add: add_defs)

lemma take_queue_token_metrics [simp]: "take_queue_token b = Some t \<Longrightarrow> bh_metrics t = bh_metrics b"
  by (auto elim!: take_queue_token_cases)

lemma executeWithTimeout_metrics [simp]:
  "bm_TotalCalls (bh_metrics (Bulkhead_executeWithTimeout st now err b)) = bm_TotalCalls (bh_metrics b)"
  "bm_CurrentConcurrentCalls (bh_metrics (Bulkhead_executeWithTimeout st now err b))
     = bm_CurrentConcurrentCalls (bh_metrics b)"
  "bh_settled (bh_metrics (Bulkhead_executeWithTimeout st now err b)) = bh_settled (bh_metrics b) + 1"
  by (simp_all add: Bulkhead_executeWithTimeout_def Bulkhead_updateExecutionMetrics_def Let_def
      add_FailedCalls_def add_SuccessfulCalls_def bh_settled_def)

lemma IsHealthy_metrics [simp]:
  "bm_TotalCalls (bh_metrics (snd (Bulkhead_IsHealthy now b))) = bm_TotalCalls (bh_metrics b)"
  "bm_CurrentConcurrentCalls (bh_metrics (snd (Bulkhead_IsHealthy now b)))
     = bm_CurrentConcurrentCalls (bh_metrics b)"
  "bh_settled (bh_metrics (snd (Bulkhead_IsHealthy now b))) = bh_settled (bh_metrics b)"
  by (simp_all add: Bulkhead_IsHealthy_def Bulkhead_updateHealthStatus_def Let_def bh_settled_def)

lemma bh_settled_updates [simp]:
  "bh_settled (m\<lparr>bm_RejectedCalls := bm_RejectedCalls m + 1\<rparr>) = bh_settled m + 1"
  "bh_settled (m\<lparr>bm_TimeoutCalls := x\<rparr>) = bh_settled m"
  "bh_settled (m\<lparr>bm_CurrentConcurrentCalls := x\<rparr>) = bh_settled m"
  "bh_settled (m\<lparr>bm_TotalCalls := x\<rparr>) = bh_settled m"
  by (simp_all add: bh_settled_def)

lemma releaseSemaphore_metrics:
  "Bulkhead_releaseSemaphore b = Some b' \<Longrightarrow>
     bh_metrics b' = (bh_metrics b)\<lparr>bm_CurrentConcurrentCalls := bm_CurrentConcurrentCalls (bh_metrics b) - 1\<rparr>"
  by (auto elim!: releaseSemaphore_cases)

lemma bh_acct_acquire:
  assumes a: "bh_acct s" and i: "call_at s i = Some (BhEntered cx)"
    and r: "Bulkhead_acquireSemaphore p p' ce (bs_b s) = (r, b)"
  shows "bh_acct (bh_acquired i cx (r, b) s)"
  using r
proof (cases rule: acquireSemaphore_cases)
  case acquired
  show ?thesis unfolding acquired(1) bh_acquired_simps
    by (rule bh_acct_move [OF a i]) (simp_all add: acquired)
next
  case queued
  show ?thesis unfolding queued(1) bh_acquired_simps
    by (rule bh_acct_move [OF a i]) (simp_all add: queued)
next
  case (refused e)
  show ?thesis unfolding refused(1) bh_acquired_simps
    by (rule bh_acct_move [OF a i]) (simp_all add: refused)
next
  case panics
  show ?thesis unfolding panics(1) bh_acquired_simps
    by (rule bh_acct_move [OF a i]) (simp_all add: panics)
qed

lemma bh_acct_wake:
  assumes a: "bh_acct s" and i: "call_at s i = Some (BhWaiting cx)"
    and r: "Bulkhead_waitForSemaphore p we (bs_b s) = Some (r, b)"
  shows "bh_acct (bh_acquired i cx' (r, b) s)"
  using r
proof (cases rule: waitForSemaphore_cases)
  case (acquired t)
  show ?thesis unfolding acquired(1) bh_acquired_simps
    by (rule bh_acct_move [OF a i]) (simp_all add: acquired(5) take_queue_token_metrics [OF acquired(4)])
next
  case (timeout t)
  show ?thesis unfolding timeout(1) bh_acquired_simps
    by (rule bh_acct_move [OF a i]) (simp_all add: timeout(4) take_queue_token_metrics [OF timeout(3)] bh_settled_def)
next
  case cancelled
  show ?thesis unfolding cancelled(1) bh_acquired_simps
    by (rule bh_acct_move [OF a i]) (simp_all add: take_queue_token_metrics [OF cancelled(2)])
next
  case panics
  show ?thesis unfolding panics(1) bh_acquired_simps
    by (rule bh_acct_move [OF a i]) (simp_all add: panics)
qed

lemma bh_acct_frame:
  "bh_acct s \<Longrightarrow> bs_calls s' = bs_calls s
    \<Longrightarrow> bm_TotalCalls (bh_metrics (bs_b s')) = bm_TotalCalls (bh_metrics (bs_b s))
    \<Longrightarrow> bm_CurrentConcurrentCalls (bh_metrics (bs_b s')) = bm_CurrentConcurrentCalls (bh_metrics (bs_b s))
    \<Longrightarrow> bh_settled (bh_metrics (bs_b s')) = bh_settled (bh_metrics (bs_b s)) \<Longrightarrow> bh_acct s'"
  by (simp add: bh_acct_def Let_def)

lemma bh_close_channels_metrics:
  "bh_close_channels s = Some s' \<Longrightarrow>
     bh_metrics (bs_b s') = bh_metrics (bs_b s) \<and> bs_calls s' = bs_calls s"
  by (auto simp: bh_close_channels_def Bulkhead_closeChannels_def split: option.splits)

lemma bh_acct_step:
  assumes a: "bh_acct s" and e: "bh_step e s = Some s'" and ne: "e \<noteq> BhReset"
  shows "bh_acct s'"
  using e
proof (cases rule: bh_step_cases)
  case (turned_away err)
  then show ?thesis using a by (simp add: bh_acct_def Let_def)
next
  case (entered cx)
  then show ?thesis using a by (simp add: bh_acct_def Let_def algebra_simps)
next
  case (returned i t err b)
  show ?thesis unfolding returned(3)
    by (rule bh_acct_move [OF a returned(1)]) (simp_all add: releaseSemaphore_metrics [OF returned(2)])
next
  case (fn_panic i t n b)
  show ?thesis unfolding fn_panic(3)
    by (rule bh_acct_move [OF a fn_panic(1)]) (simp_all add: releaseSemaphore_metrics [OF fn_panic(2)])
next
  case channels
  from bh_close_channels_metrics [OF channels(2)] show ?thesis by (intro bh_acct_frame [OF a]) simp_all
next
  case (acquire i cx p p' r b)
  then show ?thesis using bh_acct_acquire [OF a] by simp
next
  case (wake i cx p r b)
  then show ?thesis using bh_acct_wake [OF a] by simp
qed (use ne in \<open>simp_all add: bh_acct_frame [OF a]\<close>)

lemma bh_acct_init: "validateBulkheadConfig cfg = None \<Longrightarrow> bh_acct (bh_init cfg now)"
  by (simp add: bh_acct_def bh_init_def make_Bulkhead_def zero_BulkheadMetrics_def bh_settled_def
      applyBulkheadDefaults_valid)

abbreviation no_reset :: "bh_event \<Rightarrow> bool" where
  "no_reset e \<equiv> e \<noteq> BhReset"

lemma bh_reach_acct: "bh_reach no_reset cfg s \<Longrightarrow> bh_acct s"
  by (induction rule: bh_reach.induct) (blast intro: bh_acct_init bh_acct_step)+

section \<open>Every waiting call carries its deadline\<close>

definition bh_waits :: "bh_sys \<Rightarrow> bool" where
  "bh_waits s \<longleftrightarrow>
     (\<forall>cx. BhWaiting cx \<in> set (bs_calls s) \<longrightarrow>
        (\<exists>d. deadline cx = Some d \<and> d \<le> bs_now s + bh_MaxWaitDuration (bh_config (bs_b s))))"

lemma bh_waits_move:
  assumes w: "bh_waits s" and b: "bh_config b = bh_config (bs_b s)"
    and c: "\<And>cx. c = BhWaiting cx \<Longrightarrow>
      \<exists>d. deadline cx = Some d \<and> d \<le> bs_now s + bh_MaxWaitDuration (bh_config (bs_b s))"
  shows "bh_waits (bh_move i c b s)"
  using w b c set_update_subset_insert [of "bs_calls s" i c]
  by (auto simp: bh_waits_def bh_move_def)

lemma bh_waits_frame:
  "bh_waits s \<Longrightarrow> bs_calls s' = bs_calls s \<Longrightarrow> bs_now s \<le> bs_now s'
    \<Longrightarrow> bh_config (bs_b s') = bh_config (bs_b s) \<Longrightarrow> bh_waits s'"
  unfolding bh_waits_def by fastforce

lemma bh_waits_acquired:
  assumes w: "bh_waits s" and b: "bh_config b = bh_config (bs_b s)"
  shows "bh_waits (bh_acquired i cx (r, b) s)"
proof (cases r)
  case MustWait
  show ?thesis unfolding MustWait bh_acquired_simps
    using WithTimeout_deadline b by (intro bh_waits_move [OF w]) auto
qed (auto simp: bh_acquired_simps b intro!: bh_waits_move [OF w])

lemma acquireSemaphore_config:
  "Bulkhead_acquireSemaphore p p' ce b = (r, b') \<Longrightarrow> bh_config b' = bh_config b"
  by (erule acquireSemaphore_cases) simp_all

lemma waitForSemaphore_config:
  "Bulkhead_waitForSemaphore p we b = Some (r, b') \<Longrightarrow> bh_config b' = bh_config b"
  by (erule waitForSemaphore_cases) (auto dest: take_queue_token_frame(1))

lemma releaseSemaphore_config:
  "Bulkhead_releaseSemaphore b = Some b' \<Longrightarrow> bh_config b' = bh_config b"
  by (erule releaseSemaphore_cases) simp_all

lemma close_channels_frame:
  "bh_close_channels s = Some s' \<Longrightarrow>
     bs_calls s' = bs_calls s \<and> bs_now s' = bs_now s \<and> bh_config (bs_b s') = bh_config (bs_b s)"
  by (auto simp: bh_close_channels_def Bulkhead_closeChannels_def split: option.splits)

lemma bh_step_now: "bh_step e s = Some s' \<Longrightarrow> bs_now s \<le> bs_now s'"
  by (cases e)
    (auto simp: bh_acquired_def bh_move_def Bulkhead_Close_flag_def dest: close_channels_frame
      split: option.splits bh_call.splits sum.splits prod.splits acquire_result.splits if_splits)

lemma bh_waits_step:
  assumes w: "bh_waits s" and e: "bh_step e s = Some s'"
  shows "bh_waits s'"
  using e
proof (cases rule: bh_step_cases)
  case (turned_away err)
  then show ?thesis using w by (simp add: bh_waits_def)
next
  case (entered cx)
  then show ?thesis using w by (simp add: bh_waits_def)
next
  case (acquire i cx p p' r b)
  then show ?thesis using bh_waits_acquired [OF w] acquireSemaphore_config by simp
next
  case (wake i cx p r b)
  then show ?thesis using bh_waits_acquired [OF w] waitForSemaphore_config by simp
next
  case (returned i t err b)
  then show ?thesis using releaseSemaphore_config [OF returned(2)] by (auto intro: bh_waits_move [OF w])
next
  case (fn_panic i t n b)
  then show ?thesis using releaseSemaphore_config [OF fn_panic(2)] by (auto intro: bh_waits_move [OF w])
next
  case channels
  from close_channels_frame [OF channels(2)] show ?thesis by (intro bh_waits_frame [OF w]) simp_all
qed (use bh_step_now [OF e] in \<open>simp_all add: bh_waits_frame [OF w]\<close>)

lemma bh_reach_waits: "bh_reach P cfg s \<Longrightarrow> bh_waits s"
proof (induction rule: bh_reach.induct)
  case (init now)
  show ?case by (simp add: bh_waits_def bh_init_def)
qed (rule bh_waits_step)

end
