(* ===== verification/BulkheadProps.thy ===== *)
theory BulkheadProps
  imports BulkheadSystem
begin

text \<open>
  The properties of the bulkhead, over the functions of \<open>Bulkhead\<close> and the concurrent system of
  \<open>BulkheadSystem\<close>.
\<close>

section \<open>Concurrency\<close>

text \<open>Property C1: in every reachable state of the concurrent system, with any interleaving of calls,
  a close and metric resets, at most MaxConcurrentCalls calls run the user's function, at most
  MaxQueueSize calls wait, and the running calls are exactly the tokens in the semaphore.\<close>

theorem bulkhead_isolation:
  assumes "bh_reach P cfg s"
  shows "int (countp is_running (bs_calls s)) \<le> bh_MaxConcurrentCalls cfg
    \<and> int (countp is_waiting (bs_calls s)) \<le> bh_MaxQueueSize cfg
    \<and> length (ch_buf (bh_semaphore (bs_b s))) = countp is_running (bs_calls s)"
proof -
  have inv: "bh_inv cfg s" using assms by (rule bh_reach_inv)
  have "validateBulkheadConfig cfg = None" using assms by (induction rule: bh_reach.induct) auto
  then have pos: "1 \<le> bh_MaxConcurrentCalls cfg" "1 \<le> bh_MaxQueueSize cfg"
    by (simp_all add: validateBulkheadConfig_None_iff)
  have "countp is_running (bs_calls s) \<le> nat (bh_MaxConcurrentCalls cfg)"
    "countp is_waiting (bs_calls s) \<le> nat (bh_MaxQueueSize cfg)"
    using inv by (auto simp: bh_inv_def Let_def)
  with pos bh_invD(6) [OF inv] show ?thesis by (simp add: le_nat_iff)
qed

text \<open>A configuration and a run for the witnesses: one call runs, one waits.\<close>

definition tiny_cfg :: BulkheadConfig where
  "tiny_cfg = \<lparr>bh_MaxConcurrentCalls = 1, bh_MaxWaitDuration = 60 * Second, bh_MaxQueueSize = 1,
     bh_HealthThreshold = Fin (1 / 2), bh_EnableMetrics = True\<rparr>"

definition busy_events :: "bh_event list" where
  "busy_events = [BhCall (Some Background) False, BhAcquire 0 False False,
     BhCall (Some Background) False, BhAcquire 1 False False]"

definition busy_state :: bh_sys where
  "busy_state = the (bh_run busy_events (bh_init tiny_cfg 0))"

lemma tiny_cfg_valid: "validateBulkheadConfig tiny_cfg = None"
proof -
  have "f_le MinHealthThresholdBulkhead (Fin (1 / 2))"
    using fl_mono [of "1 / 10" "1 / 2"] by (simp add: MinHealthThresholdBulkhead_def)
  from f_le_not_lt [OF this] show ?thesis
    by (simp add: validateBulkheadConfig_None_iff tiny_cfg_def MaxHealthThresholdBulkhead_def)
qed

lemma tiny_cfg_simps [simp]:
  "applyBulkheadDefaults tiny_cfg = tiny_cfg"
  "bh_MaxConcurrentCalls tiny_cfg = 1" "bh_MaxWaitDuration tiny_cfg = 60 * Second"
  "bh_MaxQueueSize tiny_cfg = 1" "bh_EnableMetrics tiny_cfg"
  by (rule applyBulkheadDefaults_valid [OF tiny_cfg_valid]) (simp_all add: tiny_cfg_def)

lemmas bh_eval = bh_init_def make_Bulkhead_def zero_BulkheadMetrics_def make_chan_def
  Bulkhead_Execute_entry_def
  validateExecuteInputsBulkhead_def call_at_def bh_acquired_def bh_move_def
  Bulkhead_acquireSemaphore_def Bulkhead_acquireFromQueue_def select_send_def chan_send_def add_defs

lemma busy_run: "bh_run busy_events (bh_init tiny_cfg 0) = Some busy_state"
  and busy_calls: "bs_calls busy_state = [BhRunning 0, BhWaiting (WithTimeout 0 (60 * Second) Background)]"
  by (simp_all add: busy_state_def busy_events_def bh_eval)

lemma busy_reach: "bh_reach P tiny_cfg busy_state" if "list_all P busy_events"
  using bhr.reach_run [OF bh_reach.init [OF tiny_cfg_valid] that busy_run] .

theorem bulkhead_isolation_witness:
  "int (countp is_running (bs_calls busy_state)) \<le> 1"
  using bulkhead_isolation [OF busy_reach [of "\<lambda>_. True"]]
  by (simp add: busy_events_def tiny_cfg_def)

text \<open>Property C7: as long as the metrics are not reset, in every reachable state TotalCalls is the sum
  of the settled calls (successful, failed, rejected) and the calls not yet settled, and
  CurrentConcurrentCalls is the number of calls running, both exactly, as 64-bit counters.\<close>

theorem bulkhead_accounting:
  assumes "bh_reach no_reset cfg s"
  shows "bm_TotalCalls (bh_metrics (bs_b s))
      = bm_SuccessfulCalls (bh_metrics (bs_b s)) + bm_FailedCalls (bh_metrics (bs_b s))
        + bm_RejectedCalls (bh_metrics (bs_b s)) + of_nat (countp is_unsettled (bs_calls s))
    \<and> bm_CurrentConcurrentCalls (bh_metrics (bs_b s)) = of_nat (countp is_running (bs_calls s))"
  using bh_reach_acct [OF assms] by (simp_all add: bh_acct_def bh_settled_def Let_def)

theorem bulkhead_accounting_witness:
  "bm_CurrentConcurrentCalls (bh_metrics (bs_b busy_state)) = 1"
  using bulkhead_accounting [OF busy_reach [of no_reset]]
  by (simp add: busy_events_def busy_calls)

text \<open>What becomes of a call that tries to get a slot.\<close>

lemma bh_acquired_call:
  "\<exists>c. bs_calls (bh_acquired i cx (r, b) s) = (bs_calls s)[i := c]
     \<and> bs_now (bh_acquired i cx (r, b) s) = bs_now s
     \<and> \<not> is_entered c \<and> (is_waiting c \<longrightarrow> r = MustWait)"
  by (cases r) (auto simp: bh_acquired_simps bh_move_def)

text \<open>A call whose wait is over gets on, and so does a call that runs.\<close>

lemma wake_step:
  assumes inv: "bh_inv cfg s" and i: "call_at s i = Some (BhWaiting cx)" and over: "ctx_done (bs_now s) cx"
  shows "\<exists>s' c. bh_step (BhWake i pick) s = Some s' \<and> bs_calls s' = (bs_calls s)[i := c]
    \<and> bs_now s' = bs_now s \<and> \<not> is_entered c \<and> \<not> is_waiting c"
proof -
  have "\<exists>b'. take_queue_token b = Some b'" if "bh_queue b = bh_queue (bs_b s)" for b
    using waiting_token [OF inv i] that by (auto simp: take_queue_token_def chan_recv_def split: list.splits)
  from this [of "bs_b s"] this [of "bs_b s\<lparr>bh_semaphore := x\<rparr>" for x]
  have "take_queue_token (bs_b s) \<noteq> None" "take_queue_token (bs_b s\<lparr>bh_semaphore := x\<rparr>) \<noteq> None" for x
    by auto
  with over have "Bulkhead_waitForSemaphore pick (ctx_err (bs_now s) cx) (bs_b s) \<noteq> None"
    by (simp add: Bulkhead_waitForSemaphore_def select_send_def chan_send_def del: not_None_eq)
  then obtain r b where r: "Bulkhead_waitForSemaphore pick (ctx_err (bs_now s) cx) (bs_b s) = Some (r, b)" by auto
  then have "r \<noteq> MustWait" by (cases rule: waitForSemaphore_cases) simp_all
  with i r bh_acquired_call [of i cx r b s] show ?thesis by auto
qed

lemma return_step:
  assumes inv: "bh_inv cfg s" and i: "call_at s i = Some (BhRunning t)"
  shows "\<exists>b. bh_step (BhReturn i err) s = Some (bh_move i (BhReturned err) b s)"
  using running_token [OF inv i] i
  by (auto simp: Bulkhead_releaseSemaphore_def chan_recv_def split: list.splits)

text \<open>No call is stuck. A running call can always return and give its token back, and a
  waiting call can always go on once the configured MaxWaitDuration has passed.\<close>

theorem bulkhead_progress:
  assumes "bh_reach P cfg s"
  shows "(call_at s i = Some (BhRunning t) \<longrightarrow> bh_step (BhReturn i err) s \<noteq> None)
    \<and> (call_at s i = Some (BhWaiting cx) \<longrightarrow> bh_MaxWaitDuration cfg \<le> int d \<longrightarrow>
      (\<exists>s'. bh_step (BhTick d) s = Some s' \<and> bh_step (BhWake i pick) s' \<noteq> None))"
proof -
  have inv: "bh_inv cfg s" using assms by (rule bh_reach_inv)
  have "\<exists>s'. bh_step (BhTick d) s = Some s' \<and> bh_step (BhWake i pick) s' \<noteq> None"
    if c: "call_at s i = Some (BhWaiting cx)" and d: "bh_MaxWaitDuration cfg \<le> int d"
  proof -
    let ?s' = "s\<lparr>bs_now := bs_now s + int d\<rparr>"
    have tick: "bh_step (BhTick d) s = Some ?s'" by simp
    have "BhWaiting cx \<in> set (bs_calls s)"
      using c nth_mem [of i "bs_calls s"] by (auto simp: call_at_Some)
    then obtain e where "deadline cx = Some e" "e \<le> bs_now s + bh_MaxWaitDuration cfg"
      using bh_reach_waits [OF assms] bh_invD(1) [OF inv] by (auto simp: bh_waits_def)
    with d have "ctx_done (bs_now ?s') cx" unfolding ctx_done_iff by (simp add: passed_def)
    moreover have "call_at ?s' i = Some (BhWaiting cx)" using c by (simp add: call_at_Some)
    ultimately show ?thesis using tick wake_step [OF bh_inv_step [OF inv tick]] by blast
  qed
  then show ?thesis using return_step [OF inv] by blast
qed

theorem bulkhead_progress_witness:
  "\<exists>s'. bh_step (BhTick 60000000000) busy_state = Some s' \<and> bh_step (BhWake 1 False) s' \<noteq> None"
  using bulkhead_progress [OF busy_reach [of "\<lambda>_. True"], of 1 _ None _ 60000000000 False]
  by (simp add: busy_events_def busy_calls call_at_def del: bh_step.simps)

section \<open>Draining\<close>

text \<open>The events by which the calls in flight get on.\<close>

fun bh_helps :: "bh_event \<Rightarrow> bool" where
  "bh_helps (BhAcquire _ _ _) = True"
| "bh_helps (BhWake _ _) = True"
| "bh_helps (BhReturn _ _) = True"
| "bh_helps (BhTick _) = True"
| "bh_helps _ = False"

fun bh_weight :: "bh_call \<Rightarrow> nat" where
  "bh_weight (BhEntered _) = 3"
| "bh_weight (BhWaiting _) = 2"
| "bh_weight (BhRunning _) = 1"
| "bh_weight _ = 0"

definition bh_load :: "bh_sys \<Rightarrow> nat" where
  "bh_load s = (\<Sum>c\<leftarrow>bs_calls s. bh_weight c)"

lemma bh_load_move:
  "call_at s i = Some c \<Longrightarrow> bs_calls s' = (bs_calls s)[i := c'] \<Longrightarrow> bh_weight c' < bh_weight c \<Longrightarrow> bh_load s' < bh_load s"
  unfolding bh_load_def by (auto simp: call_at_Some intro: sum_list_update_less)

lemma bh_load_pos: "c \<in> set (bs_calls s) \<Longrightarrow> 0 < bh_weight c \<Longrightarrow> \<exists>i. call_at s i = Some c"
  by (auto simp: in_set_conv_nth call_at_def)

text \<open>First every call that has entered tries the semaphore.\<close>

lemma bh_all_try:
  assumes "bh_inv cfg s" and "bh_waits s"
  shows "\<exists>es s'. list_all bh_helps es \<and> bh_run es s = Some s'
    \<and> (bh_inv cfg s' \<and> bh_waits s' \<and> bs_now s' = bs_now s) \<and> list_all (\<lambda>c. \<not> is_entered c) (bs_calls s')"
proof (rule bhr.run_to [where m = bh_load])
  fix t
  assume t: "bh_inv cfg t \<and> bh_waits t \<and> bs_now t = bs_now s" and "\<not> list_all (\<lambda>c. \<not> is_entered c) (bs_calls t)"
  then obtain cx where "BhEntered cx \<in> set (bs_calls t)"
    by (auto simp: list_all_iff elim!: is_entered.elims)
  then obtain i where i: "call_at t i = Some (BhEntered cx)" using bh_load_pos by fastforce
  obtain r b where r: "Bulkhead_acquireSemaphore False False (ctx_err (bs_now t) cx) (bs_b t) = (r, b)"
    by fastforce
  with i have st: "bh_step (BhAcquire i False False) t = Some (bh_acquired i cx (r, b) t)" by simp
  obtain c where c: "bs_calls (bh_acquired i cx (r, b) t) = (bs_calls t)[i := c]"
      "bs_now (bh_acquired i cx (r, b) t) = bs_now t" "\<not> is_entered c"
    using bh_acquired_call by blast
  from c(3) have "bh_weight c < 3" by (cases c) simp_all
  with bh_load_move [OF i c(1)] have "bh_load (bh_acquired i cx (r, b) t) < bh_load t" by simp
  with st t c(2) bh_inv_step [OF _ st] bh_waits_step [OF _ st]
  show "\<exists>e t'. bh_helps e \<and> bh_step e t = Some t'
      \<and> (bh_inv cfg t' \<and> bh_waits t' \<and> bs_now t' = bs_now s) \<and> bh_load t' < bh_load t"
    by (intro exI [of _ "BhAcquire i False False"] exI [of _ "bh_acquired i cx (r, b) t"]) simp
qed (use assms in simp)

definition bh_over :: "bh_call \<Rightarrow> bool" where
  "bh_over c \<longleftrightarrow> \<not> is_entered c \<and> \<not> is_waiting c \<and> \<not> is_running c"

definition bh_ripe :: "BulkheadConfig \<Rightarrow> instant \<Rightarrow> bh_sys \<Rightarrow> bool" where
  "bh_ripe cfg now s \<longleftrightarrow> bh_inv cfg s \<and> bs_now s = now \<and> list_all (\<lambda>c. \<not> is_entered c) (bs_calls s)
     \<and> (\<forall>cx. BhWaiting cx \<in> set (bs_calls s) \<longrightarrow> ctx_done now cx)"

lemma bh_ripe_moved:
  assumes "bh_ripe cfg now s" and "bh_step e s = Some s'" and "bs_calls s' = (bs_calls s)[i := c]"
    and "bs_now s' = bs_now s" "\<not> is_entered c" "\<not> is_waiting c"
  shows "bh_ripe cfg now s'"
  using assms set_update_subset_insert [of "bs_calls s" i c] bh_inv_step [OF _ assms(2)]
  by (fastforce simp: bh_ripe_def list_all_iff)

lemma bh_ripe_drains:
  assumes "bh_ripe cfg now s"
  shows "\<exists>es s'. list_all bh_helps es \<and> bh_run es s = Some s' \<and> bh_ripe cfg now s' \<and> list_all bh_over (bs_calls s')"
proof (rule bhr.run_to [where m = bh_load])
  fix t
  assume t: "bh_ripe cfg now t" and "\<not> list_all bh_over (bs_calls t)"
  then obtain c where c: "c \<in> set (bs_calls t)" "is_waiting c \<or> is_running c"
    by (auto simp: list_all_iff bh_over_def bh_ripe_def)
  have inv: "bh_inv cfg t" "bs_now t = now" using t by (simp_all add: bh_ripe_def)
  from c(2) consider cx where "c = BhWaiting cx" | st where "c = BhRunning st" by (cases c) simp_all
  then show "\<exists>e t'. bh_helps e \<and> bh_step e t = Some t' \<and> bh_ripe cfg now t' \<and> bh_load t' < bh_load t"
  proof cases
    case 1
    then obtain i where i: "call_at t i = Some (BhWaiting cx)" using bh_load_pos c(1) by fastforce
    have "ctx_done (bs_now t) cx" using t c(1) 1 by (simp add: bh_ripe_def)
    from wake_step [OF inv(1) i this] obtain t' c' where t': "bh_step (BhWake i False) t = Some t'"
      "bs_calls t' = (bs_calls t)[i := c']" "bs_now t' = bs_now t" "\<not> is_entered c'" "\<not> is_waiting c'" by blast
    from t'(4,5) have "bh_weight c' < 2" by (cases c') simp_all
    with bh_load_move [OF i t'(2)] bh_ripe_moved [OF t t'] t'(1) show ?thesis
      by (intro exI [of _ "BhWake i False"] exI [of _ t']) simp
  next
    case 2
    then obtain i where i: "call_at t i = Some (BhRunning st)" using bh_load_pos c(1) by fastforce
    from return_step [OF inv(1) i] obtain b where
      st: "bh_step (BhReturn i None) t = Some (bh_move i (BhReturned None) b t)" by blast
    have "bh_load (bh_move i (BhReturned None) b t) < bh_load t"
      by (rule bh_load_move [OF i, where c' = "BhReturned None"]) (simp_all add: bh_move_def)
    moreover have "bh_ripe cfg now (bh_move i (BhReturned None) b t)"
      by (rule bh_ripe_moved [OF t st, where c = "BhReturned None"]) (simp_all add: bh_move_def)
    ultimately show ?thesis using st
      by (intro exI [of _ "BhReturn i None"] exI [of _ "bh_move i (BhReturned None) b t"]) simp
  qed
qed (rule assms)

text \<open>Property C9: a bulkhead drains. From every reachable state, closed or not, the calls in flight can
  all come to an end by steps of their own: a running function returns, and no call has to wait for longer
  than MaxWaitDuration. Then both channels are empty again unless they have been closed.\<close>

theorem bulkhead_drains:
  assumes "bh_reach P cfg s"
  shows "\<exists>es s'. list_all bh_helps es \<and> bh_run es s = Some s' \<and> list_all bh_over (bs_calls s')
    \<and> bs_now s' = bs_now s + bh_MaxWaitDuration cfg
    \<and> ch_buf (bh_semaphore (bs_b s')) = [] \<and> (bs_chclosed s' \<or> ch_buf (bh_queue (bs_b s')) = [])"
proof -
  have "validateBulkheadConfig cfg = None" using assms by (induction rule: bh_reach.induct) auto
  then have pos: "0 \<le> bh_MaxWaitDuration cfg" by (simp add: validateBulkheadConfig_None_iff)
  let ?tick = "BhTick (nat (bh_MaxWaitDuration cfg))"
  obtain es s1 where s1: "list_all bh_helps es" "bh_run es s = Some s1"
      "bh_inv cfg s1" "bh_waits s1" "bs_now s1 = bs_now s" "list_all (\<lambda>c. \<not> is_entered c) (bs_calls s1)"
    using bh_all_try [OF bh_reach_inv [OF assms] bh_reach_waits [OF assms]] by blast
  let ?s2 = "s1\<lparr>bs_now := bs_now s + bh_MaxWaitDuration cfg\<rparr>"
  have tick: "bh_step ?tick s1 = Some ?s2" using pos s1(5) by simp
  have "ctx_done (bs_now s + bh_MaxWaitDuration cfg) cx" if "BhWaiting cx \<in> set (bs_calls s1)" for cx
    using s1(3-5) that bh_invD(1) [OF s1(3)] unfolding ctx_done_iff by (fastforce simp: bh_waits_def passed_def)
  then have "bh_ripe cfg (bs_now s + bh_MaxWaitDuration cfg) ?s2"
    using s1(6) bh_inv_step [OF s1(3) tick] by (simp add: bh_ripe_def)
  from bh_ripe_drains [OF this] obtain fs s' where s': "list_all bh_helps fs" "bh_run fs ?s2 = Some s'"
      "bh_ripe cfg (bs_now s + bh_MaxWaitDuration cfg) s'" "list_all bh_over (bs_calls s')" by blast
  have "countp is_running (bs_calls s') = 0" "countp is_waiting (bs_calls s') = 0"
    using s'(4) by (auto simp: countp_def filter_empty_conv list_all_iff bh_over_def)
  with s'(3) have "ch_buf (bh_semaphore (bs_b s')) = []" "bs_chclosed s' \<or> ch_buf (bh_queue (bs_b s')) = []"
    by (auto simp: bh_ripe_def bh_inv_def Let_def)
  moreover have "bh_run (es @ ?tick # fs) s = Some s'"
    by (rule bhr.run_appendI [OF s1(2) bhr.run_ConsI [OF tick s'(2)]])
  ultimately show ?thesis using s1(1) s'
    by (intro exI [of _ "es @ ?tick # fs"] exI [of _ s']) (simp add: bh_ripe_def)
qed

theorem bulkhead_drains_witness:
  "\<exists>es s'. list_all bh_helps es \<and> bh_run es busy_state = Some s' \<and> list_all bh_over (bs_calls s')
    \<and> bs_now s' = bs_now busy_state + 60 * Second"
  using bulkhead_drains [OF busy_reach [of "\<lambda>_. True"]] by (auto simp: busy_events_def)

text \<open>A call that has passed the closed check of Execute and then loses the race with a
  whole call of Close panics with a send on a closed channel, for every valid configuration. The
  run is: enter, Close sets the flag, Close finds no running call and closes the channels, the call
  tries the semaphore.\<close>

theorem bulkhead_close_race_panics:
  assumes "validateBulkheadConfig cfg = None"
  shows "\<exists>s. bh_run [BhCall (Some Background) False, BhClose, BhClosePoll, BhAcquire 0 p p']
             (bh_init cfg 0) = Some s
           \<and> bs_calls s = [BhPanicked SendOnClosedChannel]"
  using assms
  by (simp add: bh_init_def make_Bulkhead_def zero_BulkheadMetrics_def make_chan_def
      applyBulkheadDefaults_valid Bulkhead_Execute_entry_def validateExecuteInputsBulkhead_def
      call_at_def bh_acquired_def bh_move_def Bulkhead_acquireSemaphore_def select_send_def
      chan_send_def add_defs Bulkhead_Close_flag_def bh_close_channels_def Bulkhead_closeChannels_def
      chan_close_def)

theorem bulkhead_close_race_panics_witness:
  "\<exists>s. bh_run [BhCall (Some Background) False, BhClose, BhClosePoll, BhAcquire 0 False False]
        (bh_init tiny_cfg 0) = Some s \<and> bs_calls s = [BhPanicked SendOnClosedChannel]"
  by (rule bulkhead_close_race_panics [OF tiny_cfg_valid])

section \<open>One call\<close>

text \<open>Property C35: a call that finds a free slot runs the function once, returns exactly what the
  function returned, counts as one call and one success or failure, and leaves both channels and the
  number of concurrent calls as it found them.\<close>

theorem Execute_with_free_slot:
  assumes opened: "\<not> bh_closed b" "\<not> ch_closed (bh_semaphore b)"
    and room: "length (ch_buf (bh_semaphore b)) < ch_cap (bh_semaphore b)"
    and ctx: "ctx_err (be_now env) cx = None"
    and fn: "fn (be_now env) = (t, Returns (v, err))"
  shows "\<exists>b'. Bulkhead_Execute env (Some cx) (Some fn) b = Some (Returns (v, err), b')
     \<and> bh_semaphore b' = bh_semaphore b \<and> bh_queue b' = bh_queue b
     \<and> bm_CurrentConcurrentCalls (bh_metrics b') = bm_CurrentConcurrentCalls (bh_metrics b)
     \<and> bm_TotalCalls (bh_metrics b') = bm_TotalCalls (bh_metrics b) + 1
     \<and> bm_SuccessfulCalls (bh_metrics b')
         = bm_SuccessfulCalls (bh_metrics b) + (if err = None then 1 else 0)
     \<and> bm_FailedCalls (bh_metrics b')
         = bm_FailedCalls (bh_metrics b) + (if err = None then 0 else 1)
     \<and> bm_RejectedCalls (bh_metrics b') = bm_RejectedCalls (bh_metrics b)"
proof -
  obtain xs where xs: "ch_buf (bh_semaphore b) @ [()] = () # xs"
    by (cases "ch_buf (bh_semaphore b)") auto
  then have "xs = ch_buf (bh_semaphore b)" by (simp add: unit_list_eq)
  with assms xs show ?thesis
    by (simp add: Bulkhead_Execute_def Bulkhead_Execute_entry_def validateExecuteInputsBulkhead_def
        Bulkhead_acquireSemaphore_def select_send_def chan_send_def Bulkhead_run_def
        Bulkhead_releaseSemaphore_def chan_recv_def Bulkhead_executeWithTimeout_def
        Bulkhead_updateExecutionMetrics_def Let_def add_SuccessfulCalls_def add_FailedCalls_def)
qed

text \<open>One call on an idle bulkhead, for the witnesses.\<close>

definition calm_env :: bh_env where
  "calm_env = \<lparr>be_now = 0, be_pick_sem = False, be_pick_queue = False, be_wake = 0, be_pick_wake = False\<rparr>"

theorem Execute_with_free_slot_witness:
  "\<exists>b'. Bulkhead_Execute calm_env (Some Background) (Some (\<lambda>t. (t + 5, Returns (Some (7::nat), None))))
     (make_Bulkhead 0 tiny_cfg) = Some (Returns (Some 7, None), b')
     \<and> bm_SuccessfulCalls (bh_metrics b') = 1"
  using Execute_with_free_slot [of "make_Bulkhead 0 tiny_cfg" calm_env Background
      "\<lambda>t. (t + 5, Returns (Some (7::nat), None))" 5 "Some 7" None]
  by (auto simp: make_Bulkhead_def calm_env_def zero_BulkheadMetrics_def)

text \<open>A call that waits in vain for MaxWaitDuration returns ErrBulkheadTimeout without
  running the function and gives its place in the queue back; it is counted as a rejected call and
  as a timed-out call, so that the sum the failure rate is computed from grows by two while
  TotalCalls grows by one.\<close>

theorem Execute_timed_out:
  assumes opened: "\<not> bh_closed b" "\<not> ch_closed (bh_semaphore b)" "\<not> ch_closed (bh_queue b)"
    and busy: "length (ch_buf (bh_semaphore b)) = ch_cap (bh_semaphore b)"
    and room: "length (ch_buf (bh_queue b)) < ch_cap (bh_queue b)"
    and ctx: "ctx_err (be_now env) cx = None"
    and late: "ctx_err (be_wake env)
      (WithTimeout (be_now env) (bh_MaxWaitDuration (bh_config b)) cx) = Some CtxDeadlineExceeded"
  shows "\<exists>b'. Bulkhead_Execute env (Some cx) (Some fn) b
         = Some (Returns (None, Some (Sentinel (EBulkhead ErrBulkheadTimeout))), b')
     \<and> bh_semaphore b' = bh_semaphore b \<and> bh_queue b' = bh_queue b
     \<and> bm_TotalCalls (bh_metrics b') = bm_TotalCalls (bh_metrics b) + 1
     \<and> bm_FailedCalls (bh_metrics b') + bm_RejectedCalls (bh_metrics b') + bm_TimeoutCalls (bh_metrics b')
       = bm_FailedCalls (bh_metrics b) + bm_RejectedCalls (bh_metrics b)
         + bm_TimeoutCalls (bh_metrics b) + 2"
proof -
  obtain xs where xs: "ch_buf (bh_queue b) @ [()] = () # xs"
    by (cases "ch_buf (bh_queue b)") auto
  then have "xs = ch_buf (bh_queue b)" by (simp add: unit_list_eq)
  with assms xs show ?thesis
    by (simp add: Bulkhead_Execute_def Bulkhead_Execute_entry_def validateExecuteInputsBulkhead_def
        Bulkhead_acquireSemaphore_def Bulkhead_acquireFromQueue_def select_send_def chan_send_def
        Bulkhead_waitForSemaphore_def take_queue_token_def chan_recv_def add_defs)
qed

definition late_env :: bh_env where
  "late_env = calm_env\<lparr>be_wake := 60000000000\<rparr>"

theorem Execute_timed_out_witness:
  "\<exists>b'. Bulkhead_Execute late_env (Some Background) (Some (\<lambda>t. (t, Returns (Some (0::nat), None))))
      ((make_Bulkhead 0 tiny_cfg)\<lparr>bh_semaphore := (make_chan 1)\<lparr>ch_buf := [()]\<rparr>\<rparr>)
    = Some (Returns (None, Some (Sentinel (EBulkhead ErrBulkheadTimeout))), b')
    \<and> bm_TotalCalls (bh_metrics b') = 1"
proof -
  let ?b = "(make_Bulkhead 0 tiny_cfg)\<lparr>bh_semaphore := (make_chan 1)\<lparr>ch_buf := [()]\<rparr>\<rparr>"
  have "bm_TotalCalls (bh_metrics ?b) = 0"
    by (simp add: make_Bulkhead_def zero_BulkheadMetrics_def)
  with Execute_timed_out [of ?b late_env Background "\<lambda>t. (t, Returns (Some (0::nat), None))"] show ?thesis
    by (auto simp: make_Bulkhead_def calm_env_def late_env_def ctx_err_def passed_def
        WithTimeout_def Background_def)
qed

text \<open>A NaN health threshold passes the validation of the constructor, and a bulkhead
  with it reports itself unhealthy after its first counted call, whatever the outcome.\<close>

theorem bulkhead_NaN_threshold:
  "\<exists>b. NewBulkhead now (DefaultBulkheadConfig\<lparr>bh_HealthThreshold := NaN\<rparr>) = Inr b
     \<and> fst (Bulkhead_IsHealthy now b)
     \<and> (\<forall>n. n \<noteq> 0 \<longrightarrow> \<not> fst (Bulkhead_IsHealthy now
           (upd_metrics (\<lambda>m. m\<lparr>bm_TotalCalls := n, bm_SuccessfulCalls := n\<rparr>) b)))"
  by (simp add: NewBulkhead_def validateBulkheadConfig_def applyBulkheadDefaults_def
      DefaultBulkheadConfig_def bulkhead_limits make_Bulkhead_def Bulkhead_IsHealthy_def
      Bulkhead_updateHealthStatus_def zero_BulkheadMetrics_def)

theorem bulkhead_NaN_threshold_witness:
  "\<exists>b. NewBulkhead 0 (DefaultBulkheadConfig\<lparr>bh_HealthThreshold := NaN\<rparr>) = Inr b
     \<and> \<not> fst (Bulkhead_IsHealthy 0
           (upd_metrics (\<lambda>m. m\<lparr>bm_TotalCalls := 1, bm_SuccessfulCalls := 1\<rparr>) b))"
  using bulkhead_NaN_threshold [of 0] by auto

end
