(* ===== verification/BreakerContract.thy ===== *)
theory BreakerContract
  imports Prelude
begin

text \<open>
  The contract of a circuit breaker, which the library implements twice (\<open>src/circuitbreaker.go\<close>
  and the small breaker inside \<open>src/pubsub.go\<close>). A call starts at \<open>t\<close> and, if the breaker lets it
  run, ends at \<open>t'\<close> with success or failure.

  \<^item> \<open>fit n\<close>: the breaker is in order and can count \<open>n\<close> more calls before a counter could wrap around.
  \<^item> \<open>tripped\<close>: calls are refused until \<open>release\<close>, and refusing does not
    move that date.
  \<^item> \<open>budget\<close>: how many more failures in a row an untripped breaker lets through before it trips.
  \<^item> \<open>needed\<close>: how many successes bring it back to \<open>healed\<close>.

  Two consequences are proved once: how many calls an outage can cost, and that the breaker
  recovers.
\<close>

datatype attempt = Attempt (started: instant) (ended: instant) (succeeds: bool)

locale breaker =
  fixes fit :: "nat \<Rightarrow> 's \<Rightarrow> bool"
    and attempt :: "instant \<Rightarrow> instant \<Rightarrow> bool \<Rightarrow> 's \<Rightarrow> bool \<times> 's"
    and tripped :: "'s \<Rightarrow> bool"
    and healed :: "'s \<Rightarrow> bool"
    and release :: "'s \<Rightarrow> instant"
    and window :: "'s \<Rightarrow> duration"
    and budget :: "'s \<Rightarrow> nat"
    and needed :: "'s \<Rightarrow> nat"
  assumes fit_attempt: "fit (Suc n) s \<Longrightarrow> 0 < t' \<Longrightarrow> fit n (snd (attempt t t' b s))"
    and window_attempt: "window (snd (attempt t t' b s)) = window s"
    and refuses: "fit (Suc n) s \<Longrightarrow> tripped s \<Longrightarrow> t < release s \<Longrightarrow>
        \<not> fst (attempt t t' b s) \<and> tripped (snd (attempt t t' b s))
        \<and> release (snd (attempt t t' b s)) = release s"
    and runs: "fit (Suc n) s \<Longrightarrow> \<not> tripped s \<or> release s \<le> t \<Longrightarrow> fst (attempt t t' b s)"
    and fail_last: "fit (Suc n) s \<Longrightarrow> 0 < t' \<Longrightarrow> \<not> tripped s \<Longrightarrow> budget s = 1 \<Longrightarrow>
        tripped (snd (attempt t t' False s)) \<and> release (snd (attempt t t' False s)) \<ge> t' + window s"
    and fail_more: "fit (Suc n) s \<Longrightarrow> 0 < t' \<Longrightarrow> \<not> tripped s \<Longrightarrow> budget s \<noteq> 1 \<Longrightarrow>
        \<not> tripped (snd (attempt t t' False s)) \<and> Suc (budget (snd (attempt t t' False s))) = budget s"
    and success: "fit (Suc n) s \<Longrightarrow> 0 < t' \<Longrightarrow> \<not> tripped s \<or> release s \<le> t \<Longrightarrow>
        \<not> tripped (snd (attempt t t' True s))
        \<and> (if needed s = 1 then healed (snd (attempt t t' True s))
           else Suc (needed (snd (attempt t t' True s))) = needed s)"
    and healed_stays: "fit (Suc n) s \<Longrightarrow> 0 < t' \<Longrightarrow> healed s \<Longrightarrow> healed (snd (attempt t t' True s))"
    and healed_closed: "healed s \<Longrightarrow> \<not> tripped s"
begin

text \<open>Calls one after the other: which of them ran, and the state after them.\<close>

fun attempts :: "attempt list \<Rightarrow> 's \<Rightarrow> bool list \<times> 's" where
  "attempts [] s = ([], s)"
| "attempts (Attempt t t' b # as) s =
     (let (r, s1) = attempt t t' b s; (rs, s2) = attempts as s1 in (r # rs, s2))"

lemma attempts_Cons:
  "fst (attempts (Attempt t t' b # as) s)
     = fst (attempt t t' b s) # fst (attempts as (snd (attempt t t' b s)))"
  "snd (attempts (Attempt t t' b # as) s) = snd (attempts as (snd (attempt t t' b s)))"
  by (simp_all add: split_beta)

lemmas attempts_simps = attempts.simps(1) attempts_Cons

text \<open>While the breaker is tripped and not released, no call runs.\<close>

lemma attempts_refused:
  "fit (length as) s \<Longrightarrow> tripped s \<Longrightarrow> \<forall>a\<in>set as. started a < release s \<and> 0 < ended a
     \<Longrightarrow> fst (attempts as s) = replicate (length as) False \<and> tripped (snd (attempts as s))"
proof (induction as arbitrary: s)
  case (Cons a as)
  obtain t t' b where a: "a = Attempt t t' b" by (cases a)
  let ?s = "snd (attempt t t' b s)"
  have "\<not> fst (attempt t t' b s)" "tripped ?s" "release ?s = release s" "fit (length as) ?s"
    using Cons.prems refuses [of "length as" s t t' b] fit_attempt [of "length as" s t' t b] unfolding a by auto
  with Cons.IH [of ?s] Cons.prems(3) show ?case unfolding a attempts_simps by simp
qed simp

text \<open>
  An outage: calls that all fail, started within one window. Exactly the budget of them runs, the
  others are refused.
\<close>

definition outage :: "instant \<Rightarrow> duration \<Rightarrow> attempt list \<Rightarrow> bool" where
  "outage t0 w as \<longleftrightarrow>
     (\<forall>a\<in>set as. \<not> succeeds a \<and> t0 \<le> started a \<and> started a < t0 + w
        \<and> started a \<le> ended a \<and> 0 < ended a)"

lemma outage_Cons:
  "outage t0 w (Attempt t t' b # as) \<longleftrightarrow>
     \<not> b \<and> t0 \<le> t \<and> t < t0 + w \<and> t \<le> t' \<and> 0 < t' \<and> outage t0 w as"
  by (auto simp: outage_def)

lemma outage_cost:
  "fit (length as) s \<Longrightarrow> \<not> tripped s \<Longrightarrow> 0 < budget s \<Longrightarrow> outage t0 (window s) as
     \<Longrightarrow> fst (attempts as s)
         = replicate (min (budget s) (length as)) True @ replicate (length as - budget s) False
       \<and> (tripped (snd (attempts as s)) \<longleftrightarrow> budget s \<le> length as)"
proof (induction as arbitrary: s)
  case Nil
  then show ?case by simp
next
  case (Cons a as)
  obtain t t' b where a: "a = Attempt t t' b" by (cases a)
  let ?s = "snd (attempt t t' b s)"
  note o = Cons.prems(4) [unfolded a outage_Cons]
  have ok: "fit (length as) ?s" and run: "fst (attempt t t' b s)" and b: "b = False"
    using Cons.prems o by (auto intro: fit_attempt runs)
  show ?case
  proof (cases "budget s = 1")
    case True
    with fail_last [of "length as" s t' t] Cons.prems o b have tr: "tripped ?s" "t' + window s \<le> release ?s" by auto
    have "\<forall>a\<in>set as. started a < release ?s \<and> 0 < ended a"
    proof
      fix x assume "x \<in> set as"
      with o have "started x < t0 + window s" "0 < ended x" unfolding outage_def by blast+
      with o tr(2) show "started x < release ?s \<and> 0 < ended x" by linarith
    qed
    note attempts_refused [OF ok tr(1) this]
    with run True show ?thesis unfolding a attempts_simps by simp
  next
    case False
    with fail_more [of "length as" s t' t] Cons.prems o b
    have s: "\<not> tripped ?s" "Suc (budget ?s) = budget s" by auto
    moreover have "0 < budget ?s" using s(2) False Cons.prems(3) by linarith
    moreover have "outage t0 (window ?s) as" using o by (simp add: window_attempt)
    ultimately have "fst (attempts as ?s)
         = replicate (min (budget ?s) (length as)) True @ replicate (length as - budget ?s) False
       \<and> (tripped (snd (attempts as ?s)) \<longleftrightarrow> budget ?s \<le> length as)"
      using Cons.IH ok by blast
    with run show ?thesis unfolding a attempts_simps by (simp add: s(2) [symmetric])
  qed
qed

text \<open>Once released, enough successes in a row heal the breaker, and every one of them runs.\<close>

definition good_run :: "attempt list \<Rightarrow> bool" where
  "good_run as \<longleftrightarrow> (\<forall>a\<in>set as. succeeds a \<and> 0 < ended a)"

lemma good_run_Cons: "good_run (Attempt t t' b # as) \<longleftrightarrow> b \<and> 0 < t' \<and> good_run as"
  by (auto simp: good_run_def)

lemma recovery_closed:
  "fit (length as) s \<Longrightarrow> \<not> tripped s \<Longrightarrow> good_run as
     \<Longrightarrow> fst (attempts as s) = replicate (length as) True
       \<and> (healed s \<or> 0 < needed s \<and> needed s \<le> length as \<longrightarrow> healed (snd (attempts as s)))"
proof (induction as arbitrary: s)
  case Nil
  then show ?case by auto
next
  case (Cons a as)
  obtain t t' b where a: "a = Attempt t t' b" by (cases a)
  let ?s = "snd (attempt t t' b s)"
  note g = Cons.prems(3) [unfolded a good_run_Cons]
  have *: "fit (length as) ?s" "fst (attempt t t' b s)" "\<not> tripped ?s"
    using Cons.prems g success [of "length as" s t' t] by (auto intro: fit_attempt runs)
  have IH: "fst (attempts as ?s) = replicate (length as) True"
    "healed ?s \<or> 0 < needed ?s \<and> needed ?s \<le> length as \<longrightarrow> healed (snd (attempts as ?s))"
    using Cons.IH [OF *(1,3)] g by blast+
  moreover have "healed ?s \<or> 0 < needed ?s \<and> needed ?s \<le> length as"
    if "healed s \<or> 0 < needed s \<and> needed s \<le> length (a # as)"
    using that success [of "length as" s t' t] healed_stays [of "length as" s t' t] Cons.prems g by (auto split: if_splits)
  ultimately show ?case using *(2) unfolding a attempts_simps by auto
qed

lemma recovery:
  assumes "fit (Suc (length as)) s" "release s \<le> t" "good_run (Attempt t t' b # as)"
    and "0 < needed s" "needed s \<le> Suc (length as)"
  shows "fst (attempts (Attempt t t' b # as) s) = replicate (Suc (length as)) True
    \<and> healed (snd (attempts (Attempt t t' b # as) s))"
proof -
  let ?s = "snd (attempt t t' b s)"
  note g = assms(3) [unfolded good_run_Cons]
  have *: "fit (length as) ?s" "fst (attempt t t' b s)" "\<not> tripped ?s"
    using assms g success [of "length as" s t' t] by (auto intro: fit_attempt runs)
  have "healed ?s \<or> 0 < needed ?s \<and> needed ?s \<le> length as"
    using success [of "length as" s t' t] assms g by (auto split: if_splits)
  with recovery_closed [OF *(1,3)] g *(2) show ?thesis unfolding attempts_simps by auto
qed

end

end
