(* ===== verification/CircuitBreaker.thy ===== *)
theory CircuitBreaker
  imports GoFloat GoContext Lifecycle BreakerContract
begin

text \<open>
  \<open>src/circuitbreaker.go\<close>: every function of the file. Sections under the mutex are single
  updates of the record; what the code does before it takes the mutex is a function of its own
  (\<open>..._pre\<close>), so that the concurrent system can interleave the two.

  Counters are 64-bit words read as signed integers; the time stamps are nanoseconds.
\<close>

section \<open>Configuration\<close>

definition MaxThresholdLimitCircuitBreaker :: int where "MaxThresholdLimitCircuitBreaker = 10000"
definition MinThresholdLimitCircuitBreaker :: int where "MinThresholdLimitCircuitBreaker = 1"
definition MaxTimeoutLimitCircuitBreaker :: duration where "MaxTimeoutLimitCircuitBreaker = 300 * Second"
definition MinTimeoutLimitCircuitBreaker :: duration where "MinTimeoutLimitCircuitBreaker = 1 * Millisecond"
definition MaxHalfOpenLimitCircuitBreaker :: int where "MaxHalfOpenLimitCircuitBreaker = 1000"
definition MinHalfOpenLimitCircuitBreaker :: int where "MinHalfOpenLimitCircuitBreaker = 1"
definition DefaultThresholdCircuitBreaker :: int where "DefaultThresholdCircuitBreaker = 5"
definition DefaultTimeoutCircuitBreaker :: duration where "DefaultTimeoutCircuitBreaker = 30 * Second"
definition DefaultHalfOpenMaxCircuitBreaker :: int where "DefaultHalfOpenMaxCircuitBreaker = 3"
definition MaxOperationTimeoutCircuitBreaker :: duration where "MaxOperationTimeoutCircuitBreaker = 60 * Second"
definition MinOperationTimeoutCircuitBreaker :: duration where "MinOperationTimeoutCircuitBreaker = 1 * Millisecond"

lemmas breaker_limits =
  MaxThresholdLimitCircuitBreaker_def MinThresholdLimitCircuitBreaker_def
  MaxTimeoutLimitCircuitBreaker_def MinTimeoutLimitCircuitBreaker_def
  MaxHalfOpenLimitCircuitBreaker_def MinHalfOpenLimitCircuitBreaker_def
  DefaultThresholdCircuitBreaker_def DefaultTimeoutCircuitBreaker_def
  DefaultHalfOpenMaxCircuitBreaker_def MaxOperationTimeoutCircuitBreaker_def
  MinOperationTimeoutCircuitBreaker_def

record ConfigCircuitBreaker =
  cfg_Threshold :: int
  cfg_Timeout :: duration
  cfg_HalfOpenMax :: int

definition DefaultConfigCircuitBreaker :: ConfigCircuitBreaker where
  "DefaultConfigCircuitBreaker =
     \<lparr>cfg_Threshold = DefaultThresholdCircuitBreaker, cfg_Timeout = DefaultTimeoutCircuitBreaker,
      cfg_HalfOpenMax = DefaultHalfOpenMaxCircuitBreaker\<rparr>"

definition HighPerformanceConfigCircuitBreaker :: ConfigCircuitBreaker where
  "HighPerformanceConfigCircuitBreaker =
     \<lparr>cfg_Threshold = 10, cfg_Timeout = 10 * Second, cfg_HalfOpenMax = 5\<rparr>"

definition ConservativeConfigCircuitBreaker :: ConfigCircuitBreaker where
  "ConservativeConfigCircuitBreaker =
     \<lparr>cfg_Threshold = 3, cfg_Timeout = 60 * Second, cfg_HalfOpenMax = 2\<rparr>"

definition EnterpriseConfigCircuitBreaker :: ConfigCircuitBreaker where
  "EnterpriseConfigCircuitBreaker =
     \<lparr>cfg_Threshold = 20, cfg_Timeout = 30 * Second, cfg_HalfOpenMax = 10\<rparr>"

definition validateCircuitBreakerConfig :: "ConfigCircuitBreaker \<Rightarrow> goerr option" where
  "validateCircuitBreakerConfig config =
     (if cfg_Threshold config < MinThresholdLimitCircuitBreaker
         \<or> cfg_Threshold config > MaxThresholdLimitCircuitBreaker
      then Some (ErrText ''threshold must be between %d and %d, got %d'')
      else if cfg_Timeout config < MinTimeoutLimitCircuitBreaker
         \<or> cfg_Timeout config > MaxTimeoutLimitCircuitBreaker
      then Some (ErrText ''timeout must be between %v and %v, got %v'')
      else if cfg_HalfOpenMax config < MinHalfOpenLimitCircuitBreaker
         \<or> cfg_HalfOpenMax config > MaxHalfOpenLimitCircuitBreaker
      then Some (ErrText ''half open max must be between %d and %d, got %d'')
      else None)"

definition applyCircuitBreakerDefaults :: "ConfigCircuitBreaker \<Rightarrow> ConfigCircuitBreaker" where
  "applyCircuitBreakerDefaults c0 =
     (let c1 = (if cfg_Threshold c0 \<le> 0
                then c0\<lparr>cfg_Threshold := DefaultThresholdCircuitBreaker\<rparr> else c0);
          c2 = (if cfg_Timeout c1 \<le> 0 then c1\<lparr>cfg_Timeout := DefaultTimeoutCircuitBreaker\<rparr> else c1)
      in if cfg_HalfOpenMax c2 \<le> 0
         then c2\<lparr>cfg_HalfOpenMax := DefaultHalfOpenMaxCircuitBreaker\<rparr> else c2)"

section \<open>State\<close>

datatype State = StateClosed | StateOpen | StateHalfOpen

fun State_String :: "State \<Rightarrow> string" where
  "State_String StateClosed = ''CLOSED''"
| "State_String StateOpen = ''OPEN''"
| "State_String StateHalfOpen = ''HALF_OPEN''"

record CircuitBreaker =
  cb_threshold :: int
  cb_timeout :: duration
  cb_halfOpenMax :: int
  cb_state :: State
  cb_failureCount :: counter
  cb_lastFailure :: instant
  cb_successCount :: counter
  cb_totalRequests :: counter
  cb_totalFailures :: counter
  cb_totalSuccesses :: counter
  cb_totalTimeouts :: counter
  cb_totalPanics :: counter
  cb_lastStateChange :: instant
  cb_healthStatus :: int

definition make_CircuitBreaker :: "instant \<Rightarrow> ConfigCircuitBreaker \<Rightarrow> CircuitBreaker" where
  "make_CircuitBreaker now config =
     \<lparr>cb_threshold = cfg_Threshold config, cb_timeout = cfg_Timeout config,
      cb_halfOpenMax = cfg_HalfOpenMax config, cb_state = StateClosed, cb_failureCount = 0,
      cb_lastFailure = 0, cb_successCount = 0, cb_totalRequests = 0, cb_totalFailures = 0,
      cb_totalSuccesses = 0, cb_totalTimeouts = 0, cb_totalPanics = 0, cb_lastStateChange = now,
      cb_healthStatus = 1\<rparr>"

definition NewCircuitBreaker :: "instant \<Rightarrow> ConfigCircuitBreaker \<Rightarrow> goerr + CircuitBreaker" where
  "NewCircuitBreaker now config =
     (case validateCircuitBreakerConfig config of
        Some err \<Rightarrow> Inl (wrapping (common ErrInvalidConfig))
      | None \<Rightarrow> Inr (make_CircuitBreaker now (applyCircuitBreakerDefaults config)))"

section \<open>State transitions\<close>

definition CircuitBreaker_setState :: "instant \<Rightarrow> State \<Rightarrow> CircuitBreaker \<Rightarrow> CircuitBreaker" where
  "CircuitBreaker_setState now st cb = cb\<lparr>cb_state := st, cb_lastStateChange := now\<rparr>"

definition CircuitBreaker_shouldAttemptReset :: "instant \<Rightarrow> CircuitBreaker \<Rightarrow> bool" where
  "CircuitBreaker_shouldAttemptReset now cb =
     (if cb_lastFailure cb = 0 then False
      else cb_timeout cb \<le> time_sub now (cb_lastFailure cb))"

definition CircuitBreaker_transitionToHalfOpen :: "instant \<Rightarrow> CircuitBreaker \<Rightarrow> CircuitBreaker" where
  "CircuitBreaker_transitionToHalfOpen now cb =
     (if cb_state cb = StateOpen
      then (CircuitBreaker_setState now StateHalfOpen cb)\<lparr>cb_successCount := 0\<rparr>
      else cb)"

text \<open>\<open>None\<close> admits the call.\<close>

definition CircuitBreaker_checkCircuitState ::
    "instant \<Rightarrow> CircuitBreaker \<Rightarrow> goerr option \<times> CircuitBreaker" where
  "CircuitBreaker_checkCircuitState now cb =
     (case cb_state cb of
        StateOpen \<Rightarrow>
          if CircuitBreaker_shouldAttemptReset now cb
          then (None, CircuitBreaker_transitionToHalfOpen now cb)
          else (Some (Sentinel (EBreaker ErrCircuitBreakerOpen)), cb)
      | StateHalfOpen \<Rightarrow>
          if cb_halfOpenMax cb \<le> sint (cb_successCount cb)
          then (Some (Sentinel (EBreaker ErrCircuitBreakerOpen)), cb)
          else (None, cb)
      | StateClosed \<Rightarrow> (None, cb))"

definition recordFailure_pre :: "instant \<Rightarrow> CircuitBreaker \<Rightarrow> CircuitBreaker" where
  "recordFailure_pre now cb = cb\<lparr>cb_totalFailures := cb_totalFailures cb + 1, cb_lastFailure := now\<rparr>"

definition recordFailure_locked :: "instant \<Rightarrow> CircuitBreaker \<Rightarrow> CircuitBreaker" where
  "recordFailure_locked now cb =
     (case cb_state cb of
        StateClosed \<Rightarrow>
          (let failures = cb_failureCount cb + 1;
               cb' = cb\<lparr>cb_failureCount := failures\<rparr>
           in if cb_threshold cb \<le> sint failures
              then (CircuitBreaker_setState now StateOpen cb')\<lparr>cb_healthStatus := 0\<rparr>
              else cb')
      | StateHalfOpen \<Rightarrow> (CircuitBreaker_setState now StateOpen cb)\<lparr>cb_healthStatus := 0\<rparr>
      | StateOpen \<Rightarrow> cb)"

definition CircuitBreaker_recordFailure :: "instant \<Rightarrow> CircuitBreaker \<Rightarrow> CircuitBreaker" where
  "CircuitBreaker_recordFailure now cb = recordFailure_locked now (recordFailure_pre now cb)"

definition recordSuccess_pre :: "CircuitBreaker \<Rightarrow> CircuitBreaker" where
  "recordSuccess_pre cb = cb\<lparr>cb_totalSuccesses := cb_totalSuccesses cb + 1\<rparr>"

definition recordSuccess_locked :: "instant \<Rightarrow> CircuitBreaker \<Rightarrow> CircuitBreaker" where
  "recordSuccess_locked now cb =
     (case cb_state cb of
        StateClosed \<Rightarrow> cb\<lparr>cb_failureCount := 0\<rparr>
      | StateHalfOpen \<Rightarrow>
          (let successes = cb_successCount cb + 1;
               cb' = cb\<lparr>cb_successCount := successes\<rparr>
           in if cb_halfOpenMax cb \<le> sint successes
              then (CircuitBreaker_setState now StateClosed cb')
                     \<lparr>cb_failureCount := 0, cb_healthStatus := 1\<rparr>
              else cb')
      | StateOpen \<Rightarrow> cb)"

definition CircuitBreaker_recordSuccess :: "instant \<Rightarrow> CircuitBreaker \<Rightarrow> CircuitBreaker" where
  "CircuitBreaker_recordSuccess now cb = recordSuccess_locked now (recordSuccess_pre cb)"

definition CircuitBreaker_ForceOpen :: "instant \<Rightarrow> CircuitBreaker \<Rightarrow> CircuitBreaker" where
  "CircuitBreaker_ForceOpen now cb = (CircuitBreaker_setState now StateOpen cb)\<lparr>cb_healthStatus := 0\<rparr>"

definition CircuitBreaker_ForceClose :: "instant \<Rightarrow> CircuitBreaker \<Rightarrow> CircuitBreaker" where
  "CircuitBreaker_ForceClose now cb =
     (CircuitBreaker_setState now StateClosed cb)
       \<lparr>cb_failureCount := 0, cb_successCount := 0, cb_lastFailure := 0, cb_totalRequests := 0,
        cb_totalFailures := 0, cb_totalSuccesses := 0, cb_totalTimeouts := 0, cb_totalPanics := 0,
        cb_healthStatus := 1\<rparr>"

definition CircuitBreaker_Reset :: "instant \<Rightarrow> CircuitBreaker \<Rightarrow> CircuitBreaker" where
  "CircuitBreaker_Reset now cb =
     (CircuitBreaker_setState now StateClosed cb)
       \<lparr>cb_failureCount := 0, cb_successCount := 0, cb_lastFailure := 0, cb_totalRequests := 0,
        cb_totalFailures := 0, cb_totalSuccesses := 0, cb_totalTimeouts := 0, cb_totalPanics := 0,
        cb_healthStatus := 1, cb_lastStateChange := now\<rparr>"

section \<open>Running an operation\<close>

text \<open>An operation started at an instant: when it ends, and how.\<close>

type_synonym go_op = "instant \<Rightarrow> instant \<times> goerr option outcome"

text \<open>
  \<open>executeWithRecovery\<close>. When the operation panics, the deferred function recovers and the result
  of the call is the zero value of its unnamed result, \<open>nil\<close>.
\<close>

definition CircuitBreaker_executeWithRecovery ::
    "instant \<Rightarrow> go_op \<Rightarrow> CircuitBreaker \<Rightarrow> goerr option \<times> CircuitBreaker" where
  "CircuitBreaker_executeWithRecovery now operation cb =
     (case operation now of
        (t, Returns (Some err)) \<Rightarrow> (Some err, CircuitBreaker_recordFailure t cb)
      | (t, Returns None) \<Rightarrow> (None, CircuitBreaker_recordSuccess t cb)
      | (t, Panics _) \<Rightarrow>
          (None, CircuitBreaker_recordFailure t (cb\<lparr>cb_totalPanics := cb_totalPanics cb + 1\<rparr>)))"

definition CircuitBreaker_Execute ::
    "instant \<Rightarrow> go_op option \<Rightarrow> CircuitBreaker \<Rightarrow> goerr option \<times> CircuitBreaker" where
  "CircuitBreaker_Execute now operation cb =
     (case operation of
        None \<Rightarrow> (Some (common ErrInvalidOperation), cb)
      | Some op \<Rightarrow>
         (case CircuitBreaker_checkCircuitState now (cb\<lparr>cb_totalRequests := cb_totalRequests cb + 1\<rparr>) of
            (Some err, cb1) \<Rightarrow> (Some err, cb1)
          | (None, cb1) \<Rightarrow> CircuitBreaker_executeWithRecovery now op cb1))"

definition validateExecuteInputsCircuitBreaker :: "ctx option \<Rightarrow> bool \<Rightarrow> goerr option" where
  "validateExecuteInputsCircuitBreaker c operation_nil =
     (if c = None then Some (ErrText ''context cannot be nil'')
      else if operation_nil then Some (common ErrInvalidOperation)
      else None)"

text \<open>
  The goroutine of \<open>executeWithContextAndRecovery\<close>, once the operation has ended: what it sends on
  \<open>done\<close>, and the panic it counts.
\<close>

definition CircuitBreaker_goroutine ::
    "goerr option outcome \<Rightarrow> CircuitBreaker \<Rightarrow> goerr option \<times> CircuitBreaker" where
  "CircuitBreaker_goroutine r cb =
     (case r of
        Returns err \<Rightarrow> (err, cb)
      | Panics _ \<Rightarrow>
          (Some (wrapping (Sentinel (EBreaker ErrOperationPanic))),
           cb\<lparr>cb_totalPanics := cb_totalPanics cb + 1\<rparr>))"

text \<open>
  The two branches of its \<open>select\<close>, taken at the instant \<open>now\<close>: a value has arrived on \<open>done\<close>, or
  the context is done.
\<close>

definition select_done ::
    "instant \<Rightarrow> goerr option \<Rightarrow> CircuitBreaker \<Rightarrow> goerr option \<times> CircuitBreaker" where
  "select_done now err cb =
     (err, if err \<noteq> None then CircuitBreaker_recordFailure now cb
           else CircuitBreaker_recordSuccess now cb)"

definition select_ctx_done :: "instant \<Rightarrow> CircuitBreaker \<Rightarrow> goerr option \<times> CircuitBreaker" where
  "select_ctx_done now cb =
     (Some (wrapping (Sentinel (EBreaker ErrCircuitBreakerTimeout))),
      CircuitBreaker_recordFailure now (cb\<lparr>cb_totalTimeouts := cb_totalTimeouts cb + 1\<rparr>))"

text \<open>
  The whole call. \<open>wake\<close> is the instant at which the \<open>select\<close> is decided and \<open>pick\<close> its choice when
  both branches are ready; \<open>None\<close>: neither is, the call still blocks. An operation that is left
  running ends later, with \<open>CircuitBreaker_goroutine\<close> as its only effect.
\<close>

definition CircuitBreaker_executeWithContextAndRecovery ::
    "instant \<Rightarrow> instant \<Rightarrow> bool \<Rightarrow> ctx \<Rightarrow> go_op \<Rightarrow> CircuitBreaker
       \<Rightarrow> (goerr option \<times> CircuitBreaker) option" where
  "CircuitBreaker_executeWithContextAndRecovery now wake pick c operation cb =
     (case operation now of
        (t, r) \<Rightarrow>
          if t \<le> wake
          then (case CircuitBreaker_goroutine r cb of
                  (err, cb1) \<Rightarrow>
                    Some (if ctx_done wake c \<and> pick then select_ctx_done wake cb1
                          else select_done wake err cb1))
          else if ctx_done wake c then Some (select_ctx_done wake cb)
          else None)"

definition CircuitBreaker_ExecuteWithContext ::
    "instant \<Rightarrow> instant \<Rightarrow> bool \<Rightarrow> ctx option \<Rightarrow> go_op option \<Rightarrow> CircuitBreaker
       \<Rightarrow> (goerr option \<times> CircuitBreaker) option" where
  "CircuitBreaker_ExecuteWithContext now wake pick c operation cb =
     (case validateExecuteInputsCircuitBreaker c (operation = None) of
        Some err \<Rightarrow> Some (Some err, cb)
      | None \<Rightarrow>
         (case ctx_err now (the c) of
            Some err \<Rightarrow> Some (Some (wrapping (common ErrContextCancelled)), cb)
          | None \<Rightarrow>
             (case CircuitBreaker_checkCircuitState now
                     (cb\<lparr>cb_totalRequests := cb_totalRequests cb + 1\<rparr>) of
                (Some err, cb1) \<Rightarrow> Some (Some err, cb1)
              | (None, cb1) \<Rightarrow>
                  CircuitBreaker_executeWithContextAndRecovery now wake pick (the c)
                    (the operation) cb1)))"

definition validateTimeoutCircuitBreaker :: "duration \<Rightarrow> goerr option" where
  "validateTimeoutCircuitBreaker timeout =
     (if timeout < MinOperationTimeoutCircuitBreaker \<or> timeout > MaxOperationTimeoutCircuitBreaker
      then Some (ErrText ''timeout must be between %v and %v, got %v'')
      else None)"

definition CircuitBreaker_ExecuteWithTimeout ::
    "instant \<Rightarrow> instant \<Rightarrow> bool \<Rightarrow> duration \<Rightarrow> go_op option \<Rightarrow> CircuitBreaker
       \<Rightarrow> (goerr option \<times> CircuitBreaker) option" where
  "CircuitBreaker_ExecuteWithTimeout now wake pick timeout operation cb =
     (case validateTimeoutCircuitBreaker timeout of
        Some err \<Rightarrow> Some (Some err, cb)
      | None \<Rightarrow>
          CircuitBreaker_ExecuteWithContext now wake pick
            (Some (WithTimeout now timeout Background)) operation cb)"

section \<open>Statistics and health\<close>

record Stats =
  st_State :: State
  st_FailureCount :: counter
  st_SuccessCount :: counter
  st_LastFailure :: instant
  st_TotalRequests :: counter
  st_TotalFailures :: counter
  st_TotalSuccesses :: counter
  st_TotalTimeouts :: counter
  st_TotalPanics :: counter
  st_Config :: ConfigCircuitBreaker

definition CircuitBreaker_getConfig :: "CircuitBreaker \<Rightarrow> ConfigCircuitBreaker" where
  "CircuitBreaker_getConfig cb =
     \<lparr>cfg_Threshold = cb_threshold cb, cfg_Timeout = cb_timeout cb,
      cfg_HalfOpenMax = cb_halfOpenMax cb\<rparr>"

definition CircuitBreaker_GetStats :: "CircuitBreaker \<Rightarrow> Stats" where
  "CircuitBreaker_GetStats cb =
     \<lparr>st_State = cb_state cb, st_FailureCount = cb_failureCount cb,
      st_SuccessCount = cb_successCount cb, st_LastFailure = cb_lastFailure cb,
      st_TotalRequests = cb_totalRequests cb, st_TotalFailures = cb_totalFailures cb,
      st_TotalSuccesses = cb_totalSuccesses cb, st_TotalTimeouts = cb_totalTimeouts cb,
      st_TotalPanics = cb_totalPanics cb, st_Config = CircuitBreaker_getConfig cb\<rparr>"

definition CircuitBreaker_IsHealthy :: "CircuitBreaker \<Rightarrow> bool" where
  "CircuitBreaker_IsHealthy cb \<longleftrightarrow> cb_healthStatus cb = 1"

definition Stats_IsHealthy :: "Stats \<Rightarrow> bool" where
  "Stats_IsHealthy s \<longleftrightarrow> st_State s = StateClosed \<or> st_State s = StateHalfOpen"

definition rate_percent :: "counter \<Rightarrow> counter \<Rightarrow> float64" where
  "rate_percent n requests =
     (if requests = 0 then Fin 0
      else f_mul (f_div (f_of_int (sint n)) (f_of_int (sint requests))) (f_of_int 100))"

definition Stats_FailureRate :: "Stats \<Rightarrow> float64" where
  "Stats_FailureRate s = rate_percent (st_TotalFailures s) (st_TotalRequests s)"

definition Stats_SuccessRate :: "Stats \<Rightarrow> float64" where
  "Stats_SuccessRate s = rate_percent (st_TotalSuccesses s) (st_TotalRequests s)"

record BreakerHealth =
  cbh_is_healthy :: bool
  cbh_state :: string
  cbh_total_requests :: counter
  cbh_total_failures :: counter
  cbh_total_successes :: counter
  cbh_total_timeouts :: counter
  cbh_total_panics :: counter
  cbh_failure_rate :: float64
  cbh_success_rate :: float64
  cbh_last_failure :: instant
  cbh_last_state_change :: instant
  cbh_threshold :: int
  cbh_timeout :: duration
  cbh_half_open_max :: int

definition CircuitBreaker_GetHealthStatus :: "CircuitBreaker \<Rightarrow> BreakerHealth" where
  "CircuitBreaker_GetHealthStatus cb =
     (let stats = CircuitBreaker_GetStats cb in
      \<lparr>cbh_is_healthy = CircuitBreaker_IsHealthy cb, cbh_state = State_String (st_State stats),
       cbh_total_requests = st_TotalRequests stats, cbh_total_failures = st_TotalFailures stats,
       cbh_total_successes = st_TotalSuccesses stats, cbh_total_timeouts = st_TotalTimeouts stats,
       cbh_total_panics = st_TotalPanics stats, cbh_failure_rate = Stats_FailureRate stats,
       cbh_success_rate = Stats_SuccessRate stats, cbh_last_failure = st_LastFailure stats,
       cbh_last_state_change = cb_lastStateChange cb, cbh_threshold = cb_threshold cb,
       cbh_timeout = cb_timeout cb, cbh_half_open_max = cb_halfOpenMax cb\<rparr>)"

section \<open>Laws\<close>

lemma validateCircuitBreakerConfig_None_iff:
  "validateCircuitBreakerConfig c = None \<longleftrightarrow>
     1 \<le> cfg_Threshold c \<and> cfg_Threshold c \<le> 10000 \<and>
     Millisecond \<le> cfg_Timeout c \<and> cfg_Timeout c \<le> 300 * Second \<and>
     1 \<le> cfg_HalfOpenMax c \<and> cfg_HalfOpenMax c \<le> 1000"
  by (auto simp: validateCircuitBreakerConfig_def breaker_limits)

lemma applyCircuitBreakerDefaults_valid:
  "validateCircuitBreakerConfig c = None \<Longrightarrow> applyCircuitBreakerDefaults c = c"
  by (simp add: validateCircuitBreakerConfig_None_iff applyCircuitBreakerDefaults_def)

interpretation cbc: config_check validateCircuitBreakerConfig applyCircuitBreakerDefaults
  by unfold_locales (simp_all add: applyCircuitBreakerDefaults_valid)

lemma NewCircuitBreaker_construct:
  "NewCircuitBreaker now c
     = cbc.construct (common ErrInvalidConfig) (make_CircuitBreaker now) c"
  by (simp add: NewCircuitBreaker_def cbc.construct_def)

lemmas transition_defs = CircuitBreaker_setState_def CircuitBreaker_transitionToHalfOpen_def
  recordFailure_pre_def recordFailure_locked_def CircuitBreaker_recordFailure_def
  recordSuccess_pre_def recordSuccess_locked_def CircuitBreaker_recordSuccess_def
  CircuitBreaker_ForceOpen_def CircuitBreaker_ForceClose_def CircuitBreaker_Reset_def

section \<open>The invariant\<close>

text \<open>
  Inside the limits of a valid configuration: the failure count stays below the threshold as long
  as the breaker is closed, the success count below the half-open limit as long as it is half-open,
  and the health flag says whether the breaker is closed.
\<close>

definition cb_inv :: "CircuitBreaker \<Rightarrow> bool" where
  "cb_inv cb \<longleftrightarrow>
     validateCircuitBreakerConfig (CircuitBreaker_getConfig cb) = None
     \<and> (cb_healthStatus cb = 1 \<longleftrightarrow> cb_state cb = StateClosed)
     \<and> 0 \<le> sint (cb_failureCount cb) \<and> sint (cb_failureCount cb) \<le> cb_threshold cb
     \<and> 0 \<le> sint (cb_successCount cb) \<and> sint (cb_successCount cb) \<le> cb_halfOpenMax cb
     \<and> (cb_state cb = StateClosed \<longrightarrow> sint (cb_failureCount cb) < cb_threshold cb)
     \<and> (cb_state cb = StateHalfOpen \<longrightarrow> sint (cb_successCount cb) < cb_halfOpenMax cb)"

lemma cb_invD:
  assumes "cb_inv cb"
  shows "1 \<le> cb_threshold cb" "cb_threshold cb \<le> 10000"
    and "Millisecond \<le> cb_timeout cb" "cb_timeout cb \<le> 300 * Second"
    and "1 \<le> cb_halfOpenMax cb" "cb_halfOpenMax cb \<le> 1000"
    and "cb_healthStatus cb = 1 \<longleftrightarrow> cb_state cb = StateClosed"
    and "0 \<le> sint (cb_failureCount cb)" "0 \<le> sint (cb_successCount cb)"
    and "sint (cb_failureCount cb) \<le> cb_threshold cb"
    and "sint (cb_successCount cb) \<le> cb_halfOpenMax cb"
    and "cb_state cb = StateClosed \<Longrightarrow> sint (cb_failureCount cb) < cb_threshold cb"
    and "cb_state cb = StateHalfOpen \<Longrightarrow> sint (cb_successCount cb) < cb_halfOpenMax cb"
  using assms
  by (simp_all add: cb_inv_def validateCircuitBreakerConfig_None_iff CircuitBreaker_getConfig_def)

lemma cb_inv_sint_inc:
  assumes "cb_inv cb"
  shows "sint (cb_failureCount cb + 1) = sint (cb_failureCount cb) + 1"
    and "sint (cb_successCount cb + 1) = sint (cb_successCount cb) + 1"
  using cb_invD [OF assms] by (simp_all add: sint_inc)

lemma cb_inv_make:
  "validateCircuitBreakerConfig c = None
     \<Longrightarrow> cb_inv (make_CircuitBreaker now (applyCircuitBreakerDefaults c))"
  by (simp add: cb_inv_def applyCircuitBreakerDefaults_valid make_CircuitBreaker_def
      CircuitBreaker_getConfig_def validateCircuitBreakerConfig_None_iff)

text \<open>Every operation keeps the invariant; the counters outside it are free.\<close>

lemma cb_inv_counters [simp]:
  "cb_inv (cb\<lparr>cb_totalRequests := x\<rparr>) = cb_inv cb"
  "cb_inv (cb\<lparr>cb_totalPanics := x\<rparr>) = cb_inv cb"
  "cb_inv (cb\<lparr>cb_totalTimeouts := x\<rparr>) = cb_inv cb"
  by (simp_all add: cb_inv_def CircuitBreaker_getConfig_def)

lemma cb_inv_ops:
  assumes "cb_inv cb"
  shows "cb_inv (CircuitBreaker_transitionToHalfOpen now cb)"
    and "cb_inv (recordFailure_pre now cb)" and "cb_inv (recordSuccess_pre cb)"
    and "cb_inv (recordFailure_locked now cb)" and "cb_inv (recordSuccess_locked now cb)"
    and "cb_inv (CircuitBreaker_ForceOpen now cb)" and "cb_inv (CircuitBreaker_ForceClose now cb)"
    and "cb_inv (CircuitBreaker_Reset now cb)"
  using cb_invD [OF assms] cb_inv_sint_inc [OF assms]
  by (auto simp: transition_defs cb_inv_def CircuitBreaker_getConfig_def
      validateCircuitBreakerConfig_None_iff Let_def split: State.split)

lemma cb_inv_record:
  assumes "cb_inv cb"
  shows "cb_inv (CircuitBreaker_recordFailure now cb)" and "cb_inv (CircuitBreaker_recordSuccess now cb)"
  using assms by (simp_all add: CircuitBreaker_recordFailure_def CircuitBreaker_recordSuccess_def cb_inv_ops)

lemma cb_inv_check:
  "cb_inv cb \<Longrightarrow> cb_inv (snd (CircuitBreaker_checkCircuitState now cb))"
  by (simp add: CircuitBreaker_checkCircuitState_def cb_inv_ops split: State.split)

lemma cb_inv_Execute:
  assumes "cb_inv cb"
  shows "cb_inv (snd (CircuitBreaker_Execute now operation cb))"
proof -
  have rec: "cb_inv (snd (CircuitBreaker_executeWithRecovery now f c))" if "cb_inv c" for f c
    using that by (simp add: CircuitBreaker_executeWithRecovery_def cb_inv_record
        split: prod.split outcome.split option.split)
  let ?r = "CircuitBreaker_checkCircuitState now (cb\<lparr>cb_totalRequests := cb_totalRequests cb + 1\<rparr>)"
  have "cb_inv (snd ?r)" using assms by (intro cb_inv_check) simp
  then show ?thesis using assms rec
    by (cases operation; cases ?r; cases "fst ?r") (auto simp: CircuitBreaker_Execute_def)
qed

end
