(* ===== verification/CircuitBreakerProps.thy ===== *)
theory CircuitBreakerProps
  imports CircuitBreaker
begin

text \<open>
  What the circuit breaker does for a sequence of calls of \<open>Execute\<close>: the interface \<open>breaker\<close>
  interpreted on it, the refinement to a three-state automaton, and its single operations.
\<close>

section \<open>An abstract breaker\<close>

text \<open>The automaton: the number of consecutive failures, or of successes on probation.\<close>

datatype abs_breaker = AClosed nat | AOpen | AHalfOpen nat

fun abs_fail :: "nat \<Rightarrow> abs_breaker \<Rightarrow> abs_breaker" where
  "abs_fail thr (AClosed n) = (if thr \<le> Suc n then AOpen else AClosed (Suc n))"
| "abs_fail thr AOpen = AOpen"
| "abs_fail thr (AHalfOpen n) = AOpen"

fun abs_success :: "nat \<Rightarrow> abs_breaker \<Rightarrow> abs_breaker" where
  "abs_success hom (AClosed n) = AClosed 0"
| "abs_success hom AOpen = AOpen"
| "abs_success hom (AHalfOpen n) = (if hom \<le> Suc n then AClosed 0 else AHalfOpen (Suc n))"

fun abs_probe :: "abs_breaker \<Rightarrow> abs_breaker" where
  "abs_probe AOpen = AHalfOpen 0"
| "abs_probe a = a"

definition abs_of :: "CircuitBreaker \<Rightarrow> abs_breaker" where
  "abs_of cb = (case cb_state cb of
     StateClosed \<Rightarrow> AClosed (nat (sint (cb_failureCount cb)))
   | StateOpen \<Rightarrow> AOpen
   | StateHalfOpen \<Rightarrow> AHalfOpen (nat (sint (cb_successCount cb))))"

lemma nat_int_inc: "nat (int n + 1) = Suc n"
  by simp

lemma abs_of_recordFailure:
  assumes "cb_inv cb"
  shows "abs_of (CircuitBreaker_recordFailure now cb) = abs_fail (nat (cb_threshold cb)) (abs_of cb)"
proof -
  obtain n where n: "sint (cb_failureCount cb) = int n"
    using cb_invD(8) [OF assms] nonneg_int_cases by metis
  have "cb_threshold cb \<le> int n + 1 \<longleftrightarrow> nat (cb_threshold cb) \<le> Suc n" by arith
  then show ?thesis using n cb_inv_sint_inc(1) [OF assms]
    by (cases "cb_state cb") (simp_all add: abs_of_def transition_defs Let_def nat_int_inc)
qed

lemma abs_of_recordSuccess:
  assumes "cb_inv cb"
  shows "abs_of (CircuitBreaker_recordSuccess now cb) = abs_success (nat (cb_halfOpenMax cb)) (abs_of cb)"
proof -
  obtain n where n: "sint (cb_successCount cb) = int n"
    using cb_invD(9) [OF assms] nonneg_int_cases by metis
  have "cb_halfOpenMax cb \<le> int n + 1 \<longleftrightarrow> nat (cb_halfOpenMax cb) \<le> Suc n" by arith
  then show ?thesis using n cb_inv_sint_inc(2) [OF assms]
    by (cases "cb_state cb") (simp_all add: abs_of_def transition_defs Let_def nat_int_inc)
qed

text \<open>Property C3: the breaker refines the automaton. Recording a failure, recording a success, moving
  to half-open, forcing it open and resetting it are the automaton's steps on the abstraction of
  the state, for every state inside the invariant.\<close>

theorem breaker_refines_automaton:
  assumes "cb_inv cb"
  shows "abs_of (CircuitBreaker_recordFailure now cb) = abs_fail (nat (cb_threshold cb)) (abs_of cb)
    \<and> abs_of (CircuitBreaker_recordSuccess now cb) = abs_success (nat (cb_halfOpenMax cb)) (abs_of cb)
    \<and> abs_of (CircuitBreaker_transitionToHalfOpen now cb) = abs_probe (abs_of cb)
    \<and> abs_of (CircuitBreaker_ForceOpen now cb) = AOpen
    \<and> abs_of (CircuitBreaker_ForceClose now cb) = AClosed 0
    \<and> abs_of (CircuitBreaker_Reset now cb) = AClosed 0"
  using abs_of_recordFailure [OF assms] abs_of_recordSuccess [OF assms]
  by (cases "cb_state cb")
    (simp_all add: abs_of_def CircuitBreaker_transitionToHalfOpen_def CircuitBreaker_setState_def
      CircuitBreaker_ForceOpen_def CircuitBreaker_ForceClose_def CircuitBreaker_Reset_def)

text \<open>A breaker for the witnesses: one failure trips it, two successes heal it.\<close>

definition touchy_cfg :: ConfigCircuitBreaker where
  "touchy_cfg = \<lparr>cfg_Threshold = 1, cfg_Timeout = 10 * Second, cfg_HalfOpenMax = 2\<rparr>"

definition touchy :: CircuitBreaker where
  "touchy = make_CircuitBreaker 1 (applyCircuitBreakerDefaults touchy_cfg)"

lemma touchy_valid: "validateCircuitBreakerConfig touchy_cfg = None"
  by (simp add: validateCircuitBreakerConfig_None_iff touchy_cfg_def)

lemma touchy_inv: "cb_inv touchy"
  unfolding touchy_def by (rule cb_inv_make [OF touchy_valid])

lemma touchy_simps:
  "cb_state touchy = StateClosed" "cb_failureCount touchy = 0" "cb_successCount touchy = 0"
  "cb_threshold touchy = 1" "cb_timeout touchy = 10 * Second" "cb_halfOpenMax touchy = 2"
  "cb_lastFailure touchy = 0" "cb_totalRequests touchy = 0"
  unfolding touchy_def applyCircuitBreakerDefaults_valid [OF touchy_valid]
  by (simp_all add: make_CircuitBreaker_def touchy_cfg_def)

theorem breaker_refines_automaton_witness:
  "abs_of (CircuitBreaker_recordFailure 5 touchy) = AOpen"
  using breaker_refines_automaton [OF touchy_inv] by (simp add: abs_of_def touchy_simps)

section \<open>The contract\<close>

text \<open>One call of \<open>Execute\<close>, started at \<open>t\<close>, with an operation that ends at \<open>t'\<close>.\<close>

definition cb_attempt ::
    "instant \<Rightarrow> instant \<Rightarrow> bool \<Rightarrow> CircuitBreaker \<Rightarrow> bool \<times> CircuitBreaker" where
  "cb_attempt t t' b cb =
     (let r = CircuitBreaker_checkCircuitState t (cb\<lparr>cb_totalRequests := cb_totalRequests cb + 1\<rparr>)
      in if fst r = None
         then (True, if b then CircuitBreaker_recordSuccess t' (snd r)
                     else CircuitBreaker_recordFailure t' (snd r))
         else (False, snd r))"

definition cb_budget :: "CircuitBreaker \<Rightarrow> nat" where
  "cb_budget cb = (if cb_state cb = StateClosed
     then nat (cb_threshold cb - sint (cb_failureCount cb)) else 1)"

definition cb_needed :: "CircuitBreaker \<Rightarrow> nat" where
  "cb_needed cb = (case cb_state cb of
     StateClosed \<Rightarrow> 1
   | StateOpen \<Rightarrow> nat (cb_halfOpenMax cb)
   | StateHalfOpen \<Rightarrow> nat (cb_halfOpenMax cb - sint (cb_successCount cb)))"

definition cb_ok :: "CircuitBreaker \<Rightarrow> bool" where
  "cb_ok cb \<longleftrightarrow> cb_inv cb \<and> (cb_state cb = StateOpen \<longrightarrow> cb_lastFailure cb \<noteq> 0)"

abbreviation cb_release :: "CircuitBreaker \<Rightarrow> instant" where
  "cb_release cb \<equiv> cb_lastFailure cb + cb_timeout cb"

abbreviation is_open :: "CircuitBreaker \<Rightarrow> bool" where
  "is_open cb \<equiv> cb_state cb = StateOpen"

abbreviation is_closed :: "CircuitBreaker \<Rightarrow> bool" where
  "is_closed cb \<equiv> cb_state cb = StateClosed"

lemma shouldAttemptReset_iff:
  assumes "cb_inv cb" "cb_lastFailure cb \<noteq> 0"
  shows "CircuitBreaker_shouldAttemptReset t cb \<longleftrightarrow> cb_release cb \<le> t"
  using cb_invD [OF assms(1)] assms(2)
  by (auto simp: CircuitBreaker_shouldAttemptReset_def time_sub_def sat64_ge_iff min_int64_def
      max_int64_def)

lemma attempt_open_refused:
  assumes "cb_ok cb" "is_open cb" "t < cb_release cb"
  shows "cb_attempt t t' b cb = (False, cb\<lparr>cb_totalRequests := cb_totalRequests cb + 1\<rparr>)"
  using assms shouldAttemptReset_iff [of "cb\<lparr>cb_totalRequests := cb_totalRequests cb + 1\<rparr>" t]
  by (simp add: cb_attempt_def CircuitBreaker_checkCircuitState_def cb_ok_def)

text \<open>What a call that is let through leaves behind, for each state of the breaker it found.\<close>

lemma attempt_runs:
  assumes "cb_ok cb" "is_open cb \<Longrightarrow> cb_release cb \<le> t"
  shows "cb_attempt t t' b cb = (True,
    (if b then CircuitBreaker_recordSuccess t' else CircuitBreaker_recordFailure t')
      (CircuitBreaker_transitionToHalfOpen t (cb\<lparr>cb_totalRequests := cb_totalRequests cb + 1\<rparr>)))"
  using assms shouldAttemptReset_iff [of "cb\<lparr>cb_totalRequests := cb_totalRequests cb + 1\<rparr>" t]
    cb_invD(13) [of cb]
  by (cases "cb_state cb")
    (auto simp: cb_attempt_def CircuitBreaker_checkCircuitState_def cb_ok_def
      CircuitBreaker_transitionToHalfOpen_def)

lemma cb_ok_attempt: "cb_ok cb \<Longrightarrow> 0 < t' \<Longrightarrow> cb_ok (snd (cb_attempt t t' b cb))"
proof -
  assume ok: "cb_ok cb" and t: "0 < t'"
  have "cb_inv (snd (cb_attempt t t' b cb))"
    using ok cb_inv_check [of "cb\<lparr>cb_totalRequests := cb_totalRequests cb + 1\<rparr>" t]
    by (auto simp: cb_attempt_def cb_ok_def Let_def cb_inv_record)
  moreover have "is_open (snd (cb_attempt t t' b cb)) \<Longrightarrow> cb_lastFailure (snd (cb_attempt t t' b cb)) \<noteq> 0"
    using ok t
    by (auto simp: cb_attempt_def cb_ok_def Let_def CircuitBreaker_checkCircuitState_def
        transition_defs split: State.splits if_splits)
  ultimately show ?thesis by (simp add: cb_ok_def)
qed

lemma attempt_fixed [simp]:
  "cb_timeout (snd (cb_attempt t t' b cb)) = cb_timeout cb"
  by (auto simp: cb_attempt_def Let_def CircuitBreaker_checkCircuitState_def transition_defs
      split: State.split)

lemma attempt_success:
  assumes ok: "cb_ok cb" and t: "0 < t'" and r: "\<not> is_open cb \<or> cb_release cb \<le> t"
  shows "\<not> is_open (snd (cb_attempt t t' True cb))
    \<and> (if cb_needed cb = 1 then is_closed (snd (cb_attempt t t' True cb))
       else Suc (cb_needed (snd (cb_attempt t t' True cb))) = cb_needed cb)"
proof -
  have a: "cb_attempt t t' True cb = (True, CircuitBreaker_recordSuccess t'
      (CircuitBreaker_transitionToHalfOpen t (cb\<lparr>cb_totalRequests := cb_totalRequests cb + 1\<rparr>)))"
    using attempt_runs [OF ok] r by auto
  have i: "cb_inv cb" using ok by (simp add: cb_ok_def)
  show ?thesis unfolding a
    using cb_invD [OF i] cb_inv_sint_inc [OF i]
    by (cases "cb_state cb")
      (auto simp: transition_defs cb_needed_def Let_def Suc_nat_eq_nat_zadd1 nat_eq_iff)
qed

lemma attempt_failure:
  assumes ok: "cb_ok cb" and t: "0 < t'" and r: "\<not> is_open cb"
  shows "if cb_budget cb = 1
    then is_open (snd (cb_attempt t t' False cb)) \<and> cb_release (snd (cb_attempt t t' False cb)) = t' + cb_timeout cb
    else \<not> is_open (snd (cb_attempt t t' False cb))
         \<and> Suc (cb_budget (snd (cb_attempt t t' False cb))) = cb_budget cb"
proof -
  have a: "cb_attempt t t' False cb = (True, CircuitBreaker_recordFailure t'
      (CircuitBreaker_transitionToHalfOpen t (cb\<lparr>cb_totalRequests := cb_totalRequests cb + 1\<rparr>)))"
    using attempt_runs [OF ok] r by auto
  have i: "cb_inv cb" using ok by (simp add: cb_ok_def)
  show ?thesis unfolding a
    using cb_invD [OF i] cb_inv_sint_inc [OF i] r
    by (cases "cb_state cb")
      (auto simp: transition_defs cb_budget_def Let_def Suc_nat_eq_nat_zadd1 nat_eq_iff)
qed

interpretation cbk: breaker "\<lambda>_. cb_ok" cb_attempt is_open is_closed cb_release cb_timeout cb_budget cb_needed
proof unfold_locales
  show "cb_ok s \<Longrightarrow> 0 < t' \<Longrightarrow> cb_ok (snd (cb_attempt t t' b s))" for s t t' b
    by (rule cb_ok_attempt)
  show "cb_ok s \<Longrightarrow> is_open s \<Longrightarrow> t < cb_release s \<Longrightarrow>
      \<not> fst (cb_attempt t t' b s) \<and> is_open (snd (cb_attempt t t' b s))
      \<and> cb_release (snd (cb_attempt t t' b s)) = cb_release s" for s t t' b
    by (simp add: attempt_open_refused)
  show "cb_ok s \<Longrightarrow> \<not> is_open s \<or> cb_release s \<le> t \<Longrightarrow> fst (cb_attempt t t' b s)" for s t t' b
    by (subst attempt_runs) auto
  show "cb_ok s \<Longrightarrow> 0 < t' \<Longrightarrow> \<not> is_open s \<or> cb_release s \<le> t \<Longrightarrow>
      \<not> is_open (snd (cb_attempt t t' True s))
      \<and> (if cb_needed s = 1 then is_closed (snd (cb_attempt t t' True s))
         else Suc (cb_needed (snd (cb_attempt t t' True s))) = cb_needed s)" for s t t'
    by (rule attempt_success)
  show "is_closed (snd (cb_attempt t t' True s))" if "cb_ok s" "0 < t'" "is_closed s" for s t t'
    using attempt_success [of s t' t] that by (simp add: cb_needed_def)
  show "is_open (snd (cb_attempt t t' False s))
      \<and> cb_release (snd (cb_attempt t t' False s)) \<ge> t' + cb_timeout s"
    if "cb_ok s" "0 < t'" "\<not> is_open s" "cb_budget s = 1" for s t t'
    using attempt_failure [of s t' t] that by simp
  show "\<not> is_open (snd (cb_attempt t t' False s))
      \<and> Suc (cb_budget (snd (cb_attempt t t' False s))) = cb_budget s"
    if "cb_ok s" "0 < t'" "\<not> is_open s" "cb_budget s \<noteq> 1" for s t t'
    using attempt_failure [of s t' t] that by simp
qed simp_all

section \<open>Sequences of calls\<close>

text \<open>Calls of \<open>Execute\<close> one after the other: start, end, and what the operation returns if it runs.\<close>

fun Execute_calls ::
    "(instant \<times> instant \<times> goerr option) list \<Rightarrow> CircuitBreaker
       \<Rightarrow> goerr option list \<times> CircuitBreaker" where
  "Execute_calls [] cb = ([], cb)"
| "Execute_calls ((t, t', err) # calls) cb =
     (let (r, cb1) = CircuitBreaker_Execute t (Some (\<lambda>_. (t', Returns err))) cb;
          (rs, cb2) = Execute_calls calls cb1
      in (r # rs, cb2))"

abbreviation open_err :: goerr where
  "open_err \<equiv> Sentinel (EBreaker ErrCircuitBreakerOpen)"

fun attempt_of :: "instant \<times> instant \<times> goerr option \<Rightarrow> attempt" where
  "attempt_of (t, t', err) = Attempt t t' (err = None)"

lemma check_error:
  "fst (CircuitBreaker_checkCircuitState t cb) = Some e \<Longrightarrow> e = open_err"
  by (auto simp: CircuitBreaker_checkCircuitState_def split: State.splits if_splits)

lemma Execute_attempt:
  "CircuitBreaker_Execute t (Some (\<lambda>_. (t', Returns err))) cb
     = (if fst (cb_attempt t t' (err = None) cb) then err else Some open_err,
        snd (cb_attempt t t' (err = None) cb))"
proof -
  let ?r = "CircuitBreaker_checkCircuitState t (cb\<lparr>cb_totalRequests := cb_totalRequests cb + 1\<rparr>)"
  obtain e cb1 where r: "?r = (e, cb1)" by (cases ?r)
  have "e = None \<or> e = Some open_err"
    using check_error [of t "cb\<lparr>cb_totalRequests := cb_totalRequests cb + 1\<rparr>"] r by (cases e) auto
  with r show ?thesis
    by (cases err) (auto simp: CircuitBreaker_Execute_def cb_attempt_def
        CircuitBreaker_executeWithRecovery_def)
qed

lemma Execute_calls_attempts:
  "snd (Execute_calls calls cb) = snd (cbk.attempts (map attempt_of calls) cb)
   \<and> fst (Execute_calls calls cb)
     = map2 (\<lambda>(t, t', err) ran. if ran then err else Some open_err) calls
         (fst (cbk.attempts (map attempt_of calls) cb))"
proof (induction calls arbitrary: cb)
  case Nil
  then show ?case by simp
next
  case (Cons c calls)
  obtain t t' err where c: "c = (t, t', err)" by (cases c) auto
  show ?case using Cons.IH [of "snd (cb_attempt t t' (err = None) cb)"]
    by (simp add: c Execute_attempt split_beta)
qed

lemma map2_outcomes:
  "map2 (\<lambda>(t, t', err) ran. if ran then err else e) calls
      (replicate (min n (length calls)) True @ replicate (length calls - n) False)
     = map (\<lambda>(t, t', err). err) (take n calls) @ replicate (length calls - n) e"
proof (induction calls arbitrary: n)
  case (Cons c calls)
  show ?case using Cons.IH [of "n - 1"] Cons.IH [of 0] by (cases n) (auto simp: split_beta)
qed simp

text \<open>Property C4: an outage costs exactly the failures that are left. While every operation fails and
  all calls start within one timeout, the first calls run and return their own errors until the
  threshold is reached; all later calls return ErrCircuitBreakerOpen without running, and the
  breaker is open exactly if the threshold was reached.\<close>

theorem breaker_outage:
  assumes "cb_inv cb" and "cb_state cb = StateClosed"
    and "\<forall>(t, t', err)\<in>set calls.
      err \<noteq> None \<and> t0 \<le> t \<and> t < t0 + cb_timeout cb \<and> t \<le> t' \<and> 0 < t'"
  shows "fst (Execute_calls calls cb)
      = map (\<lambda>(t, t', err). err) (take (nat (cb_threshold cb - sint (cb_failureCount cb))) calls)
        @ replicate (length calls - nat (cb_threshold cb - sint (cb_failureCount cb))) (Some open_err)
    \<and> (cb_state (snd (Execute_calls calls cb)) = StateOpen
        \<longleftrightarrow> nat (cb_threshold cb - sint (cb_failureCount cb)) \<le> length calls)"
proof -
  have ok: "cb_ok cb" "\<not> is_open cb" "0 < cb_budget cb"
    using assms cb_invD [OF assms(1)] by (auto simp: cb_ok_def cb_budget_def)
  have "cbk.outage t0 (cb_timeout cb) (map attempt_of calls)"
    using assms(3) by (fastforce simp: cbk.outage_def)
  from cbk.outage_cost [OF ok this] show ?thesis
    using assms(2) Execute_calls_attempts [of calls cb] by (simp add: cb_budget_def map2_outcomes)
qed

theorem breaker_outage_witness:
  "fst (Execute_calls [(5, 6, Some CtxCanceled), (7, 8, Some CtxCanceled), (9, 9, Some CtxCanceled)] touchy)
     = [Some CtxCanceled, Some open_err, Some open_err]"
  using breaker_outage [OF touchy_inv, of "[(5, 6, Some CtxCanceled), (7, 8, Some CtxCanceled), (9, 9, Some CtxCanceled)]" 5]
  by (simp add: touchy_simps numeral_eq_Suc)

text \<open>Property C5: the breaker recovers. Once the timeout has passed since the last failure of an open
  breaker, calls that succeed all run; after HalfOpenMax of them the breaker is closed and healthy.\<close>

theorem breaker_recovers:
  assumes "cb_inv cb" and "cb_state cb = StateOpen" and "cb_lastFailure cb \<noteq> 0"
    and "cb_lastFailure cb + cb_timeout cb \<le> t"
    and "\<forall>(s, s', err)\<in>set ((t, t', err1) # calls). err = None \<and> 0 < s'"
    and "cb_halfOpenMax cb \<le> 1 + int (length calls)"
  shows "fst (Execute_calls ((t, t', err1) # calls) cb) = replicate (1 + length calls) None
    \<and> cb_state (snd (Execute_calls ((t, t', err1) # calls) cb)) = StateClosed
    \<and> CircuitBreaker_IsHealthy (snd (Execute_calls ((t, t', err1) # calls) cb))"
proof -
  let ?as = "map attempt_of ((t, t', err1) # calls)"
  have ok: "cb_ok cb" "0 < cb_needed cb" "cb_needed cb \<le> Suc (length (map attempt_of calls))"
    using assms cb_invD(5) [OF assms(1)] by (simp_all add: cb_ok_def cb_needed_def nat_le_iff)
  have as: "?as = Attempt t t' True # map attempt_of calls" using assms(5) by simp
  have "cbk.good_run ?as" using assms(5) by (fastforce simp: cbk.good_run_def)
  then have *: "fst (cbk.attempts ?as cb) = replicate (Suc (length calls)) True"
    "is_closed (snd (cbk.attempts ?as cb))"
    using cbk.recovery [OF ok(1) assms(4) _ ok(2,3)] unfolding as by auto
  have "cb_ok (snd (cbk.attempts as cb))" if "cb_ok cb" "cbk.good_run as" for as cb
    using that
  proof (induction as arbitrary: cb)
    case (Cons a as)
    then show ?case by (cases a) (auto simp: split_beta cbk.good_run_Cons cb_ok_attempt)
  qed simp
  then have "cb_ok (snd (cbk.attempts ?as cb))" using ok(1) \<open>cbk.good_run ?as\<close> by blast
  then have "CircuitBreaker_IsHealthy (snd (cbk.attempts ?as cb))"
    using *(2) by (simp add: cb_ok_def CircuitBreaker_IsHealthy_def cb_invD(7))
  moreover have "map2 (\<lambda>(t, t', err) ran. if ran then err else Some open_err) cs
      (replicate (length cs) True) = replicate (length cs) None"
    if "\<forall>(s, s', err)\<in>set cs. err = None" for cs :: "(instant \<times> instant \<times> goerr option) list"
    using that by (induction cs) auto
  from this [of "(t, t', err1) # calls"]
  have "map2 (\<lambda>(t, t', err) ran. if ran then err else Some open_err) ((t, t', err1) # calls)
      (replicate (Suc (length calls)) True) = replicate (Suc (length calls)) None"
    using assms(5) by fastforce
  ultimately show ?thesis
    using * Execute_calls_attempts [of "(t, t', err1) # calls" cb] by (metis Suc_eq_plus1_left)
qed

definition tripped_touchy :: CircuitBreaker where
  "tripped_touchy = CircuitBreaker_recordFailure 5 touchy"

lemma tripped_touchy_simps:
  "cb_inv tripped_touchy" "cb_state tripped_touchy = StateOpen" "cb_lastFailure tripped_touchy = 5"
  "cb_timeout tripped_touchy = 10 * Second" "cb_halfOpenMax tripped_touchy = 2"
  by (simp_all add: tripped_touchy_def cb_inv_record touchy_inv)
    (simp_all add: transition_defs touchy_simps)

theorem breaker_recovers_witness:
  "cb_state (snd (Execute_calls [(10000000005, 10000000006, None), (10000000007, 10000000008, None)]
      tripped_touchy)) = StateClosed"
  using breaker_recovers [of tripped_touchy 10000000005 10000000006 None "[(10000000007, 10000000008, None)]"]
  by (simp add: tripped_touchy_simps del: Execute_calls.simps)

section \<open>Single operations\<close>

text \<open>While the breaker is open and less than the timeout has passed since the last
  failure, Execute returns ErrCircuitBreakerOpen for every operation, counts the request and leaves
  the rest of the breaker as it was.\<close>

theorem Execute_open_refuses:
  assumes "cb_inv cb" and "cb_state cb = StateOpen" and "now < cb_lastFailure cb + cb_timeout cb"
  shows "CircuitBreaker_Execute now (Some operation) cb
    = (Some (Sentinel (EBreaker ErrCircuitBreakerOpen)),
       cb\<lparr>cb_totalRequests := cb_totalRequests cb + 1\<rparr>)"
proof -
  have "\<not> CircuitBreaker_shouldAttemptReset now (cb\<lparr>cb_totalRequests := cb_totalRequests cb + 1\<rparr>)"
    using shouldAttemptReset_iff [of "cb\<lparr>cb_totalRequests := cb_totalRequests cb + 1\<rparr>" now] assms
    by (cases "cb_lastFailure cb = 0") (simp_all add: CircuitBreaker_shouldAttemptReset_def)
  with assms(2) show ?thesis
    by (simp add: CircuitBreaker_Execute_def CircuitBreaker_checkCircuitState_def)
qed

theorem Execute_open_refuses_witness:
  "fst (CircuitBreaker_Execute 7 (Some (\<lambda>t. (t, Returns None))) tripped_touchy) = Some open_err"
  using Execute_open_refuses [of tripped_touchy 7 "\<lambda>t. (t, Returns None)"]
  by (simp add: tripped_touchy_simps)

text \<open>The half-open state does not limit the calls it admits. In every half-open state
  inside the invariant the check admits the call and leaves the breaker as it is, so that any number
  of calls can pass before the first result is recorded.\<close>

theorem half_open_admits_all:
  assumes "cb_inv cb" and "cb_state cb = StateHalfOpen"
  shows "CircuitBreaker_checkCircuitState now cb = (None, cb)"
  using cb_invD(13) [OF assms] assms(2) by (simp add: CircuitBreaker_checkCircuitState_def)

theorem half_open_admits_all_witness:
  "CircuitBreaker_checkCircuitState 9 (CircuitBreaker_transitionToHalfOpen 8 tripped_touchy)
     = (None, CircuitBreaker_transitionToHalfOpen 8 tripped_touchy)"
  by (rule half_open_admits_all [OF cb_inv_ops(1) [OF tripped_touchy_simps(1)]])
    (simp add: tripped_touchy_simps CircuitBreaker_transitionToHalfOpen_def CircuitBreaker_setState_def)

text \<open>An operation that panics is counted as a panic and as a failure, but Execute
  returns nil to its caller, as if it had succeeded.\<close>

theorem Execute_panic_returns_nil:
  assumes "cb_state cb = StateClosed" and "operation now = (t, Panics p)"
  shows "fst (CircuitBreaker_Execute now (Some operation) cb) = None
    \<and> cb_totalPanics (snd (CircuitBreaker_Execute now (Some operation) cb)) = cb_totalPanics cb + 1
    \<and> cb_totalFailures (snd (CircuitBreaker_Execute now (Some operation) cb)) = cb_totalFailures cb + 1
    \<and> cb_lastFailure (snd (CircuitBreaker_Execute now (Some operation) cb)) = t"
  using assms
  by (simp add: CircuitBreaker_Execute_def CircuitBreaker_checkCircuitState_def
      CircuitBreaker_executeWithRecovery_def transition_defs Let_def)

theorem Execute_panic_returns_nil_witness:
  "fst (CircuitBreaker_Execute 3 (Some (\<lambda>t. (t + 1, Panics (UserPanic 0)))) touchy) = None"
  using Execute_panic_returns_nil [of touchy "\<lambda>t. (t + 1, Panics (UserPanic 0))" 3]
  by (simp add: touchy_simps)

text \<open>A breaker that never recorded a failure and is forced open stays open: whatever the
  calls and however long the time, every one of them is refused.\<close>

theorem ForceOpen_sticks:
  assumes "cb_lastFailure cb = 0"
  shows "fst (Execute_calls calls (CircuitBreaker_ForceOpen now cb))
      = replicate (length calls) (Some (Sentinel (EBreaker ErrCircuitBreakerOpen)))
    \<and> cb_state (snd (Execute_calls calls (CircuitBreaker_ForceOpen now cb))) = StateOpen"
proof -
  have "fst (Execute_calls calls c) = replicate (length calls) (Some open_err)
      \<and> cb_state (snd (Execute_calls calls c)) = StateOpen"
    if "cb_state c = StateOpen" "cb_lastFailure c = 0" for c
    using that
  proof (induction calls arbitrary: c)
    case (Cons call calls)
    then show ?case
      by (cases call) (simp add: CircuitBreaker_Execute_def CircuitBreaker_checkCircuitState_def
          CircuitBreaker_shouldAttemptReset_def split_beta)
  qed simp
  then show ?thesis using assms by (simp add: CircuitBreaker_ForceOpen_def CircuitBreaker_setState_def)
qed

theorem ForceOpen_sticks_witness:
  "fst (Execute_calls [(4, 5, None), (10 ^ 18, 10 ^ 18, None)] (CircuitBreaker_ForceOpen 3 touchy))
     = [Some open_err, Some open_err]"
  using ForceOpen_sticks [of touchy "[(4, 5, None), (10 ^ 18, 10 ^ 18, None)]" 3]
  by (simp add: touchy_simps numeral_eq_Suc del: Execute_calls.simps)

text \<open>The two health reports differ exactly in the half-open state, where IsHealthy says
  no and the statistics say yes.\<close>

theorem health_reports_differ:
  assumes "cb_inv cb"
  shows "CircuitBreaker_IsHealthy cb \<noteq> Stats_IsHealthy (CircuitBreaker_GetStats cb)
    \<longleftrightarrow> cb_state cb = StateHalfOpen"
  using cb_invD(7) [OF assms]
  by (cases "cb_state cb")
    (simp_all add: CircuitBreaker_IsHealthy_def Stats_IsHealthy_def CircuitBreaker_GetStats_def)

theorem health_reports_differ_witness:
  "CircuitBreaker_IsHealthy touchy = Stats_IsHealthy (CircuitBreaker_GetStats touchy)"
  using health_reports_differ [OF touchy_inv] by (simp add: touchy_simps)



lemma f_div_unit:
  assumes "0 \<le> m" and "m \<le> n" and "n < 2 ^ 63" and "n \<noteq> 0"
  shows "\<exists>q. f_div (f_of_int m) (f_of_int n) = Fin q \<and> 0 \<le> q \<and> q \<le> 1"
proof -
  have small: "\<bar>of_int k\<bar> \<le> (2::rat) ^ 100" if "0 \<le> k" "k \<le> n" for k :: int
  proof -
    have "k \<le> 2 ^ 100" using that assms(3) by simp
    then have "(of_int k :: rat) \<le> of_int (2 ^ 100)" by (simp only: of_int_le_iff)
    with that show ?thesis by simp
  qed
  have fl: "f_of_int m = Fin (flr (of_int m))" "f_of_int n = Fin (flr (of_int n))"
    using small [of m] small [of n] assms by (simp_all add: fl_small small_powi_1023)
  have "representable 1" using representable_int [of 1] by simp
  then have n: "1 \<le> flr (of_int n)" using assms by (intro flr_ge_representable) auto
  have m: "0 \<le> flr (of_int m)" "flr (of_int m) \<le> flr (of_int n)"
    using assms by (auto intro: flr_nonneg flr_mono)
  let ?q = "flr (of_int m) / flr (of_int n)"
  have q: "0 \<le> ?q" "?q \<le> 1" using m n by (auto simp: divide_simps)
  have "\<bar>?q\<bar> \<le> 2 ^ 100" using q by simp
  then have "fl ?q = Fin (flr ?q)" by (intro fl_small small_powi_1023)
  moreover have "0 \<le> flr ?q" "flr ?q \<le> 1"
    using q \<open>representable 1\<close> by (auto intro: flr_nonneg flr_le_representable)
  ultimately show ?thesis using fl n by auto
qed

text \<open>The failure rate of the statistics is a percentage between 0 and 100 whenever no
  more failures than requests are counted, with the rounding of the floating-point division and
  multiplication.\<close>

theorem FailureRate_is_percentage:
  assumes "0 \<le> sint (st_TotalFailures s)" and "sint (st_TotalFailures s) \<le> sint (st_TotalRequests s)"
  shows "f_le (Fin 0) (Stats_FailureRate s) \<and> f_le (Stats_FailureRate s) (Fin 100)"
proof (cases "st_TotalRequests s = 0")
  case True
  then show ?thesis by (simp add: Stats_FailureRate_def rate_percent_def)
next
  case False
  have n: "sint (st_TotalRequests s) < 2 ^ 63" "sint (st_TotalRequests s) \<noteq> 0"
    using sint_lt [of "st_TotalRequests s"] False by (auto dest: signed_eq_0_iff [THEN iffD1])
  obtain q where q: "f_div (f_of_int (sint (st_TotalFailures s)))
      (f_of_int (sint (st_TotalRequests s))) = Fin q" "0 \<le> q" "q \<le> 1"
    using f_div_unit [OF assms n] by blast
  have h: "f_of_int 100 = Fin 100" using f_of_int_exact [of 100] by simp
  have "Stats_FailureRate s = fl (q * 100)"
    using False q(1) h by (simp add: Stats_FailureRate_def rate_percent_def)
  moreover have "f_le (fl 0) (fl (q * 100))" "f_le (fl (q * 100)) (fl 100)"
    using q(2,3) by (intro fl_mono; simp)+
  ultimately show ?thesis using h by simp
qed

theorem FailureRate_is_percentage_witness:
  "f_le (Stats_FailureRate (CircuitBreaker_GetStats touchy)) (Fin 100)"
  using FailureRate_is_percentage [of "CircuitBreaker_GetStats touchy"]
  by (simp add: CircuitBreaker_GetStats_def touchy_def make_CircuitBreaker_def)

end
