(* ===== verification/BreakerSystem.thy ===== *)
theory BreakerSystem
  imports CircuitBreakerProps Runs
begin

text \<open>
  The concurrent system around one circuit breaker. The calls in flight stand at the points where
  the code can be pre-empted: \<open>checkCircuitState\<close> loads the state, the time of the last failure and
  the success count with separate atomic loads and takes the mutex only to move to half-open;
  \<open>recordFailure\<close> and \<open>recordSuccess\<close> bump their counters before they take the mutex.
\<close>

section \<open>Calls, events, steps\<close>

datatype cb_call =
    CbChecking
  | CbSawOpen
  | CbResetting
  | CbSawHalfOpen
  | CbExecuting
  | CbRecording bool "goerr option"
  | CbRejected
  | CbFinished "goerr option"

text \<open>How an operation ends: it returns, panics under \<open>Execute\<close>, panics in the goroutine of
  \<open>ExecuteWithContext\<close>, or is given up when the context is done.\<close>

datatype cb_fin = FinReturn "goerr option" | FinPanic | FinGoPanic | FinTimeout

record cb_sys =
  cs_cb :: CircuitBreaker
  cs_calls :: "cb_call list"
  cs_now :: instant

datatype cb_event =
    CbCall
  | CbLoadState nat
  | CbLoadTime nat
  | CbLoadSuccesses nat
  | CbHalfOpen nat
  | CbEnd nat cb_fin
  | CbLock nat
  | CbLatePanic
  | CbForceOpen
  | CbForceClose
  | CbReset
  | CbTick nat

definition cb_init :: "ConfigCircuitBreaker \<Rightarrow> instant \<Rightarrow> cb_sys" where
  "cb_init cfg now =
     \<lparr>cs_cb = make_CircuitBreaker now (applyCircuitBreakerDefaults cfg), cs_calls = [], cs_now = now\<rparr>"

definition cb_at :: "cb_sys \<Rightarrow> nat \<Rightarrow> cb_call option" where
  "cb_at s i = (if i < length (cs_calls s) then Some (cs_calls s ! i) else None)"

definition cb_move :: "nat \<Rightarrow> cb_call \<Rightarrow> CircuitBreaker \<Rightarrow> cb_sys \<Rightarrow> cb_sys" where
  "cb_move i c cb s = s\<lparr>cs_cb := cb, cs_calls := (cs_calls s)[i := c]\<rparr>"

text \<open>The state load of \<open>checkCircuitState\<close>, and the part of the recording before the mutex.\<close>

fun after_load :: "State \<Rightarrow> cb_call" where
  "after_load StateClosed = CbExecuting"
| "after_load StateOpen = CbSawOpen"
| "after_load StateHalfOpen = CbSawHalfOpen"

fun cb_finish :: "instant \<Rightarrow> cb_fin \<Rightarrow> CircuitBreaker \<Rightarrow> cb_call \<times> CircuitBreaker" where
  "cb_finish now (FinReturn None) cb = (CbRecording False None, recordSuccess_pre cb)"
| "cb_finish now (FinReturn (Some e)) cb = (CbRecording True (Some e), recordFailure_pre now cb)"
| "cb_finish now FinPanic cb =
     (CbRecording True None, recordFailure_pre now (cb\<lparr>cb_totalPanics := cb_totalPanics cb + 1\<rparr>))"
| "cb_finish now FinGoPanic cb =
     (CbRecording True (Some (wrapping (Sentinel (EBreaker ErrOperationPanic)))),
      recordFailure_pre now (cb\<lparr>cb_totalPanics := cb_totalPanics cb + 1\<rparr>))"
| "cb_finish now FinTimeout cb =
     (CbRecording True (Some (wrapping (Sentinel (EBreaker ErrCircuitBreakerTimeout)))),
      recordFailure_pre now (cb\<lparr>cb_totalTimeouts := cb_totalTimeouts cb + 1\<rparr>))"

fun cb_step :: "cb_event \<Rightarrow> cb_sys \<Rightarrow> cb_sys option" where
  "cb_step CbCall s =
     Some (s\<lparr>cs_cb := (cs_cb s)\<lparr>cb_totalRequests := cb_totalRequests (cs_cb s) + 1\<rparr>,
             cs_calls := cs_calls s @ [CbChecking]\<rparr>)"
| "cb_step (CbLoadState i) s =
     (case cb_at s i of
        Some CbChecking \<Rightarrow> Some (cb_move i (after_load (cb_state (cs_cb s))) (cs_cb s) s)
      | _ \<Rightarrow> None)"
| "cb_step (CbLoadTime i) s =
     (case cb_at s i of
        Some CbSawOpen \<Rightarrow>
          Some (cb_move i (if CircuitBreaker_shouldAttemptReset (cs_now s) (cs_cb s)
                           then CbResetting else CbRejected) (cs_cb s) s)
      | _ \<Rightarrow> None)"
| "cb_step (CbLoadSuccesses i) s =
     (case cb_at s i of
        Some CbSawHalfOpen \<Rightarrow>
          Some (cb_move i (if cb_halfOpenMax (cs_cb s) \<le> sint (cb_successCount (cs_cb s))
                           then CbRejected else CbExecuting) (cs_cb s) s)
      | _ \<Rightarrow> None)"
| "cb_step (CbHalfOpen i) s =
     (case cb_at s i of
        Some CbResetting \<Rightarrow>
          Some (cb_move i CbExecuting (CircuitBreaker_transitionToHalfOpen (cs_now s) (cs_cb s)) s)
      | _ \<Rightarrow> None)"
| "cb_step (CbEnd i fin) s =
     (case cb_at s i of
        Some CbExecuting \<Rightarrow> (case cb_finish (cs_now s) fin (cs_cb s) of (c, cb) \<Rightarrow> Some (cb_move i c cb s))
      | _ \<Rightarrow> None)"
| "cb_step (CbLock i) s =
     (case cb_at s i of
        Some (CbRecording failed r) \<Rightarrow>
          Some (cb_move i (CbFinished r)
            (if failed then recordFailure_locked (cs_now s) (cs_cb s)
             else recordSuccess_locked (cs_now s) (cs_cb s)) s)
      | _ \<Rightarrow> None)"
| "cb_step CbLatePanic s =
     Some (s\<lparr>cs_cb := (cs_cb s)\<lparr>cb_totalPanics := cb_totalPanics (cs_cb s) + 1\<rparr>\<rparr>)"
| "cb_step CbForceOpen s = Some (s\<lparr>cs_cb := CircuitBreaker_ForceOpen (cs_now s) (cs_cb s)\<rparr>)"
| "cb_step CbForceClose s = Some (s\<lparr>cs_cb := CircuitBreaker_ForceClose (cs_now s) (cs_cb s)\<rparr>)"
| "cb_step CbReset s = Some (s\<lparr>cs_cb := CircuitBreaker_Reset (cs_now s) (cs_cb s)\<rparr>)"
| "cb_step (CbTick d) s = Some (s\<lparr>cs_now := cs_now s + int d\<rparr>)"

fun cb_run :: "cb_event list \<Rightarrow> cb_sys \<Rightarrow> cb_sys option" where
  "cb_run [] s = Some s"
| "cb_run (e # es) s = (case cb_step e s of None \<Rightarrow> None | Some s' \<Rightarrow> cb_run es s')"

inductive cb_reach :: "(cb_event \<Rightarrow> bool) \<Rightarrow> ConfigCircuitBreaker \<Rightarrow> cb_sys \<Rightarrow> bool"
  for P cfg where
  init: "validateCircuitBreakerConfig cfg = None \<Longrightarrow> cb_reach P cfg (cb_init cfg now)"
| step: "cb_reach P cfg s \<Longrightarrow> P e \<Longrightarrow> cb_step e s = Some s' \<Longrightarrow> cb_reach P cfg s'"

interpretation cbr: reachable_runs cb_step cb_run P "cb_reach P cfg" for P cfg
  by unfold_locales (auto intro: cb_reach.step)

section \<open>The invariant\<close>

lemma cb_inv_finish:
  "cb_inv cb \<Longrightarrow> cb_finish now fin cb = (c, cb') \<Longrightarrow> cb_inv cb'"
  by (cases "(now, fin, cb)" rule: cb_finish.cases) (auto intro: cb_inv_ops)

lemma cb_inv_step:
  "cb_inv (cs_cb s) \<Longrightarrow> cb_step e s = Some s' \<Longrightarrow> cb_inv (cs_cb s')"
  by (cases e)
    (auto simp: cb_move_def cb_inv_ops dest: cb_inv_finish
      split: option.splits cb_call.splits prod.splits)

lemma cb_reach_inv: "cb_reach P cfg s \<Longrightarrow> cb_inv (cs_cb s)"
proof (induction rule: cb_reach.induct)
  case (init now)
  then show ?case by (simp add: cb_init_def cb_inv_make)
qed (rule cb_inv_step)



section \<open>Accounting\<close>

text \<open>A call is recorded once its outcome is in the counters of successes or failures.\<close>

fun unrecorded :: "cb_call \<Rightarrow> bool" where
  "unrecorded (CbRecording _ _) = False"
| "unrecorded (CbFinished _) = False"
| "unrecorded _ = True"

fun is_executing :: "cb_call \<Rightarrow> bool" where
  "is_executing CbExecuting = True"
| "is_executing _ = False"

definition cb_recorded :: "CircuitBreaker \<Rightarrow> counter" where
  "cb_recorded cb = cb_totalSuccesses cb + cb_totalFailures cb"

definition cb_acct :: "cb_sys \<Rightarrow> bool" where
  "cb_acct s \<longleftrightarrow> cb_totalRequests (cs_cb s)
     = cb_recorded (cs_cb s) + of_nat (countp unrecorded (cs_calls s))"

lemma ring_balance:
  fixes r :: counter
  assumes "r + d = R + c" and "n' + c = n + d"
  shows "R + n = r + n'"
proof -
  have "R = r + d - c" "n' = n + d - c" using assms by (simp_all add: eq_diff_eq)
  then show ?thesis by simp
qed

lemma cb_acct_move:
  assumes a: "cb_acct s" and c: "cb_at s i = Some c"
    and t: "cb_totalRequests cb = cb_totalRequests (cs_cb s)"
    and r: "cb_recorded cb + of_bool (unrecorded d)
      = cb_recorded (cs_cb s) + of_bool (unrecorded c)"
  shows "cb_acct (cb_move i d cb s)"
proof -
  have i: "i < length (cs_calls s)" "cs_calls s ! i = c"
    using c by (auto simp: cb_at_def split: if_splits)
  have "(of_nat (countp unrecorded ((cs_calls s)[i := d])) + of_bool (unrecorded c) :: counter)
      = of_nat (countp unrecorded (cs_calls s)) + of_bool (unrecorded d)"
    using countp_update [OF i(1), of unrecorded d] i(2) by (metis of_nat_add of_nat_of_bool)
  from ring_balance [OF r this] a t show ?thesis by (simp add: cb_acct_def cb_move_def)
qed

lemma recorded_frame [simp]:
  "cb_recorded (recordFailure_locked now cb) = cb_recorded cb"
  "cb_recorded (recordSuccess_locked now cb) = cb_recorded cb"
  "cb_recorded (CircuitBreaker_transitionToHalfOpen now cb) = cb_recorded cb"
  "cb_recorded (CircuitBreaker_ForceOpen now cb) = cb_recorded cb"
  "cb_recorded (cb\<lparr>cb_totalRequests := x\<rparr>) = cb_recorded cb"
  "cb_recorded (cb\<lparr>cb_totalPanics := x\<rparr>) = cb_recorded cb"
  "cb_recorded (cb\<lparr>cb_totalTimeouts := x\<rparr>) = cb_recorded cb"
  "cb_recorded (recordFailure_pre now cb) = cb_recorded cb + 1"
  "cb_recorded (recordSuccess_pre cb) = cb_recorded cb + 1"
  "cb_totalRequests (recordFailure_locked now cb) = cb_totalRequests cb"
  "cb_totalRequests (recordSuccess_locked now cb) = cb_totalRequests cb"
  "cb_totalRequests (CircuitBreaker_transitionToHalfOpen now cb) = cb_totalRequests cb"
  "cb_totalRequests (CircuitBreaker_ForceOpen now cb) = cb_totalRequests cb"
  "cb_totalRequests (recordFailure_pre now cb) = cb_totalRequests cb"
  "cb_totalRequests (recordSuccess_pre cb) = cb_totalRequests cb"
  by (simp_all add: cb_recorded_def transition_defs Let_def split: State.split)

lemma cb_finish_recorded:
  assumes "cb_finish now fin cb = (c, cb')"
  shows "cb_recorded cb' = cb_recorded cb + 1 \<and> cb_totalRequests cb' = cb_totalRequests cb
    \<and> \<not> unrecorded c"
  using assms by (cases "(now, fin, cb)" rule: cb_finish.cases) auto

lemma after_load_unrecorded [simp]: "unrecorded (after_load st)"
  by (cases st) simp_all

abbreviation no_clear :: "cb_event \<Rightarrow> bool" where
  "no_clear e \<equiv> e \<noteq> CbForceClose \<and> e \<noteq> CbReset"

lemma cb_acct_step:
  assumes "cb_acct s" "cb_step e s = Some s'" "no_clear e"
  shows "cb_acct s'"
  using assms
proof (cases e)
  case CbCall
  with assms show ?thesis by (auto simp: cb_acct_def)
next
  case (CbEnd i fin)
  with assms obtain c cb where e: "cb_at s i = Some CbExecuting"
      "cb_finish (cs_now s) fin (cs_cb s) = (c, cb)" "s' = cb_move i c cb s"
    by (auto split: option.splits cb_call.splits prod.splits)
  show ?thesis unfolding e(3)
    using cb_finish_recorded [OF e(2)] by (intro cb_acct_move [OF assms(1) e(1)]) simp_all
next
  case (CbLock i)
  with assms obtain f r where e: "cb_at s i = Some (CbRecording f r)"
      "s' = cb_move i (CbFinished r)
            (if f then recordFailure_locked (cs_now s) (cs_cb s)
             else recordSuccess_locked (cs_now s) (cs_cb s)) s"
    by (auto split: option.splits cb_call.splits)
  show ?thesis unfolding e(2) by (intro cb_acct_move [OF assms(1) e(1)]) simp_all
next
  case (CbLoadTime i)
  with assms show ?thesis by (auto split: option.splits cb_call.splits intro!: cb_acct_move)
next
  case (CbLoadSuccesses i)
  with assms show ?thesis by (auto split: option.splits cb_call.splits intro!: cb_acct_move)
next
  case (CbLoadState i)
  with assms show ?thesis by (auto split: option.splits cb_call.splits intro!: cb_acct_move)
next
  case (CbHalfOpen i)
  with assms show ?thesis by (auto split: option.splits cb_call.splits intro!: cb_acct_move)
qed (use assms in \<open>auto simp: cb_acct_def\<close>)

text \<open>Property C39: until the counters are cleared by hand, in every reachable state TotalRequests is
  exactly the sum of the recorded successes, the recorded failures, and the calls whose
  outcome is not recorded (rejected, or in flight); no call is counted twice under any interleaving.\<close>

theorem breaker_accounting:
  assumes "cb_reach no_clear cfg s"
  shows "cb_totalRequests (cs_cb s) = cb_totalSuccesses (cs_cb s) + cb_totalFailures (cs_cb s)
    + of_nat (countp unrecorded (cs_calls s))"
proof -
  have "cb_acct s" using assms
  proof (induction rule: cb_reach.induct)
    case (init now)
    then show ?case by (simp add: cb_acct_def cb_init_def make_CircuitBreaker_def cb_recorded_def)
  next
    case (step s e s')
    from cb_acct_step [OF step.IH step.hyps(3,2)] show ?case .
  qed
  then show ?thesis by (simp add: cb_acct_def cb_recorded_def)
qed

section \<open>Runs\<close>

lemmas cb_eval = cb_init_def make_CircuitBreaker_def cb_at_def cb_move_def transition_defs Let_def
  CircuitBreaker_shouldAttemptReset_def time_sub_def

text \<open>One failure trips the touchy breaker; later a call passes the reset test.\<close>

definition reset_events :: "cb_event list" where
  "reset_events =
     [CbCall, CbLoadState 0, CbEnd 0 (FinReturn (Some CtxCanceled)), CbLock 0, CbTick 10000000000,
      CbCall, CbLoadState 1, CbLoadTime 1]"

definition reset_state :: cb_sys where
  "reset_state = the (cb_run reset_events (cb_init touchy_cfg 1))"

lemma reset_run: "cb_run reset_events (cb_init touchy_cfg 1) = Some reset_state"
  and reset_calls: "cs_calls reset_state = [CbFinished (Some CtxCanceled), CbResetting]"
  by (simp_all add: reset_state_def reset_events_def cb_eval sat64_id min_int64_def max_int64_def
      applyCircuitBreakerDefaults_valid [OF touchy_valid], simp_all add: touchy_cfg_def sat64_id
      min_int64_def max_int64_def)

lemma reset_reach: "cb_reach P touchy_cfg reset_state" if "list_all P reset_events"
  using cbr.reach_run [OF cb_reach.init [OF touchy_valid] that reset_run] .

theorem breaker_accounting_witness:
  "cb_totalRequests (cs_cb reset_state)
     = cb_totalSuccesses (cs_cb reset_state) + cb_totalFailures (cs_cb reset_state) + 1"
  using breaker_accounting [OF reset_reach [of no_clear]] by (simp add: reset_events_def reset_calls)

text \<open>The half-open state lets any number of calls through at once: from every reachable
  half-open state the system can go on to a half-open state in which n more calls execute, whatever
  HalfOpenMax is.\<close>

theorem half_open_unbounded:
  assumes "cb_reach P cfg s" and "cb_state (cs_cb s) = StateHalfOpen"
  shows "\<exists>es s'. cb_run es s = Some s' \<and> cb_state (cs_cb s') = StateHalfOpen
    \<and> countp is_executing (cs_calls s') = countp is_executing (cs_calls s) + n"
proof (induction n)
  case 0
  show ?case using assms(2) by (intro exI [of _ "[]"] exI [of _ s]) simp
next
  case (Suc n)
  then obtain es s1 where s1: "cb_run es s = Some s1" "cb_state (cs_cb s1) = StateHalfOpen"
    "countp is_executing (cs_calls s1) = countp is_executing (cs_calls s) + n" by blast
  have "cb_reach (\<lambda>_. True) cfg s"
    using assms(1) by (induction rule: cb_reach.induct) (auto intro: cb_reach.intros)
  then have "cb_reach (\<lambda>_. True) cfg s1"
    using cbr.reach_run [OF _ _ s1(1)] by (simp add: list_all_iff)
  note inv = cb_invD(13) [OF cb_reach_inv [OF this] s1(2)]
  let ?i = "length (cs_calls s1)"
  let ?cb = "(cs_cb s1)\<lparr>cb_totalRequests := cb_totalRequests (cs_cb s1) + 1\<rparr>"
  have "cb_run [CbCall, CbLoadState ?i, CbLoadSuccesses ?i] s1
      = Some (s1\<lparr>cs_cb := ?cb, cs_calls := cs_calls s1 @ [CbExecuting]\<rparr>)"
    using s1(2) inv by (simp add: cb_at_def cb_move_def)
  then have "cb_run (es @ [CbCall, CbLoadState ?i, CbLoadSuccesses ?i]) s
      = Some (s1\<lparr>cs_cb := ?cb, cs_calls := cs_calls s1 @ [CbExecuting]\<rparr>)"
    using s1(1) by (simp add: cbr.run_append del: cb_run.simps)
  with s1(2,3) show ?case by fastforce
qed

definition half_open_state :: cb_sys where
  "half_open_state = the (cb_step (CbHalfOpen 1) reset_state)"

lemma half_open_step: "cb_step (CbHalfOpen 1) reset_state = Some half_open_state"
  using reset_calls by (simp add: half_open_state_def cb_at_def)

lemma half_open_simps: "cb_state (cs_cb half_open_state) = StateHalfOpen"
  "countp is_executing (cs_calls half_open_state) = 1"
  by (simp_all add: half_open_state_def reset_state_def reset_events_def cb_eval sat64_id
      min_int64_def max_int64_def applyCircuitBreakerDefaults_valid [OF touchy_valid])
    (simp_all add: touchy_cfg_def sat64_id min_int64_def max_int64_def)

theorem half_open_unbounded_witness:
  "\<exists>es s'. cb_run es half_open_state = Some s' \<and> countp is_executing (cs_calls s') = 1 + 1000"
  using half_open_unbounded [OF cb_reach.step [OF reset_reach [of "\<lambda>_. True"] _ half_open_step]
      half_open_simps(1), of 1000]
  by (auto simp: half_open_simps(2) reset_events_def)

text \<open>Two calls pass the reset test; the first runs and fails before the second takes the mutex.\<close>

definition stale_events :: "cb_event list" where
  "stale_events = reset_events @
     [CbCall, CbLoadState 2, CbLoadTime 2, CbHalfOpen 1, CbEnd 1 (FinReturn (Some CtxCanceled)),
      CbLock 1, CbHalfOpen 2]"

text \<open>The reset test and the move to half-open are not one atomic step, and a call that
  loses the race undoes a trip. There is a run in which the breaker has just been opened by a
  failure and a call that passed the test before that failure makes it half-open at the same
  instant, although the timeout since the last failure has not passed.\<close>

theorem stale_reset_reopens:
  "\<exists>s. cb_run stale_events (cb_init touchy_cfg 1) = Some s
     \<and> cb_state (cs_cb s) = StateHalfOpen
     \<and> cb_at s 2 = Some CbExecuting
     \<and> cs_now s < cb_lastFailure (cs_cb s) + cb_timeout (cs_cb s)"
  by (simp add: stale_events_def reset_events_def cb_eval applyCircuitBreakerDefaults_valid [OF touchy_valid])
    (simp add: touchy_cfg_def sat64_id min_int64_def max_int64_def)

end
