(* ===== verification/Retry.thy ===== *)
theory Retry
  imports GoFloat GoContext Lifecycle
begin

text \<open>
  \<open>src/retry.go\<close>: retry policies, the exponential backoff in floating-point arithmetic with
  \<open>math.Pow\<close> as the Go library computes it for a whole exponent, the three retry loops, and the
  retry manager.

  A loop gets an environment that resolves what the code leaves open: the random numbers, how late
  a timer or a context wakes the goroutine, which branch a \<open>select\<close> takes when both are ready, and
  what a conversion of a float outside the integer range gives. It returns the result, the instants
  at which the operation was started, and the instant at which the call returned.
\<close>

section \<open>Policies\<close>

definition MaxAttemptsLimitRetry :: int where "MaxAttemptsLimitRetry = 100"
definition MinAttemptsLimitRetry :: int where "MinAttemptsLimitRetry = 1"
definition MaxInitialDelayLimitRetry :: duration where "MaxInitialDelayLimitRetry = 1 * Hour"
definition MinInitialDelayLimitRetry :: duration where "MinInitialDelayLimitRetry = 1 * Millisecond"
definition MaxDelayLimitRetry :: duration where "MaxDelayLimitRetry = 24 * Hour"
definition MinDelayLimitRetry :: duration where "MinDelayLimitRetry = 1 * Millisecond"
definition MaxMultiplierLimitRetry :: float64 where "MaxMultiplierLimitRetry = fl 10"
definition MinMultiplierLimitRetry :: float64 where "MinMultiplierLimitRetry = fl (1 / 10)"
definition MaxJitterPercentLimitRetry :: float64 where "MaxJitterPercentLimitRetry = fl 50"
definition MinJitterPercentLimitRetry :: float64 where "MinJitterPercentLimitRetry = fl 0"
definition MaxRetryableErrorsLimitRetry :: nat where "MaxRetryableErrorsLimitRetry = 100"
definition DefaultJitterPercentRetry :: float64 where "DefaultJitterPercentRetry = fl 10"

lemmas retry_limits = MaxAttemptsLimitRetry_def MinAttemptsLimitRetry_def
  MaxInitialDelayLimitRetry_def MinInitialDelayLimitRetry_def MaxDelayLimitRetry_def
  MinDelayLimitRetry_def MaxMultiplierLimitRetry_def MinMultiplierLimitRetry_def
  MaxJitterPercentLimitRetry_def MinJitterPercentLimitRetry_def MaxRetryableErrorsLimitRetry_def

record Policy =
  MaxAttempts :: int
  InitialDelay :: duration
  MaxDelay :: duration
  Multiplier :: float64
  Jitter :: bool
  JitterPercent :: float64
  RetryableErrors :: "goerr list"
  Timeout :: duration
  RateLimit :: int
  RateLimitWindow :: duration

definition DefaultPolicy :: Policy where
  "DefaultPolicy =
     \<lparr>MaxAttempts = 3, InitialDelay = 100 * Millisecond, MaxDelay = 5 * Second, Multiplier = fl 2,
      Jitter = True, JitterPercent = DefaultJitterPercentRetry, RetryableErrors = [],
      Timeout = 30 * Second, RateLimit = 100, RateLimitWindow = Second\<rparr>"

definition AggressivePolicy :: Policy where
  "AggressivePolicy =
     \<lparr>MaxAttempts = 5, InitialDelay = 50 * Millisecond, MaxDelay = 10 * Second, Multiplier = fl (3 / 2),
      Jitter = True, JitterPercent = DefaultJitterPercentRetry, RetryableErrors = [],
      Timeout = 60 * Second, RateLimit = 200, RateLimitWindow = Second\<rparr>"

definition ConservativePolicy :: Policy where
  "ConservativePolicy =
     \<lparr>MaxAttempts = 2, InitialDelay = 500 * Millisecond, MaxDelay = 2 * Second, Multiplier = fl 2,
      Jitter = True, JitterPercent = DefaultJitterPercentRetry, RetryableErrors = [],
      Timeout = 15 * Second, RateLimit = 50, RateLimitWindow = Second\<rparr>"

definition EnterprisePolicy :: Policy where
  "EnterprisePolicy =
     \<lparr>MaxAttempts = 10, InitialDelay = 1 * Second, MaxDelay = 1 * Minute, Multiplier = fl (9 / 5),
      Jitter = True, JitterPercent = fl 15, RetryableErrors = [],
      Timeout = 5 * Minute, RateLimit = 1000, RateLimitWindow = Second\<rparr>"

abbreviation invalid_policy :: goerr where
  "invalid_policy \<equiv> wrapping (Sentinel (ERetryOp ErrRetryInvalidPolicy))"

definition validatePolicy :: "Policy \<Rightarrow> goerr option" where
  "validatePolicy policy =
     (if MaxAttempts policy < MinAttemptsLimitRetry \<or> MaxAttempts policy > MaxAttemptsLimitRetry
      then Some invalid_policy
      else if InitialDelay policy < MinInitialDelayLimitRetry
         \<or> InitialDelay policy > MaxInitialDelayLimitRetry
      then Some invalid_policy
      else if MaxDelay policy < MinDelayLimitRetry \<or> MaxDelay policy > MaxDelayLimitRetry
      then Some invalid_policy
      else if InitialDelay policy > MaxDelay policy then Some invalid_policy
      else if f_lt (Multiplier policy) MinMultiplierLimitRetry
         \<or> f_gt (Multiplier policy) MaxMultiplierLimitRetry
      then Some invalid_policy
      else if f_lt (JitterPercent policy) MinJitterPercentLimitRetry
         \<or> f_gt (JitterPercent policy) MaxJitterPercentLimitRetry
      then Some invalid_policy
      else if length (RetryableErrors policy) > MaxRetryableErrorsLimitRetry then Some invalid_policy
      else if RateLimit policy < 0 then Some invalid_policy
      else if RateLimitWindow policy \<le> 0 then Some invalid_policy
      else None)"

section \<open>Backoff\<close>

record retry_env =
  re_rand :: "nat \<Rightarrow> rat"
  re_lag :: "nat \<Rightarrow> nat"
  re_pick :: "nat \<Rightarrow> bool"
  re_oor :: "float64 \<Rightarrow> int"

definition calculateDelay :: "retry_env \<Rightarrow> Policy \<Rightarrow> nat \<Rightarrow> duration" where
  "calculateDelay env policy attempt =
     (let d0 = f_mul (f_of_int (InitialDelay policy)) (math_Pow (Multiplier policy) attempt);
          d1 = (if f_gt d0 (f_of_int (MaxDelay policy)) then f_of_int (MaxDelay policy) else d0);
          d2 = (if Jitter policy
                then let jitter = f_mul d1 (f_div (JitterPercent policy) (Fin 100))
                     in f_add d1 (f_sub (f_mul (f_mul (Fin (re_rand env attempt)) (Fin 2)) jitter) jitter)
                else d1);
          d3 = (if f_lt d2 (Fin 0) then Fin 0 else d2)
      in f_to_int64 (re_oor env) d3)"

definition isRetryableError :: "goerr \<Rightarrow> goerr list \<Rightarrow> bool" where
  "isRetryableError err retryableErrors =
     (if length retryableErrors = 0 then True
      else list_ex (\<lambda>retryableErr. errors_is err retryableErr) retryableErrors)"

definition NewRetryableError :: "goerr \<Rightarrow> goerr" where
  "NewRetryableError err = RetryableError err"

definition RetryableError_Unwrap :: "goerr \<Rightarrow> goerr option" where
  "RetryableError_Unwrap e = (case e of RetryableError err \<Rightarrow> Some err | _ \<Rightarrow> None)"

definition IsRetryable :: "goerr \<Rightarrow> bool" where
  "IsRetryable err = errors_as_retryable err"

section \<open>The retry loops\<close>

text \<open>The wait between two attempts; the environment says how late it ends and how a tie is broken.\<close>

definition retry_wait :: "retry_env \<Rightarrow> nat \<Rightarrow> duration \<Rightarrow> instant \<Rightarrow> ctx \<Rightarrow> instant \<times> bool" where
  "retry_wait env attempt delay now c = timer_wait (re_lag env attempt) (re_pick env attempt) delay now c"

abbreviation cancelled :: "goerr \<Rightarrow> goerr" where
  "cancelled e \<equiv> Errorf [common ErrContextCancelled, e]"

definition exhausted :: "goerr option \<Rightarrow> goerr" where
  "exhausted lastErr = Errorf (Sentinel (ERetry ErrRetryMaxAttemptsExceeded)
     # (case lastErr of None \<Rightarrow> [] | Some e \<Rightarrow> [e]))"

definition attempt_ctx :: "Policy \<Rightarrow> instant \<Rightarrow> ctx \<Rightarrow> ctx" where
  "attempt_ctx policy now c = (if 0 < Timeout policy then WithTimeout now (Timeout policy) c else c)"

type_synonym 'r go_ops = "nat \<Rightarrow> instant \<Rightarrow> instant \<times> 'r outcome"
type_synonym 'r retried = "'r outcome \<times> instant list \<times> instant"

definition started_at :: "instant \<Rightarrow> 'r retried \<Rightarrow> 'r retried" where
  "started_at t r = (case r of (x, starts, e) \<Rightarrow> (x, t # starts, e))"

function RetryWithContext_loop ::
    "retry_env \<Rightarrow> Policy \<Rightarrow> goerr option go_ops \<Rightarrow> nat \<Rightarrow> ctx \<Rightarrow> instant \<Rightarrow> goerr option
       \<Rightarrow> goerr option retried" where
  "RetryWithContext_loop env policy operation attempt c now lastErr =
     (if int attempt < MaxAttempts policy
      then case ctx_err now c of
        Some e \<Rightarrow> (Returns (Some (cancelled e)), [], now)
      | None \<Rightarrow>
         (let c' = attempt_ctx policy now c in
          case operation attempt now of
            (t, Panics p) \<Rightarrow> (Panics p, [now], t)
          | (t, Returns None) \<Rightarrow> (Returns None, [now], t)
          | (t, Returns (Some err)) \<Rightarrow>
              if \<not> isRetryableError err (RetryableErrors policy) then (Returns (Some err), [now], t)
              else if int attempt = MaxAttempts policy - 1
              then (Returns (Some (exhausted (Some err))), [now], t)
              else (case retry_wait env attempt (calculateDelay env policy attempt) t c' of
                  (t', True) \<Rightarrow> (Returns (Some (cancelled (the (ctx_err t' c')))), [now], t')
                | (t', False) \<Rightarrow>
                    started_at now
                      (RetryWithContext_loop env policy operation (Suc attempt) c' t' (Some err))))
      else (Returns (Some (exhausted lastErr)), [], now))"
  by pat_completeness auto

termination
  by (relation "measure (\<lambda>(env, policy, operation, attempt, c, now, e). nat (MaxAttempts policy) - attempt)")
    auto

declare RetryWithContext_loop.simps [simp del]

definition RetryWithContext ::
    "retry_env \<Rightarrow> instant \<Rightarrow> ctx option \<Rightarrow> Policy \<Rightarrow> goerr option go_ops option
       \<Rightarrow> goerr option retried" where
  "RetryWithContext env now c policy operation =
     (case validatePolicy policy of
        Some err \<Rightarrow> (Returns (Some err), [], now)
      | None \<Rightarrow>
         (case operation of
            None \<Rightarrow> (Returns (Some (wrapping (common ErrInvalidOperation))), [], now)
          | Some op \<Rightarrow>
              RetryWithContext_loop env policy op 0 (case c of None \<Rightarrow> Background | Some x \<Rightarrow> x) now None))"

definition Retry_policy ::
    "retry_env \<Rightarrow> instant \<Rightarrow> Policy \<Rightarrow> goerr option go_ops option \<Rightarrow> goerr option retried" where
  "Retry_policy env now policy operation = RetryWithContext env now (Some Background) policy operation"

function RetryWithResult_loop ::
    "retry_env \<Rightarrow> 'v \<Rightarrow> Policy \<Rightarrow> ('v \<times> goerr option) go_ops \<Rightarrow> nat \<Rightarrow> ctx \<Rightarrow> instant \<Rightarrow> goerr option
       \<Rightarrow> ('v \<times> goerr option) retried" where
  "RetryWithResult_loop env zero policy operation attempt c now lastErr =
     (if int attempt < MaxAttempts policy
      then case ctx_err now c of
        Some e \<Rightarrow> (Returns (zero, Some (cancelled e)), [], now)
      | None \<Rightarrow>
         (let c' = attempt_ctx policy now c in
          case operation attempt now of
            (t, Panics p) \<Rightarrow> (Panics p, [now], t)
          | (t, Returns (result, None)) \<Rightarrow> (Returns (result, None), [now], t)
          | (t, Returns (result, Some err)) \<Rightarrow>
              if \<not> isRetryableError err (RetryableErrors policy)
              then (Returns (zero, Some err), [now], t)
              else if int attempt = MaxAttempts policy - 1
              then (Returns (zero, Some (exhausted (Some err))), [now], t)
              else (case retry_wait env attempt (calculateDelay env policy attempt) t c' of
                  (t', True) \<Rightarrow> (Returns (zero, Some (cancelled (the (ctx_err t' c')))), [now], t')
                | (t', False) \<Rightarrow>
                    started_at now
                      (RetryWithResult_loop env zero policy operation (Suc attempt) c' t' (Some err))))
      else (Returns (zero, Some (exhausted lastErr)), [], now))"
  by pat_completeness auto

termination
  by (relation "measure (\<lambda>(env, zero, policy, operation, attempt, c, now, e).
      nat (MaxAttempts policy) - attempt)") auto

declare RetryWithResult_loop.simps [simp del]

definition RetryWithResultAndContext ::
    "retry_env \<Rightarrow> 'v \<Rightarrow> instant \<Rightarrow> ctx option \<Rightarrow> Policy \<Rightarrow> ('v \<times> goerr option) go_ops option
       \<Rightarrow> ('v \<times> goerr option) retried" where
  "RetryWithResultAndContext env zero now c policy operation =
     (case validatePolicy policy of
        Some err \<Rightarrow> (Returns (zero, Some err), [], now)
      | None \<Rightarrow>
         (case operation of
            None \<Rightarrow> (Returns (zero, Some (wrapping (common ErrInvalidOperation))), [], now)
          | Some op \<Rightarrow>
              RetryWithResult_loop env zero policy op 0
                (case c of None \<Rightarrow> Background | Some x \<Rightarrow> x) now None))"

definition RetryWithResult ::
    "retry_env \<Rightarrow> 'v \<Rightarrow> instant \<Rightarrow> Policy \<Rightarrow> ('v \<times> goerr option) go_ops option
       \<Rightarrow> ('v \<times> goerr option) retried" where
  "RetryWithResult env zero now policy operation =
     RetryWithResultAndContext env zero now (Some Background) policy operation"

section \<open>Statistics\<close>

record RetryStats =
  rs_TotalAttempts :: counter
  rs_SuccessfulAttempts :: counter
  rs_FailedAttempts :: counter
  rs_TotalDelay :: counter
  rs_AverageDelay :: "duration option"
  rs_LastAttemptTime :: "instant option"
  rs_LastSuccessTime :: "instant option"
  rs_LastError :: "goerr option"
  rs_RetryBudgetUsed :: counter
  rs_RateLimitHits :: counter

definition zero_RetryStats :: RetryStats where
  "zero_RetryStats =
     \<lparr>rs_TotalAttempts = 0, rs_SuccessfulAttempts = 0, rs_FailedAttempts = 0, rs_TotalDelay = 0,
      rs_AverageDelay = None, rs_LastAttemptTime = None, rs_LastSuccessTime = None,
      rs_LastError = None, rs_RetryBudgetUsed = 0, rs_RateLimitHits = 0\<rparr>"

text \<open>
  \<open>stats.LastError.Store(err)\<close>: an \<open>atomic.Value\<close> panics when the concrete type is not the one
  stored before.
\<close>

definition store_LastError :: "goerr \<Rightarrow> RetryStats \<Rightarrow> RetryStats outcome" where
  "store_LastError err s =
     (case rs_LastError s of
        None \<Rightarrow> Returns (s\<lparr>rs_LastError := Some err\<rparr>)
      | Some old \<Rightarrow>
          if concrete_type old = concrete_type err then Returns (s\<lparr>rs_LastError := Some err\<rparr>)
          else Panics InconsistentAtomicValue)"

text \<open>\<open>Store\<close> and then go on with \<open>k\<close>, unless it panics at \<open>t\<close>.\<close>

definition storing ::
    "goerr \<Rightarrow> RetryStats \<Rightarrow> instant list \<Rightarrow> instant
       \<Rightarrow> (RetryStats \<Rightarrow> (RetryStats \<times> goerr option) retried) \<Rightarrow> (RetryStats \<times> goerr option) retried" where
  "storing err s starts t k =
     (case store_LastError err s of Returns s' \<Rightarrow> k s' | Panics p \<Rightarrow> (Panics p, starts, t))"

lemma storing_cong [fundef_cong]:
  "err = err' \<Longrightarrow> s = s' \<Longrightarrow> starts = starts' \<Longrightarrow> t = t'
     \<Longrightarrow> (\<And>x. store_LastError err' s' = Returns x \<Longrightarrow> k x = k' x)
     \<Longrightarrow> storing err s starts t k = storing err' s' starts' t' k'"
  by (simp add: storing_def split: outcome.split)

definition average_delay :: "RetryStats \<Rightarrow> RetryStats" where
  "average_delay s =
     (if 1 < sint (rs_TotalAttempts s)
      then s\<lparr>rs_AverageDelay := Some (sint (rs_TotalDelay s) sdiv (sint (rs_TotalAttempts s) - 1))\<rparr>
      else s)"

function RetryWithStats_loop ::
    "retry_env \<Rightarrow> Policy \<Rightarrow> goerr option go_ops \<Rightarrow> nat \<Rightarrow> ctx \<Rightarrow> instant \<Rightarrow> goerr option \<Rightarrow> RetryStats
       \<Rightarrow> (RetryStats \<times> goerr option) retried" where
  "RetryWithStats_loop env policy operation attempt c now lastErr s0 =
     (if int attempt < MaxAttempts policy
      then let s = s0\<lparr>rs_TotalAttempts := rs_TotalAttempts s0 + 1, rs_LastAttemptTime := Some now\<rparr> in
       (case ctx_err now c of
        Some e \<Rightarrow> storing (cancelled e) s [] now (\<lambda>s1. (Returns (s1, Some (cancelled e)), [], now))
      | None \<Rightarrow>
         (let c' = attempt_ctx policy now c in
          case operation attempt now of
            (t, Panics p) \<Rightarrow> (Panics p, [now], t)
          | (t, Returns None) \<Rightarrow>
              storing (ErrText [])
                (s\<lparr>rs_SuccessfulAttempts := rs_SuccessfulAttempts s + 1, rs_LastSuccessTime := Some t\<rparr>)
                [now] t (\<lambda>s1. (Returns (s1, None), [now], t))
          | (t, Returns (Some err)) \<Rightarrow>
              storing err (s\<lparr>rs_FailedAttempts := rs_FailedAttempts s + 1\<rparr>) [now] t (\<lambda>s1.
              if \<not> isRetryableError err (RetryableErrors policy) then (Returns (s1, Some err), [now], t)
              else if int attempt = MaxAttempts policy - 1
              then (Returns (average_delay s1, Some (exhausted (Some err))), [now], t)
              else (let delay = calculateDelay env policy attempt;
                        s2 = s1\<lparr>rs_TotalDelay := rs_TotalDelay s1 + of_int delay\<rparr> in
                 case retry_wait env attempt delay t c' of
                  (t', True) \<Rightarrow>
                    (let e = cancelled (the (ctx_err t' c')) in
                     storing e s2 [now] t' (\<lambda>s3. (Returns (s3, Some e), [now], t')))
                | (t', False) \<Rightarrow>
                    started_at now
                      (RetryWithStats_loop env policy operation (Suc attempt) c' t' (Some err) s2)))))
      else (Returns (average_delay s0, Some (exhausted lastErr)), [], now))"
  by pat_completeness auto

termination
  by (relation "measure (\<lambda>(env, policy, operation, attempt, c, now, e, s).
      nat (MaxAttempts policy) - attempt)") auto

declare RetryWithStats_loop.simps [simp del]

definition RetryWithStatsAndContext ::
    "retry_env \<Rightarrow> instant \<Rightarrow> ctx option \<Rightarrow> Policy \<Rightarrow> goerr option go_ops option
       \<Rightarrow> (RetryStats \<times> goerr option) retried" where
  "RetryWithStatsAndContext env now c policy operation =
     (case validatePolicy policy of
        Some err \<Rightarrow> (Returns (zero_RetryStats, Some err), [], now)
      | None \<Rightarrow>
         (case operation of
            None \<Rightarrow> (Returns (zero_RetryStats, Some (wrapping (common ErrInvalidOperation))), [], now)
          | Some op \<Rightarrow>
              RetryWithStats_loop env policy op 0 (case c of None \<Rightarrow> Background | Some x \<Rightarrow> x) now None
                zero_RetryStats))"

definition RetryWithStats ::
    "retry_env \<Rightarrow> instant \<Rightarrow> Policy \<Rightarrow> goerr option go_ops option
       \<Rightarrow> (RetryStats \<times> goerr option) retried" where
  "RetryWithStats env now policy operation =
     RetryWithStatsAndContext env now (Some Background) policy operation"

section \<open>The manager\<close>

record RetryManager =
  rm_stats :: RetryStats
  rm_lastBudgetReset :: instant
  rm_closed :: bool

definition NewRetryManager :: "instant \<Rightarrow> RetryManager" where
  "NewRetryManager now = \<lparr>rm_stats = zero_RetryStats, rm_lastBudgetReset = now, rm_closed = False\<rparr>"

definition RetryManager_GetStats :: "RetryManager \<Rightarrow> RetryStats" where
  "RetryManager_GetStats rm = rm_stats rm"

definition RetryManager_ResetStats :: "instant \<Rightarrow> RetryManager \<Rightarrow> RetryManager outcome" where
  "RetryManager_ResetStats now rm =
     (case store_LastError (ErrText [])
        ((rm_stats rm)\<lparr>rs_TotalAttempts := 0, rs_SuccessfulAttempts := 0, rs_FailedAttempts := 0,
          rs_TotalDelay := 0, rs_RetryBudgetUsed := 0, rs_RateLimitHits := 0,
          rs_AverageDelay := Some 0, rs_LastAttemptTime := Some now, rs_LastSuccessTime := Some now\<rparr>) of
        Returns s \<Rightarrow> Returns (rm\<lparr>rm_stats := s\<rparr>)
      | Panics p \<Rightarrow> Panics p)"

definition RetryManager_Close :: "RetryManager \<Rightarrow> goerr option \<times> RetryManager" where
  "RetryManager_Close rm =
     (if rm_closed rm then (Some (ErrText ''retry manager already closed''), rm)
      else (None, rm\<lparr>rm_closed := True\<rparr>))"

definition RetryManager_IsClosed :: "RetryManager \<Rightarrow> bool" where
  "RetryManager_IsClosed rm = rm_closed rm"

interpretation rml: closable RetryManager_Close RetryManager_IsClosed
  by unfold_locales (auto simp: RetryManager_Close_def RetryManager_IsClosed_def)

end
