(* ===== verification/RetryProps.thy ===== *)
theory RetryProps
  imports Retry
begin

text \<open>
  The properties of the retry loops: how often and how long they try, what they return, that the
  three copies of the loop agree, and what the statistics add.
\<close>

section \<open>How often\<close>

lemma started_at_simps [simp]:
  "fst (started_at t r) = fst r"
  "fst (snd (started_at t r)) = t # fst (snd r)"
  "snd (snd (started_at t r)) = snd (snd r)"
  by (simp_all add: started_at_def split: prod.split)

text \<open>One pass of the loop: it stops, having started the operation at most once, or goes on.\<close>

lemma loop_step:
  obtains
    (stop) r ss t where "RetryWithContext_loop env policy op attempt c now e = (r, ss, t)"
      "ss = [] \<or> ss = [now] \<and> int attempt < MaxAttempts policy \<and> ctx_err now c = None"
  | (again) t err w where "int (Suc attempt) < MaxAttempts policy" "ctx_err now c = None"
      "op attempt now = (t, Returns (Some err))" "isRetryableError err (RetryableErrors policy)"
      "retry_wait env attempt (calculateDelay env policy attempt) t (attempt_ctx policy now c) = (w, False)"
      "RetryWithContext_loop env policy op attempt c now e
        = started_at now (RetryWithContext_loop env policy op (Suc attempt) (attempt_ctx policy now c) w (Some err))"
proof (cases "int attempt < MaxAttempts policy \<and> ctx_err now c = None")
  case False
  then show thesis
    by (intro stop [of "fst (RetryWithContext_loop env policy op attempt c now e)" "[]" now])
      (auto simp: RetryWithContext_loop.simps [of env policy op attempt c now e] split: option.split)
next
  case True
  obtain t r where op: "op attempt now = (t, r)" by (cases "op attempt now")
  note simps = RetryWithContext_loop.simps [of env policy op attempt c now e, unfolded Let_def]
  show thesis
  proof (cases "\<exists>err. r = Returns (Some err) \<and> isRetryableError err (RetryableErrors policy)
      \<and> int attempt \<noteq> MaxAttempts policy - 1")
    case False
    with True op show thesis
      by (intro stop [of "fst (RetryWithContext_loop env policy op attempt c now e)" "[now]" t])
        (auto simp: simps split: outcome.split option.split)
  next
    case go: True
    then obtain err where r: "r = Returns (Some err)" "isRetryableError err (RetryableErrors policy)"
      "int attempt \<noteq> MaxAttempts policy - 1" by blast
    obtain w b where w: "retry_wait env attempt (calculateDelay env policy attempt) t
        (attempt_ctx policy now c) = (w, b)" by (cases "retry_wait env attempt (calculateDelay env policy attempt) t
        (attempt_ctx policy now c)")
    show thesis
    proof (cases b)
      case b: True
      with True op r w show thesis
        by (intro stop [of "fst (RetryWithContext_loop env policy op attempt c now e)" "[now]" w])
          (simp_all add: simps)
    next
      case False
      with True op r w show thesis by (intro again [of t err w]) (simp_all add: simps)
    qed
  qed
qed

lemma RetryWithContext_loop_length:
  "length (fst (snd (RetryWithContext_loop env policy op attempt c now e)))
     \<le> nat (MaxAttempts policy) - attempt"
proof (induction "nat (MaxAttempts policy) - attempt" arbitrary: attempt c now e rule: less_induct)
  case less
  show ?case
  proof (cases rule: loop_step [of env policy op attempt c now e])
    case (stop r ss t)
    then show ?thesis by auto
  next
    case (again t err w)
    then have "length (fst (snd (RetryWithContext_loop env policy op (Suc attempt)
        (attempt_ctx policy now c) w (Some err)))) \<le> nat (MaxAttempts policy) - Suc attempt"
      by (intro less) linarith
    with again show ?thesis by simp
  qed
qed

text \<open>The operation is started at most MaxAttempts times, whatever the operation, the
  context, the random numbers and the timers do.\<close>

theorem retry_attempts_bounded:
  "int (length (fst (snd (RetryWithContext env now c policy operation)))) \<le> max 0 (MaxAttempts policy)"
proof -
  have "int (length (fst (snd (RetryWithContext_loop env policy op 0 c now e)))) \<le> max 0 (MaxAttempts policy)"
    for op c e
    using RetryWithContext_loop_length [of env policy op 0 c now e] by linarith
  then show ?thesis by (simp add: RetryWithContext_def split: option.split)
qed

section \<open>What is returned\<close>

text \<open>
  The specification of a retry, on the list of the outcomes the operation would have: the result,
  and how many of them are looked at.
\<close>

fun retry_spec :: "goerr list \<Rightarrow> goerr option list \<Rightarrow> goerr option \<times> nat" where
  "retry_spec retryable [] = (None, 0)"
| "retry_spec retryable (None # rs) = (None, 1)"
| "retry_spec retryable (Some err # rs) =
     (if \<not> isRetryableError err retryable then (Some err, 1)
      else if rs = [] then (Some (exhausted (Some err)), 1)
      else (case retry_spec retryable rs of (r, k) \<Rightarrow> (r, Suc k)))"

lemma never_done: "cancelled_at c = None \<Longrightarrow> deadline c = None \<Longrightarrow> ctx_err now c = None"
  by (simp add: ctx_err_def passed_def)

lemma retry_loop_spec:
  assumes c: "cancelled_at c = None" "deadline c = None" and "Timeout policy \<le> 0"
    and f: "\<And>i t. snd (op i t) = Returns (f i)"
  shows "attempt < nat (MaxAttempts policy) \<Longrightarrow>
      fst (RetryWithContext_loop env policy op attempt c now e)
       = Returns (fst (retry_spec (RetryableErrors policy) (map f [attempt..<nat (MaxAttempts policy)])))
     \<and> length (fst (snd (RetryWithContext_loop env policy op attempt c now e)))
       = snd (retry_spec (RetryableErrors policy) (map f [attempt..<nat (MaxAttempts policy)]))"
proof (induction "nat (MaxAttempts policy) - attempt" arbitrary: attempt now e)
  case 0
  then show ?case by simp
next
  case (Suc k)
  let ?n = "nat (MaxAttempts policy)"
  have lt: "int attempt < MaxAttempts policy" using Suc.prems by linarith
  have list: "[attempt..<?n] = attempt # [Suc attempt..<?n]" using Suc.prems by (simp add: upt_conv_Cons)
  have nd: "ctx_err t c = None" for t using c by (simp add: never_done)
  have c': "attempt_ctx policy now c = c" using assms(3) by (simp add: attempt_ctx_def)
  obtain t where t: "op attempt now = (t, Returns (f attempt))"
    using f by (metis prod.collapse)
  note simps = RetryWithContext_loop.simps [of env policy op attempt c now e, unfolded Let_def]
  show ?case
  proof (cases "\<exists>err. f attempt = Some err \<and> isRetryableError err (RetryableErrors policy)
      \<and> int attempt \<noteq> MaxAttempts policy - 1")
    case False
    have last: "int attempt = MaxAttempts policy - 1 \<Longrightarrow> [Suc attempt..<?n] = []" by simp
    from False show ?thesis unfolding list
      by (cases "f attempt") (auto simp: simps lt nd c' t last)
  next
    case True
    then obtain err where err: "f attempt = Some err" "isRetryableError err (RetryableErrors policy)"
      "int attempt \<noteq> MaxAttempts policy - 1" by blast
    obtain w where w: "retry_wait env attempt (calculateDelay env policy attempt) t c = (w, False)"
      by (simp add: retry_wait_def timer_wait_def Let_def nd)
    have n: "Suc attempt < ?n" using err(3) lt by linarith
    then have ne: "[Suc attempt..<?n] \<noteq> []" by simp
    have "k = ?n - Suc attempt" using Suc.hyps(2) by simp
    from Suc.hyps(1) [OF this n, of w "Some err"] ne show ?thesis unfolding list
      by (simp add: simps lt nd c' t err w split_beta)
  qed
qed

text \<open>Property C15: with a context that is never done and no timeout, the loop computes the
  specification: it returns nil at the first success, the error itself at the first error that is
  not retryable, and the exhaustion error wrapping the last error after MaxAttempts retryable ones;
  and it starts the operation exactly as often as the specification says.\<close>

theorem retry_meets_spec:
  assumes "validatePolicy policy = None" and "Timeout policy \<le> 0"
    and "\<And>i t. snd (op i t) = Returns (f i)"
  shows "fst (RetryWithContext env now (Some Background) policy (Some op))
      = Returns (fst (retry_spec (RetryableErrors policy) (map f [0..<nat (MaxAttempts policy)])))
    \<and> length (fst (snd (RetryWithContext env now (Some Background) policy (Some op))))
      = snd (retry_spec (RetryableErrors policy) (map f [0..<nat (MaxAttempts policy)]))"
proof -
  have "1 \<le> MaxAttempts policy"
    using assms(1) by (auto simp: validatePolicy_def MinAttemptsLimitRetry_def split: if_splits)
  then show ?thesis
    using retry_loop_spec [of Background policy op f 0 env now None] assms
    by (simp add: RetryWithContext_def Background_def)
qed

definition plain_policy :: Policy where
  "plain_policy =
     \<lparr>MaxAttempts = 3, InitialDelay = 1 * Second, MaxDelay = 1 * Second, Multiplier = Fin 1,
      Jitter = True, JitterPercent = Fin 50, RetryableErrors = [], Timeout = 0, RateLimit = 0,
      RateLimitWindow = Second\<rparr>"

definition plain_env :: retry_env where
  "plain_env = \<lparr>re_rand = (\<lambda>_. 3 / 4), re_lag = (\<lambda>_. 0), re_pick = (\<lambda>_. False), re_oor = (\<lambda>_. min_int64)\<rparr>"

lemma fl_small_int: "fl 10 = Fin 10" "fl 50 = Fin 50" "fl 2 = Fin 2" "fl 100 = Fin 100"
  using f_of_int_exact [of 10] f_of_int_exact [of 50] f_of_int_exact [of 2] f_of_int_exact [of 100]
  by simp_all

lemma plain_valid: "validatePolicy plain_policy = None"
proof -
  have "f_le MinMultiplierLimitRetry (Fin 1)"
    using fl_mono [of "1 / 10" 1] by (simp add: MinMultiplierLimitRetry_def)
  from f_le_not_lt [OF this] show ?thesis
    by (simp add: validatePolicy_def plain_policy_def retry_limits(1-6) retry_limits(9-)
        MaxMultiplierLimitRetry_def fl_small_int)
qed

theorem retry_meets_spec_witness:
  "fst (RetryWithContext plain_env 0 (Some Background) plain_policy
      (Some (\<lambda>i t. (t + 1, Returns (if i = 2 then None else Some CtxCanceled))))) = Returns None"
  using retry_meets_spec [OF plain_valid, of "\<lambda>i t. (t + 1, Returns (if i = 2 then None else Some CtxCanceled))"
      "\<lambda>i. if i = 2 then None else Some CtxCanceled" plain_env 0]
  by (simp add: plain_policy_def upt_rec numeral_eq_Suc isRetryableError_def)

section \<open>How long\<close>

lemma retry_loop_deadline:
  "deadline c = Some d
     \<Longrightarrow> \<forall>s\<in>set (fst (snd (RetryWithContext_loop env policy op attempt c now e))). s < d"
proof (induction "nat (MaxAttempts policy) - attempt" arbitrary: attempt c now e d rule: less_induct)
  case less
  have "\<exists>d'. deadline (attempt_ctx policy now c) = Some d' \<and> d' \<le> d"
    using less.prems by (simp add: attempt_ctx_def WithTimeout_def)
  then obtain d' where dl: "deadline (attempt_ctx policy now c) = Some d'" "d' \<le> d" by blast
  have now: "now < d" if "ctx_err now c = None"
    using that less.prems by (auto simp: ctx_err_def passed_def split: if_splits)
  show ?case
  proof (cases rule: loop_step [of env policy op attempt c now e])
    case (stop r ss t)
    then show ?thesis using now by auto
  next
    case (again t err w)
    have "\<forall>s\<in>set (fst (snd (RetryWithContext_loop env policy op (Suc attempt)
        (attempt_ctx policy now c) w (Some err)))). s < d'"
      using again(1) dl(1) by (intro less.hyps) linarith+
    with again now dl(2) show ?thesis by fastforce
  qed
qed

text \<open>Timeout bounds the whole retry, not one attempt. With a positive Timeout no attempt
  starts later than Timeout after the call of RetryWithContext, because each attempt derives its
  context from the one of the attempt before.\<close>

theorem retry_timeout_is_total:
  assumes "0 < Timeout policy"
    and "s \<in> set (fst (snd (RetryWithContext env now c policy operation)))"
  shows "s < now + Timeout policy"
proof -
  have "\<forall>s\<in>set (fst (snd (RetryWithContext_loop env policy op 0 cx now None))). s < now + Timeout policy"
    for op cx
  proof -
    obtain d where d: "deadline (attempt_ctx policy now cx) = Some d" "d \<le> now + Timeout policy"
      using assms(1) WithTimeout_deadline [of now "Timeout policy" cx] by (auto simp: attempt_ctx_def)
    then have *: "\<forall>s\<in>set (fst (snd (RetryWithContext_loop env policy op a (attempt_ctx policy now cx) t e))).
        s < now + Timeout policy" for a t e
      using retry_loop_deadline by fastforce
    show ?thesis
    proof (cases rule: loop_step [of env policy op 0 cx now None])
      case (stop r ss t)
      then show ?thesis using assms(1) by auto
    next
      case (again t err w)
      then show ?thesis using * assms(1) by simp
    qed
  qed
  with assms(2) show ?thesis by (auto simp: RetryWithContext_def split: option.splits)
qed

theorem retry_timeout_is_total_witness:
  "\<exists>starts. fst (snd (RetryWithContext plain_env 10 (Some Background) (plain_policy\<lparr>Timeout := 5\<rparr>)
      (Some (\<lambda>i t. (t, Returns None))))) = starts \<and> (\<forall>s\<in>set starts. s < 15)"
  using retry_timeout_is_total [of "plain_policy\<lparr>Timeout := 5\<rparr>" _ plain_env 10 "Some Background"
      "Some (\<lambda>i t. (t, Returns None))"]
  by auto

section \<open>The delay\<close>

lemma representable_double:
  assumes "representable r"
  shows "representable (2 * r)"
proof (cases "r = 0")
  case False
  let ?e = "fexp r" and ?n = "rne (r / 2 powi fexp r)"
  have r: "r = of_int ?n * 2 powi ?e"
    using assms False by (simp add: representable_def flr_def)
  have pos: "0 < \<bar>r\<bar>" using False by simp
  have "\<bar>r\<bar> < 2 powi (ilog2 \<bar>r\<bar> + 1)" using ilog2_bounds [OF pos] by simp
  also have "\<dots> \<le> 2 powi (53 + ?e)" by (rule powi_mono2) (simp add: fexp_def)
  finally have "of_int \<bar>?n\<bar> * 2 powi ?e < (2::rat) powi 53 * 2 powi ?e"
    using arg_cong [OF r, of abs] by (simp add: abs_mult powi_add2)
  then have "of_int \<bar>?n\<bar> < (of_int (2 ^ 53) :: rat)" by (simp add: powi_of_int)
  then have n: "\<bar>?n\<bar> < 2 ^ 53" by (simp only: of_int_less_iff)
  have "- 1074 \<le> ?e + 1" by (simp add: fexp_def)
  from flr_exact_small [OF n this] have "representable (of_int ?n * 2 powi (?e + 1))"
    by (simp add: representable_def)
  moreover have "2 * r = of_int ?n * 2 powi (?e + 1)"
    by (subst r) (simp add: powi_add2)
  ultimately show ?thesis by simp
qed simp

lemma flr_idem [simp]: "representable (flr q)"
proof (cases "q = 0")
  case False
  let ?e = "fexp q" and ?n = "rne (q / 2 powi fexp q)"
  have pos: "0 < \<bar>q\<bar>" using False by simp
  have "\<bar>q\<bar> < 2 powi (ilog2 \<bar>q\<bar> + 1)" using ilog2_bounds [OF pos] by simp
  also have "\<dots> \<le> 2 powi (53 + ?e)" by (rule powi_mono2) (simp add: fexp_def)
  finally have "\<bar>q / 2 powi ?e\<bar> < 2 powi 53" by (simp add: powi_add2 divide_simps)
  then have "\<bar>q / 2 powi ?e\<bar> \<le> of_int (2 ^ 53)" by (simp add: powi_of_int)
  then have "q / 2 powi ?e \<le> of_int (2 ^ 53)" "of_int (- (2 ^ 53)) \<le> q / 2 powi ?e"
    unfolding abs_le_iff of_int_minus by linarith+
  from rne_le_int [OF this(1)] rne_ge_int [OF this(2)]
  have "?n \<le> 2 ^ 53" "- (2 ^ 53) \<le> ?n" .
  then have "\<bar>?n\<bar> < 2 ^ 53 \<or> ?n = 2 ^ 53 \<or> ?n = - (2 ^ 53)" by arith
  moreover have e: "- 1074 \<le> ?e" by (simp add: fexp_def)
  moreover have "of_int ?n * 2 powi ?e = (2::rat) powi (?e + 53)" if "?n = 2 ^ 53"
    using that by (simp add: powi_add2 powi_of_int)
  moreover have "of_int ?n * 2 powi ?e = - ((2::rat) powi (?e + 53))" if "?n = - (2 ^ 53)"
    using that by (simp add: powi_add2 powi_of_int)
  ultimately have "representable (of_int ?n * 2 powi ?e)"
    using flr_exact_small [of ?n ?e] representable_powi [of "?e + 53"]
      representable_minus [OF representable_powi [of "?e + 53"]]
    by (auto simp: representable_def)
  then show ?thesis using False by (simp add: flr_def)
qed simp

lemma pow_loop_nonneg: "0 \<le> a1 \<Longrightarrow> 0 \<le> x1 \<Longrightarrow> 0 \<le> fst (pow_loop i a1 ae x1 xe)"
proof (induction i a1 ae x1 xe rule: pow_loop.induct)
  case (1 i a1 ae x1 xe)
  then show ?case
    by (subst pow_loop.simps) (auto simp: Let_def flr_nonneg)
qed

lemma fl_nonneg: "0 \<le> q \<Longrightarrow> fl q = PosInf \<or> (\<exists>r. fl q = Fin r \<and> 0 \<le> r)"
  using flr_nonneg [of q] powi_pos [of 1024]
  by (auto simp: fl_def Let_def)

lemma math_Pow_nonneg:
  assumes "0 < q"
  shows "math_Pow (Fin q) n = PosInf \<or> (\<exists>r. math_Pow (Fin q) n = Fin r \<and> 0 \<le> r)"
proof -
  obtain a ae where a: "pow_loop n 1 0 (q / 2 powi (ilog2 \<bar>q\<bar> + 1)) (ilog2 \<bar>q\<bar> + 1) = (a, ae)"
    by (cases "pow_loop n 1 0 (q / 2 powi (ilog2 \<bar>q\<bar> + 1)) (ilog2 \<bar>q\<bar> + 1)")
  have "0 \<le> a" using pow_loop_nonneg [of 1 "q / 2 powi (ilog2 \<bar>q\<bar> + 1)" n 0 "ilog2 \<bar>q\<bar> + 1"] a assms by simp
  then have "0 \<le> a * 2 powi ae" by simp
  from fl_nonneg [OF this] a assms show ?thesis by (auto simp: math_Pow_def Let_def)
qed

text \<open>The capped exponential part of the delay.\<close>

lemma capped_delay:
  fixes attempt :: nat
  assumes v: "validatePolicy policy = None" and m: "Multiplier policy \<noteq> NaN"
  defines "M \<equiv> of_int (MaxDelay policy) :: rat"
  defines "d0 \<equiv> f_mul (f_of_int (InitialDelay policy)) (math_Pow (Multiplier policy) attempt)"
  shows "\<exists>x. (if f_gt d0 (f_of_int (MaxDelay policy)) then f_of_int (MaxDelay policy) else d0) = Fin x
     \<and> 0 \<le> x \<and> x \<le> M"
proof -
  have i: "1 \<le> InitialDelay policy" "InitialDelay policy < 2 ^ 53" "0 \<le> MaxDelay policy"
    "MaxDelay policy < 2 ^ 53"
    and lo: "\<not> f_lt (Multiplier policy) MinMultiplierLimitRetry"
    and hi: "\<not> f_gt (Multiplier policy) MaxMultiplierLimitRetry"
    using v by (auto simp: validatePolicy_def retry_limits(3-6) split: if_splits)
  have fi: "f_of_int (InitialDelay policy) = Fin (of_int (InitialDelay policy))"
    and fm: "f_of_int (MaxDelay policy) = Fin M"
    unfolding M_def using i by (intro f_of_int_exact; simp)+
  have "representable (1 / 16)" using representable_dyadic [of 1 4] by simp
  then have "fl (1 / 16) = Fin (1 / 16)" by (intro fl_representable) auto
  moreover have "f_le (fl (1 / 16)) MinMultiplierLimitRetry"
    unfolding MinMultiplierLimitRetry_def by (rule fl_mono) simp
  moreover have "fl (1 / 10) = Fin (flr (1 / 10))" by (rule fl_small [OF small_powi_1023]) simp
  ultimately obtain l where l: "MinMultiplierLimitRetry = Fin l" "0 < l"
    by (auto simp: MinMultiplierLimitRetry_def)
  have "\<not> f_lt (Multiplier policy) (Fin l)" using lo unfolding l(1) .
  with l(2) obtain q where q: "Multiplier policy = Fin q" "0 < q"
    using hi m by (cases "Multiplier policy") (auto simp: MaxMultiplierLimitRetry_def fl_small_int)
  have "d0 = PosInf \<or> (\<exists>r. d0 = Fin r \<and> 0 \<le> r)"
    using math_Pow_nonneg [OF q(2), of attempt]
  proof
    assume "math_Pow (Fin q) attempt = PosInf"
    then show ?thesis using i q by (simp add: d0_def fi f_inf_def)
  next
    assume "\<exists>r. math_Pow (Fin q) attempt = Fin r \<and> 0 \<le> r"
    then obtain r where "math_Pow (Fin q) attempt = Fin r" "0 \<le> r" by blast
    then show ?thesis using i q fl_nonneg [of "of_int (InitialDelay policy) * r"]
      by (simp add: d0_def fi)
  qed
  then show ?thesis using i by (auto simp: fm M_def)
qed

text \<open>The jitter never moves the delay by more than half of the maximum.\<close>

lemma jitter_bound:
  assumes x: "0 \<le> x" "x \<le> of_int m" and m: "0 \<le> m" "m < 2 ^ 51"
    and p: "0 \<le> p" "p \<le> 50" and r: "0 \<le> r" "r \<le> 1"
  shows "\<exists>c. f_sub (f_mul (f_mul (Fin r) (Fin 2)) (f_mul (Fin x) (f_div (Fin p) (Fin 100))))
              (f_mul (Fin x) (f_div (Fin p) (Fin 100))) = Fin c
     \<and> \<bar>c\<bar> \<le> of_int m / 2"
proof -
  have M: "(0::rat) \<le> of_int m" "(of_int m :: rat) \<le> 2 ^ 51"
    using m of_int_le_iff [of m "2 ^ 51", where 'a = rat] by simp_all
  have half: "representable (of_int m / 2)" using representable_dyadic [of m 1] m by simp
  have fin: "fl y = Fin (flr y)" if "\<bar>y\<bar> \<le> 2 ^ 52" for y
    using that by (intro fl_small small_powi_1023) simp
  define g where "g = flr (p / 100)"
  have g: "fl (p / 100) = Fin g" "0 \<le> g" "g \<le> 1 / 2"
    using p fin [of "p / 100"] flr_le_representable [OF _ representable_half, of "p / 100"]
    by (auto simp: g_def flr_nonneg)
  define j where "j = flr (x * g)"
  have xg: "0 \<le> x * g" "x * g \<le> of_int m / 2"
    using x g M mult_mono [of x "of_int m" g "1 / 2"] by auto
  have j: "fl (x * g) = Fin j" "0 \<le> j" "j \<le> of_int m / 2"
    using xg M fin [of "x * g"] flr_le_representable [OF xg(2) half] by (auto simp: j_def flr_nonneg)
  define a where "a = flr (r * 2)"
  have a: "fl (r * 2) = Fin a" "0 \<le> a" "a \<le> 2"
    using r fin [of "r * 2"] flr_le_representable [of "r * 2" 2] representable_numeral [of "num.Bit0 num.One"]
    by (auto simp: a_def flr_nonneg)
  define b where "b = flr (a * j)"
  have aj: "0 \<le> a * j" "a * j \<le> 2 * j" using a j by (auto intro: mult_right_mono)
  have jr: "representable j" by (simp add: j_def)
  have b: "fl (a * j) = Fin b" "0 \<le> b" "b \<le> 2 * j"
    using aj j M fin [of "a * j"] flr_le_representable [OF aj(2) representable_double [OF jr]]
    by (auto simp: b_def flr_nonneg)
  define c where "c = flr (b - j)"
  have "\<bar>b - j\<bar> \<le> j" using b by linarith
  then have c: "fl (b - j) = Fin c" "c \<le> j" "- j \<le> c"
    using j M fin [of "b - j"] flr_le_representable [OF _ jr, of "b - j"]
      flr_ge_representable [OF _ representable_minus [OF jr], of "b - j"] by (auto simp: c_def)
  show ?thesis using g j a b c by simp
qed

text \<open>Property C27: for a valid policy whose multiplier and jitter are numbers, every delay lies between
  0 and one and a half times MaxDelay, through the floating-point power, the cap, the jitter and the
  conversion to a duration; without jitter it is at most MaxDelay.\<close>

theorem delay_bounds:
  assumes v: "validatePolicy policy = None"
    and "Multiplier policy \<noteq> NaN" and jn: "JitterPercent policy \<noteq> NaN"
    and r: "0 \<le> re_rand env attempt" "re_rand env attempt \<le> 1"
  shows "0 \<le> calculateDelay env policy attempt
    \<and> 2 * calculateDelay env policy attempt \<le> 3 * MaxDelay policy
    \<and> (\<not> Jitter policy \<longrightarrow> calculateDelay env policy attempt \<le> MaxDelay policy)"
proof -
  let ?M = "MaxDelay policy"
  have m: "0 \<le> ?M" "?M < 2 ^ 51" "?M \<le> 24 * Hour" and jp: "\<not> f_lt (JitterPercent policy) (Fin 0)"
      "\<not> f_gt (JitterPercent policy) (Fin 50)"
    using v by (auto simp: validatePolicy_def retry_limits(5,6,9-) fl_small_int split: if_splits)
  obtain p where p: "JitterPercent policy = Fin p" "0 \<le> p" "p \<le> 50"
    using jp jn by (cases "JitterPercent policy") auto
  define d0 where "d0 = f_mul (f_of_int (InitialDelay policy)) (math_Pow (Multiplier policy) attempt)"
  obtain x where x: "(if f_gt d0 (f_of_int ?M) then f_of_int ?M else d0) = Fin x" "0 \<le> x" "x \<le> of_int ?M"
    using capped_delay [OF v assms(2), of attempt] unfolding d0_def by blast
  obtain c where c: "f_sub (f_mul (f_mul (Fin (re_rand env attempt)) (Fin 2))
        (f_mul (Fin x) (f_div (Fin p) (Fin 100)))) (f_mul (Fin x) (f_div (Fin p) (Fin 100))) = Fin c"
      "\<bar>c\<bar> \<le> of_int ?M / 2"
    using jitter_bound [OF x(2,3) m(1,2) p(2,3) r] by blast
  have top: "representable (of_int (3 * ?M) / 2)" using representable_dyadic [of "3 * ?M" 1] m by simp
  have Mr: "(of_int ?M :: rat) \<le> 2 ^ 51" "(0::rat) \<le> of_int ?M"
    using m of_int_le_iff [of ?M "2 ^ 51", where 'a = rat] by simp_all
  have lim: "x + c \<le> of_int (3 * ?M) / 2" "- (of_int ?M / 2) \<le> x + c" using x c(2) by (auto simp: abs_le_iff)
  then have "\<bar>x + c\<bar> \<le> 2 ^ 100" using Mr by (auto simp: abs_le_iff)
  then have y: "fl (x + c) = Fin (flr (x + c))" by (intro fl_small small_powi_1023)
  have yb: "flr (x + c) \<le> of_int (3 * ?M) / 2" by (rule flr_le_representable [OF lim(1) top])
  define d2 where "d2 = (if Jitter policy then Fin (flr (x + c)) else Fin x)"
  have d: "calculateDelay env policy attempt
      = f_to_int64 (re_oor env) (if f_lt d2 (Fin 0) then Fin 0 else d2)"
    unfolding calculateDelay_def Let_def d0_def [symmetric] x(1) p(1) c(1) f_add.simps(1) y d2_def
    by (rule refl)
  have *: "\<exists>z. (if f_lt d2 (Fin 0) then Fin 0 else d2) = Fin z \<and> 0 \<le> z \<and> z \<le> of_int (3 * ?M) / 2
      \<and> (\<not> Jitter policy \<longrightarrow> z \<le> of_int ?M)"
    using x yb Mr by (auto simp: d2_def)
  then obtain z where z: "(if f_lt d2 (Fin 0) then Fin 0 else d2) = Fin z" "0 \<le> z"
      "z \<le> of_int (3 * ?M) / 2" "\<not> Jitter policy \<longrightarrow> z \<le> of_int ?M" by blast
  have fz: "0 \<le> \<lfloor>z\<rfloor>" "2 * \<lfloor>z\<rfloor> \<le> 3 * ?M" "\<not> Jitter policy \<longrightarrow> \<lfloor>z\<rfloor> \<le> ?M"
    using z(2-4) floor_mono [of z "of_int (3 * ?M) / 2"] floor_mono [of z "of_int ?M"]
      floor_divide_of_int_eq [of "3 * ?M" 2, where 'a = rat] by auto
  then have "\<lfloor>z\<rfloor> \<le> 200000000000000" using m by linarith
  also have "\<dots> \<le> max_int64" by (simp add: max_int64_def)
  finally have "\<lfloor>z\<rfloor> \<le> max_int64" .
  then have "calculateDelay env policy attempt = \<lfloor>z\<rfloor>"
    using z(2) fz(1) unfolding d z(1) by (simp add: rat_trunc_def Let_def min_int64_def)
  then show ?thesis using fz by simp
qed

theorem delay_bounds_witness:
  "0 \<le> calculateDelay plain_env plain_policy 1 \<and> 2 * calculateDelay plain_env plain_policy 1 \<le> 3000000000"
  using delay_bounds [OF plain_valid, of plain_env 1] by (simp add: plain_policy_def plain_env_def)

text \<open>MaxDelay is not a maximum. A valid policy with a delay of one second and a MaxDelay of
  one second can wait for a second and a quarter, because the jitter is added after the cap.\<close>

theorem delay_exceeds_max:
  "validatePolicy plain_policy = None \<and> MaxDelay plain_policy = 1000000000
   \<and> calculateDelay plain_env plain_policy 0 = 1250000000"
proof -
  have "fl 1000000000 = Fin 1000000000" "fl 500000000 = Fin 500000000" "fl 750000000 = Fin 750000000"
    "fl 250000000 = Fin 250000000" "fl 1250000000 = Fin 1250000000"
    using f_of_int_exact [of 1000000000] f_of_int_exact [of 500000000] f_of_int_exact [of 750000000]
      f_of_int_exact [of 250000000] f_of_int_exact [of 1250000000] by simp_all
  moreover have "fl (3 / 2) = Fin (3 / 2)"
    using representable_dyadic [of 3 1] fl_representable [of "3 / 2"] by simp
  ultimately show ?thesis
    using plain_valid
    by (simp add: calculateDelay_def plain_policy_def plain_env_def math_Pow_def Let_def rat_trunc_def
        min_int64_def max_int64_def)
qed

section \<open>The three loops agree\<close>

text \<open>Forget the result and keep the error.\<close>

definition errors_of :: "('v \<times> goerr option) retried \<Rightarrow> goerr option retried" where
  "errors_of r = (case r of (x, starts, e) \<Rightarrow> (map_outcome snd x, starts, e))"

definition error_ops :: "('v \<times> goerr option) go_ops \<Rightarrow> goerr option go_ops" where
  "error_ops op = (\<lambda>i t. case op i t of (u, x) \<Rightarrow> (u, map_outcome snd x))"

lemma errors_of_simps [simp]:
  "errors_of (Returns (v, e), ss, t) = (Returns e, ss, t)"
  "errors_of (Panics p, ss, t) = (Panics p, ss, t)"
  "errors_of (started_at s r) = started_at s (errors_of r)"
  by (simp_all add: errors_of_def started_at_def split: prod.split)

lemma retry_result_loop:
  "errors_of (RetryWithResult_loop env zero policy op attempt c now e)
     = RetryWithContext_loop env policy (error_ops op) attempt c now e"
proof (induction "nat (MaxAttempts policy) - attempt" arbitrary: attempt c now e rule: less_induct)
  case less
  note IH = less.hyps [of "Suc attempt"]
  show ?case
    by (subst RetryWithResult_loop.simps, subst RetryWithContext_loop.simps)
      (use IH in \<open>auto simp: error_ops_def Let_def split: option.split prod.split outcome.split bool.split\<close>)
qed

text \<open>Property C37: RetryWithResultAndContext and RetryWithContext are the same loop. For every operation,
  context, policy and environment, the error (or panic) of the first is the error of the second on
  the operation without its result, and both start the operation at the same instants and return at
  the same instant.\<close>

theorem retry_result_equivalent:
  "errors_of (RetryWithResultAndContext env zero now c policy operation)
     = RetryWithContext env now c policy (map_option error_ops operation)"
  by (simp add: RetryWithResultAndContext_def RetryWithContext_def retry_result_loop split: option.split)

text \<open>Panics of the statistics apart, the third loop is the same as well.\<close>

lemma storing_cases:
  obtains "storing err s starts t k = (Panics InconsistentAtomicValue, starts, t)"
  | "storing err s starts t k = k (s\<lparr>rs_LastError := Some err\<rparr>)"
proof (cases "rs_LastError s = None \<or> concrete_type (the (rs_LastError s)) = concrete_type err")
  case True
  then show thesis
    by (intro that(2)) (cases "rs_LastError s"; simp add: storing_def store_LastError_def)
next
  case False
  then show thesis by (intro that(1)) (auto simp: storing_def store_LastError_def)
qed

definition counted :: "RetryStats \<Rightarrow> RetryStats \<Rightarrow> goerr option \<Rightarrow> nat \<Rightarrow> bool" where
  "counted s s' r k \<longleftrightarrow>
     rs_SuccessfulAttempts s' + rs_FailedAttempts s'
       = rs_SuccessfulAttempts s + rs_FailedAttempts s + of_nat k
     \<and> (rs_TotalAttempts s' = rs_TotalAttempts s + of_nat k
        \<or> rs_TotalAttempts s' = rs_TotalAttempts s + of_nat k + 1 \<and> (\<exists>x. r = Some (cancelled x)))"

lemma average_delay_counters [simp]:
  "rs_SuccessfulAttempts (average_delay x) = rs_SuccessfulAttempts x"
  "rs_FailedAttempts (average_delay x) = rs_FailedAttempts x"
  "rs_TotalAttempts (average_delay x) = rs_TotalAttempts x"
  by (simp_all add: average_delay_def)

text \<open>One pass of the loop with statistics, beside one pass of the plain loop: it panics, stops, or goes on.\<close>

inductive stats_pass ::
    "retry_env \<Rightarrow> Policy \<Rightarrow> goerr option go_ops \<Rightarrow> nat \<Rightarrow> ctx \<Rightarrow> instant
       \<Rightarrow> goerr option \<Rightarrow> RetryStats \<Rightarrow> bool" for env policy op attempt c now e s where
  panics: "fst (RetryWithStats_loop env policy op attempt c now e s) = Panics InconsistentAtomicValue
    \<Longrightarrow> stats_pass env policy op attempt c now e s"
| stop: "RetryWithStats_loop env policy op attempt c now e s = (x, ss, t)
    \<Longrightarrow> RetryWithContext_loop env policy op attempt c now e = (map_outcome snd x, ss, t)
    \<Longrightarrow> (\<And>s' r. x = Returns (s', r) \<Longrightarrow> counted s s' r (length ss))
    \<Longrightarrow> stats_pass env policy op attempt c now e s"
| again: "int (Suc attempt) < MaxAttempts policy
    \<Longrightarrow> RetryWithStats_loop env policy op attempt c now e s
        = started_at now (RetryWithStats_loop env policy op (Suc attempt) (attempt_ctx policy now c) w (Some err) s2)
    \<Longrightarrow> RetryWithContext_loop env policy op attempt c now e
        = started_at now (RetryWithContext_loop env policy op (Suc attempt) (attempt_ctx policy now c) w (Some err))
    \<Longrightarrow> rs_SuccessfulAttempts s2 = rs_SuccessfulAttempts s \<Longrightarrow> rs_FailedAttempts s2 = rs_FailedAttempts s + 1
    \<Longrightarrow> rs_TotalAttempts s2 = rs_TotalAttempts s + 1 \<Longrightarrow> stats_pass env policy op attempt c now e s"

definition attempted :: "instant \<Rightarrow> RetryStats \<Rightarrow> RetryStats" where
  "attempted now s = s\<lparr>rs_TotalAttempts := rs_TotalAttempts s + 1, rs_LastAttemptTime := Some now\<rparr>"

lemma attempted_simps [simp]:
  "rs_TotalAttempts (attempted now s) = rs_TotalAttempts s + 1"
  "rs_SuccessfulAttempts (attempted now s) = rs_SuccessfulAttempts s"
  "rs_FailedAttempts (attempted now s) = rs_FailedAttempts s"
  by (simp_all add: attempted_def)

lemmas stats_unfold = RetryWithStats_loop.simps [unfolded Let_def, folded attempted_def]
lemmas plain_unfold = RetryWithContext_loop.simps [unfolded Let_def]

lemma stats_pass_cancelled:
  assumes lt: "int attempt < MaxAttempts policy" and x: "ctx_err now c = Some x"
  shows "stats_pass env policy op attempt c now e s"
proof (cases rule: storing_cases [of "cancelled x" "attempted now s" "[]" now
      "\<lambda>s1. (Returns (s1, Some (cancelled x)), [], now)"])
  case 1
  with lt x show ?thesis by (intro panics) (simp add: stats_unfold [of env policy op attempt c now e s])
next
  case 2
  with lt x show ?thesis
    by (intro stop [where x = "Returns ((attempted now s)\<lparr>rs_LastError := Some (cancelled x)\<rparr>, Some (cancelled x))"
          and ss = "[]" and t = now])
      (auto simp: stats_unfold [of env policy op attempt c now e s] plain_unfold [of env policy op attempt c now e] counted_def)
qed

lemma stats_pass_success:
  assumes lt: "int attempt < MaxAttempts policy" and x: "ctx_err now c = None" and op: "op attempt now = (t, Returns None)"
  shows "stats_pass env policy op attempt c now e s"
proof -
  let ?s = "(attempted now s)\<lparr>rs_SuccessfulAttempts := rs_SuccessfulAttempts (attempted now s) + 1, rs_LastSuccessTime := Some t\<rparr>"
  show ?thesis
  proof (cases rule: storing_cases [of "ErrText []" ?s "[now]" t "\<lambda>s1. (Returns (s1, None), [now], t)"])
    case 1
    with lt x op show ?thesis by (intro panics) (simp add: stats_unfold [of env policy op attempt c now e s])
  next
    case 2
    with lt x op show ?thesis
      by (intro stop [where x = "Returns (?s\<lparr>rs_LastError := Some (ErrText [])\<rparr>, None)" and ss = "[now]" and t = t])
        (auto simp: stats_unfold [of env policy op attempt c now e s] plain_unfold [of env policy op attempt c now e] counted_def)
  qed
qed

text \<open>What the loop does once a failed attempt has been counted and its error stored.\<close>

definition stats_rest ::
    "retry_env \<Rightarrow> Policy \<Rightarrow> goerr option go_ops \<Rightarrow> nat \<Rightarrow> ctx \<Rightarrow> instant
       \<Rightarrow> goerr \<Rightarrow> instant \<Rightarrow> RetryStats \<Rightarrow> (RetryStats \<times> goerr option) retried" where
  "stats_rest env policy op attempt c now err t s1 =
     (let c' = attempt_ctx policy now c in
      if \<not> isRetryableError err (RetryableErrors policy) then (Returns (s1, Some err), [now], t)
      else if int attempt = MaxAttempts policy - 1
      then (Returns (average_delay s1, Some (exhausted (Some err))), [now], t)
      else (case retry_wait env attempt (calculateDelay env policy attempt) t c' of
          (t', True) \<Rightarrow>
            storing (cancelled (the (ctx_err t' c')))
              (s1\<lparr>rs_TotalDelay := rs_TotalDelay s1 + of_int (calculateDelay env policy attempt)\<rparr>) [now] t'
              (\<lambda>s3. (Returns (s3, Some (cancelled (the (ctx_err t' c')))), [now], t'))
        | (t', False) \<Rightarrow>
            started_at now (RetryWithStats_loop env policy op (Suc attempt) c' t' (Some err)
              (s1\<lparr>rs_TotalDelay := rs_TotalDelay s1 + of_int (calculateDelay env policy attempt)\<rparr>))))"

lemma stats_pass_rest:
  assumes lt: "int attempt < MaxAttempts policy" and x: "ctx_err now c = None"
    and op: "op attempt now = (t, Returns (Some err))"
    and s2: "rs_SuccessfulAttempts s2 = rs_SuccessfulAttempts s" "rs_FailedAttempts s2 = rs_FailedAttempts s + 1"
      "rs_TotalAttempts s2 = rs_TotalAttempts s + 1"
    and st: "RetryWithStats_loop env policy op attempt c now e s = stats_rest env policy op attempt c now err t s2"
  shows "stats_pass env policy op attempt c now e s"
proof -
  let ?c = "attempt_ctx policy now c"
  let ?u = "s2\<lparr>rs_TotalDelay := rs_TotalDelay s2 + of_int (calculateDelay env policy attempt)\<rparr>"
  note st = st [unfolded stats_rest_def Let_def]
  note cx = plain_unfold [of env policy op attempt c now e]
  obtain w b where w: "retry_wait env attempt (calculateDelay env policy attempt) t ?c = (w, b)"
    by (cases "retry_wait env attempt (calculateDelay env policy attempt) t ?c")
  let ?e = "cancelled (the (ctx_err w ?c))"
  consider "\<not> isRetryableError err (RetryableErrors policy)"
    | "isRetryableError err (RetryableErrors policy)" "int attempt = MaxAttempts policy - 1"
    | "isRetryableError err (RetryableErrors policy)" "int attempt \<noteq> MaxAttempts policy - 1" b
    | "isRetryableError err (RetryableErrors policy)" "int attempt \<noteq> MaxAttempts policy - 1" "\<not> b"
    by blast
  then show ?thesis
  proof cases
    case 1
    with lt x op s2 show ?thesis
      by (intro stop [where x = "Returns (s2, Some err)" and ss = "[now]" and t = t]) (auto simp: st cx counted_def)
  next
    case 2
    with lt x op s2 show ?thesis
      by (intro stop [where x = "Returns (average_delay s2, Some (exhausted (Some err)))" and ss = "[now]" and t = t])
        (auto simp: st cx counted_def)
  next
    case fin: 3
    show ?thesis
    proof (cases rule: storing_cases [of ?e ?u "[now]" w "\<lambda>s3. (Returns (s3, Some ?e), [now], w)"])
      case 1
      with fin w show ?thesis by (intro panics) (simp add: st)
    next
      case 2
      with fin w lt x op s2 show ?thesis
        by (intro stop [where x = "Returns (?u\<lparr>rs_LastError := Some ?e\<rparr>, Some ?e)" and ss = "[now]" and t = w])
          (auto simp: st cx counted_def)
    qed
  next
    case 4
    with w lt x op s2 show ?thesis by (intro again [where w = w and err = err and ?s2.0 = ?u]) (simp_all add: st cx)
  qed
qed

lemma stats_step:
  assumes lt: "int attempt < MaxAttempts policy"
  shows "stats_pass env policy op attempt c now e s"
proof (cases "ctx_err now c")
  case (Some x)
  with lt show ?thesis by (rule stats_pass_cancelled)
next
  case None
  note st = stats_unfold [of env policy op attempt c now e s]
  obtain t r where op: "op attempt now = (t, r)" by (cases "op attempt now")
  consider p where "r = Panics p" | "r = Returns None" | err where "r = Returns (Some err)"
    by (metis outcome.exhaust option.exhaust)
  then show ?thesis
  proof cases
    case (1 p)
    with lt None op show ?thesis
      by (intro stop [where x = "Panics p" and ss = "[now]" and t = t])
        (simp_all add: st plain_unfold [of env policy op attempt c now e])
  next
    case 2
    with lt None op show ?thesis by (intro stats_pass_success) simp_all
  next
    case (3 err)
    let ?s = "(attempted now s)\<lparr>rs_FailedAttempts := rs_FailedAttempts (attempted now s) + 1\<rparr>"
    have l: "RetryWithStats_loop env policy op attempt c now e s
        = storing err ?s [now] t (stats_rest env policy op attempt c now err t)"
      using lt None op 3 by (simp add: st stats_rest_def [abs_def] Let_def)
    show ?thesis
    proof (cases rule: storing_cases [of err ?s "[now]" t "stats_rest env policy op attempt c now err t"])
      case 1
      with l show ?thesis by (intro panics) simp
    next
      case 2
      with l lt None op 3 show ?thesis
        by (intro stats_pass_rest [where err = err and ?s2.0 = "?s\<lparr>rs_LastError := Some err\<rparr>"]) simp_all
    qed
  qed
qed

lemma retry_stats_loop:
  "fst (RetryWithStats_loop env policy op attempt c now e s) = Panics InconsistentAtomicValue
   \<or> errors_of (RetryWithStats_loop env policy op attempt c now e s)
     = RetryWithContext_loop env policy op attempt c now e"
proof (induction "nat (MaxAttempts policy) - attempt" arbitrary: attempt c now e s rule: less_induct)
  case less
  show ?case
  proof (cases "int attempt < MaxAttempts policy")
    case False
    then show ?thesis by (simp add: RetryWithStats_loop.simps RetryWithContext_loop.simps)
  next
    case True
    from stats_step [OF this, of env op c now e s] show ?thesis
    proof cases
      case (again w err s2)
      have "nat (MaxAttempts policy) - Suc attempt < nat (MaxAttempts policy) - attempt"
        using again(1) by linarith
      from less.hyps [OF this, of "attempt_ctx policy now c" w "Some err" s2] again(2,3)
      show ?thesis by auto
    qed (auto simp: errors_of_def)
  qed
qed

text \<open>RetryWithStatsAndContext returns the error RetryWithContext returns, after the same
  attempts at the same instants, unless storing the last error panics.\<close>

theorem retry_stats_equivalent:
  "fst (RetryWithStatsAndContext env now c policy operation) = Panics InconsistentAtomicValue
   \<or> errors_of (RetryWithStatsAndContext env now c policy operation)
     = RetryWithContext env now c policy operation"
  by (simp add: RetryWithStatsAndContext_def RetryWithContext_def retry_stats_loop split: option.split)

text \<open>That panic does happen. For every valid policy with two attempts or more and no
  timeout, an operation that fails with a retryable error made by fmt.Errorf with a wrapped error
  and then succeeds makes RetryWithStats panic, while RetryWithContext returns nil.\<close>

theorem retry_stats_panics:
  assumes v: "validatePolicy policy = None" and n: "2 \<le> MaxAttempts policy" and "Timeout policy \<le> 0"
    and r: "isRetryableError (wrapping e) (RetryableErrors policy)"
  shows "fst (RetryWithStats env now policy
        (Some (\<lambda>i t. (t, Returns (if i = 0 then Some (wrapping e) else None)))))
      = Panics InconsistentAtomicValue
    \<and> fst (RetryWithContext env now (Some Background) policy
        (Some (\<lambda>i t. (t, Returns (if i = 0 then Some (wrapping e) else None))))) = Returns None"
proof -
  have c: "attempt_ctx policy t Background = Background" for t using assms(3) by (simp add: attempt_ctx_def)
  obtain w where w: "retry_wait env 0 (calculateDelay env policy 0) now Background = (w, False)"
    by (simp add: retry_wait_def timer_wait_def Let_def)
  show ?thesis
    using v n r w
    by (simp add: RetryWithStats_def RetryWithStatsAndContext_def RetryWithContext_def c
        RetryWithStats_loop.simps RetryWithContext_loop.simps Let_def storing_def store_LastError_def
        zero_RetryStats_def)
qed

theorem retry_stats_panics_witness:
  "fst (RetryWithStats plain_env 0 plain_policy
     (Some (\<lambda>i t. (t, Returns (if i = 0 then Some (wrapping CtxCanceled) else None)))))
   = Panics InconsistentAtomicValue"
  using retry_stats_panics [OF plain_valid, of CtxCanceled plain_env 0]
  by (simp add: plain_policy_def isRetryableError_def)

lemma counted_trans:
  assumes "counted s2 s' r k" and "rs_SuccessfulAttempts s2 = rs_SuccessfulAttempts s"
    and "rs_FailedAttempts s2 = rs_FailedAttempts s + 1" "rs_TotalAttempts s2 = rs_TotalAttempts s + 1"
  shows "counted s s' r (Suc k)"
  using assms by (auto simp: counted_def algebra_simps)

lemma retry_stats_counters:
  "RetryWithStats_loop env policy op attempt c now e s = (Returns (s', r), starts, t)
     \<Longrightarrow> int attempt < MaxAttempts policy \<Longrightarrow> counted s s' r (length starts)"
proof (induction "nat (MaxAttempts policy) - attempt" arbitrary: attempt c now e s starts rule: less_induct)
  case less
  from stats_step [OF less.prems(2), of env op c now e s] show ?case
  proof cases
    case panics
    with less.prems show ?thesis by simp
  next
    case (stop x ss t)
    with less.prems show ?thesis by simp
  next
    case (again w err s2)
    obtain ss where ss: "RetryWithStats_loop env policy op (Suc attempt) (attempt_ctx policy now c) w
        (Some err) s2 = (Returns (s', r), ss, t)" "starts = now # ss"
      using less.prems(1) again(2) by (auto simp: started_at_def split: prod.splits)
    have "nat (MaxAttempts policy) - Suc attempt < nat (MaxAttempts policy) - attempt"
      using again(1) by linarith
    from less.hyps [OF this ss(1) again(1)] show ?thesis
      using counted_trans again(4-6) ss(2) by simp
  qed
qed

text \<open>The statistics count every attempt once. When RetryWithStatsAndContext returns, the
  successful and the failed attempts are together the attempts that started the operation, and
  TotalAttempts is that number too, or one more when the last pass found the context done.\<close>

theorem retry_stats_count:
  assumes "validatePolicy policy = None"
    and "RetryWithStatsAndContext env now c policy (Some op) = (Returns (s, r), starts, t)"
  shows "rs_SuccessfulAttempts s + rs_FailedAttempts s = of_nat (length starts)
    \<and> (rs_TotalAttempts s = of_nat (length starts)
       \<or> rs_TotalAttempts s = of_nat (length starts) + 1 \<and> (\<exists>x. r = Some (cancelled x)))"
proof -
  have "int 0 < MaxAttempts policy"
    using assms(1) by (auto simp: validatePolicy_def MinAttemptsLimitRetry_def split: if_splits)
  moreover have "RetryWithStats_loop env policy op 0 (case c of None \<Rightarrow> Background | Some x \<Rightarrow> x) now None
      zero_RetryStats = (Returns (s, r), starts, t)"
    using assms by (simp add: RetryWithStatsAndContext_def)
  ultimately have "counted zero_RetryStats s r (length starts)" by (intro retry_stats_counters)
  then show ?thesis by (simp add: counted_def zero_RetryStats_def)
qed

theorem retry_stats_count_witness:
  "\<exists>s r starts t. RetryWithStatsAndContext plain_env 0 None plain_policy
      (Some (\<lambda>i t. (t, Returns None))) = (Returns (s, r), starts, t)
    \<and> rs_SuccessfulAttempts s + rs_FailedAttempts s = of_nat (length starts)"
proof -
  have "\<exists>s t. RetryWithStatsAndContext plain_env 0 None plain_policy (Some (\<lambda>i t. (t, Returns None)))
      = (Returns (s, None), [0], t)"
    using plain_valid by (simp add: RetryWithStatsAndContext_def RetryWithStats_loop.simps plain_policy_def
        storing_def store_LastError_def zero_RetryStats_def)
  then obtain s t where "RetryWithStatsAndContext plain_env 0 None plain_policy (Some (\<lambda>i t. (t, Returns None)))
      = (Returns (s, None), [0], t)" by blast
  with retry_stats_count [OF plain_valid this] show ?thesis by blast
qed

end
