(* ===== verification/Pool.thy ===== *)
theory Pool
  imports GoFloat GoChannel GoContext Lifecycle
begin

text \<open>
  \<open>src/pool.go\<close> and \<open>src/worker.go\<close>: the configuration, the jobs and their results, submitting,
  collecting, scaling, closing, the periodic background tasks, and what one worker does with a job.

  The code shares workers by pointer: \<open>wp_heap\<close> holds every worker ever created, and the slice
  \<open>wp_workers\<close> and the channel \<open>wp_workerPool\<close> hold indices into it. An operation that can block
  returns an option, \<open>None\<close> when it blocks for good in the given state; one that can panic returns
  an \<open>outcome\<close>. Job metadata is not modelled: the code only carries it.
\<close>

section \<open>Configuration\<close>

definition MaxWorkersLimitPool :: int where "MaxWorkersLimitPool = 1000"
definition MinWorkersLimitPool :: int where "MinWorkersLimitPool = 1"
definition MaxQueueSizeLimitPool :: int where "MaxQueueSizeLimitPool = 10000"
definition MinQueueSizeLimitPool :: int where "MinQueueSizeLimitPool = 1"
definition MaxIdleTimeoutLimitPool :: duration where "MaxIdleTimeoutLimitPool = 10 * Minute"
definition MinIdleTimeoutLimitPool :: duration where "MinIdleTimeoutLimitPool = 1 * Second"
definition MaxScaleUpThresholdLimitPool :: int where "MaxScaleUpThresholdLimitPool = 100"
definition MinScaleUpThresholdLimitPool :: int where "MinScaleUpThresholdLimitPool = 1"
definition MaxScaleDownThresholdLimitPool :: int where "MaxScaleDownThresholdLimitPool = 50"
definition MinScaleDownThresholdLimitPool :: int where "MinScaleDownThresholdLimitPool = 1"
definition MaxScaleUpCooldownLimitPool :: duration where "MaxScaleUpCooldownLimitPool = 1 * Minute"
definition MinScaleUpCooldownLimitPool :: duration where "MinScaleUpCooldownLimitPool = 100 * Millisecond"
definition MaxScaleDownCooldownLimitPool :: duration where "MaxScaleDownCooldownLimitPool = 5 * Minute"
definition MinScaleDownCooldownLimitPool :: duration where "MinScaleDownCooldownLimitPool = 1 * Second"
definition MaxJobTimeoutLimitPool :: duration where "MaxJobTimeoutLimitPool = 1 * Hour"
definition MinJobTimeoutLimitPool :: duration where "MinJobTimeoutLimitPool = 1 * Millisecond"
definition DefaultJobTimeoutPool :: duration where "DefaultJobTimeoutPool = 30 * Second"
definition GracefulShutdownTimeoutPool :: duration where "GracefulShutdownTimeoutPool = 30 * Second"

lemmas pool_limits = MaxWorkersLimitPool_def MinWorkersLimitPool_def MaxQueueSizeLimitPool_def
  MinQueueSizeLimitPool_def MaxIdleTimeoutLimitPool_def MinIdleTimeoutLimitPool_def
  MaxScaleUpThresholdLimitPool_def MinScaleUpThresholdLimitPool_def
  MaxScaleDownThresholdLimitPool_def MinScaleDownThresholdLimitPool_def
  MaxScaleUpCooldownLimitPool_def MinScaleUpCooldownLimitPool_def
  MaxScaleDownCooldownLimitPool_def MinScaleDownCooldownLimitPool_def

record ConfigPool =
  cp_MinWorkers :: int
  cp_MaxWorkers :: int
  cp_QueueSize :: int
  cp_IdleTimeout :: duration
  cp_ScaleUpThreshold :: int
  cp_ScaleDownThreshold :: int
  cp_ScaleUpCooldown :: duration
  cp_ScaleDownCooldown :: duration
  cp_EnableMetrics :: bool

definition DefaultConfigPool :: ConfigPool where
  "DefaultConfigPool =
     \<lparr>cp_MinWorkers = 2, cp_MaxWorkers = 10, cp_QueueSize = 100, cp_IdleTimeout = 30 * Second,
      cp_ScaleUpThreshold = 5, cp_ScaleDownThreshold = 2, cp_ScaleUpCooldown = 5 * Second,
      cp_ScaleDownCooldown = 10 * Second, cp_EnableMetrics = True\<rparr>"

definition HighPerformanceConfigPool :: ConfigPool where
  "HighPerformanceConfigPool =
     \<lparr>cp_MinWorkers = 5, cp_MaxWorkers = 50, cp_QueueSize = 1000, cp_IdleTimeout = 60 * Second,
      cp_ScaleUpThreshold = 10, cp_ScaleDownThreshold = 3, cp_ScaleUpCooldown = 2 * Second,
      cp_ScaleDownCooldown = 15 * Second, cp_EnableMetrics = True\<rparr>"

definition ResourceConstrainedConfigPool :: ConfigPool where
  "ResourceConstrainedConfigPool =
     \<lparr>cp_MinWorkers = 1, cp_MaxWorkers = 5, cp_QueueSize = 50, cp_IdleTimeout = 15 * Second,
      cp_ScaleUpThreshold = 3, cp_ScaleDownThreshold = 1, cp_ScaleUpCooldown = 10 * Second,
      cp_ScaleDownCooldown = 5 * Second, cp_EnableMetrics = False\<rparr>"

definition EnterpriseConfigPool :: ConfigPool where
  "EnterpriseConfigPool =
     \<lparr>cp_MinWorkers = 10, cp_MaxWorkers = 200, cp_QueueSize = 5000, cp_IdleTimeout = 5 * Minute,
      cp_ScaleUpThreshold = 20, cp_ScaleDownThreshold = 5, cp_ScaleUpCooldown = 1 * Second,
      cp_ScaleDownCooldown = 30 * Second, cp_EnableMetrics = True\<rparr>"

definition validateConfigPool :: "ConfigPool \<Rightarrow> goerr option" where
  "validateConfigPool config =
     (if cp_MinWorkers config < MinWorkersLimitPool \<or> cp_MinWorkers config > MaxWorkersLimitPool
      then Some (ErrText ''min workers must be between %d and %d, got %d'')
      else if cp_MaxWorkers config < MinWorkersLimitPool \<or> cp_MaxWorkers config > MaxWorkersLimitPool
      then Some (ErrText ''max workers must be between %d and %d, got %d'')
      else if cp_MinWorkers config > cp_MaxWorkers config
      then Some (ErrText ''min workers (%d) cannot exceed max workers (%d)'')
      else if cp_QueueSize config < MinQueueSizeLimitPool \<or> cp_QueueSize config > MaxQueueSizeLimitPool
      then Some (ErrText ''queue size must be between %d and %d, got %d'')
      else if cp_IdleTimeout config < MinIdleTimeoutLimitPool
         \<or> cp_IdleTimeout config > MaxIdleTimeoutLimitPool
      then Some (ErrText ''idle timeout must be between %v and %v, got %v'')
      else if cp_ScaleUpThreshold config < MinScaleUpThresholdLimitPool
         \<or> cp_ScaleUpThreshold config > MaxScaleUpThresholdLimitPool
      then Some (ErrText ''scale up threshold must be between %d and %d, got %d'')
      else if cp_ScaleDownThreshold config < MinScaleDownThresholdLimitPool
         \<or> cp_ScaleDownThreshold config > MaxScaleDownThresholdLimitPool
      then Some (ErrText ''scale down threshold must be between %d and %d, got %d'')
      else if cp_ScaleUpCooldown config < MinScaleUpCooldownLimitPool
         \<or> cp_ScaleUpCooldown config > MaxScaleUpCooldownLimitPool
      then Some (ErrText ''scale up cooldown must be between %v and %v, got %v'')
      else if cp_ScaleDownCooldown config < MinScaleDownCooldownLimitPool
         \<or> cp_ScaleDownCooldown config > MaxScaleDownCooldownLimitPool
      then Some (ErrText ''scale down cooldown must be between %v and %v, got %v'')
      else None)"

section \<open>Jobs, workers, statistics\<close>

type_synonym 'v task = "instant \<Rightarrow> instant \<times> ('v option \<times> goerr option) outcome"

record 'v JobPool =
  jp_ID :: string
  jp_Task :: "'v task option"
  jp_Priority :: int
  jp_Timeout :: duration
  jp_Created :: "instant option"

text \<open>What a receive from a closed and drained job queue yields.\<close>

definition zero_JobPool :: "'v JobPool" where
  "zero_JobPool = \<lparr>jp_ID = [], jp_Task = None, jp_Priority = 0, jp_Timeout = 0, jp_Created = None\<rparr>"

record 'v JobResultPool =
  jr_JobID :: string
  jr_Result :: "'v option"
  jr_Error :: "goerr option"
  jr_Duration :: duration
  jr_WorkerID :: int

definition zero_JobResultPool :: "'v JobResultPool" where
  "zero_JobResultPool =
     \<lparr>jr_JobID = [], jr_Result = None, jr_Error = None, jr_Duration = 0, jr_WorkerID = 0\<rparr>"

record PoolStatsPool =
  ps_ActiveWorkers :: counter
  ps_IdleWorkers :: counter
  ps_TotalWorkers :: counter
  ps_QueuedJobs :: counter
  ps_CompletedJobs :: counter
  ps_FailedJobs :: counter
  ps_TotalJobTime :: counter
  ps_AverageJobTime :: counter
  ps_ScaleUpCount :: counter
  ps_ScaleDownCount :: counter
  ps_LastScaleUp :: "instant option"
  ps_LastScaleDown :: "instant option"
  ps_JobsPerSecond :: "float64 option"
  ps_QueueUtilization :: "float64 option"

definition zero_PoolStatsPool :: PoolStatsPool where
  "zero_PoolStatsPool =
     \<lparr>ps_ActiveWorkers = 0, ps_IdleWorkers = 0, ps_TotalWorkers = 0, ps_QueuedJobs = 0,
      ps_CompletedJobs = 0, ps_FailedJobs = 0, ps_TotalJobTime = 0, ps_AverageJobTime = 0,
      ps_ScaleUpCount = 0, ps_ScaleDownCount = 0, ps_LastScaleUp = None, ps_LastScaleDown = None,
      ps_JobsPerSecond = None, ps_QueueUtilization = None\<rparr>"

record HealthStatus =
  hs_IsHealthy :: bool
  hs_IsClosed :: bool
  hs_LastCheck :: instant
  hs_ErrorCount :: counter
  hs_WorkerCount :: counter
  hs_QueueSize :: counter
  hs_Utilization :: float64
  hs_Issues :: "string list"

record WorkerStats =
  ws_JobsProcessed :: counter
  ws_JobsFailed :: counter
  ws_TotalJobTime :: counter
  ws_LastJobTime :: "instant option"
  ws_IdleTime :: counter
  ws_LastIdleStart :: "instant option"
  ws_PanicCount :: counter

definition zero_WorkerStats :: WorkerStats where
  "zero_WorkerStats =
     \<lparr>ws_JobsProcessed = 0, ws_JobsFailed = 0, ws_TotalJobTime = 0, ws_LastJobTime = None,
      ws_IdleTime = 0, ws_LastIdleStart = None, ws_PanicCount = 0\<rparr>"

record Worker =
  wk_id :: int
  wk_stopChan :: "unit chan"
  wk_stats :: WorkerStats
  wk_active :: bool
  wk_stopped :: bool

record 'v WorkerPool =
  wp_config :: ConfigPool
  wp_heap :: "Worker list"
  wp_workers :: "nat list"
  wp_workerPool :: "nat chan"
  wp_jobQueue :: "'v JobPool chan"
  wp_jobResults :: "'v JobResultPool chan"
  wp_stats :: PoolStatsPool
  wp_cancelled :: bool
  wp_closed :: bool
  wp_healthStatus :: HealthStatus
  wp_lastHealthCheck :: "instant option"

definition upd_stats :: "(PoolStatsPool \<Rightarrow> PoolStatsPool) \<Rightarrow> 'v WorkerPool \<Rightarrow> 'v WorkerPool" where
  "upd_stats f wp = wp\<lparr>wp_stats := f (wp_stats wp)\<rparr>"

lemma upd_stats_simps [simp]:
  "wp_config (upd_stats f wp) = wp_config wp" "wp_heap (upd_stats f wp) = wp_heap wp"
  "wp_workers (upd_stats f wp) = wp_workers wp" "wp_workerPool (upd_stats f wp) = wp_workerPool wp"
  "wp_jobQueue (upd_stats f wp) = wp_jobQueue wp" "wp_jobResults (upd_stats f wp) = wp_jobResults wp"
  "wp_stats (upd_stats f wp) = f (wp_stats wp)" "wp_cancelled (upd_stats f wp) = wp_cancelled wp"
  "wp_closed (upd_stats f wp) = wp_closed wp"
  by (simp_all add: upd_stats_def)

section \<open>Creating workers\<close>

definition WorkerPool_createWorker :: "int \<Rightarrow> 'v WorkerPool \<Rightarrow> nat \<times> 'v WorkerPool" where
  "WorkerPool_createWorker ident wp =
     (length (wp_heap wp),
      wp\<lparr>wp_heap := wp_heap wp @
           [\<lparr>wk_id = ident, wk_stopChan = make_chan 1, wk_stats = zero_WorkerStats,
             wk_active = False, wk_stopped = False\<rparr>]\<rparr>)"

text \<open>The body of the two loops that add workers: create and append, then send to \<open>workerPool\<close>.\<close>

definition add_worker :: "int \<Rightarrow> 'v WorkerPool \<Rightarrow> nat \<times> 'v WorkerPool" where
  "add_worker ident wp =
     (case WorkerPool_createWorker ident wp of
        (w, wp1) \<Rightarrow> (w, wp1\<lparr>wp_workers := wp_workers wp1 @ [w]\<rparr>))"

definition push_worker :: "nat \<Rightarrow> 'v WorkerPool \<Rightarrow> 'v WorkerPool outcome option" where
  "push_worker w wp =
     (case chan_send (wp_workerPool wp) w of
        Sent c \<Rightarrow>
          Some (Returns (upd_stats (\<lambda>s. s\<lparr>ps_TotalWorkers := ps_TotalWorkers s + 1,
                                          ps_IdleWorkers := ps_IdleWorkers s + 1\<rparr>)
                 (wp\<lparr>wp_workerPool := c\<rparr>)))
      | SendBlocks \<Rightarrow> None
      | SendPanics \<Rightarrow> Some (Panics SendOnClosedChannel))"

fun add_workers :: "nat \<Rightarrow> int \<Rightarrow> 'v WorkerPool \<Rightarrow> 'v WorkerPool outcome option" where
  "add_workers 0 ident wp = Some (Returns wp)"
| "add_workers (Suc n) ident wp =
     (case add_worker ident wp of
        (w, wp1) \<Rightarrow>
         (case push_worker w wp1 of
            Some (Returns wp2) \<Rightarrow> add_workers n (ident + 1) wp2
          | r \<Rightarrow> r))"

definition make_WorkerPool :: "instant \<Rightarrow> ConfigPool \<Rightarrow> 'v WorkerPool" where
  "make_WorkerPool now config =
     \<lparr>wp_config = config, wp_heap = [], wp_workers = [],
      wp_workerPool = make_chan (nat (cp_MaxWorkers config)),
      wp_jobQueue = make_chan (nat (cp_QueueSize config)),
      wp_jobResults = make_chan (nat (cp_QueueSize config)),
      wp_stats = zero_PoolStatsPool, wp_cancelled = False, wp_closed = False,
      wp_healthStatus =
        \<lparr>hs_IsHealthy = True, hs_IsClosed = False, hs_LastCheck = now, hs_ErrorCount = 0,
         hs_WorkerCount = 0, hs_QueueSize = 0, hs_Utilization = Fin 0, hs_Issues = []\<rparr>,
      wp_lastHealthCheck = None\<rparr>"

definition WorkerPool_initializeWorkers :: "'v WorkerPool \<Rightarrow> 'v WorkerPool outcome option" where
  "WorkerPool_initializeWorkers wp = add_workers (nat (cp_MinWorkers (wp_config wp))) 0 wp"

definition NewPool :: "instant \<Rightarrow> ConfigPool \<Rightarrow> (goerr + 'v WorkerPool) outcome option" where
  "NewPool now config =
     (case validateConfigPool config of
        Some err \<Rightarrow> Some (Returns (Inl (wrapping (Sentinel (EPool ErrPoolInvalidConfigPool)))))
      | None \<Rightarrow> map_option (map_outcome Inr)
                  (WorkerPool_initializeWorkers (make_WorkerPool now config)))"

section \<open>Submitting and collecting\<close>

definition validateJobPool :: "'v JobPool \<Rightarrow> goerr option" where
  "validateJobPool job =
     (if jp_Task job = None then Some (ErrText ''job task function cannot be nil'')
      else if jp_Timeout job < 0 then Some (ErrText ''job timeout cannot be negative'')
      else if 0 < jp_Timeout job
         \<and> (jp_Timeout job < MinJobTimeoutLimitPool \<or> jp_Timeout job > MaxJobTimeoutLimitPool)
      then Some (ErrText ''job timeout must be between %v and %v, got %v'')
      else None)"

definition job_defaults :: "instant \<Rightarrow> 'v JobPool \<Rightarrow> 'v JobPool" where
  "job_defaults now j0 =
     (let j1 = (if jp_ID j0 = [] then j0\<lparr>jp_ID := ''job-'' @ decimal (nat now)\<rparr> else j0);
          j2 = (if jp_Created j1 = None then j1\<lparr>jp_Created := Some now\<rparr> else j1)
      in if jp_Timeout j2 = 0 then j2\<lparr>jp_Timeout := DefaultJobTimeoutPool\<rparr> else j2)"

definition enqueued :: "'v JobPool chan \<Rightarrow> 'v WorkerPool \<Rightarrow> 'v WorkerPool" where
  "enqueued q wp = upd_stats (\<lambda>s. s\<lparr>ps_QueuedJobs := ps_QueuedJobs s + 1\<rparr>) (wp\<lparr>wp_jobQueue := q\<rparr>)"

abbreviation invalid_job :: goerr where
  "invalid_job \<equiv> wrapping (Sentinel (EPoolOp ErrPoolInvalidJob))"

text \<open>
  A submission checks, and then decides one \<open>select\<close>. \<open>pick\<close> breaks the tie between room in the
  queue and a context that is done.
\<close>

definition submit_check :: "instant \<Rightarrow> 'v JobPool \<Rightarrow> 'v WorkerPool \<Rightarrow> goerr + 'v JobPool" where
  "submit_check now job wp =
     (if wp_closed wp then Inl (Sentinel (EPool ErrPoolClosed))
      else case validateJobPool job of
        Some err \<Rightarrow> Inl invalid_job
      | None \<Rightarrow> Inr (job_defaults now job))"

definition submit_check_ctx ::
    "instant \<Rightarrow> ctx option \<Rightarrow> 'v JobPool \<Rightarrow> 'v WorkerPool \<Rightarrow> goerr + ctx \<times> 'v JobPool" where
  "submit_check_ctx now c job wp =
     (if wp_closed wp then Inl (Sentinel (EPool ErrPoolClosed))
      else case c of
        None \<Rightarrow> Inl invalid_job
      | Some cx \<Rightarrow> map_sum id (Pair cx) (submit_check now job wp))"

definition submit_select ::
    "bool \<Rightarrow> bool \<Rightarrow> 'v JobPool \<Rightarrow> 'v WorkerPool \<Rightarrow> goerr option outcome \<times> 'v WorkerPool" where
  "submit_select pick over job wp =
     (case select_send pick over (wp_jobQueue wp) job of
        SelSent q \<Rightarrow> (Returns None, enqueued q wp)
      | SelDone \<Rightarrow> (Returns (Some (wrapping (Sentinel (EPool ErrPoolContextCancelled)))), wp)
      | SelPanic \<Rightarrow> (Panics SendOnClosedChannel, wp)
      | SelDefault \<Rightarrow> (Returns (Some (Sentinel (EPoolOp ErrPoolJobQueueFull))), wp))"

definition WorkerPool_Submit ::
    "instant \<Rightarrow> 'v JobPool \<Rightarrow> 'v WorkerPool \<Rightarrow> goerr option outcome \<times> 'v WorkerPool" where
  "WorkerPool_Submit now job wp =
     (case submit_check now job wp of
        Inl err \<Rightarrow> (Returns (Some err), wp)
      | Inr j \<Rightarrow> submit_select False False j wp)"

definition WorkerPool_SubmitWithContext ::
    "instant \<Rightarrow> bool \<Rightarrow> ctx option \<Rightarrow> 'v JobPool \<Rightarrow> 'v WorkerPool
       \<Rightarrow> goerr option outcome \<times> 'v WorkerPool" where
  "WorkerPool_SubmitWithContext now pick c job wp =
     (case submit_check_ctx now c job wp of
        Inl err \<Rightarrow> (Returns (Some err), wp)
      | Inr (cx, j) \<Rightarrow> submit_select pick (ctx_done now cx) j wp)"

text \<open>The loop of \<open>SubmitBatch\<close>: the errors of the jobs, in order.\<close>

fun submit_all ::
    "instant \<Rightarrow> 'v JobPool list \<Rightarrow> 'v WorkerPool \<Rightarrow> goerr option list outcome \<times> 'v WorkerPool" where
  "submit_all now [] wp = (Returns [], wp)"
| "submit_all now (job # jobs) wp =
     (case WorkerPool_Submit now job wp of
        (Panics p, wp1) \<Rightarrow> (Panics p, wp1)
      | (Returns err, wp1) \<Rightarrow>
         (case submit_all now jobs wp1 of
            (Panics p, wp2) \<Rightarrow> (Panics p, wp2)
          | (Returns errs, wp2) \<Rightarrow> (Returns (err # errs), wp2)))"

definition WorkerPool_SubmitBatch ::
    "instant \<Rightarrow> 'v JobPool list \<Rightarrow> 'v WorkerPool
       \<Rightarrow> (goerr option list \<times> goerr option) outcome \<times> 'v WorkerPool" where
  "WorkerPool_SubmitBatch now jobs wp =
     (if wp_closed wp then (Returns ([], Some (Sentinel (EPool ErrPoolClosed))), wp)
      else if jobs = [] then (Returns ([], Some invalid_job), wp)
      else case submit_all now jobs wp of
        (Panics p, wp1) \<Rightarrow> (Panics p, wp1)
      | (Returns errs, wp1) \<Rightarrow>
          (Returns (errs, if list_all (\<lambda>e. e = None) errs then None else Some invalid_job), wp1))"

text \<open>\<open>GetResult\<close>; \<open>pick\<close> breaks the tie when a result is there and the pool is cancelled.\<close>

definition WorkerPool_GetResult ::
    "bool \<Rightarrow> 'v WorkerPool \<Rightarrow> ('v JobResultPool \<times> goerr option) \<times> 'v WorkerPool" where
  "WorkerPool_GetResult pick wp =
     (if wp_cancelled wp \<and> (pick \<or> chan_recv (wp_jobResults wp) = RecvBlocks)
      then ((zero_JobResultPool, Some (Sentinel (EPool ErrPoolClosed))), wp)
      else case chan_recv (wp_jobResults wp) of
        Received r q \<Rightarrow> ((r, None), wp\<lparr>wp_jobResults := q\<rparr>)
      | RecvClosed \<Rightarrow> ((zero_JobResultPool, None), wp)
      | RecvBlocks \<Rightarrow> ((zero_JobResultPool, Some (Sentinel (EPoolOp ErrPoolNoResultsAvailable))), wp))"

text \<open>
  \<open>GetResultWithTimeout\<close>: \<open>expired\<close> says whether the timer has fired when the \<open>select\<close> is decided
  and \<open>pick\<close> which of the ready branches it takes (0 the result, 1 the timer, 2 the pool's context).
\<close>

definition WorkerPool_GetResultWithTimeout ::
    "bool \<Rightarrow> nat \<Rightarrow> duration \<Rightarrow> 'v WorkerPool
       \<Rightarrow> (('v JobResultPool \<times> goerr option) \<times> 'v WorkerPool) option" where
  "WorkerPool_GetResultWithTimeout expired pick timeout wp =
     (if timeout \<le> 0 then Some ((zero_JobResultPool, Some (wrapping (Sentinel (EPool ErrPoolTimeout)))), wp)
      else let ready = (if chan_recv (wp_jobResults wp) = RecvBlocks then [] else [0::nat])
                       @ (if expired then [1] else []) @ (if wp_cancelled wp then [2] else [])
      in if ready = [] then None
         else let branch = (if pick \<in> set ready then pick else hd ready) in
           Some (if branch = 0
             then (case chan_recv (wp_jobResults wp) of
                     Received r q \<Rightarrow> ((r, None), wp\<lparr>wp_jobResults := q\<rparr>)
                   | _ \<Rightarrow> ((zero_JobResultPool, None), wp))
             else if branch = 1 then ((zero_JobResultPool, Some (Sentinel (EPool ErrPoolTimeout))), wp)
             else ((zero_JobResultPool, Some (Sentinel (EPool ErrPoolClosed))), wp)))"

section \<open>Statistics and health\<close>

definition since :: "instant \<Rightarrow> instant option \<Rightarrow> duration" where
  "since now t = (case t of None \<Rightarrow> max_int64 | Some u \<Rightarrow> time_sub now u)"

definition WorkerPool_calculateJobsPerSecond :: "instant \<Rightarrow> 'v WorkerPool \<Rightarrow> 'v WorkerPool" where
  "WorkerPool_calculateJobsPerSecond now wp =
     (if 0 < sint (ps_CompletedJobs (wp_stats wp))
      then upd_stats (\<lambda>s. s\<lparr>ps_JobsPerSecond := Some
             (f_div (f_of_int (sint (ps_CompletedJobs s))) (seconds (since now (wp_lastHealthCheck wp))))\<rparr>) wp
      else wp)"

definition WorkerPool_GetStats :: "instant \<Rightarrow> 'v WorkerPool \<Rightarrow> 'v WorkerPool" where
  "WorkerPool_GetStats now wp =
     (let s = wp_stats wp;
          wp1 = (if 0 < sint (ps_CompletedJobs s)
                 then upd_stats (\<lambda>s. s\<lparr>ps_AverageJobTime :=
                        of_int (sint (ps_TotalJobTime s) sdiv sint (ps_CompletedJobs s))\<rparr>) wp
                 else wp);
          wp2 = WorkerPool_calculateJobsPerSecond now wp1
      in if 0 < cp_QueueSize (wp_config wp2)
         then upd_stats (\<lambda>s. s\<lparr>ps_QueueUtilization := Some
                (f_div (f_of_int (sint (ps_QueuedJobs s))) (f_of_int (cp_QueueSize (wp_config wp2))))\<rparr>) wp2
         else wp2)"

text \<open>\<open>stats.QueueUtilization.Load().(float64)\<close> panics when nothing has been stored.\<close>

definition WorkerPool_updateHealthStatus ::
    "instant \<Rightarrow> bool \<Rightarrow> string list \<Rightarrow> 'v WorkerPool \<Rightarrow> 'v WorkerPool outcome" where
  "WorkerPool_updateHealthStatus now isHealthy issues wp =
     (let wp1 = WorkerPool_GetStats now wp; s = wp_stats wp1 in
      case ps_QueueUtilization s of
        None \<Rightarrow> Panics FailedTypeAssertion
      | Some u \<Rightarrow>
          Returns (wp1\<lparr>wp_healthStatus :=
              \<lparr>hs_IsHealthy = isHealthy, hs_IsClosed = wp_closed wp1, hs_LastCheck = now,
               hs_ErrorCount = ps_FailedJobs s, hs_WorkerCount = ps_TotalWorkers s,
               hs_QueueSize = ps_QueuedJobs s, hs_Utilization = u, hs_Issues = issues\<rparr>,
             wp_lastHealthCheck := Some now\<rparr>))"

definition WorkerPool_IsHealthy :: "'v WorkerPool \<Rightarrow> bool" where
  "WorkerPool_IsHealthy wp = hs_IsHealthy (wp_healthStatus wp)"

definition WorkerPool_GetHealthStatus :: "'v WorkerPool \<Rightarrow> HealthStatus" where
  "WorkerPool_GetHealthStatus wp = wp_healthStatus wp"

section \<open>Scaling\<close>

abbreviation scaling_failed :: goerr where
  "scaling_failed \<equiv> wrapping (Sentinel (EPoolOp ErrPoolScalingFailed))"

text \<open>How many workers \<open>ScaleUp(count)\<close> adds: \<open>Inl\<close> is its error.\<close>

definition scale_up_count :: "int \<Rightarrow> 'v WorkerPool \<Rightarrow> goerr + nat" where
  "scale_up_count count wp =
     (if count \<le> 0 then Inl scaling_failed
      else let maxNewWorkers = cp_MaxWorkers (wp_config wp) - int (length (wp_workers wp)) in
        if maxNewWorkers \<le> 0 then Inl scaling_failed
        else Inr (nat (min count maxNewWorkers)))"

definition scaled_up :: "instant \<Rightarrow> 'v WorkerPool \<Rightarrow> 'v WorkerPool" where
  "scaled_up now = upd_stats (\<lambda>s. s\<lparr>ps_ScaleUpCount := ps_ScaleUpCount s + 1, ps_LastScaleUp := Some now\<rparr>)"

definition WorkerPool_ScaleUp ::
    "instant \<Rightarrow> int \<Rightarrow> 'v WorkerPool \<Rightarrow> (goerr option \<times> 'v WorkerPool) outcome option" where
  "WorkerPool_ScaleUp now count wp =
     (case scale_up_count count wp of
        Inl err \<Rightarrow> Some (Returns (Some err, wp))
      | Inr n \<Rightarrow>
          map_option (map_outcome (\<lambda>wp1. (None, scaled_up now wp1)))
            (add_workers n (int (length (wp_workers wp))) wp))"

definition Worker_stop :: "Worker \<Rightarrow> Worker" where
  "Worker_stop w =
     (case chan_send (wk_stopChan w) () of
        Sent c \<Rightarrow> w\<lparr>wk_stopped := True, wk_stopChan := c\<rparr>
      | _ \<Rightarrow> w\<lparr>wk_stopped := True\<rparr>)"

definition stop_workers :: "nat list \<Rightarrow> Worker list \<Rightarrow> Worker list" where
  "stop_workers ids heap = fold (\<lambda>i h. h[i := Worker_stop (h ! i)]) ids heap"

definition WorkerPool_ScaleDown ::
    "instant \<Rightarrow> int \<Rightarrow> 'v WorkerPool \<Rightarrow> goerr option \<times> 'v WorkerPool" where
  "WorkerPool_ScaleDown now count0 wp =
     (if count0 \<le> 0 then (Some scaling_failed, wp)
      else let currentWorkers = int (length (wp_workers wp));
               minWorkers = cp_MinWorkers (wp_config wp) in
        if currentWorkers \<le> minWorkers then (Some scaling_failed, wp)
        else let count = min count0 (currentWorkers - minWorkers);
                 keep = nat (currentWorkers - count) in
          (None,
           upd_stats (\<lambda>s. s\<lparr>ps_TotalWorkers := ps_TotalWorkers s - of_int count,
                            ps_IdleWorkers := ps_IdleWorkers s - of_int count,
                            ps_ScaleDownCount := ps_ScaleDownCount s + 1,
                            ps_LastScaleDown := Some now\<rparr>)
             (wp\<lparr>wp_heap := stop_workers (rev (drop keep (wp_workers wp))) (wp_heap wp),
                 wp_workers := take keep (wp_workers wp)\<rparr>)))"

section \<open>Background tasks\<close>

text \<open>
  One result taken by \<open>processJobResults\<close>. A closed and drained channel yields zero results, which
  count as completed.
\<close>

definition count_result :: "'v JobResultPool \<Rightarrow> 'v WorkerPool \<Rightarrow> 'v WorkerPool" where
  "count_result r =
     upd_stats (\<lambda>s. s\<lparr>ps_QueuedJobs := ps_QueuedJobs s - 1,
       ps_FailedJobs := (if jr_Error r \<noteq> None then ps_FailedJobs s + 1 else ps_FailedJobs s),
       ps_CompletedJobs := (if jr_Error r \<noteq> None then ps_CompletedJobs s else ps_CompletedJobs s + 1),
       ps_TotalJobTime := ps_TotalJobTime s + of_int (jr_Duration r)\<rparr>)"

definition WorkerPool_processJobResults :: "'v WorkerPool \<Rightarrow> 'v WorkerPool option" where
  "WorkerPool_processJobResults wp =
     (case chan_recv (wp_jobResults wp) of
        Received r q \<Rightarrow> Some (count_result r (wp\<lparr>wp_jobResults := q\<rparr>))
      | RecvClosed \<Rightarrow> Some (count_result zero_JobResultPool wp)
      | RecvBlocks \<Rightarrow> None)"

text \<open>One tick of \<open>autoScale\<close>, with its two local ticks.\<close>

definition auto_up :: "instant \<Rightarrow> instant option \<Rightarrow> 'v WorkerPool \<Rightarrow> int option" where
  "auto_up now lastScaleUp wp =
     (let s = wp_stats wp; c = wp_config wp in
      if cp_ScaleUpThreshold c \<le> sint (ps_QueuedJobs s)
         \<and> cp_ScaleUpCooldown c \<le> since now lastScaleUp
         \<and> sint (ps_TotalWorkers s) < cp_MaxWorkers c
      then Some (if cp_ScaleUpThreshold c * 2 \<le> sint (ps_QueuedJobs s) then 2 else 1) else None)"

definition auto_down :: "instant \<Rightarrow> instant option \<Rightarrow> 'v WorkerPool \<Rightarrow> int option" where
  "auto_down now lastScaleDown wp =
     (let s = wp_stats wp; c = wp_config wp in
      if cp_ScaleDownThreshold c \<le> sint (ps_IdleWorkers s)
         \<and> cp_ScaleDownCooldown c \<le> since now lastScaleDown
         \<and> cp_MinWorkers c < sint (ps_TotalWorkers s)
      then Some (if cp_ScaleDownThreshold c * 2 \<le> sint (ps_IdleWorkers s) then 2 else 1) else None)"

definition WorkerPool_autoScale ::
    "instant \<Rightarrow> instant option \<times> instant option \<Rightarrow> 'v WorkerPool
       \<Rightarrow> ((instant option \<times> instant option) \<times> 'v WorkerPool) outcome option" where
  "WorkerPool_autoScale now ticks wp0 =
     (if wp_closed wp0 then Some (Returns (ticks, wp0))
      else let wp = WorkerPool_GetStats now wp0 in
        case (case auto_up now (fst ticks) wp of
                None \<Rightarrow> Some (Returns (fst ticks, wp))
              | Some n \<Rightarrow> map_option (map_outcome (\<lambda>(err, wp1).
                    (if err = None then Some now else fst ticks, wp1))) (WorkerPool_ScaleUp now n wp)) of
          None \<Rightarrow> None
        | Some (Panics p) \<Rightarrow> Some (Panics p)
        | Some (Returns (up, wp1)) \<Rightarrow>
            (case auto_down now (snd ticks) wp1 of
               None \<Rightarrow> Some (Returns ((up, snd ticks), wp1))
             | Some n \<Rightarrow>
                (case WorkerPool_ScaleDown now n wp1 of
                   (err, wp2) \<Rightarrow>
                     Some (Returns ((up, if err = None then Some now else snd ticks), wp2)))))"

definition WorkerPool_collectMetrics :: "instant \<Rightarrow> 'v WorkerPool \<Rightarrow> 'v WorkerPool outcome" where
  "WorkerPool_collectMetrics now wp = WorkerPool_updateHealthStatus now True [] wp"

definition WorkerPool_monitorHealth :: "instant \<Rightarrow> 'v WorkerPool \<Rightarrow> 'v WorkerPool outcome" where
  "WorkerPool_monitorHealth now wp0 =
     (let wp = WorkerPool_GetStats now wp0; s = wp_stats wp in
      case ps_QueueUtilization s of
        None \<Rightarrow> Panics FailedTypeAssertion
      | Some u \<Rightarrow>
         (let issues =
            (if sint (ps_FailedJobs s) > sint (ps_CompletedJobs s) sdiv 2 then [''high failure rate''] else [])
            @ (if f_gt u (fl (9 / 10)) then [''high queue utilization''] else [])
            @ (if ps_TotalWorkers s = 0 then [''no workers available''] else [])
          in WorkerPool_updateHealthStatus now (issues = []) issues wp))"

section \<open>Closing\<close>

definition WorkerPool_Close_flag :: "'v WorkerPool \<Rightarrow> goerr option \<times> 'v WorkerPool" where
  "WorkerPool_Close_flag wp =
     (if wp_closed wp then (Some (ErrText ''worker pool already closed''), wp)
      else (None, wp\<lparr>wp_closed := True, wp_cancelled := True\<rparr>))"

definition Close_stop_workers :: "'v WorkerPool \<Rightarrow> 'v WorkerPool" where
  "Close_stop_workers wp = wp\<lparr>wp_heap := stop_workers (wp_workers wp) (wp_heap wp)\<rparr>"

definition Close_channels :: "instant \<Rightarrow> 'v WorkerPool \<Rightarrow> 'v WorkerPool outcome" where
  "Close_channels now wp =
     (case (chan_close (wp_jobQueue wp), chan_close (wp_jobResults wp), chan_close (wp_workerPool wp)) of
        (Some q, Some r, Some p) \<Rightarrow>
          WorkerPool_updateHealthStatus now False [''pool closed'']
            (wp\<lparr>wp_jobQueue := q, wp_jobResults := r, wp_workerPool := p\<rparr>)
      | _ \<Rightarrow> Panics CloseOfClosedChannel)"

text \<open>\<open>Close\<close> when the workers have finished, or its grace period is over, at \<open>now\<close>.\<close>

definition WorkerPool_Close :: "instant \<Rightarrow> 'v WorkerPool \<Rightarrow> (goerr option \<times> 'v WorkerPool) outcome" where
  "WorkerPool_Close now wp =
     (case WorkerPool_Close_flag wp of
        (Some err, wp1) \<Rightarrow> Returns (Some err, wp1)
      | (None, wp1) \<Rightarrow> map_outcome (\<lambda>wp2. (None, wp2)) (Close_channels now (Close_stop_workers wp1)))"

section \<open>A worker and its job\<close>

definition Worker_updateJobStats :: "instant \<Rightarrow> 'v JobResultPool \<Rightarrow> Worker \<Rightarrow> Worker" where
  "Worker_updateJobStats now result w =
     (let s = wk_stats w in
      w\<lparr>wk_stats := s\<lparr>ws_JobsProcessed := ws_JobsProcessed s + 1,
          ws_JobsFailed := (if jr_Error result \<noteq> None then ws_JobsFailed s + 1 else ws_JobsFailed s),
          ws_TotalJobTime := ws_TotalJobTime s + of_int (jr_Duration result),
          ws_LastJobTime := Some now\<rparr>\<rparr>)"

text \<open>
  \<open>executeJob\<close>, started at \<open>now\<close>; its second \<open>select\<close> is decided at \<open>wake\<close>. \<open>None\<close>: the task has not
  ended and the context is not done, the call blocks. A panic of the task is counted when it
  happens, before the task's channel is closed.
\<close>

definition Worker_executeJob ::
    "instant \<Rightarrow> instant \<Rightarrow> bool \<Rightarrow> ctx \<Rightarrow> 'v task \<Rightarrow> Worker
       \<Rightarrow> (('v option \<times> goerr option) \<times> Worker) option" where
  "Worker_executeJob now wake pick c task w =
     (case ctx_err now c of
        Some e \<Rightarrow> Some ((None, Some (wrapping e)), w)
      | None \<Rightarrow>
         (case task now of
            (t, r) \<Rightarrow>
             (let w1 = (case r of Panics p \<Rightarrow> (if t \<le> wake
                          then w\<lparr>wk_stats := (wk_stats w)\<lparr>ws_PanicCount := ws_PanicCount (wk_stats w) + 1\<rparr>\<rparr>
                          else w) | Returns _ \<Rightarrow> w) in
              if t \<le> wake \<and> \<not> (ctx_done wake c \<and> pick)
              then (case r of Panics p \<Rightarrow> Some ((None, Some (ErrText ''job panicked: %v'')), w1)
                    | Returns (v, err) \<Rightarrow> Some ((v, err), w1))
              else (case ctx_err wake c of
                 Some e \<Rightarrow> Some ((None, Some (wrapping e)), w1)
               | None \<Rightarrow> None))))"

definition Worker_processJob ::
    "instant \<Rightarrow> instant \<Rightarrow> bool \<Rightarrow> 'v JobPool \<Rightarrow> Worker \<Rightarrow> ('v JobResultPool \<times> Worker) option" where
  "Worker_processJob now wake pick job w =
     (let result = zero_JobResultPool\<lparr>jr_JobID := jp_ID job, jr_WorkerID := wk_id w\<rparr> in
      case jp_Task job of
        None \<Rightarrow>
          (let r = result\<lparr>jr_Error := Some (ErrText ''job task is nil''), jr_Duration := time_sub wake now\<rparr>
           in Some (r, Worker_updateJobStats wake r w))
      | Some task \<Rightarrow>
          (let c = (if 0 < jp_Timeout job then WithTimeout now (jp_Timeout job) Background else Background) in
           map_option (\<lambda>((v, err), w1).
             (let r = result\<lparr>jr_Result := v, jr_Error := err, jr_Duration := time_sub wake now\<rparr>
              in (r, Worker_updateJobStats wake r w1)))
             (Worker_executeJob now wake pick c task w)))"

definition Worker_IsActive :: "Worker \<Rightarrow> bool" where
  "Worker_IsActive w = wk_active w"

definition Worker_IsStopped :: "Worker \<Rightarrow> bool" where
  "Worker_IsStopped w = wk_stopped w"

definition Worker_GetStats :: "Worker \<Rightarrow> WorkerStats" where
  "Worker_GetStats w =
     (let s = wk_stats w in
      zero_WorkerStats\<lparr>ws_JobsProcessed := ws_JobsProcessed s, ws_JobsFailed := ws_JobsFailed s,
        ws_TotalJobTime := ws_TotalJobTime s, ws_PanicCount := ws_PanicCount s,
        ws_LastJobTime := ws_LastJobTime s, ws_LastIdleStart := ws_LastIdleStart s\<rparr>)"

record WorkerHealth =
  wh_is_active :: bool
  wh_is_stopped :: bool
  wh_jobs_processed :: counter
  wh_jobs_failed :: counter
  wh_panic_count :: counter
  wh_success_rate :: "float64 option"
  wh_average_job_time :: "duration option"

definition Worker_GetHealthStatus :: "Worker \<Rightarrow> WorkerHealth" where
  "Worker_GetHealthStatus w =
     (let s = Worker_GetStats w; processed = sint (ws_JobsProcessed s) in
      \<lparr>wh_is_active = Worker_IsActive w, wh_is_stopped = Worker_IsStopped w,
       wh_jobs_processed = ws_JobsProcessed s, wh_jobs_failed = ws_JobsFailed s,
       wh_panic_count = ws_PanicCount s,
       wh_success_rate = (if 0 < processed
          then Some (f_div (f_of_int (sint (ws_JobsProcessed s - ws_JobsFailed s))) (f_of_int processed))
          else None),
       wh_average_job_time = (if 0 < processed
          then Some (sint (ws_TotalJobTime s) sdiv processed) else None)\<rparr>)"

section \<open>Laws\<close>

lemma validateConfigPool_None:
  assumes "validateConfigPool c = None"
  shows "1 \<le> cp_MinWorkers c" "cp_MinWorkers c \<le> cp_MaxWorkers c" "cp_MaxWorkers c \<le> 1000"
    "1 \<le> cp_QueueSize c" "cp_QueueSize c \<le> 10000"
  using assms by (auto simp: validateConfigPool_def pool_limits split: if_splits)

text \<open>The pool takes its configuration as it is: there are no defaults.\<close>

interpretation plc: config_check validateConfigPool id
  by unfold_locales simp_all

interpretation pll: closable WorkerPool_Close_flag wp_closed
  by unfold_locales (auto simp: WorkerPool_Close_flag_def)

definition submit_op :: "instant \<times> 'v JobPool \<Rightarrow> 'v WorkerPool \<Rightarrow> goerr option outcome \<times> 'v WorkerPool" where
  "submit_op a wp = WorkerPool_Submit (fst a) (snd a) wp"

interpretation plg: guarded WorkerPool_Close_flag wp_closed submit_op
    "\<lambda>_. Returns (Some (Sentinel (EPool ErrPoolClosed)))"
  by unfold_locales (simp add: submit_op_def WorkerPool_Submit_def submit_check_def)

end
