(* ===== verification/PoolSystem.thy ===== *)
theory PoolSystem
  imports Pool Runs
begin

text \<open>
  The running pool: the goroutines of the workers, the clients that submit jobs and fetch results,
  the collector of results, the health monitor, a scaler, and \<open>Close\<close>. A worker stands at one of the
  channel operations of \<open>start\<close> (\<open>src/worker.go\<close>), or sleeps after a panic of its loop until it is
  started again. \<open>ScaleUp\<close> holds the mutex from one send on \<open>workerPool\<close> to the next, so another
  scaling operation, and \<open>Close\<close>, have to wait for it.

  The lists \<open>pl_accepted\<close> and \<open>pl_taken\<close> and the two counts record what has happened; no step
  depends on them. A panic outside a worker's recovered loop is recorded in \<open>pl_panic\<close>; the process
  would be gone then, the model lets the others go on, which only adds runs.
\<close>

section \<open>Workers, events, steps\<close>

datatype 'v wk_pc =
    WLoop
  | WSelect
  | WRunning "'v JobPool" instant
  | WSending "'v JobResultPool"
  | WReturning
  | WAsleep instant
  | WExited

fun is_busy :: "'v wk_pc \<Rightarrow> bool" where
  "is_busy (WRunning _ _) = True"
| "is_busy (WSending _) = True"
| "is_busy _ = False"

fun is_returning :: "'v wk_pc \<Rightarrow> bool" where
  "is_returning WReturning = True"
| "is_returning _ = False"

text \<open>Where the call of \<open>Close\<close> stands: before it, in its pause of 100 ms, waiting for the workers, over.\<close>

datatype closer = CloIdle | CloPause instant | CloWait instant | CloOver

record 'v pl_sys =
  pl_wp :: "'v WorkerPool"
  pl_pcs :: "'v wk_pc list"
  pl_now :: instant
  pl_scaling :: "(nat \<times> nat) option"
  pl_accepted :: "'v JobPool list"
  pl_taken :: "'v JobPool list"
  pl_sent :: nat
  pl_collected :: nat
  pl_submits :: "(ctx option \<times> 'v JobPool) list"
  pl_collecting :: bool
  pl_wg :: nat
  pl_closer :: closer
  pl_panic :: "panic option"

datatype 'v pl_event =
    PlSubmit "'v JobPool"
  | PlSubmitCtx "ctx option" "'v JobPool"
  | PlEnqueue nat bool
  | PlGetResult bool
  | PlGetResultTimeout bool nat duration
  | PlGetStats
  | PlCollect
  | PlCollectStop
  | PlMonitor
  | PlMetrics
  | PlCheck nat
  | PlTake nat
  | PlStopSignal nat
  | PlFinish nat bool
  | PlSend nat
  | PlReturn nat
  | PlExit nat
  | PlRestart nat
  | PlScaleUp int
  | PlScalePush
  | PlScaleDown int
  | PlClose
  | PlCloseStop
  | PlCloseChannels
  | PlTick nat

definition wk_at :: "'v pl_sys \<Rightarrow> nat \<Rightarrow> 'v wk_pc option" where
  "wk_at s i = (if i < length (pl_pcs s) then Some (pl_pcs s ! i) else None)"

text \<open>Worker \<open>i\<close> moves to \<open>pc\<close>, with the pool \<open>wp\<close>.\<close>

definition pl_move :: "nat \<Rightarrow> 'v wk_pc \<Rightarrow> 'v WorkerPool \<Rightarrow> 'v pl_sys \<Rightarrow> 'v pl_sys" where
  "pl_move i pc wp s = s\<lparr>pl_wp := wp, pl_pcs := (pl_pcs s)[i := pc]\<rparr>"

definition set_worker :: "nat \<Rightarrow> (Worker \<Rightarrow> Worker) \<Rightarrow> 'v WorkerPool \<Rightarrow> 'v WorkerPool" where
  "set_worker i f wp = wp\<lparr>wp_heap := (wp_heap wp)[i := f (wp_heap wp ! i)]\<rparr>"

definition mark_active :: "nat \<Rightarrow> 'v WorkerPool \<Rightarrow> 'v WorkerPool" where
  "mark_active i wp =
     upd_stats (\<lambda>s. s\<lparr>ps_ActiveWorkers := ps_ActiveWorkers s + 1, ps_IdleWorkers := ps_IdleWorkers s - 1\<rparr>)
       (set_worker i (\<lambda>w. w\<lparr>wk_active := True\<rparr>) wp)"

definition mark_idle :: "nat \<Rightarrow> 'v WorkerPool \<Rightarrow> 'v WorkerPool" where
  "mark_idle i wp =
     upd_stats (\<lambda>s. s\<lparr>ps_ActiveWorkers := ps_ActiveWorkers s - 1, ps_IdleWorkers := ps_IdleWorkers s + 1\<rparr>)
       (set_worker i (\<lambda>w. w\<lparr>wk_active := False\<rparr>) wp)"

text \<open>\<open>wg.Done()\<close>, at the end of a worker's goroutine.\<close>

definition wg_done :: "'v pl_sys \<Rightarrow> 'v pl_sys" where
  "wg_done s =
     (if pl_wg s = 0 then s\<lparr>pl_panic := Some NegativeWaitGroup\<rparr> else s\<lparr>pl_wg := pl_wg s - 1\<rparr>)"

text \<open>Worker \<open>i\<close> returns from its loop.\<close>

definition worker_returns :: "nat \<Rightarrow> 'v WorkerPool \<Rightarrow> 'v pl_sys \<Rightarrow> 'v pl_sys" where
  "worker_returns i wp s = wg_done (pl_move i WExited wp s)"

text \<open>The loop of worker \<open>i\<close> panics: the deferred function counts it, and sleeps if it will restart.\<close>

definition worker_panics :: "nat \<Rightarrow> 'v pl_sys \<Rightarrow> 'v pl_sys" where
  "worker_panics i s =
     (let wp = set_worker i (\<lambda>w. w\<lparr>wk_stats := (wk_stats w)\<lparr>ws_PanicCount := ws_PanicCount (wk_stats w) + 1\<rparr>\<rparr>)
                 (pl_wp s)
      in if wk_stopped (wp_heap (pl_wp s) ! i) then worker_returns i wp s
         else pl_move i (WAsleep (pl_now s + 10 * Millisecond)) wp s)"

text \<open>A submission that returned, with the job it put into the queue when it was accepted.\<close>

definition pl_submitted ::
    "'v JobPool \<Rightarrow> goerr option outcome \<times> 'v WorkerPool \<Rightarrow> 'v pl_sys \<Rightarrow> 'v pl_sys" where
  "pl_submitted job r s =
     (case fst r of
        Returns None \<Rightarrow> s\<lparr>pl_wp := snd r, pl_accepted := pl_accepted s @ [job]\<rparr>
      | Returns (Some e) \<Rightarrow> s\<lparr>pl_wp := snd r\<rparr>
      | Panics p \<Rightarrow> s\<lparr>pl_wp := snd r, pl_panic := Some p\<rparr>)"

text \<open>A background task, or an operation of a client, that may panic.\<close>

definition pl_ticked :: "'v WorkerPool outcome \<Rightarrow> 'v pl_sys \<Rightarrow> 'v pl_sys" where
  "pl_ticked r s =
     (case r of Returns wp \<Rightarrow> s\<lparr>pl_wp := wp\<rparr> | Panics p \<Rightarrow> s\<lparr>pl_panic := Some p\<rparr>)"

text \<open>\<open>ScaleUp\<close> creates the next worker, and will send it to \<open>workerPool\<close>.\<close>

definition pl_create :: "nat \<Rightarrow> 'v pl_sys \<Rightarrow> 'v pl_sys" where
  "pl_create remaining s =
     (case add_worker (int (length (wp_workers (pl_wp s)))) (pl_wp s) of
        (w, wp) \<Rightarrow> s\<lparr>pl_wp := wp, pl_pcs := pl_pcs s @ [WLoop], pl_scaling := Some (remaining, w),
                       pl_wg := pl_wg s + 1\<rparr>)"

fun pl_step :: "'v pl_event \<Rightarrow> 'v pl_sys \<Rightarrow> 'v pl_sys option" where
  "pl_step (PlSubmit job) s =
     (case submit_check (pl_now s) job (pl_wp s) of
        Inl e \<Rightarrow> Some s
      | Inr j \<Rightarrow> Some (s\<lparr>pl_submits := pl_submits s @ [(None, j)]\<rparr>))"
| "pl_step (PlSubmitCtx c job) s =
     (case submit_check_ctx (pl_now s) c job (pl_wp s) of
        Inl e \<Rightarrow> Some s
      | Inr (cx, j) \<Rightarrow> Some (s\<lparr>pl_submits := pl_submits s @ [(Some cx, j)]\<rparr>))"
| "pl_step (PlEnqueue k pick) s =
     (if k < length (pl_submits s)
      then (case pl_submits s ! k of
              (c, job) \<Rightarrow>
                Some (pl_submitted job
                  (submit_select pick (case c of None \<Rightarrow> False | Some cx \<Rightarrow> ctx_done (pl_now s) cx) job (pl_wp s))
                  (s\<lparr>pl_submits := take k (pl_submits s) @ drop (Suc k) (pl_submits s)\<rparr>)))
      else None)"
| "pl_step (PlGetResult pick) s = Some (s\<lparr>pl_wp := snd (WorkerPool_GetResult pick (pl_wp s))\<rparr>)"
| "pl_step (PlGetResultTimeout expired pick timeout) s =
     map_option (\<lambda>r. s\<lparr>pl_wp := snd r\<rparr>) (WorkerPool_GetResultWithTimeout expired pick timeout (pl_wp s))"
| "pl_step PlGetStats s = Some (s\<lparr>pl_wp := WorkerPool_GetStats (pl_now s) (pl_wp s)\<rparr>)"
| "pl_step PlCollect s =
     (if pl_collecting s
      then map_option (\<lambda>wp. s\<lparr>pl_wp := wp, pl_collected := pl_collected s + 1\<rparr>)
             (WorkerPool_processJobResults (pl_wp s))
      else None)"
| "pl_step PlCollectStop s = (if wp_cancelled (pl_wp s) then Some (s\<lparr>pl_collecting := False\<rparr>) else None)"
| "pl_step PlMonitor s = Some (pl_ticked (WorkerPool_monitorHealth (pl_now s) (pl_wp s)) s)"
| "pl_step PlMetrics s = Some (pl_ticked (WorkerPool_collectMetrics (pl_now s) (pl_wp s)) s)"
| "pl_step (PlCheck i) s =
     (case wk_at s i of
        Some WLoop \<Rightarrow>
          Some (if wk_stopped (wp_heap (pl_wp s) ! i) then worker_returns i (pl_wp s) s
                else pl_move i WSelect (pl_wp s) s)
      | _ \<Rightarrow> None)"
| "pl_step (PlTake i) s =
     (case (wk_at s i, chan_recv (wp_jobQueue (pl_wp s))) of
        (Some WSelect, Received job q) \<Rightarrow>
          Some ((pl_move i (WRunning job (pl_now s)) (mark_active i ((pl_wp s)\<lparr>wp_jobQueue := q\<rparr>)) s)
                  \<lparr>pl_taken := pl_taken s @ [job]\<rparr>)
      | (Some WSelect, RecvClosed) \<Rightarrow>
          Some (pl_move i (WRunning zero_JobPool (pl_now s)) (mark_active i (pl_wp s)) s)
      | _ \<Rightarrow> None)"
| "pl_step (PlStopSignal i) s =
     (case (wk_at s i, chan_recv (wk_stopChan (wp_heap (pl_wp s) ! i))) of
        (Some WSelect, Received _ c) \<Rightarrow>
          Some (worker_returns i
            (set_worker i (\<lambda>w. w\<lparr>wk_stopChan := c, wk_stopped := True\<rparr>) (pl_wp s)) s)
      | _ \<Rightarrow> None)"
| "pl_step (PlFinish i pick) s =
     (case wk_at s i of
        Some (WRunning job t) \<Rightarrow>
         (case Worker_processJob t (pl_now s) pick job (wp_heap (pl_wp s) ! i) of
            Some (r, w) \<Rightarrow> Some (pl_move i (WSending r) (set_worker i (\<lambda>_. w) (pl_wp s)) s)
          | None \<Rightarrow> None)
      | _ \<Rightarrow> None)"
| "pl_step (PlSend i) s =
     (case wk_at s i of
        Some (WSending r) \<Rightarrow>
         (case chan_send (wp_jobResults (pl_wp s)) r of
            Sent c \<Rightarrow>
              Some ((pl_move i WReturning (mark_idle i ((pl_wp s)\<lparr>wp_jobResults := c\<rparr>)) s)
                      \<lparr>pl_sent := pl_sent s + 1\<rparr>)
          | SendPanics \<Rightarrow> Some (worker_panics i s)
          | SendBlocks \<Rightarrow> None)
      | _ \<Rightarrow> None)"
| "pl_step (PlReturn i) s =
     (case wk_at s i of
        Some WReturning \<Rightarrow>
         (case chan_send (wp_workerPool (pl_wp s)) i of
            Sent c \<Rightarrow> Some (pl_move i WLoop ((pl_wp s)\<lparr>wp_workerPool := c\<rparr>) s)
          | SendPanics \<Rightarrow> Some (worker_panics i s)
          | SendBlocks \<Rightarrow> None)
      | _ \<Rightarrow> None)"
| "pl_step (PlExit i) s =
     (if wp_cancelled (pl_wp s)
      then (case wk_at s i of
              Some WSelect \<Rightarrow>
                Some (worker_returns i (set_worker i (\<lambda>w. w\<lparr>wk_stopped := True\<rparr>) (pl_wp s)) s)
            | Some (WSending r) \<Rightarrow> Some (worker_returns i (pl_wp s) s)
            | Some WReturning \<Rightarrow> Some (worker_returns i (pl_wp s) s)
            | _ \<Rightarrow> None)
      else None)"
| "pl_step (PlRestart i) s =
     (case wk_at s i of
        Some (WAsleep t) \<Rightarrow> if t \<le> pl_now s then Some (wg_done (pl_move i WLoop (pl_wp s) s)) else None
      | _ \<Rightarrow> None)"
| "pl_step (PlScaleUp n) s =
     (if pl_scaling s = None
      then (case scale_up_count n (pl_wp s) of
              Inl e \<Rightarrow> Some s
            | Inr k \<Rightarrow> Some (pl_create (k - 1) s))
      else None)"
| "pl_step PlScalePush s =
     (case pl_scaling s of
        Some (remaining, w) \<Rightarrow>
         (case push_worker w (pl_wp s) of
            Some (Returns wp) \<Rightarrow>
              Some (if remaining = 0 then s\<lparr>pl_wp := scaled_up (pl_now s) wp, pl_scaling := None\<rparr>
                    else pl_create (remaining - 1) (s\<lparr>pl_wp := wp\<rparr>))
          | Some (Panics p) \<Rightarrow> Some (s\<lparr>pl_scaling := None, pl_panic := Some p\<rparr>)
          | None \<Rightarrow> None)
      | None \<Rightarrow> None)"
| "pl_step (PlScaleDown n) s =
     (if pl_scaling s = None
      then Some (s\<lparr>pl_wp := snd (WorkerPool_ScaleDown (pl_now s) n (pl_wp s))\<rparr>) else None)"
| "pl_step PlClose s =
     (case WorkerPool_Close_flag (pl_wp s) of
        (None, wp) \<Rightarrow> Some (s\<lparr>pl_wp := wp, pl_closer := CloPause (pl_now s + 100 * Millisecond)\<rparr>)
      | (Some e, wp) \<Rightarrow> Some (s\<lparr>pl_wp := wp\<rparr>))"
| "pl_step PlCloseStop s =
     (case pl_closer s of
        CloPause t \<Rightarrow>
          if t \<le> pl_now s \<and> pl_scaling s = None
          then Some (s\<lparr>pl_wp := Close_stop_workers (pl_wp s),
                       pl_closer := CloWait (pl_now s + GracefulShutdownTimeoutPool)\<rparr>)
          else None
      | _ \<Rightarrow> None)"
| "pl_step PlCloseChannels s =
     (case pl_closer s of
        CloWait t \<Rightarrow>
          if pl_wg s = 0 \<or> t \<le> pl_now s
          then Some (pl_ticked (Close_channels (pl_now s) (pl_wp s)) (s\<lparr>pl_closer := CloOver\<rparr>)) else None
      | _ \<Rightarrow> None)"
| "pl_step (PlTick d) s = Some (s\<lparr>pl_now := pl_now s + int d\<rparr>)"

fun pl_run :: "'v pl_event list \<Rightarrow> 'v pl_sys \<Rightarrow> 'v pl_sys option" where
  "pl_run [] s = Some s"
| "pl_run (e # es) s = (case pl_step e s of None \<Rightarrow> None | Some s' \<Rightarrow> pl_run es s')"

text \<open>The pool as \<open>NewPool\<close> returns it, with its workers about to start.\<close>

definition pl_start :: "instant \<Rightarrow> 'v WorkerPool \<Rightarrow> 'v pl_sys" where
  "pl_start now wp =
     \<lparr>pl_wp = wp, pl_pcs = replicate (length (wp_heap wp)) WLoop, pl_now = now, pl_scaling = None,
      pl_accepted = [], pl_taken = [], pl_sent = 0, pl_collected = 0, pl_submits = [],
      pl_collecting = True, pl_wg = length (wp_heap wp), pl_closer = CloIdle, pl_panic = None\<rparr>"

inductive pl_reach :: "ConfigPool \<Rightarrow> 'v pl_sys \<Rightarrow> bool" for cfg where
  init: "NewPool now cfg = Some (Returns (Inr wp)) \<Longrightarrow> pl_reach cfg (pl_start now wp)"
| step: "pl_reach cfg s \<Longrightarrow> pl_step e s = Some s' \<Longrightarrow> pl_reach cfg s'"

interpretation plr: reachable_runs pl_step pl_run "\<lambda>_. True" "pl_reach cfg" for cfg
  by unfold_locales (auto intro: pl_reach.step)

lemma pl_reach_run: "pl_reach cfg s \<Longrightarrow> pl_run es s = Some s' \<Longrightarrow> pl_reach cfg s'"
  by (rule plr.reach_run) (simp_all add: list_all_iff)

section \<open>The pool NewPool returns\<close>

lemma add_worker_pair: "add_worker ident wp = (length (wp_heap wp), snd (add_worker ident wp))"
  by (simp add: add_worker_def WorkerPool_createWorker_def)

lemma add_worker_simps:
  "wp_heap (snd (add_worker ident wp)) = wp_heap wp
     @ [\<lparr>wk_id = ident, wk_stopChan = make_chan 1, wk_stats = zero_WorkerStats, wk_active = False, wk_stopped = False\<rparr>]"
  "wp_workers (snd (add_worker ident wp)) = wp_workers wp @ [length (wp_heap wp)]"
  "wp_config (snd (add_worker ident wp)) = wp_config wp"
  "wp_workerPool (snd (add_worker ident wp)) = wp_workerPool wp"
  "wp_jobQueue (snd (add_worker ident wp)) = wp_jobQueue wp"
  "wp_jobResults (snd (add_worker ident wp)) = wp_jobResults wp"
  "wp_stats (snd (add_worker ident wp)) = wp_stats wp"
  "wp_cancelled (snd (add_worker ident wp)) = wp_cancelled wp"
  "wp_closed (snd (add_worker ident wp)) = wp_closed wp"
  by (simp_all add: add_worker_def WorkerPool_createWorker_def)

lemma push_worker_Some:
  "push_worker w wp = Some (Returns wp') \<longleftrightarrow>
     \<not> ch_closed (wp_workerPool wp) \<and> length (ch_buf (wp_workerPool wp)) < ch_cap (wp_workerPool wp)
     \<and> wp' = upd_stats (\<lambda>s. s\<lparr>ps_TotalWorkers := ps_TotalWorkers s + 1, ps_IdleWorkers := ps_IdleWorkers s + 1\<rparr>)
          (wp\<lparr>wp_workerPool := (wp_workerPool wp)\<lparr>ch_buf := ch_buf (wp_workerPool wp) @ [w]\<rparr>\<rparr>)"
  by (auto simp: push_worker_def chan_send_def)

text \<open>What adding workers leaves alone, and what it counts.\<close>

lemma add_workers_Returns:
  "add_workers n ident wp = Some (Returns wp') \<Longrightarrow>
     length (wp_heap wp') = length (wp_heap wp) + n
     \<and> length (wp_workers wp') = length (wp_workers wp) + n
     \<and> length (ch_buf (wp_workerPool wp')) = length (ch_buf (wp_workerPool wp)) + n
     \<and> ch_cap (wp_workerPool wp') = ch_cap (wp_workerPool wp)
     \<and> ch_closed (wp_workerPool wp') = ch_closed (wp_workerPool wp)
     \<and> wp_config wp' = wp_config wp \<and> wp_jobQueue wp' = wp_jobQueue wp
     \<and> wp_jobResults wp' = wp_jobResults wp \<and> wp_cancelled wp' = wp_cancelled wp
     \<and> wp_closed wp' = wp_closed wp
     \<and> ps_TotalWorkers (wp_stats wp') = ps_TotalWorkers (wp_stats wp) + of_nat n
     \<and> ps_IdleWorkers (wp_stats wp') = ps_IdleWorkers (wp_stats wp) + of_nat n
     \<and> ps_ActiveWorkers (wp_stats wp') = ps_ActiveWorkers (wp_stats wp)
     \<and> ps_QueuedJobs (wp_stats wp') = ps_QueuedJobs (wp_stats wp)"
proof (induction n arbitrary: ident wp)
  case 0
  then show ?case by simp
next
  case (Suc n)
  then obtain wp2 where p: "push_worker (length (wp_heap wp)) (snd (add_worker ident wp)) = Some (Returns wp2)"
      "add_workers n (ident + 1) wp2 = Some (Returns wp')"
    by (subst (asm) add_workers.simps, subst (asm) add_worker_pair)
      (auto split: option.splits outcome.splits)
  from Suc.IH [OF p(2)] p(1) show ?case
    by (simp add: push_worker_Some add_worker_simps algebra_simps)
qed

text \<open>A valid configuration always gives a pool: the workers fit into \<open>workerPool\<close>.\<close>

lemma add_workers_ok:
  "\<not> ch_closed (wp_workerPool wp) \<Longrightarrow> length (ch_buf (wp_workerPool wp)) + n \<le> ch_cap (wp_workerPool wp)
     \<Longrightarrow> \<exists>wp'. add_workers n ident wp = Some (Returns wp')"
proof (induction n arbitrary: ident wp)
  case (Suc n)
  then obtain wp2 where p: "push_worker (length (wp_heap wp)) (snd (add_worker ident wp)) = Some (Returns wp2)"
    by (simp add: push_worker_Some add_worker_simps)
  then have "\<exists>wp'. add_workers n (ident + 1) wp2 = Some (Returns wp')"
    using Suc.prems by (intro Suc.IH) (simp_all add: push_worker_Some add_worker_simps)
  with p show ?case
    by (subst add_workers.simps, subst add_worker_pair) simp
qed simp

lemma NewPool_Inr_iff:
  "NewPool now cfg = Some (Returns (Inr wp)) \<longleftrightarrow>
     validateConfigPool cfg = None \<and> WorkerPool_initializeWorkers (make_WorkerPool now cfg) = Some (Returns wp)"
proof -
  have "map_outcome Inr r = Returns (Inr wp :: goerr + 'a WorkerPool) \<longleftrightarrow> r = Returns wp" for r :: "'a WorkerPool outcome"
    by (cases r) auto
  then show ?thesis by (cases "validateConfigPool cfg") (simp_all add: NewPool_def)
qed

lemma NewPool_ok:
  assumes "validateConfigPool cfg = None"
  shows "\<exists>wp :: 'v WorkerPool. NewPool now cfg = Some (Returns (Inr wp))"
  using add_workers_ok [of "make_WorkerPool now cfg :: 'v WorkerPool" "nat (cp_MinWorkers cfg)" 0]
    validateConfigPool_None [OF assms] assms
  by (simp add: NewPool_Inr_iff WorkerPool_initializeWorkers_def make_WorkerPool_def)

lemma NewPool_state:
  assumes "NewPool now cfg = Some (Returns (Inr wp))"
  shows "validateConfigPool cfg = None" "wp_config wp = cfg"
    and "length (wp_heap wp) = nat (cp_MinWorkers cfg)" "length (wp_workers wp) = nat (cp_MinWorkers cfg)"
    and "length (ch_buf (wp_workerPool wp)) = nat (cp_MinWorkers cfg)"
    and "ch_cap (wp_workerPool wp) = nat (cp_MaxWorkers cfg)" "\<not> ch_closed (wp_workerPool wp)"
    and "wp_jobQueue wp = make_chan (nat (cp_QueueSize cfg))"
    and "wp_jobResults wp = make_chan (nat (cp_QueueSize cfg))" "\<not> wp_cancelled wp" "\<not> wp_closed wp"
    and "ps_TotalWorkers (wp_stats wp) = of_nat (nat (cp_MinWorkers cfg))"
    and "ps_IdleWorkers (wp_stats wp) = of_nat (nat (cp_MinWorkers cfg))"
    and "ps_ActiveWorkers (wp_stats wp) = 0" "ps_QueuedJobs (wp_stats wp) = 0"
proof -
  from assms have v: "validateConfigPool cfg = None"
    and a: "add_workers (nat (cp_MinWorkers cfg)) 0 (make_WorkerPool now cfg) = Some (Returns wp)"
    by (simp_all add: NewPool_Inr_iff WorkerPool_initializeWorkers_def make_WorkerPool_def)
  from add_workers_Returns [OF a] v
  show "validateConfigPool cfg = None" "wp_config wp = cfg"
    "length (wp_heap wp) = nat (cp_MinWorkers cfg)" "length (wp_workers wp) = nat (cp_MinWorkers cfg)"
    "length (ch_buf (wp_workerPool wp)) = nat (cp_MinWorkers cfg)"
    "ch_cap (wp_workerPool wp) = nat (cp_MaxWorkers cfg)" "\<not> ch_closed (wp_workerPool wp)"
    "wp_jobQueue wp = make_chan (nat (cp_QueueSize cfg))"
    "wp_jobResults wp = make_chan (nat (cp_QueueSize cfg))" "\<not> wp_cancelled wp" "\<not> wp_closed wp"
    "ps_TotalWorkers (wp_stats wp) = of_nat (nat (cp_MinWorkers cfg))"
    "ps_IdleWorkers (wp_stats wp) = of_nat (nat (cp_MinWorkers cfg))"
    "ps_ActiveWorkers (wp_stats wp) = 0" "ps_QueuedJobs (wp_stats wp) = 0"
    by (simp_all add: make_WorkerPool_def zero_PoolStatsPool_def)
qed

end
