(* ===== verification/PoolEffects.thy ===== *)
theory PoolEffects
  imports PoolSystem
begin

text \<open>
  What the steps of the running pool do, said once: \<open>pl_effect\<close> lists the ways in which a step can
  change the part of the state that is counted, and every event is one of them. The invariants are
  proved by cases on it.
\<close>

section \<open>What a step does\<close>

abbreviation put_job :: "'v JobPool \<Rightarrow> 'v WorkerPool \<Rightarrow> 'v WorkerPool" where
  "put_job job wp \<equiv>
     enqueued ((wp_jobQueue wp)\<lparr>ch_buf := ch_buf (wp_jobQueue wp) @ [job]\<rparr>) wp"

lemma submit_select_effect:
  "\<not> ch_closed (wp_jobQueue wp) \<and> length (ch_buf (wp_jobQueue wp)) < ch_cap (wp_jobQueue wp)
     \<and> submit_select pick over job wp = (Returns None, put_job job wp)
   \<or> (\<exists>e. submit_select pick over job wp = (Returns (Some e), wp))
   \<or> ch_closed (wp_jobQueue wp) \<and> submit_select pick over job wp = (Panics SendOnClosedChannel, wp)"
proof (cases "select_send pick over (wp_jobQueue wp) job")
  case (SelSent q)
  then show ?thesis using select_send_SelSent_iff [of pick over "wp_jobQueue wp" job q]
    by (simp add: submit_select_def)
next
  case SelPanic
  then show ?thesis using select_send_SelPanic_iff [of pick over "wp_jobQueue wp" job]
    by (simp add: submit_select_def)
qed (simp_all add: submit_select_def)

text \<open>What a submission that finds the pool open does.\<close>

definition accepts :: "'v JobPool \<Rightarrow> 'v WorkerPool \<Rightarrow> bool" where
  "accepts job wp \<longleftrightarrow>
     \<not> wp_closed wp \<and> validateJobPool job = None \<and> \<not> ch_closed (wp_jobQueue wp)
     \<and> length (ch_buf (wp_jobQueue wp)) < ch_cap (wp_jobQueue wp)"

lemma Submit_accepts:
  "accepts job wp \<Longrightarrow> WorkerPool_Submit now job wp = (Returns None, put_job (job_defaults now job) wp)"
  by (simp add: accepts_def WorkerPool_Submit_def submit_check_def submit_select_def select_send_def chan_send_def)

text \<open>The counters of workers and of queued jobs.\<close>

definition worker_counters :: "'v WorkerPool \<Rightarrow> counter \<times> counter \<times> counter" where
  "worker_counters wp =
     (ps_ActiveWorkers (wp_stats wp), ps_IdleWorkers (wp_stats wp), ps_TotalWorkers (wp_stats wp))"

text \<open>
  The parts of the pool that only some steps touch: \<open>same_frame\<close> without the counters of workers,
  which the steps of a closed pool may still change, \<open>same_core\<close> with them.
\<close>

definition same_frame :: "'v WorkerPool \<Rightarrow> 'v WorkerPool \<Rightarrow> bool" where
  "same_frame wp wp' \<longleftrightarrow>
     wp_config wp' = wp_config wp \<and> length (wp_heap wp') = length (wp_heap wp)
     \<and> wp_workers wp' = wp_workers wp
     \<and> ch_buf (wp_workerPool wp') = ch_buf (wp_workerPool wp)
     \<and> ch_cap (wp_workerPool wp') = ch_cap (wp_workerPool wp)
     \<and> ch_buf (wp_jobQueue wp') = ch_buf (wp_jobQueue wp)
     \<and> ch_cap (wp_jobQueue wp') = ch_cap (wp_jobQueue wp)
     \<and> ps_QueuedJobs (wp_stats wp') = ps_QueuedJobs (wp_stats wp)
     \<and> (wp_cancelled wp \<longrightarrow> wp_cancelled wp')"

definition same_core :: "'v WorkerPool \<Rightarrow> 'v WorkerPool \<Rightarrow> bool" where
  "same_core wp wp' \<longleftrightarrow> same_frame wp wp' \<and> worker_counters wp' = worker_counters wp"

lemmas same_defs = same_core_def same_frame_def worker_counters_def

lemma same_core_refl [simp]: "same_core wp wp"
  by (simp add: same_defs)

lemma same_core_updates [simp]:
  "same_core wp (wp\<lparr>wp_jobResults := q\<rparr>)" "same_core wp (set_worker i f wp)"
  by (simp_all add: same_defs set_worker_def)

lemma GetResult_same: "same_core wp (snd (WorkerPool_GetResult pick wp))"
  by (auto simp: WorkerPool_GetResult_def split: recv_result.split)

lemma GetResultWithTimeout_same:
  "WorkerPool_GetResultWithTimeout expired pick timeout wp = Some r \<Longrightarrow> same_core wp (snd r)"
  by (auto simp: WorkerPool_GetResultWithTimeout_def Let_def split: if_splits recv_result.splits)

lemma Close_flag_same: "same_core wp (snd (WorkerPool_Close_flag wp))"
  by (simp add: WorkerPool_Close_flag_def same_defs)

lemma stop_workers_length [simp]: "length (stop_workers ids heap) = length heap"
  by (induction ids arbitrary: heap) (simp_all add: stop_workers_def)

lemma Close_stop_workers_same: "same_core wp (Close_stop_workers wp)"
  by (simp add: Close_stop_workers_def same_defs)

lemma GetStats_same: "same_core wp (WorkerPool_GetStats now wp)"
  by (simp add: WorkerPool_GetStats_def WorkerPool_calculateJobsPerSecond_def same_defs Let_def)

lemma same_core_trans: "same_core wp wp' \<Longrightarrow> same_core wp' wp'' \<Longrightarrow> same_core wp wp''"
  by (simp add: same_defs)

lemma updateHealthStatus_same:
  "WorkerPool_updateHealthStatus now h is wp = Returns wp' \<Longrightarrow> same_core wp wp'"
  using GetStats_same [of wp now]
  by (auto simp: WorkerPool_updateHealthStatus_def same_defs Let_def split: option.splits)

lemma collectMetrics_same: "WorkerPool_collectMetrics now wp = Returns wp' \<Longrightarrow> same_core wp wp'"
  unfolding WorkerPool_collectMetrics_def by (rule updateHealthStatus_same)

lemma monitorHealth_same: "WorkerPool_monitorHealth now wp = Returns wp' \<Longrightarrow> same_core wp wp'"
  unfolding WorkerPool_monitorHealth_def Let_def
  by (auto split: option.splits dest!: updateHealthStatus_same intro: same_core_trans [OF GetStats_same])

lemma Close_channels_same: "Close_channels now wp = Returns wp' \<Longrightarrow> same_core wp wp'"
  by (auto simp: Close_channels_def chan_close_def same_defs split: option.splits if_splits
      dest!: updateHealthStatus_same)

text \<open>The part of the state that records no history and counts no worker.\<close>

definition pl_rest :: "'v pl_sys \<Rightarrow> 'v pl_sys \<Rightarrow> bool" where
  "pl_rest s s' \<longleftrightarrow>
     pl_accepted s' = pl_accepted s \<and> pl_taken s' = pl_taken s \<and> pl_sent s' = pl_sent s
     \<and> pl_collected s' = pl_collected s"

lemma wg_done_simps [simp]:
  "pl_wp (wg_done s) = pl_wp s" "pl_pcs (wg_done s) = pl_pcs s" "pl_scaling (wg_done s) = pl_scaling s"
  "pl_accepted (wg_done s) = pl_accepted s" "pl_taken (wg_done s) = pl_taken s"
  "pl_sent (wg_done s) = pl_sent s" "pl_collected (wg_done s) = pl_collected s"
  "pl_closer (wg_done s) = pl_closer s" "pl_now (wg_done s) = pl_now s"
  by (simp_all add: wg_done_def)

lemma pl_move_simps [simp]:
  "pl_wp (pl_move i pc wp s) = wp" "pl_pcs (pl_move i pc wp s) = (pl_pcs s)[i := pc]"
  "pl_scaling (pl_move i pc wp s) = pl_scaling s" "pl_accepted (pl_move i pc wp s) = pl_accepted s"
  "pl_taken (pl_move i pc wp s) = pl_taken s" "pl_sent (pl_move i pc wp s) = pl_sent s"
  "pl_collected (pl_move i pc wp s) = pl_collected s" "pl_closer (pl_move i pc wp s) = pl_closer s"
  "pl_wg (pl_move i pc wp s) = pl_wg s" "pl_panic (pl_move i pc wp s) = pl_panic s"
  by (simp_all add: pl_move_def)

lemma worker_returns_simps [simp]:
  "pl_wp (worker_returns i wp s) = wp" "pl_pcs (worker_returns i wp s) = (pl_pcs s)[i := WExited]"
  "pl_scaling (worker_returns i wp s) = pl_scaling s" "pl_closer (worker_returns i wp s) = pl_closer s"
  "pl_rest s (worker_returns i wp s)"
  by (simp_all add: worker_returns_def pl_rest_def)

lemma worker_panics_effect:
  "\<exists>wp pc'. same_core (pl_wp s) wp \<and> pl_wp (worker_panics i s) = wp
     \<and> pl_pcs (worker_panics i s) = (pl_pcs s)[i := pc'] \<and> pl_scaling (worker_panics i s) = pl_scaling s
     \<and> pl_rest s (worker_panics i s) \<and> pl_closer (worker_panics i s) = pl_closer s"
proof -
  let ?wp = "set_worker i (\<lambda>w. w\<lparr>wk_stats := (wk_stats w)\<lparr>ws_PanicCount := ws_PanicCount (wk_stats w) + 1\<rparr>\<rparr>) (pl_wp s)"
  have "same_core (pl_wp s) ?wp" by simp
  moreover have "pl_rest s (pl_move i pc ?wp s)" for pc by (simp add: pl_rest_def)
  ultimately show ?thesis
    by (cases "wk_stopped (wp_heap (pl_wp s) ! i)") (fastforce simp: worker_panics_def Let_def)+
qed

text \<open>
  A channel of the pool that is closed. Before \<open>Close\<close> closes them the last two cases of the rule
  below are not there.
\<close>

definition some_closed :: "'v WorkerPool \<Rightarrow> bool" where
  "some_closed wp \<longleftrightarrow>
     ch_closed (wp_jobQueue wp) \<or> ch_closed (wp_jobResults wp) \<or> ch_closed (wp_workerPool wp)"

lemma pl_ticked_simps [simp]:
  "pl_pcs (pl_ticked r s) = pl_pcs s" "pl_scaling (pl_ticked r s) = pl_scaling s"
  "pl_rest s (pl_ticked r s)" "pl_closer (pl_ticked r s) = pl_closer s" "pl_wg (pl_ticked r s) = pl_wg s"
  by (cases r; simp add: pl_ticked_def pl_rest_def)+

lemma pl_ticked_same:
  "(\<And>wp. r = Returns wp \<Longrightarrow> same_core (pl_wp s) wp) \<Longrightarrow> same_core (pl_wp s) (pl_wp (pl_ticked r s))"
  by (cases r) (simp_all add: pl_ticked_def)

text \<open>What a step can do to the counted part of the state.\<close>

inductive pl_effect :: "'v pl_sys \<Rightarrow> 'v pl_sys \<Rightarrow> bool" for s s' where
  accept: "length (ch_buf (wp_jobQueue (pl_wp s))) < ch_cap (wp_jobQueue (pl_wp s))
    \<Longrightarrow> pl_wp s' = put_job job (pl_wp s) \<Longrightarrow> pl_pcs s' = pl_pcs s \<Longrightarrow> pl_scaling s' = pl_scaling s
    \<Longrightarrow> pl_accepted s' = pl_accepted s @ [job] \<Longrightarrow> pl_taken s' = pl_taken s \<Longrightarrow> pl_sent s' = pl_sent s
    \<Longrightarrow> pl_collected s' = pl_collected s \<Longrightarrow> pl_effect s s'"
| frame: "same_core (pl_wp s) (pl_wp s') \<Longrightarrow> pl_pcs s' = pl_pcs s \<Longrightarrow> pl_scaling s' = pl_scaling s
    \<Longrightarrow> pl_rest s s' \<Longrightarrow> pl_effect s s'"
| collect: "WorkerPool_processJobResults (pl_wp s) = Some (pl_wp s') \<Longrightarrow> pl_pcs s' = pl_pcs s
    \<Longrightarrow> pl_scaling s' = pl_scaling s \<Longrightarrow> pl_accepted s' = pl_accepted s \<Longrightarrow> pl_taken s' = pl_taken s
    \<Longrightarrow> pl_sent s' = pl_sent s \<Longrightarrow> pl_collected s' = Suc (pl_collected s) \<Longrightarrow> pl_effect s s'"
| move: "wk_at s i = Some pc \<Longrightarrow> same_core (pl_wp s) (pl_wp s')
    \<Longrightarrow> is_busy pc' = is_busy pc \<and> is_returning pc' = is_returning pc \<or> wp_cancelled (pl_wp s')
    \<Longrightarrow> pl_pcs s' = (pl_pcs s)[i := pc'] \<Longrightarrow> pl_scaling s' = pl_scaling s \<Longrightarrow> pl_rest s s' \<Longrightarrow> pl_effect s s'"
| take_job: "wk_at s i = Some WSelect \<Longrightarrow> ch_buf (wp_jobQueue (pl_wp s)) = job # q
    \<Longrightarrow> s' = (pl_move i (WRunning job (pl_now s))
               (mark_active i ((pl_wp s)\<lparr>wp_jobQueue := (wp_jobQueue (pl_wp s))\<lparr>ch_buf := q\<rparr>\<rparr>)) s)
               \<lparr>pl_taken := pl_taken s @ [job]\<rparr> \<Longrightarrow> pl_effect s s'"
| send: "wk_at s i = Some (WSending r)
    \<Longrightarrow> s' = (pl_move i WReturning (mark_idle i ((pl_wp s)\<lparr>wp_jobResults := c\<rparr>)) s)\<lparr>pl_sent := pl_sent s + 1\<rparr>
    \<Longrightarrow> pl_effect s s'"
| return: "wk_at s i = Some WReturning
    \<Longrightarrow> length (ch_buf (wp_workerPool (pl_wp s))) < ch_cap (wp_workerPool (pl_wp s))
    \<Longrightarrow> s' = pl_move i WLoop ((pl_wp s)\<lparr>wp_workerPool := (wp_workerPool (pl_wp s))
               \<lparr>ch_buf := ch_buf (wp_workerPool (pl_wp s)) @ [i]\<rparr>\<rparr>) s \<Longrightarrow> pl_effect s s'"
| scale: "pl_scaling s = None \<Longrightarrow> scale_up_count n (pl_wp s) = Inr k \<Longrightarrow> s' = pl_create (k - 1) s
    \<Longrightarrow> pl_effect s s'"
| push: "pl_scaling s = Some (remaining, w) \<Longrightarrow> push_worker w (pl_wp s) = Some (Returns wp)
    \<Longrightarrow> s' = (if remaining = 0 then s\<lparr>pl_wp := scaled_up (pl_now s) wp, pl_scaling := None\<rparr>
              else pl_create (remaining - 1) (s\<lparr>pl_wp := wp\<rparr>)) \<Longrightarrow> pl_effect s s'"
| scale_down: "pl_scaling s = None \<Longrightarrow> 0 < n
    \<Longrightarrow> cp_MinWorkers (wp_config (pl_wp s)) < int (length (wp_workers (pl_wp s)))
    \<Longrightarrow> s' = s\<lparr>pl_wp := snd (WorkerPool_ScaleDown (pl_now s) n (pl_wp s))\<rparr> \<Longrightarrow> pl_effect s s'"
| closed: "some_closed (pl_wp s) \<Longrightarrow> same_frame (pl_wp s) (pl_wp s') \<Longrightarrow> length (pl_pcs s') = length (pl_pcs s)
    \<Longrightarrow> pl_scaling s' = pl_scaling s \<or> pl_scaling s' = None \<Longrightarrow> pl_rest s s' \<Longrightarrow> pl_effect s s'"

lemma PlEnqueue_effect:
  assumes e: "pl_step (PlEnqueue k pick) s = Some s'"
  shows "pl_effect s s'"
proof -
  obtain c job L where k: "s' = pl_submitted job
      (submit_select pick (case c of None \<Rightarrow> False | Some cx \<Rightarrow> ctx_done (pl_now s) cx) job (pl_wp s))
      (s\<lparr>pl_submits := L\<rparr>)"
    using e by (auto split: if_splits prod.splits)
  let ?over = "case c of None \<Rightarrow> False | Some cx \<Rightarrow> ctx_done (pl_now s) cx"
  from submit_select_effect [of "pl_wp s" pick ?over job] show ?thesis
  proof (elim disjE conjE exE)
    assume "submit_select pick ?over job (pl_wp s) = (Returns None, put_job job (pl_wp s))"
      "length (ch_buf (wp_jobQueue (pl_wp s))) < ch_cap (wp_jobQueue (pl_wp s))"
    then show ?thesis using k by (intro pl_effect.accept [where job = job]) (simp_all add: pl_submitted_def)
  next
    fix err assume "submit_select pick ?over job (pl_wp s) = (Returns (Some err), pl_wp s)"
    then show ?thesis using k by (intro pl_effect.frame) (simp_all add: pl_submitted_def pl_rest_def)
  next
    assume "submit_select pick ?over job (pl_wp s) = (Panics SendOnClosedChannel, pl_wp s)"
    then show ?thesis using k by (intro pl_effect.frame) (simp_all add: pl_submitted_def pl_rest_def)
  qed
qed

lemma PlCollect_effect:
  assumes e: "pl_step PlCollect s = Some s'"
  shows "pl_effect s s'"
  using e by (intro pl_effect.collect) (auto split: if_splits)

lemma PlMonitor_effect:
  assumes e: "pl_step PlMonitor s = Some s'"
  shows "pl_effect s s'"
proof -
  have s': "s' = pl_ticked (WorkerPool_monitorHealth (pl_now s) (pl_wp s)) s" using e by simp
  show ?thesis unfolding s' by (rule pl_effect.frame) (simp_all add: s' pl_ticked_same monitorHealth_same)
qed

lemma PlMetrics_effect:
  assumes e: "pl_step PlMetrics s = Some s'"
  shows "pl_effect s s'"
proof -
  have s': "s' = pl_ticked (WorkerPool_collectMetrics (pl_now s) (pl_wp s)) s" using e by simp
  show ?thesis unfolding s' by (rule pl_effect.frame) (simp_all add: s' pl_ticked_same collectMetrics_same)
qed

lemma PlCheck_effect:
  assumes e: "pl_step (PlCheck i) s = Some s'"
  shows "pl_effect s s'"
proof -
  have w: "wk_at s i = Some WLoop" and s': "s' = (if wk_stopped (wp_heap (pl_wp s) ! i)
      then worker_returns i (pl_wp s) s else pl_move i WSelect (pl_wp s) s)"
    using e by (auto split: option.splits wk_pc.splits)
  show ?thesis
  proof (cases "wk_stopped (wp_heap (pl_wp s) ! i)")
    case True
    then show ?thesis using w s' by (intro pl_effect.move [where i = i and pc = WLoop and pc' = WExited]) simp_all
  next
    case False
    then show ?thesis using w s' by (intro pl_effect.move [where i = i and pc = WLoop and pc' = WSelect]) (simp_all add: pl_rest_def)
  qed
qed

lemma PlTake_effect:
  assumes e: "pl_step (PlTake i) s = Some s'"
  shows "pl_effect s s'"
proof -
  have w: "wk_at s i = Some WSelect" using e by (auto split: option.splits wk_pc.splits)
  show ?thesis
  proof (cases "chan_recv (wp_jobQueue (pl_wp s))")
    case (Received job q)
    then obtain xs where "ch_buf (wp_jobQueue (pl_wp s)) = job # xs"
        "q = (wp_jobQueue (pl_wp s))\<lparr>ch_buf := xs\<rparr>" by (auto simp: chan_recv_Received_iff)
    then show ?thesis using e w Received by (intro pl_effect.take_job [where i = i and job = job and q = xs]) simp_all
  next
    case RecvClosed
    then have "some_closed (pl_wp s)" by (simp add: some_closed_def chan_recv_RecvClosed_iff)
    then show ?thesis using RecvClosed e w
      by (intro pl_effect.closed) (auto simp: same_defs pl_rest_def mark_active_def set_worker_def)
  next
    case RecvBlocks
    then show ?thesis using e w by simp
  qed
qed

lemma PlStopSignal_effect:
  assumes e: "pl_step (PlStopSignal i) s = Some s'"
  shows "pl_effect s s'"
proof -
  obtain c where "wk_at s i = Some WSelect" "s' = worker_returns i
      (set_worker i (\<lambda>w. w\<lparr>wk_stopChan := c, wk_stopped := True\<rparr>) (pl_wp s)) s"
    using e by (auto split: option.splits wk_pc.splits recv_result.splits)
  then show ?thesis by (intro pl_effect.move [where i = i and pc = WSelect and pc' = WExited]) simp_all
qed

lemma PlFinish_effect:
  assumes e: "pl_step (PlFinish i pick) s = Some s'"
  shows "pl_effect s s'"
proof -
  obtain job t r w where "wk_at s i = Some (WRunning job t)"
    "s' = pl_move i (WSending r) (set_worker i (\<lambda>_. w) (pl_wp s)) s"
    using e by (auto split: option.splits wk_pc.splits)
  then show ?thesis by (intro pl_effect.move [where i = i and pc = "WRunning job t" and pc' = "WSending r"]) (simp_all add: pl_rest_def)
qed

lemma PlSend_effect:
  assumes e: "pl_step (PlSend i) s = Some s'"
  shows "pl_effect s s'"
proof -
  obtain r where w: "wk_at s i = Some (WSending r)" using e by (auto split: option.splits wk_pc.splits)
  show ?thesis
  proof (cases "chan_send (wp_jobResults (pl_wp s)) r")
    case (Sent c)
    then show ?thesis using w e by (intro pl_effect.send [where i = i and r = r and c = c]) simp_all
  next
    case SendBlocks
    then show ?thesis using w e by simp
  next
    case SendPanics
    then have "some_closed (pl_wp s)" by (auto simp: some_closed_def chan_send_def split: if_splits)
    then show ?thesis using SendPanics w e worker_panics_effect [of s i]
      by (intro pl_effect.closed) (auto simp: same_core_def)
  qed
qed

lemma PlReturn_effect:
  assumes e: "pl_step (PlReturn i) s = Some s'"
  shows "pl_effect s s'"
proof -
  have w: "wk_at s i = Some WReturning" using e by (auto split: option.splits wk_pc.splits)
  show ?thesis
  proof (cases "chan_send (wp_workerPool (pl_wp s)) i")
    case (Sent c)
    then have "length (ch_buf (wp_workerPool (pl_wp s))) < ch_cap (wp_workerPool (pl_wp s))"
      "c = (wp_workerPool (pl_wp s))\<lparr>ch_buf := ch_buf (wp_workerPool (pl_wp s)) @ [i]\<rparr>"
      by (simp_all add: chan_send_Sent_iff)
    then show ?thesis using w e Sent by (intro pl_effect.return [where i = i]) simp_all
  next
    case SendBlocks
    then show ?thesis using w e by simp
  next
    case SendPanics
    then have "some_closed (pl_wp s)" by (auto simp: some_closed_def chan_send_def split: if_splits)
    then show ?thesis using SendPanics w e worker_panics_effect [of s i]
      by (intro pl_effect.closed) (auto simp: same_core_def)
  qed
qed

lemma PlExit_effect:
  assumes e: "pl_step (PlExit i) s = Some s'"
  shows "pl_effect s s'"
proof -
  consider "wp_cancelled (pl_wp s)" "wk_at s i = Some WSelect"
        "s' = worker_returns i (set_worker i (\<lambda>w. w\<lparr>wk_stopped := True\<rparr>) (pl_wp s)) s"
    | pc where "wp_cancelled (pl_wp s)" "wk_at s i = Some pc" "s' = worker_returns i (pl_wp s) s"
    using e by (auto split: option.splits wk_pc.splits if_splits)
  then show ?thesis
  proof cases
    case 1
    then show ?thesis by (intro pl_effect.move [where i = i and pc = WSelect and pc' = WExited]) simp_all
  next
    case (2 pc)
    then show ?thesis by (intro pl_effect.move [where i = i and pc = pc and pc' = WExited]) simp_all
  qed
qed

lemma PlRestart_effect:
  assumes e: "pl_step (PlRestart i) s = Some s'"
  shows "pl_effect s s'"
proof -
  obtain t where "wk_at s i = Some (WAsleep t)" "s' = wg_done (pl_move i WLoop (pl_wp s) s)"
    using e by (auto split: option.splits wk_pc.splits if_splits)
  then show ?thesis by (intro pl_effect.move [where i = i and pc = "WAsleep t" and pc' = WLoop]) (simp_all add: pl_rest_def)
qed

lemma PlScaleUp_effect:
  assumes e: "pl_step (PlScaleUp n) s = Some s'"
  shows "pl_effect s s'"
proof (cases "pl_scaling s = None \<and> (\<exists>k. scale_up_count n (pl_wp s) = Inr k)")
  case True
  then show ?thesis using e by (auto intro: pl_effect.scale)
next
  case False
  then have "s' = s" using e by (auto split: sum.splits if_splits)
  then show ?thesis by (intro pl_effect.frame) (simp_all add: pl_rest_def)
qed

lemma PlScalePush_effect:
  assumes e: "pl_step PlScalePush s = Some s'"
  shows "pl_effect s s'"
proof -
  obtain remaining w where p: "pl_scaling s = Some (remaining, w)" using e by (auto split: option.splits)
  show ?thesis
  proof (cases "push_worker w (pl_wp s)")
    case None
    then show ?thesis using e p by simp
  next
    case (Some r)
    show ?thesis
    proof (cases r)
      case (Returns wp)
      then show ?thesis using e p Some by (intro pl_effect.push [OF p, of wp]) auto
    next
      case (Panics q)
      then have "some_closed (pl_wp s)" using Some
        by (auto simp: push_worker_def some_closed_def chan_send_def split: if_splits)
      then show ?thesis using e p Some Panics
        by (intro pl_effect.closed) (auto simp: pl_rest_def same_defs)
    qed
  qed
qed

lemma PlScaleDown_effect:
  assumes e: "pl_step (PlScaleDown n) s = Some s'"
  shows "pl_effect s s'"
proof -
  have n: "pl_scaling s = None" "s' = s\<lparr>pl_wp := snd (WorkerPool_ScaleDown (pl_now s) n (pl_wp s))\<rparr>"
    using e by (simp_all split: if_splits)
  show ?thesis
  proof (cases "0 < n \<and> cp_MinWorkers (wp_config (pl_wp s)) < int (length (wp_workers (pl_wp s)))")
    case True
    then show ?thesis using n by (intro pl_effect.scale_down) simp_all
  next
    case False
    then have "snd (WorkerPool_ScaleDown (pl_now s) n (pl_wp s)) = pl_wp s"
      by (auto simp: WorkerPool_ScaleDown_def)
    then show ?thesis using n by (intro pl_effect.frame) (simp_all add: pl_rest_def)
  qed
qed

lemma PlCloseChannels_effect:
  assumes e: "pl_step PlCloseChannels s = Some s'"
  shows "pl_effect s s'"
proof -
  have s': "s' = pl_ticked (Close_channels (pl_now s) (pl_wp s)) (s\<lparr>pl_closer := CloOver\<rparr>)"
    using e by (auto split: closer.splits if_splits)
  have "same_core (pl_wp s) (pl_wp s')"
    using pl_ticked_same [of "Close_channels (pl_now s) (pl_wp s)" "s\<lparr>pl_closer := CloOver\<rparr>"]
    by (simp add: s' Close_channels_same)
  moreover have "pl_rest s s'" by (cases "Close_channels (pl_now s) (pl_wp s)") (simp_all add: s' pl_ticked_def pl_rest_def)
  ultimately show ?thesis by (intro pl_effect.frame) (simp_all add: s')
qed

text \<open>The events that leave the counted part alone.\<close>

lemma frame_effect:
  assumes "pl_step e s = Some s'" and "e \<in> {PlGetStats, PlCollectStop, PlClose, PlCloseStop} \<union> range PlSubmit
    \<union> {PlSubmitCtx c job |c job. True} \<union> range PlGetResult \<union> {PlGetResultTimeout x p t |x p t. True} \<union> range PlTick"
  shows "pl_effect s s'"
  using assms GetResultWithTimeout_same GetStats_same [of "pl_wp s" "pl_now s"] GetResult_same [of "pl_wp s"]
    Close_flag_same [of "pl_wp s"] Close_stop_workers_same [of "pl_wp s"]
  by (intro pl_effect.frame) (auto simp: pl_rest_def split: sum.splits prod.splits option.splits closer.splits if_splits)

lemmas pl_effects = PlEnqueue_effect PlCollect_effect PlMonitor_effect PlMetrics_effect PlCheck_effect PlTake_effect PlStopSignal_effect PlFinish_effect PlSend_effect PlReturn_effect PlExit_effect PlRestart_effect PlScaleUp_effect PlScalePush_effect PlScaleDown_effect PlCloseChannels_effect

lemma pl_step_effect:
  assumes "pl_step e s = Some s'"
  shows "pl_effect s s'"
  using assms by (cases e) (auto simp del: pl_step.simps intro: pl_effects frame_effect)

end
