(* ===== verification/PoolInvariants.thy ===== *)
theory PoolInvariants
  imports PoolEffects
begin

text \<open>
  What holds in every reachable state of the running pool: its shape, the counters until \<open>Close\<close>, the
  queue, and how the context and the channels follow \<open>Close\<close>.
\<close>

section \<open>Opening and closing\<close>

text \<open>The context and the channels of the pool follow the calls of \<open>Close\<close>.\<close>

definition life :: "'v WorkerPool \<Rightarrow> bool \<times> bool \<times> bool" where
  "life wp = (wp_closed wp, wp_cancelled wp, some_closed wp)"

definition pl_life :: "'v pl_sys \<Rightarrow> bool" where
  "pl_life s \<longleftrightarrow>
     (wp_closed (pl_wp s) \<longleftrightarrow> pl_closer s \<noteq> CloIdle) \<and> wp_cancelled (pl_wp s) = wp_closed (pl_wp s)
     \<and> (some_closed (pl_wp s) \<longrightarrow> pl_closer s = CloOver)"


lemma life_updates [simp]:
  "life (upd_stats f wp) = life wp" "life (set_worker i g wp) = life wp"
  "life (wp\<lparr>wp_heap := h\<rparr>) = life wp" "life (wp\<lparr>wp_workers := ws\<rparr>) = life wp"
  "life (wp\<lparr>wp_healthStatus := hs\<rparr>) = life wp" "life (wp\<lparr>wp_lastHealthCheck := t\<rparr>) = life wp"
  "ch_closed q = ch_closed (wp_jobQueue wp) \<Longrightarrow> life (wp\<lparr>wp_jobQueue := q\<rparr>) = life wp"
  "ch_closed r = ch_closed (wp_jobResults wp) \<Longrightarrow> life (wp\<lparr>wp_jobResults := r\<rparr>) = life wp"
  "ch_closed p = ch_closed (wp_workerPool wp) \<Longrightarrow> life (wp\<lparr>wp_workerPool := p\<rparr>) = life wp"
  by (simp_all add: life_def some_closed_def upd_stats_def set_worker_def)

lemma chan_closed_kept:
  "chan_recv c = Received x c' \<Longrightarrow> ch_closed c' = ch_closed c"
  "chan_send d y = Sent d' \<Longrightarrow> ch_closed d' = ch_closed d"
  "select_send pick over d y = SelSent d' \<Longrightarrow> ch_closed d' = ch_closed d"
  by (auto simp: chan_recv_Received_iff chan_send_Sent_iff select_send_SelSent_iff)

lemma life_operations [simp]:
  "life (snd (WorkerPool_GetResult pick wp)) = life wp"
  "life (WorkerPool_GetStats now wp) = life wp"
  "life (snd (WorkerPool_ScaleDown now n wp)) = life wp"
  "life (snd (submit_select pick over job wp)) = life wp"
  "life (mark_active i wp) = life wp" "life (mark_idle i wp) = life wp"
  "life (scaled_up now wp) = life wp" "life (count_result r wp) = life wp"
  "life (snd (add_worker ident wp)) = life wp" "life (Close_stop_workers wp) = life wp"
  by (auto simp: WorkerPool_GetResult_def WorkerPool_GetStats_def WorkerPool_calculateJobsPerSecond_def
      WorkerPool_ScaleDown_def submit_select_def enqueued_def mark_active_def mark_idle_def scaled_up_def
      count_result_def add_worker_def WorkerPool_createWorker_def Close_stop_workers_def Let_def chan_closed_kept
      split: recv_result.splits select_result.splits)

lemma life_results:
  "WorkerPool_GetResultWithTimeout expired pick timeout wp = Some r \<Longrightarrow> life (snd r) = life wp"
  "WorkerPool_processJobResults wp = Some wp' \<Longrightarrow> life wp' = life wp"
  "push_worker w wp = Some (Returns wp') \<Longrightarrow> life wp' = life wp"
  "WorkerPool_updateHealthStatus now h is wp = Returns wp' \<Longrightarrow> life wp' = life wp"
  by (auto simp: WorkerPool_GetResultWithTimeout_def WorkerPool_processJobResults_def push_worker_def
      WorkerPool_updateHealthStatus_def Let_def chan_closed_kept
      split: if_splits recv_result.splits send_result.splits option.splits)

lemma life_monitor:
  "WorkerPool_monitorHealth now wp = Returns wp' \<Longrightarrow> life wp' = life wp"
  "WorkerPool_collectMetrics now wp = Returns wp' \<Longrightarrow> life wp' = life wp"
  by (auto simp: WorkerPool_monitorHealth_def WorkerPool_collectMetrics_def Let_def
      split: option.splits dest!: life_results(4))

lemma life_moves [simp]:
  "life (pl_wp (pl_submitted job r s)) = life (snd r)" "pl_closer (pl_submitted job r s) = pl_closer s"
  "life (pl_wp (worker_panics i s)) = life (pl_wp s)" "pl_closer (worker_panics i s) = pl_closer s"
  "life (pl_wp (pl_create n s)) = life (pl_wp s)" "pl_closer (pl_create n s) = pl_closer s"
  by (simp_all add: pl_submitted_def worker_panics_def pl_create_def add_worker_def WorkerPool_createWorker_def
      Let_def split: outcome.split option.split)

lemma pl_ticked_life:
  "(\<And>wp. r = Returns wp \<Longrightarrow> life wp = life (pl_wp s)) \<Longrightarrow> life (pl_wp (pl_ticked r s)) = life (pl_wp s)"
  by (cases r) (simp_all add: pl_ticked_def)

text \<open>Only the three steps of \<open>Close\<close> change it.\<close>

lemma pl_step_life:
  assumes e: "pl_step e s = Some s'" and c: "e \<noteq> PlClose" "e \<noteq> PlCloseStop" "e \<noteq> PlCloseChannels"
  shows "life (pl_wp s') = life (pl_wp s) \<and> pl_closer s' = pl_closer s"
proof (cases e)
  case (PlEnqueue k pick)
  then show ?thesis using e by (auto split: if_splits prod.splits)
next
  case (PlGetResultTimeout expired pick timeout)
  then show ?thesis using e by (auto dest: life_results(1))
next
  case PlCollect
  then show ?thesis using e by (auto dest: life_results(2) split: if_splits)
next
  case PlMonitor
  then show ?thesis using e by (auto intro!: pl_ticked_life dest: life_monitor(1))
next
  case PlMetrics
  then show ?thesis using e by (auto intro!: pl_ticked_life dest: life_monitor(2))
next
  case (PlTake i)
  then show ?thesis using e by (auto simp: chan_closed_kept split: option.splits wk_pc.splits recv_result.splits)
next
  case PlScalePush
  then show ?thesis using e
    by (auto dest: life_results(3) split: option.splits prod.splits outcome.splits if_splits)
qed (use e c in \<open>auto simp: chan_closed_kept
    split: option.splits wk_pc.splits recv_result.splits send_result.splits sum.splits prod.splits if_splits\<close>)

lemma pl_life_step:
  assumes inv: "pl_life s" and e: "pl_step e s = Some s'"
  shows "pl_life s'"
proof -
  consider "e = PlClose" | "e = PlCloseStop" | "e = PlCloseChannels"
    | "e \<noteq> PlClose" "e \<noteq> PlCloseStop" "e \<noteq> PlCloseChannels" by blast
  then show ?thesis
  proof cases
    case 1
    then show ?thesis using inv e
      by (auto simp: pl_life_def WorkerPool_Close_flag_def some_closed_def split: if_splits)
  next
    case 2
    then show ?thesis using inv e life_operations(10) [of "pl_wp s"]
      by (auto simp: pl_life_def life_def simp del: life_operations split: closer.splits if_splits)
  next
    case 3
    have "wp_closed wp = wp_closed (pl_wp s) \<and> wp_cancelled wp = wp_cancelled (pl_wp s)"
      if "Close_channels (pl_now s) (pl_wp s) = Returns wp" for wp
      using that by (auto simp: Close_channels_def life_def split: option.splits dest!: life_results(4))
    then show ?thesis using 3 inv e
      by (cases "Close_channels (pl_now s) (pl_wp s)")
        (auto simp: pl_life_def pl_ticked_def split: closer.splits if_splits)
  next
    case 4
    from pl_step_life [OF e 4] inv show ?thesis by (simp add: pl_life_def life_def)
  qed
qed

section \<open>The invariants\<close>

text \<open>The shape of the pool: it holds for ever, also while it closes.\<close>

definition pl_shape :: "ConfigPool \<Rightarrow> 'v pl_sys \<Rightarrow> bool" where
  "pl_shape cfg s \<longleftrightarrow>
     (let wp = pl_wp s; pending = (case pl_scaling s of None \<Rightarrow> 0 | Some (r, w) \<Rightarrow> int r) in
      validateConfigPool cfg = None \<and> wp_config wp = cfg
      \<and> length (pl_pcs s) = length (wp_heap wp)
      \<and> ch_cap (wp_workerPool wp) = nat (cp_MaxWorkers cfg)
      \<and> length (ch_buf (wp_workerPool wp)) \<le> nat (cp_MaxWorkers cfg)
      \<and> ch_cap (wp_jobQueue wp) = nat (cp_QueueSize cfg)
      \<and> length (ch_buf (wp_jobQueue wp)) \<le> nat (cp_QueueSize cfg)
      \<and> cp_MinWorkers cfg \<le> int (length (wp_workers wp))
      \<and> int (length (wp_workers wp)) + pending \<le> cp_MaxWorkers cfg
      \<and> pl_accepted s = pl_taken s @ ch_buf (wp_jobQueue wp))"

text \<open>What is counted, until \<open>Close\<close> cancels the pool.\<close>

definition pl_pending :: "'v pl_sys \<Rightarrow> nat" where
  "pl_pending s = (if pl_scaling s = None then 0 else 1)"

definition pl_counts :: "'v pl_sys \<Rightarrow> bool" where
  "pl_counts s \<longleftrightarrow>
     (let wp = pl_wp s; st = wp_stats wp in
      pl_sent s + length (wp_heap wp)
        = length (ch_buf (wp_workerPool wp)) + countp is_returning (pl_pcs s) + pl_pending s
      \<and> length (pl_taken s) = pl_sent s + countp is_busy (pl_pcs s)
      \<and> ps_ActiveWorkers st = of_nat (countp is_busy (pl_pcs s))
      \<and> of_nat (countp is_busy (pl_pcs s)) + ps_IdleWorkers st = ps_TotalWorkers st
      \<and> ps_TotalWorkers st + of_nat (pl_pending s) = of_nat (length (wp_workers wp)))"

definition pl_queued :: "'v pl_sys \<Rightarrow> bool" where
  "pl_queued s \<longleftrightarrow>
     ps_QueuedJobs (wp_stats (pl_wp s)) + of_nat (pl_collected s) = of_nat (length (pl_accepted s))"

lemma wk_at_Some: "wk_at s i = Some pc \<longleftrightarrow> i < length (pl_pcs s) \<and> pl_pcs s ! i = pc"
  by (auto simp: wk_at_def)

lemma enqueued_simps [simp]:
  "wp_config (enqueued q wp) = wp_config wp" "wp_heap (enqueued q wp) = wp_heap wp"
  "wp_workers (enqueued q wp) = wp_workers wp" "wp_workerPool (enqueued q wp) = wp_workerPool wp"
  "wp_jobQueue (enqueued q wp) = q" "wp_cancelled (enqueued q wp) = wp_cancelled wp"
  "wp_stats (enqueued q wp) = (wp_stats wp)\<lparr>ps_QueuedJobs := ps_QueuedJobs (wp_stats wp) + 1\<rparr>"
  by (simp_all add: enqueued_def)

lemma mark_simps [simp]:
  "wp_config (mark_active i wp) = wp_config wp" "length (wp_heap (mark_active i wp)) = length (wp_heap wp)"
  "wp_workers (mark_active i wp) = wp_workers wp" "wp_workerPool (mark_active i wp) = wp_workerPool wp"
  "wp_jobQueue (mark_active i wp) = wp_jobQueue wp" "wp_cancelled (mark_active i wp) = wp_cancelled wp"
  "wp_stats (mark_active i wp) = (wp_stats wp)\<lparr>ps_ActiveWorkers := ps_ActiveWorkers (wp_stats wp) + 1,
     ps_IdleWorkers := ps_IdleWorkers (wp_stats wp) - 1\<rparr>"
  "wp_config (mark_idle i wp) = wp_config wp" "length (wp_heap (mark_idle i wp)) = length (wp_heap wp)"
  "wp_workers (mark_idle i wp) = wp_workers wp" "wp_workerPool (mark_idle i wp) = wp_workerPool wp"
  "wp_jobQueue (mark_idle i wp) = wp_jobQueue wp" "wp_cancelled (mark_idle i wp) = wp_cancelled wp"
  "wp_stats (mark_idle i wp) = (wp_stats wp)\<lparr>ps_ActiveWorkers := ps_ActiveWorkers (wp_stats wp) - 1,
     ps_IdleWorkers := ps_IdleWorkers (wp_stats wp) + 1\<rparr>"
  by (simp_all add: mark_active_def mark_idle_def set_worker_def)

lemma pl_create_simps [simp]:
  "pl_wp (pl_create r s) = snd (add_worker (int (length (wp_workers (pl_wp s)))) (pl_wp s))"
  "pl_pcs (pl_create r s) = pl_pcs s @ [WLoop]"
  "pl_scaling (pl_create r s) = Some (r, length (wp_heap (pl_wp s)))"
  "pl_accepted (pl_create r s) = pl_accepted s" "pl_taken (pl_create r s) = pl_taken s"
  "pl_sent (pl_create r s) = pl_sent s" "pl_collected (pl_create r s) = pl_collected s"
  by (simp_all add: pl_create_def add_worker_def WorkerPool_createWorker_def)

lemma scaled_up_simps [simp]:
  "wp_config (scaled_up now wp) = wp_config wp" "wp_heap (scaled_up now wp) = wp_heap wp"
  "wp_workers (scaled_up now wp) = wp_workers wp" "wp_workerPool (scaled_up now wp) = wp_workerPool wp"
  "wp_jobQueue (scaled_up now wp) = wp_jobQueue wp" "wp_cancelled (scaled_up now wp) = wp_cancelled wp"
  "ps_TotalWorkers (wp_stats (scaled_up now wp)) = ps_TotalWorkers (wp_stats wp)"
  "ps_IdleWorkers (wp_stats (scaled_up now wp)) = ps_IdleWorkers (wp_stats wp)"
  "ps_ActiveWorkers (wp_stats (scaled_up now wp)) = ps_ActiveWorkers (wp_stats wp)"
  "ps_QueuedJobs (wp_stats (scaled_up now wp)) = ps_QueuedJobs (wp_stats wp)"
  by (simp_all add: scaled_up_def)

text \<open>What an effective \<open>ScaleDown\<close> does.\<close>

lemma ScaleDown_effect:
  fixes now :: instant
  assumes "0 < n" and "cp_MinWorkers (wp_config wp) < int (length (wp_workers wp))"
  defines "k \<equiv> min n (int (length (wp_workers wp)) - cp_MinWorkers (wp_config wp))"
  defines "wp' \<equiv> snd (WorkerPool_ScaleDown now n wp)"
  shows "wp_config wp' = wp_config wp" "length (wp_heap wp') = length (wp_heap wp)"
    and "wp_workers wp' = take (nat (int (length (wp_workers wp)) - k)) (wp_workers wp)"
    and "wp_workerPool wp' = wp_workerPool wp" "wp_jobQueue wp' = wp_jobQueue wp"
    and "wp_cancelled wp' = wp_cancelled wp"
    and "ps_TotalWorkers (wp_stats wp') = ps_TotalWorkers (wp_stats wp) - of_int k"
    and "ps_IdleWorkers (wp_stats wp') = ps_IdleWorkers (wp_stats wp) - of_int k"
    and "ps_ActiveWorkers (wp_stats wp') = ps_ActiveWorkers (wp_stats wp)"
    and "ps_QueuedJobs (wp_stats wp') = ps_QueuedJobs (wp_stats wp)"
  using assms(1,2) unfolding k_def wp'_def
  by (simp_all add: WorkerPool_ScaleDown_def Let_def)

lemma ScaleDown_length:
  fixes now :: instant
  assumes "0 < n" and "cp_MinWorkers (wp_config wp) < int (length (wp_workers wp))"
    and "0 \<le> cp_MinWorkers (wp_config wp)"
  shows "int (length (wp_workers (snd (WorkerPool_ScaleDown now n wp))))
     = int (length (wp_workers wp)) - min n (int (length (wp_workers wp)) - cp_MinWorkers (wp_config wp))"
proof -
  let ?k = "min n (int (length (wp_workers wp)) - cp_MinWorkers (wp_config wp))"
  have k: "0 \<le> ?k" "?k \<le> int (length (wp_workers wp))" using assms by linarith+
  then have "nat (int (length (wp_workers wp)) - ?k) \<le> length (wp_workers wp)" by linarith
  from min_absorb2 [OF this] k(2) show ?thesis
    by (simp add: ScaleDown_effect(3) [OF assms(1,2)] del: min_less_iff_conj)
qed

lemma processJobResults_effect:
  assumes "WorkerPool_processJobResults wp = Some wp'"
  shows "wp_config wp' = wp_config wp" "wp_heap wp' = wp_heap wp" "wp_workers wp' = wp_workers wp"
    and "wp_workerPool wp' = wp_workerPool wp" "wp_jobQueue wp' = wp_jobQueue wp"
    and "wp_cancelled wp' = wp_cancelled wp"
    and "ps_TotalWorkers (wp_stats wp') = ps_TotalWorkers (wp_stats wp)"
    and "ps_IdleWorkers (wp_stats wp') = ps_IdleWorkers (wp_stats wp)"
    and "ps_ActiveWorkers (wp_stats wp') = ps_ActiveWorkers (wp_stats wp)"
    and "ps_QueuedJobs (wp_stats wp') = ps_QueuedJobs (wp_stats wp) - 1"
  using assms by (auto simp: WorkerPool_processJobResults_def count_result_def split: recv_result.splits)

lemma scale_up_count_Inr:
  "scale_up_count n wp = Inr k \<Longrightarrow>
     0 < k \<and> int (length (wp_workers wp)) + int k \<le> cp_MaxWorkers (wp_config wp)"
  by (auto simp: scale_up_count_def Let_def split: if_splits)

lemma pl_shape_step:
  assumes inv: "pl_shape cfg s" and e: "pl_step e s = Some s'"
  shows "pl_shape cfg s'"
proof -
  note i = inv [unfolded pl_shape_def Let_def]
  from pl_step_effect [OF e] show ?thesis
  proof cases
    case (accept job)
    then show ?thesis using i by (simp add: pl_shape_def)
  next
    case frame
    then show ?thesis using i by (simp add: pl_shape_def same_defs pl_rest_def)
  next
    case collect
    from processJobResults_effect [OF collect(1)] collect i show ?thesis by (simp add: pl_shape_def)
  next
    case (move i pc pc')
    then show ?thesis using i by (simp add: pl_shape_def same_defs pl_rest_def)
  next
    case (take_job i job q)
    then show ?thesis using i by (simp add: pl_shape_def)
  next
    case (send i r c)
    then show ?thesis using i by (simp add: pl_shape_def)
  next
    case (return i)
    then show ?thesis using i by (simp add: pl_shape_def)
  next
    case (scale n k)
    from scale_up_count_Inr [OF scale(2)] scale(1,3) i show ?thesis
      by (simp add: pl_shape_def add_worker_simps)
  next
    case (push remaining w wp)
    then show ?thesis using i by (auto simp: pl_shape_def push_worker_Some add_worker_simps)
  next
    case (scale_down n)
    have "1 \<le> cp_MinWorkers cfg" using i validateConfigPool_None(1) by blast
    then have l: "int (length (wp_workers (pl_wp s'))) = int (length (wp_workers (pl_wp s)))
        - min n (int (length (wp_workers (pl_wp s))) - cp_MinWorkers cfg)"
      using ScaleDown_length [OF scale_down(2,3)] scale_down(4) i by simp
    then have "cp_MinWorkers cfg \<le> int (length (wp_workers (pl_wp s')))"
      "int (length (wp_workers (pl_wp s'))) \<le> cp_MaxWorkers cfg"
      using scale_down(1,2) i by auto
    with scale_down(1,4) i show ?thesis
      by (simp add: pl_shape_def ScaleDown_effect(1,2,4-) [OF scale_down(2,3)])
  next
    case closed
    then show ?thesis using i by (auto simp: pl_shape_def same_frame_def pl_rest_def split: option.splits)
  qed
qed

lemma cancelled_mono: "pl_step e s = Some s' \<Longrightarrow> wp_cancelled (pl_wp s) \<Longrightarrow> wp_cancelled (pl_wp s')"
proof (drule pl_step_effect, erule pl_effect.cases)
  fix remaining w wp
  assume "push_worker w (pl_wp s) = Some (Returns wp)" "wp_cancelled (pl_wp s)"
    "s' = (if remaining = 0 then s\<lparr>pl_wp := scaled_up (pl_now s) wp, pl_scaling := None\<rparr>
             else pl_create (remaining - 1) (s\<lparr>pl_wp := wp\<rparr>))"
  then show "wp_cancelled (pl_wp s')" by (simp add: push_worker_Some add_worker_simps)
next
  fix n
  assume "wp_cancelled (pl_wp s)" "s' = s\<lparr>pl_wp := snd (WorkerPool_ScaleDown (pl_now s) n (pl_wp s))\<rparr>"
    "0 < n" "cp_MinWorkers (wp_config (pl_wp s)) < int (length (wp_workers (pl_wp s)))"
  then show "wp_cancelled (pl_wp s')" by (simp add: ScaleDown_effect)
next
  assume "WorkerPool_processJobResults (pl_wp s) = Some (pl_wp s')" "wp_cancelled (pl_wp s)"
  then show "wp_cancelled (pl_wp s')" by (simp add: processJobResults_effect)
qed (simp_all add: same_defs add_worker_simps)

lemma wk_at_countp:
  assumes "wk_at s i = Some pc"
  shows "countp P ((pl_pcs s)[i := pc']) + of_bool (P pc) = countp P (pl_pcs s) + of_bool (P pc')"
  using assms countp_update [of i "pl_pcs s" P pc'] by (auto simp: wk_at_Some)

lemma counts_push:
  assumes inv: "pl_counts s" and push: "pl_scaling s = Some (remaining, w)"
      "push_worker w (pl_wp s) = Some (Returns wp)"
      "s' = (if remaining = 0 then s\<lparr>pl_wp := scaled_up (pl_now s) wp, pl_scaling := None\<rparr>
             else pl_create (remaining - 1) (s\<lparr>pl_wp := wp\<rparr>))"
  shows "pl_counts s'"
proof -
  note i = inv [unfolded pl_counts_def Let_def]
  have eff: "wp_heap wp = wp_heap (pl_wp s)" "wp_workers wp = wp_workers (pl_wp s)"
      "length (ch_buf (wp_workerPool wp)) = Suc (length (ch_buf (wp_workerPool (pl_wp s))))"
      "ps_TotalWorkers (wp_stats wp) = ps_TotalWorkers (wp_stats (pl_wp s)) + 1"
      "ps_IdleWorkers (wp_stats wp) = ps_IdleWorkers (wp_stats (pl_wp s)) + 1"
      "ps_ActiveWorkers (wp_stats wp) = ps_ActiveWorkers (wp_stats (pl_wp s))"
    using push(2) by (simp_all add: push_worker_Some)
  have pend: "pl_pending s = 1" using push(1) by (simp add: pl_pending_def)
  have a: "of_nat (countp is_busy (pl_pcs s)) + (ps_IdleWorkers (wp_stats (pl_wp s)) + 1)
      = ps_TotalWorkers (wp_stats (pl_wp s)) + 1"
    using i by (metis add.assoc)
  have b: "ps_TotalWorkers (wp_stats (pl_wp s)) + 1 = of_nat (length (wp_workers (pl_wp s)))"
    using conjunct2 [OF conjunct2 [OF conjunct2 [OF conjunct2 [OF i]]]] by (simp add: pend)
  show ?thesis
  proof (cases "remaining = 0")
    case True
    then have s': "pl_wp s' = scaled_up (pl_now s) wp" "pl_pcs s' = pl_pcs s" "pl_sent s' = pl_sent s"
        "pl_taken s' = pl_taken s" "pl_pending s' = 0"
      using push(3) by (simp_all add: pl_pending_def)
    show ?thesis
      unfolding pl_counts_def Let_def s' scaled_up_simps eff using i pend a b by auto
  next
    case False
    then have s': "pl_wp s' = snd (add_worker (int (length (wp_workers wp))) wp)"
        "pl_pcs s' = pl_pcs s @ [WLoop]" "pl_sent s' = pl_sent s"
        "pl_taken s' = pl_taken s" "pl_pending s' = 1"
      using push(3) by (simp_all add: pl_pending_def)
    have c: "countp is_busy (pl_pcs s @ [WLoop]) = countp is_busy (pl_pcs s)"
        "countp is_returning (pl_pcs s @ [WLoop]) = countp is_returning (pl_pcs s)" by simp_all
    have d: "ps_TotalWorkers (wp_stats (pl_wp s)) + 1 + of_nat 1
        = of_nat (length (wp_workers (pl_wp s) @ [length (wp_heap (pl_wp s))]))"
      unfolding b by simp
    show ?thesis
      unfolding pl_counts_def Let_def s' add_worker_simps eff c using i pend a d by auto
  qed
qed

lemma counts_scale_down:
  assumes inv: "pl_counts s" and sh: "pl_shape cfg s" and scale_down: "pl_scaling s = None" "0 < n"
      "cp_MinWorkers (wp_config (pl_wp s)) < int (length (wp_workers (pl_wp s)))"
      "s' = s\<lparr>pl_wp := snd (WorkerPool_ScaleDown (pl_now s) n (pl_wp s))\<rparr>"
  shows "pl_counts s'"
proof -
  note i = inv [unfolded pl_counts_def Let_def]
  have "1 \<le> cp_MinWorkers cfg" "wp_config (pl_wp s) = cfg"
    using sh validateConfigPool_None(1) unfolding pl_shape_def Let_def by blast+
  then have l: "int (length (wp_workers (pl_wp s'))) = int (length (wp_workers (pl_wp s)))
      - min n (int (length (wp_workers (pl_wp s))) - cp_MinWorkers cfg)"
    using ScaleDown_length [OF scale_down(2,3)] scale_down(4) by simp
  define K where "K = (of_int (min n (int (length (wp_workers (pl_wp s))) - cp_MinWorkers cfg)) :: counter)"
  have "(of_nat (length (wp_workers (pl_wp s'))) :: counter)
      = of_int (int (length (wp_workers (pl_wp s'))))" by simp
  also have "\<dots> = of_nat (length (wp_workers (pl_wp s))) - K"
    unfolding l K_def by simp
  finally have W: "(of_nat (length (wp_workers (pl_wp s'))) :: counter)
      = of_nat (length (wp_workers (pl_wp s))) - K" .
  have wp': "pl_wp s' = snd (WorkerPool_ScaleDown (pl_now s) n (pl_wp s))" using scale_down(4) by simp
  have TI: "ps_TotalWorkers (wp_stats (pl_wp s')) = ps_TotalWorkers (wp_stats (pl_wp s)) - K"
      "ps_IdleWorkers (wp_stats (pl_wp s')) = ps_IdleWorkers (wp_stats (pl_wp s)) - K"
    unfolding wp' K_def using ScaleDown_effect(7,8) [OF scale_down(2,3)] \<open>wp_config (pl_wp s) = cfg\<close> by simp_all
  have rest: "length (wp_heap (pl_wp s')) = length (wp_heap (pl_wp s))"
      "wp_workerPool (pl_wp s') = wp_workerPool (pl_wp s)"
      "ps_ActiveWorkers (wp_stats (pl_wp s')) = ps_ActiveWorkers (wp_stats (pl_wp s))"
      "pl_pcs s' = pl_pcs s" "pl_sent s' = pl_sent s" "pl_taken s' = pl_taken s" "pl_scaling s' = None"
    unfolding wp' using ScaleDown_effect(2,4,9) [OF scale_down(2,3)] scale_down(1,4) by simp_all
  note j = i [unfolded pl_pending_def scale_down(1)]
  have a: "of_nat (countp is_busy (pl_pcs s)) + (ps_IdleWorkers (wp_stats (pl_wp s)) - K)
      = ps_TotalWorkers (wp_stats (pl_wp s)) - K"
    using j by (metis add_diff_eq)
  have "ps_TotalWorkers (wp_stats (pl_wp s)) = of_nat (length (wp_workers (pl_wp s)))"
    using conjunct2 [OF conjunct2 [OF conjunct2 [OF conjunct2 [OF j]]]] by simp
  then have b: "ps_TotalWorkers (wp_stats (pl_wp s)) - K
      + of_nat (if (None :: (nat \<times> nat) option) = None then 0 else 1)
      = of_nat (length (wp_workers (pl_wp s))) - K" by simp
  show ?thesis
    unfolding pl_counts_def Let_def pl_pending_def TI W rest using j a b by blast
qed

lemma pl_counts_step:
  assumes inv: "pl_counts s" and sh: "pl_shape cfg s" and life: "pl_life s"
    and e: "pl_step e s = Some s'" and nc: "\<not> wp_cancelled (pl_wp s')"
  shows "pl_counts s'"
proof -
  note i = inv [unfolded pl_counts_def Let_def]
  from pl_step_effect [OF e] show ?thesis
  proof cases
    case (accept job)
    then show ?thesis using i by (simp add: pl_counts_def pl_pending_def)
  next
    case frame
    then show ?thesis using i by (simp add: pl_counts_def pl_pending_def same_defs pl_rest_def)
  next
    case collect
    from processJobResults_effect [OF collect(1)] collect i show ?thesis
      by (simp add: pl_counts_def pl_pending_def)
  next
    case (move i pc pc')
    have "countp P ((pl_pcs s)[i := pc']) = countp P (pl_pcs s)" if "P pc' = P pc" for P
      using wk_at_countp [OF move(1), of P pc'] that by simp
    then show ?thesis using i move nc by (simp add: pl_counts_def pl_pending_def same_defs pl_rest_def)
  next
    case (take_job i job q)
    have "countp is_busy ((pl_pcs s)[i := WRunning job (pl_now s)]) = Suc (countp is_busy (pl_pcs s))"
      "countp is_returning ((pl_pcs s)[i := WRunning job (pl_now s)]) = countp is_returning (pl_pcs s)"
      using wk_at_countp [OF take_job(1), of is_busy "WRunning job (pl_now s)"]
        wk_at_countp [OF take_job(1), of is_returning "WRunning job (pl_now s)"] by simp_all
    then show ?thesis using i take_job by (simp add: pl_counts_def pl_pending_def)
  next
    case (send i r c)
    have "Suc (countp is_busy ((pl_pcs s)[i := WReturning])) = countp is_busy (pl_pcs s)"
      "countp is_returning ((pl_pcs s)[i := WReturning]) = Suc (countp is_returning (pl_pcs s))"
      using wk_at_countp [OF send(1), of is_busy WReturning]
        wk_at_countp [OF send(1), of is_returning WReturning] by simp_all
    moreover from this(1) have "(of_nat (countp is_busy (pl_pcs s)) :: counter)
        = of_nat (countp is_busy ((pl_pcs s)[i := WReturning])) + 1"
      by (metis of_nat_Suc add.commute)
    ultimately show ?thesis using i send by (simp add: pl_counts_def pl_pending_def algebra_simps)
  next
    case (return i)
    have "countp is_busy ((pl_pcs s)[i := WLoop]) = countp is_busy (pl_pcs s)"
      "Suc (countp is_returning ((pl_pcs s)[i := WLoop])) = countp is_returning (pl_pcs s)"
      using wk_at_countp [OF return(1), of is_busy WLoop]
        wk_at_countp [OF return(1), of is_returning WLoop] by simp_all
    then show ?thesis using i return by (simp add: pl_counts_def pl_pending_def)
  next
    case (scale n k)
    then show ?thesis using i by (simp add: pl_counts_def pl_pending_def add_worker_simps)
  next
    case (push remaining w wp)
    then show ?thesis by (rule counts_push [OF inv])
  next
    case (scale_down n)
    then show ?thesis by (rule counts_scale_down [OF inv sh])
  next
    case closed
    then have "wp_cancelled (pl_wp s)" using life by (auto simp: pl_life_def)
    with closed(2) nc show ?thesis by (simp add: same_frame_def)
  qed
qed

lemma pl_queued_step:
  assumes inv: "pl_queued s" and e: "pl_step e s = Some s'"
  shows "pl_queued s'"
proof -
  note i = inv [unfolded pl_queued_def]
  from pl_step_effect [OF e] show ?thesis
  proof cases
    case (accept job)
    then show ?thesis using i by (simp add: pl_queued_def algebra_simps)
  next
    case frame
    then show ?thesis using i by (simp add: pl_queued_def same_defs pl_rest_def)
  next
    case collect
    have "ps_QueuedJobs (wp_stats (pl_wp s')) + of_nat (Suc (pl_collected s))
        = ps_QueuedJobs (wp_stats (pl_wp s)) + of_nat (pl_collected s)"
      by (simp add: processJobResults_effect(10) [OF collect(1)])
    then show ?thesis using i collect by (simp add: pl_queued_def)
  next
    case (move i pc pc')
    then show ?thesis using i by (simp add: pl_queued_def same_defs pl_rest_def)
  next
    case (push remaining w wp)
    then show ?thesis using i by (auto simp: pl_queued_def push_worker_Some add_worker_simps)
  next
    case (scale_down n)
    then show ?thesis using i by (simp add: pl_queued_def ScaleDown_effect(10) [OF scale_down(2,3)])
  qed (use i in \<open>simp_all add: pl_queued_def add_worker_simps same_frame_def pl_rest_def\<close>)
qed

lemma pl_reach_inv:
  assumes "pl_reach cfg s"
  shows "pl_shape cfg s \<and> (\<not> wp_cancelled (pl_wp s) \<longrightarrow> pl_counts s) \<and> pl_queued s \<and> pl_life s"
  using assms
proof (induction rule: pl_reach.induct)
  case (init now wp)
  note st = NewPool_state [OF init]
  note v = validateConfigPool_None [OF st(1)]
  have "countp P (replicate n WLoop) = (if P WLoop then n else 0)" for P :: "'a wk_pc \<Rightarrow> bool" and n
    by (simp add: countp_def)
  with st v show ?case
    by (simp add: pl_start_def pl_shape_def pl_counts_def pl_queued_def pl_pending_def pl_life_def
        some_closed_def Let_def)
next
  case (step s e s')
  then show ?case using pl_shape_step pl_counts_step pl_queued_step cancelled_mono pl_life_step by metis
qed

end
