(* ===== verification/PoolProps.thy ===== *)
theory PoolProps
  imports PoolInvariants
begin

text \<open>
  The properties of the worker pool: how many jobs it can run, in which order, what its counters
  say, what scaling keeps, and what a submission and a job return.
\<close>

section \<open>The running pool\<close>

text \<open>Property C19: a pool runs at most MaxWorkers jobs, over its whole life. Every worker sends itself
  to the channel workerPool after each job and nothing ever receives from that channel, so that it
  fills up and the workers block. As long as the pool is not closed, the number of jobs ever taken
  out of the queue is at most MaxWorkers, plus one while a ScaleUp is blocked.\<close>

theorem pool_runs_at_most_MaxWorkers_jobs:
  assumes "pl_reach cfg s" and "\<not> wp_cancelled (pl_wp s)"
  shows "int (length (pl_taken s)) \<le> cp_MaxWorkers cfg + (if pl_scaling s = None then 0 else 1)"
proof -
  from pl_reach_inv [OF assms(1)] assms(2) have sh: "pl_shape cfg s" and c: "pl_counts s" by auto
  have "countp is_busy xs + countp is_returning xs \<le> length xs" for xs :: "'a wk_pc list"
  proof (induction xs)
    case (Cons x xs)
    then show ?case by (cases x) auto
  qed simp
  from this [of "pl_pcs s"] have "length (pl_taken s) \<le> nat (cp_MaxWorkers cfg) + pl_pending s"
    using sh c unfolding pl_shape_def pl_counts_def Let_def by linarith
  moreover have "0 \<le> cp_MaxWorkers cfg"
    using sh validateConfigPool_None [of cfg] unfolding pl_shape_def Let_def by linarith
  moreover have "pl_pending s = (if pl_scaling s = None then 0 else 1)" by (simp add: pl_pending_def)
  ultimately show ?thesis by (auto split: if_splits)
qed

text \<open>A pool of one worker that has run its only job.\<close>

definition small_cfg :: "int \<Rightarrow> ConfigPool" where
  "small_cfg m = ResourceConstrainedConfigPool\<lparr>cp_MaxWorkers := m\<rparr>"

definition small_pool :: "int \<Rightarrow> nat WorkerPool" where
  "small_pool m = upd_stats (\<lambda>s. s\<lparr>ps_TotalWorkers := 1, ps_IdleWorkers := 1\<rparr>)
     ((make_WorkerPool 0 (small_cfg m))\<lparr>wp_workerPool := (make_chan (nat m))\<lparr>ch_buf := [0]\<rparr>,
       wp_workers := [0],
       wp_heap := [\<lparr>wk_id = 0, wk_stopChan = make_chan 1, wk_stats = zero_WorkerStats,
                    wk_active = False, wk_stopped = False\<rparr>]\<rparr>)"

lemma small_valid: "1 \<le> m \<Longrightarrow> m \<le> 1000 \<Longrightarrow> validateConfigPool (small_cfg m) = None"
  by (simp add: small_cfg_def ResourceConstrainedConfigPool_def validateConfigPool_def pool_limits)

lemma small_new: "1 \<le> m \<Longrightarrow> m \<le> 1000 \<Longrightarrow> NewPool 0 (small_cfg m) = Some (Returns (Inr (small_pool m)))"
  using small_valid [of m]
  by (simp add: NewPool_Inr_iff WorkerPool_initializeWorkers_def make_WorkerPool_def small_pool_def
      small_cfg_def ResourceConstrainedConfigPool_def add_worker_def WorkerPool_createWorker_def
      push_worker_def chan_send_def make_chan_def zero_PoolStatsPool_def upd_stats_def)

definition some_job :: "nat JobPool" where
  "some_job = \<lparr>jp_ID = ''a'', jp_Task = Some (\<lambda>t. (t, Returns (Some 0, None))), jp_Priority = 0,
     jp_Timeout = 0, jp_Created = None\<rparr>"

definition used_events :: "nat pl_event list" where
  "used_events = [PlSubmit some_job, PlSubmit some_job, PlEnqueue 1 False, PlEnqueue 0 False, PlCheck 0, PlTake 0,
     PlFinish 0 False, PlSend 0]"

definition used_pool :: "nat pl_sys" where
  "used_pool = the (pl_run used_events (pl_start 0 (small_pool 1)))"

lemmas pool_eval = pl_start_def small_pool_def pl_submitted_def wk_at_def pl_move_def
  submit_check_def submit_select_def validateJobPool_def job_defaults_def select_send_def chan_send_def
  chan_recv_def enqueued_def upd_stats_def mark_active_def mark_idle_def set_worker_def
  Worker_processJob_def Worker_executeJob_def Worker_updateJobStats_def some_job_def
  make_WorkerPool_def make_chan_def zero_PoolStatsPool_def ctx_err_def passed_def WithTimeout_def
  Background_def DefaultJobTimeoutPool_def small_cfg_def ResourceConstrainedConfigPool_def
  zero_JobResultPool_def Let_def

lemma used_run: "pl_run used_events (pl_start 0 (small_pool 1)) = Some used_pool"
  and used_simps: "pl_pcs used_pool = [WReturning]" "length (pl_taken used_pool) = 1"
    "length (pl_accepted used_pool) = 2" "pl_scaling used_pool = None"
    "\<not> wp_cancelled (pl_wp used_pool)" "pl_step (PlReturn 0) used_pool = None"
  by (simp_all add: used_pool_def used_events_def pool_eval)

lemma used_reach: "pl_reach (small_cfg 1) used_pool"
  using pl_reach_run [OF pl_reach.init [OF small_new [of 1]] used_run] by simp

theorem pool_runs_at_most_MaxWorkers_jobs_witness:
  "length (pl_accepted used_pool) = 2 \<and> int (length (pl_taken used_pool)) \<le> 1
   \<and> pl_step (PlReturn 0) used_pool = None"
  using pool_runs_at_most_MaxWorkers_jobs [OF used_reach] used_simps
  by (simp add: small_cfg_def)

text \<open>Property C21: jobs start in the order in which they were accepted, none is lost in the queue and
  none starts twice: the accepted jobs are the jobs taken so far followed by the jobs in the queue,
  which never holds more than QueueSize jobs.\<close>

theorem pool_fifo:
  assumes "pl_reach cfg s"
  shows "pl_accepted s = pl_taken s @ ch_buf (wp_jobQueue (pl_wp s))
    \<and> int (length (ch_buf (wp_jobQueue (pl_wp s)))) \<le> cp_QueueSize cfg"
proof -
  from pl_reach_inv [OF assms] have sh: "pl_shape cfg s" by auto
  then have "1 \<le> cp_QueueSize cfg" "length (ch_buf (wp_jobQueue (pl_wp s))) \<le> nat (cp_QueueSize cfg)"
    using validateConfigPool_None(4) unfolding pl_shape_def Let_def by blast+
  then show ?thesis using sh unfolding pl_shape_def Let_def by linarith
qed

theorem pool_fifo_witness:
  "pl_accepted used_pool = pl_taken used_pool @ ch_buf (wp_jobQueue (pl_wp used_pool))"
  using pool_fifo [OF used_reach] by blast

text \<open>Property C23: scaling keeps the pool inside its limits and its counters consistent. In every
  reachable state the number of workers lies between MinWorkers and MaxWorkers; until Close the
  active workers are those that hold a job, active and idle workers add up to the total, and the
  total counts the workers (all but one whose ScaleUp is in progress).\<close>

theorem pool_worker_counts:
  assumes "pl_reach cfg s"
  shows "cp_MinWorkers cfg \<le> int (length (wp_workers (pl_wp s)))
    \<and> int (length (wp_workers (pl_wp s))) \<le> cp_MaxWorkers cfg
    \<and> (\<not> wp_cancelled (pl_wp s) \<longrightarrow>
        ps_ActiveWorkers (wp_stats (pl_wp s)) = of_nat (countp is_busy (pl_pcs s))
        \<and> ps_ActiveWorkers (wp_stats (pl_wp s)) + ps_IdleWorkers (wp_stats (pl_wp s))
            = ps_TotalWorkers (wp_stats (pl_wp s))
        \<and> ps_TotalWorkers (wp_stats (pl_wp s)) + (if pl_scaling s = None then 0 else 1)
            = of_nat (length (wp_workers (pl_wp s))))"
proof -
  from pl_reach_inv [OF assms] have sh: "pl_shape cfg s"
    and c: "\<not> wp_cancelled (pl_wp s) \<longrightarrow> pl_counts s" by auto
  have "int (length (wp_workers (pl_wp s))) \<le> cp_MaxWorkers cfg"
    using sh unfolding pl_shape_def Let_def by (auto split: option.splits)
  moreover have "cp_MinWorkers cfg \<le> int (length (wp_workers (pl_wp s)))"
    using sh unfolding pl_shape_def Let_def by blast
  ultimately show ?thesis using c by (auto simp: pl_counts_def pl_pending_def Let_def)
qed

theorem pool_worker_counts_witness:
  "ps_ActiveWorkers (wp_stats (pl_wp used_pool)) + ps_IdleWorkers (wp_stats (pl_wp used_pool))
     = ps_TotalWorkers (wp_stats (pl_wp used_pool))"
  using pool_worker_counts [OF used_reach] used_simps by blast

text \<open>QueuedJobs counts the accepted jobs whose results processJobResults has taken off the
  result channel, so a result that a client fetches with GetResult is never subtracted.\<close>

theorem pool_queued_counter:
  assumes "pl_reach cfg s"
  shows "ps_QueuedJobs (wp_stats (pl_wp s)) = of_nat (length (pl_accepted s)) - of_nat (pl_collected s)"
  using pl_reach_inv [OF assms] by (auto simp: pl_queued_def eq_diff_eq)

theorem pool_queued_counter_witness:
  "ps_QueuedJobs (wp_stats (pl_wp used_pool)) = 2 - of_nat (pl_collected used_pool)"
  using pool_queued_counter [OF used_reach] by (simp add: used_simps)

section \<open>Single operations\<close>

text \<open>The constructor never blocks. For every valid configuration NewPool returns a pool
  with MinWorkers workers, all idle.\<close>

theorem NewPool_succeeds:
  assumes "validateConfigPool cfg = None"
  shows "\<exists>wp :: 'v WorkerPool. NewPool now cfg = Some (Returns (Inr wp))
    \<and> int (length (wp_workers wp)) = cp_MinWorkers cfg
    \<and> ps_IdleWorkers (wp_stats wp) = of_int (cp_MinWorkers cfg)"
proof -
  obtain wp :: "'v WorkerPool" where wp: "NewPool now cfg = Some (Returns (Inr wp))"
    using NewPool_ok [OF assms] by blast
  have "1 \<le> cp_MinWorkers cfg" using validateConfigPool_None(1) [OF assms] .
  with NewPool_state(4,13) [OF wp] wp show ?thesis by auto
qed

theorem NewPool_succeeds_witness:
  "\<exists>wp :: nat WorkerPool. NewPool 0 (small_cfg 1) = Some (Returns (Inr wp)) \<and> length (wp_workers wp) = 1"
proof -
  obtain wp :: "nat WorkerPool" where "NewPool 0 (small_cfg 1) = Some (Returns (Inr wp))"
      "int (length (wp_workers wp)) = cp_MinWorkers (small_cfg 1)"
    using NewPool_succeeds [of "small_cfg 1" 0] small_valid [of 1] by auto
  then show ?thesis by (auto simp: small_cfg_def ResourceConstrainedConfigPool_def)
qed

text \<open>The loop of SubmitBatch on valid jobs.\<close>

lemma submit_all_valid:
  "\<not> wp_closed wp \<Longrightarrow> \<not> ch_closed (wp_jobQueue wp) \<Longrightarrow> \<forall>job\<in>set jobs. validateJobPool job = None
   \<Longrightarrow> length (ch_buf (wp_jobQueue wp)) \<le> ch_cap (wp_jobQueue wp)
   \<Longrightarrow> k = min (length jobs) (ch_cap (wp_jobQueue wp) - length (ch_buf (wp_jobQueue wp)))
   \<Longrightarrow> fst (submit_all now jobs wp) = Returns (replicate k None
         @ replicate (length jobs - k) (Some (Sentinel (EPoolOp ErrPoolJobQueueFull))))
     \<and> ch_buf (wp_jobQueue (snd (submit_all now jobs wp)))
         = ch_buf (wp_jobQueue wp) @ map (job_defaults now) (take k jobs)"
proof (induction jobs arbitrary: wp k)
  case Nil
  then show ?case by simp
next
  case (Cons job jobs)
  show ?case
  proof (cases "length (ch_buf (wp_jobQueue wp)) < ch_cap (wp_jobQueue wp)")
    case True
    let ?wp = "put_job (job_defaults now job) wp"
    have s: "WorkerPool_Submit now job wp = (Returns None, ?wp)"
      using True Cons.prems by (intro Submit_accepts) (simp add: accepts_def)
    have c: "wp_closed ?wp = wp_closed wp" by (simp add: enqueued_def)
    obtain j where j: "k = Suc j"
      "j = min (length jobs) (ch_cap (wp_jobQueue wp) - Suc (length (ch_buf (wp_jobQueue wp))))"
      using True Cons.prems(5) by (cases k) auto
    from Cons.IH [of ?wp j] Cons.prems(1-4) True s c j show ?thesis
      by (auto split: prod.splits outcome.splits)
  next
    case False
    then have k: "k = 0" using Cons.prems(4,5) by simp
    have s: "WorkerPool_Submit now job wp = (Returns (Some (Sentinel (EPoolOp ErrPoolJobQueueFull))), wp)"
      using False Cons.prems
      by (simp add: WorkerPool_Submit_def submit_check_def submit_select_def select_send_def chan_send_def)
    from Cons.IH [of wp 0] Cons.prems(1-4) False s k show ?thesis
      by (auto split: prod.splits outcome.splits)
  qed
qed

text \<open>SubmitBatch is backpressure by prefix. On an open pool and valid jobs it accepts, in
  order, exactly the first jobs that fit into the queue, reports ErrPoolJobQueueFull for each of the
  others, and returns a batch error exactly if there are any.\<close>

theorem SubmitBatch_prefix:
  assumes "\<not> wp_closed wp" and "\<not> ch_closed (wp_jobQueue wp)" and "jobs \<noteq> []"
    and "\<forall>job\<in>set jobs. validateJobPool job = None"
    and "length (ch_buf (wp_jobQueue wp)) \<le> ch_cap (wp_jobQueue wp)"
    and "k = min (length jobs) (ch_cap (wp_jobQueue wp) - length (ch_buf (wp_jobQueue wp)))"
  shows "\<exists>berr. fst (WorkerPool_SubmitBatch now jobs wp) = Returns (replicate k None
         @ replicate (length jobs - k) (Some (Sentinel (EPoolOp ErrPoolJobQueueFull))), berr)
     \<and> (berr = None \<longleftrightarrow> k = length jobs)
     \<and> ch_buf (wp_jobQueue (snd (WorkerPool_SubmitBatch now jobs wp)))
         = ch_buf (wp_jobQueue wp) @ map (job_defaults now) (take k jobs)"
proof -
  let ?e = "Some (Sentinel (EPoolOp ErrPoolJobQueueFull))"
  obtain wp' where x: "submit_all now jobs wp
        = (Returns (replicate k None @ replicate (length jobs - k) ?e), wp')"
      "ch_buf (wp_jobQueue wp') = ch_buf (wp_jobQueue wp) @ map (job_defaults now) (take k jobs)"
    using submit_all_valid [OF assms(1,2,4-6), of now] by (cases "submit_all now jobs wp") auto
  have "k \<le> length jobs" using assms(6) by simp
  then have "list_all is_ok (replicate k None @ replicate (length jobs - k) ?e) \<longleftrightarrow> k = length jobs"
    by (auto simp: list_all_iff)
  with x assms(1,3) show ?thesis by (simp add: WorkerPool_SubmitBatch_def)
qed

theorem SubmitBatch_prefix_witness:
  "\<exists>berr. fst (WorkerPool_SubmitBatch 0 [some_job] (small_pool 1)) = Returns ([None], berr)"
  using SubmitBatch_prefix [of "small_pool 1" "[some_job]" 1 0]
  by (auto simp: small_pool_def make_WorkerPool_def some_job_def validateJobPool_def small_cfg_def
      ResourceConstrainedConfigPool_def)

text \<open>A job does not hold its worker longer than its timeout. A job accepted by Submit has
  a positive timeout, and a worker that processes it has a result at the latest when the timeout has
  passed, whatever the task does; a task that panics gives an error result.\<close>

theorem processJob_returns:
  assumes "validateJobPool job = None" and "now + jp_Timeout (job_defaults t job) \<le> wake"
  shows "0 < jp_Timeout (job_defaults t job)
    \<and> (\<exists>r w'. Worker_processJob now wake pick (job_defaults t job) w = Some (r, w')
        \<and> ws_JobsProcessed (wk_stats w') = ws_JobsProcessed (wk_stats w) + 1
        \<and> (\<forall>task t' p. jp_Task job = Some task \<longrightarrow> task now = (t', Panics p) \<longrightarrow> jr_Error r \<noteq> None))"
proof -
  let ?j = "job_defaults t job"
  have j: "jp_Task ?j = jp_Task job" "0 < jp_Timeout ?j"
    using assms(1)
    by (auto simp: job_defaults_def Let_def validateJobPool_def DefaultJobTimeoutPool_def
        MinJobTimeoutLimitPool_def split: if_splits)
  obtain task where task: "jp_Task job = Some task"
    using assms(1) by (auto simp: validateJobPool_def split: if_splits)
  let ?c = "WithTimeout now (jp_Timeout ?j) Background"
  obtain e where e: "ctx_err wake ?c = Some e" using WithTimeout_done [OF assms(2)] by fastforce
  have "ctx_err now ?c = None"
    using j(2) by (simp add: ctx_err_def passed_def WithTimeout_def Background_def)
  then have "\<exists>v err w1. Worker_executeJob now wake pick ?c task w = Some ((v, err), w1)
      \<and> ws_JobsProcessed (wk_stats w1) = ws_JobsProcessed (wk_stats w)
      \<and> (\<forall>t' p. task now = (t', Panics p) \<longrightarrow> err \<noteq> None)"
    using e by (cases "task now"; cases "snd (task now)") (auto simp: Worker_executeJob_def Let_def)
  then obtain v err w1 where x: "Worker_executeJob now wake pick ?c task w = Some ((v, err), w1)"
      "ws_JobsProcessed (wk_stats w1) = ws_JobsProcessed (wk_stats w)"
      "\<forall>t' p. task now = (t', Panics p) \<longrightarrow> err \<noteq> None" by (elim exE conjE) (rule that)
  let ?r = "zero_JobResultPool\<lparr>jr_JobID := jp_ID ?j, jr_WorkerID := wk_id w, jr_Result := v,
      jr_Error := err, jr_Duration := time_sub wake now\<rparr>"
  have "Worker_processJob now wake pick ?j w = Some (?r, Worker_updateJobStats wake ?r w1)"
    using x(1) j task by (simp add: Worker_processJob_def Let_def)
  moreover have "ws_JobsProcessed (wk_stats (Worker_updateJobStats wake ?r w1))
      = ws_JobsProcessed (wk_stats w) + 1"
    using x(2) by (simp add: Worker_updateJobStats_def Let_def)
  ultimately show ?thesis using x(3) task j(2) by auto
qed

theorem processJob_returns_witness:
  "\<exists>r w'. Worker_processJob 5 30000000005 False (job_defaults 0 some_job) (wp_heap (small_pool 1) ! 0)
     = Some (r, w')"
  using processJob_returns [of some_job 5 0 30000000005 False "wp_heap (small_pool 1) ! 0"]
  by (auto simp: some_job_def validateJobPool_def job_defaults_def DefaultJobTimeoutPool_def)

text \<open>A second worker is added, both take a job, and one of them is removed.\<close>

definition overcount_events :: "nat pl_event list" where
  "overcount_events = [PlScaleUp 1, PlScalePush, PlSubmit some_job, PlSubmit some_job, PlEnqueue 0 False, PlEnqueue 0 False,
     PlCheck 0, PlTake 0, PlCheck 1, PlTake 1, PlScaleDown 1]"

text \<open>ScaleDown counts the removed workers as idle even when they are busy: there is a run
  of a valid pool in which IdleWorkers becomes negative.\<close>

theorem ScaleDown_negative_idle:
  "\<exists>s. pl_reach (small_cfg 5) s \<and> pl_run overcount_events (pl_start 0 (small_pool 5)) = Some s
     \<and> sint (ps_IdleWorkers (wp_stats (pl_wp s))) = - 1"
proof -
  have "\<exists>s. pl_run overcount_events (pl_start 0 (small_pool 5)) = Some s
     \<and> sint (ps_IdleWorkers (wp_stats (pl_wp s))) = - 1"
    by (simp add: overcount_events_def pool_eval scale_up_count_def pl_create_def add_worker_def
        WorkerPool_createWorker_def push_worker_def scaled_up_def WorkerPool_ScaleDown_def numeral_eq_Suc)
  then obtain s where s: "pl_run overcount_events (pl_start 0 (small_pool 5)) = Some s"
     "sint (ps_IdleWorkers (wp_stats (pl_wp s))) = - 1" by blast
  have "pl_reach (small_cfg 5) s" by (rule pl_reach_run [OF pl_reach.init [OF small_new] s(1)]) simp_all
  with s show ?thesis by blast
qed

end

