(* ===== verification/PoolClose.thy ===== *)
theory PoolClose
  imports PoolProps
begin

text \<open>
  Closing a pool: what \<open>Close\<close> waits for, what can keep it waiting, and the panics that follow it.
\<close>

section \<open>The wait group\<close>

fun not_ended :: "'v wk_pc \<Rightarrow> bool" where
  "not_ended WExited = False"
| "not_ended _ = True"

fun is_asleep :: "'v wk_pc \<Rightarrow> bool" where
  "is_asleep (WAsleep _) = True"
| "is_asleep _ = False"

text \<open>Until the channels are closed nothing panics, and the wait group counts the workers that run.\<close>

definition pl_calm :: "'v pl_sys \<Rightarrow> bool" where
  "pl_calm s \<longleftrightarrow>
     (pl_closer s \<noteq> CloOver \<longrightarrow>
        pl_panic s = None \<and> pl_wg s = countp not_ended (pl_pcs s) \<and> countp is_asleep (pl_pcs s) = 0)"

lemma health_never_panics:
  assumes "0 < cp_QueueSize (wp_config wp)"
  shows "\<exists>wp'. WorkerPool_updateHealthStatus now h is wp = Returns wp'"
    and "\<exists>wp'. WorkerPool_monitorHealth now wp = Returns wp'"
    and "\<exists>wp'. WorkerPool_collectMetrics now wp = Returns wp'"
    and "\<not> some_closed wp \<Longrightarrow> \<exists>wp'. Close_channels now wp = Returns wp'"
proof -
  have u: "0 < cp_QueueSize (wp_config w) \<Longrightarrow> \<exists>u. ps_QueueUtilization (wp_stats (WorkerPool_GetStats now w)) = Some u"
    for w :: "'a WorkerPool"
    by (simp add: WorkerPool_GetStats_def WorkerPool_calculateJobsPerSecond_def Let_def)
  have up: "0 < cp_QueueSize (wp_config w) \<Longrightarrow> \<exists>w'. WorkerPool_updateHealthStatus now h is w = Returns w'"
    for w :: "'a WorkerPool" and h "is"
    using u [of w] by (auto simp: WorkerPool_updateHealthStatus_def Let_def)
  show "\<exists>wp'. WorkerPool_updateHealthStatus now h is wp = Returns wp'"
    "\<exists>wp'. WorkerPool_collectMetrics now wp = Returns wp'"
    using up [OF assms] by (simp_all add: WorkerPool_collectMetrics_def)
  have "wp_config (WorkerPool_GetStats now wp) = wp_config wp"
    using GetStats_same [of wp now] by (simp add: same_defs)
  then show "\<exists>wp'. WorkerPool_monitorHealth now wp = Returns wp'"
    using u [OF assms] up [of "WorkerPool_GetStats now wp"] assms
    by (auto simp: WorkerPool_monitorHealth_def Let_def)
  show "\<exists>wp'. Close_channels now wp = Returns wp'" if "\<not> some_closed wp"
    using that assms up by (auto simp: Close_channels_def chan_close_def some_closed_def)
qed

lemma shape_queue: "pl_shape cfg s \<Longrightarrow> 0 < cp_QueueSize (wp_config (pl_wp s))"
  using validateConfigPool_None(4) [of cfg] by (simp add: pl_shape_def Let_def)

lemma closer_over: "pl_life s \<Longrightarrow> pl_step e s = Some s' \<Longrightarrow> pl_closer s = CloOver \<Longrightarrow> pl_closer s' = CloOver"
  using pl_step_life [of e s s']
  by (cases e) (auto simp: pl_life_def WorkerPool_Close_flag_def split: if_splits)

text \<open>The three ways in which a step moves a worker while the channels are open.\<close>

lemma calm_moved:
  assumes "wk_at s i = Some pc" "not_ended pc" "\<not> is_asleep pc" "not_ended pc'" "\<not> is_asleep pc'"
    and "pl_pcs s' = (pl_pcs s)[i := pc']" "pl_wg s' = pl_wg s" "pl_panic s' = pl_panic s" "pl_closer s' = pl_closer s"
    and "pl_calm s"
  shows "pl_calm s'"
  using assms wk_at_countp [OF assms(1), of not_ended pc'] wk_at_countp [OF assms(1), of is_asleep pc']
  by (simp add: pl_calm_def)

lemma calm_returned:
  assumes "wk_at s i = Some pc" "not_ended pc" "\<not> is_asleep pc" and "pl_calm s"
  shows "pl_calm (worker_returns i wp s)"
proof (cases "pl_closer s = CloOver")
  case False
  have "0 < countp not_ended (pl_pcs s)" using assms(1,2) countp_pos [of i "pl_pcs s" not_ended] by (simp add: wk_at_Some)
  with False assms show ?thesis
    using wk_at_countp [OF assms(1), of not_ended WExited] wk_at_countp [OF assms(1), of is_asleep WExited]
    by (simp add: pl_calm_def worker_returns_def wg_done_def)
qed (simp add: pl_calm_def)

lemma calm_created: "pl_calm s \<Longrightarrow> pl_calm (pl_create k s)"
  by (simp add: pl_calm_def pl_create_def add_worker_def WorkerPool_createWorker_def)

lemma calm_same:
  "pl_calm s \<Longrightarrow> pl_pcs s' = pl_pcs s \<Longrightarrow> pl_wg s' = pl_wg s \<Longrightarrow> pl_panic s' = pl_panic s
     \<Longrightarrow> pl_closer s \<noteq> CloOver \<Longrightarrow> pl_calm s'"
  by (simp add: pl_calm_def)

fun worker_event :: "'v pl_event \<Rightarrow> bool" where
  "worker_event (PlCheck _) = True"
| "worker_event (PlTake _) = True"
| "worker_event (PlStopSignal _) = True"
| "worker_event (PlFinish _ _) = True"
| "worker_event (PlSend _) = True"
| "worker_event (PlReturn _) = True"
| "worker_event (PlExit _) = True"
| "worker_event (PlRestart _) = True"
| "worker_event _ = False"

lemma calm_worker_step:
  assumes calm: "pl_calm s" and o: "pl_closer s \<noteq> CloOver" and opn: "\<not> some_closed (pl_wp s)"
    and e: "pl_step e s = Some s'" and w: "worker_event e"
  shows "pl_calm s'"
proof -
  have ch: "\<not> ch_closed (wp_jobQueue (pl_wp s))" "\<not> ch_closed (wp_jobResults (pl_wp s))"
      "\<not> ch_closed (wp_workerPool (pl_wp s))" using opn by (simp_all add: some_closed_def)
  have awake: "\<not> is_asleep pc" if "wk_at s i = Some pc" for i pc
    using that calm o countp_pos [of i "pl_pcs s" is_asleep] by (auto simp: pl_calm_def wk_at_Some)
  show ?thesis
  proof (cases e)
    case (PlCheck i)
    then have w: "wk_at s i = Some WLoop" using e by (auto split: option.splits wk_pc.splits)
    show ?thesis
    proof (cases "wk_stopped (wp_heap (pl_wp s) ! i)")
      case True
      then show ?thesis using e PlCheck w calm_returned [OF w _ _ calm] by auto
    next
      case False
      then show ?thesis using e PlCheck w by (intro calm_moved [OF w _ _ _ _ _ _ _ _ calm, of WSelect]) auto
    qed
  next
    case (PlTake i)
    then obtain job q where w: "wk_at s i = Some WSelect"
      and s': "pl_pcs s' = (pl_pcs s)[i := WRunning job (pl_now s)]" "pl_wg s' = pl_wg s"
        "pl_panic s' = pl_panic s" "pl_closer s' = pl_closer s"
      using e by (auto simp: chan_recv_RecvClosed_iff split: option.splits wk_pc.splits recv_result.splits)
    show ?thesis by (rule calm_moved [OF w _ _ _ _ s' calm]) simp_all
  next
    case (PlStopSignal i)
    then have "wk_at s i = Some WSelect" "\<exists>wp. s' = worker_returns i wp s"
      using e by (auto split: option.splits wk_pc.splits recv_result.splits)
    then show ?thesis using calm_returned [OF _ _ _ calm, of i WSelect] by auto
  next
    case (PlFinish i pick)
    then obtain job t r where w: "wk_at s i = Some (WRunning job t)"
      and s': "pl_pcs s' = (pl_pcs s)[i := WSending r]" "pl_wg s' = pl_wg s"
        "pl_panic s' = pl_panic s" "pl_closer s' = pl_closer s"
      using e by (auto split: option.splits wk_pc.splits)
    show ?thesis by (rule calm_moved [OF w _ _ _ _ s' calm]) simp_all
  next
    case (PlSend i)
    then obtain r where w: "wk_at s i = Some (WSending r)"
      and s': "pl_pcs s' = (pl_pcs s)[i := WReturning]" "pl_wg s' = pl_wg s"
        "pl_panic s' = pl_panic s" "pl_closer s' = pl_closer s"
      using e ch by (auto simp: chan_send_def split: option.splits wk_pc.splits if_splits)
    show ?thesis by (rule calm_moved [OF w _ _ _ _ s' calm]) simp_all
  next
    case (PlReturn i)
    then have w: "wk_at s i = Some WReturning"
      and s': "pl_pcs s' = (pl_pcs s)[i := WLoop]" "pl_wg s' = pl_wg s"
        "pl_panic s' = pl_panic s" "pl_closer s' = pl_closer s"
      using e ch by (auto simp: chan_send_def split: option.splits wk_pc.splits if_splits)
    show ?thesis by (rule calm_moved [OF w _ _ _ _ s' calm]) simp_all
  next
    case (PlExit i)
    then obtain pc where "wk_at s i = Some pc" "not_ended pc" "\<exists>wp. s' = worker_returns i wp s"
      using e by (auto split: option.splits wk_pc.splits if_splits)
    then show ?thesis using calm_returned [OF _ _ _ calm, of i pc] awake [of i pc] by auto
  next
    case (PlRestart i)
    then show ?thesis using e awake [of i] by (auto split: option.splits wk_pc.splits)
  qed (use w in simp_all)
qed

lemma pl_calm_step:
  assumes calm: "pl_calm s" and sh: "pl_shape cfg s" and life: "pl_life s" and e: "pl_step e s = Some s'"
  shows "pl_calm s'"
proof (cases "pl_closer s' = CloOver")
  case True
  then show ?thesis by (simp add: pl_calm_def)
next
  case False
  then have o: "pl_closer s \<noteq> CloOver" using closer_over [OF life e] by blast
  then have opn: "\<not> some_closed (pl_wp s)" using life by (auto simp: pl_life_def)
  then have ch: "\<not> ch_closed (wp_jobQueue (pl_wp s))" "\<not> ch_closed (wp_jobResults (pl_wp s))"
      "\<not> ch_closed (wp_workerPool (pl_wp s))" by (simp_all add: some_closed_def)
  have q: "0 < cp_QueueSize (wp_config (pl_wp s))"
    by (rule shape_queue [OF sh])
  note same = calm_same [OF calm _ _ _ o]
  show ?thesis
  proof (cases e)
    case (PlEnqueue k pick)
    then show ?thesis using e ch
      by (intro same) (auto simp: pl_submitted_def submit_select_def select_send_SelPanic_iff
          split: if_splits prod.splits select_result.splits)
  next
    case PlMonitor
    then show ?thesis using e health_never_panics(2) [OF q, of "pl_now s"]
      by (intro same) (auto simp: pl_ticked_def)
  next
    case PlMetrics
    then show ?thesis using e health_never_panics(3) [OF q, of "pl_now s"]
      by (intro same) (auto simp: pl_ticked_def)
  next
    case (PlScaleUp n)
    then show ?thesis using e calm calm_created [OF calm] by (auto split: sum.splits if_splits)
  next
    case PlScalePush
    then obtain remaining w where r: "pl_scaling s = Some (remaining, w)" using e by (auto split: option.splits)
    have "push_worker w (pl_wp s) \<noteq> Some (Panics p)" for p
      using ch by (simp add: push_worker_def chan_send_def)
    moreover have "push_worker w (pl_wp s) \<noteq> None" using e PlScalePush r by (cases "push_worker w (pl_wp s)") simp_all
    ultimately obtain wp where "push_worker w (pl_wp s) = Some (Returns wp)"
      by (metis not_None_eq outcome.exhaust)
    then have p: "s' = (if remaining = 0 then s\<lparr>pl_wp := scaled_up (pl_now s) wp, pl_scaling := None\<rparr>
             else pl_create (remaining - 1) (s\<lparr>pl_wp := wp\<rparr>))" using e PlScalePush r by simp
    have "pl_calm (s\<lparr>pl_wp := wp\<rparr>)" "pl_calm (s\<lparr>pl_wp := scaled_up (pl_now s) wp, pl_scaling := None\<rparr>)"
      by (rule same; simp)+
    then show ?thesis using p calm_created by auto
  next
    case PlCloseChannels
    then show ?thesis using e False by (auto split: closer.splits if_splits)
  next
    case PlClose
    then show ?thesis using e by (intro same) (auto split: prod.splits option.splits)
  next
    case PlCloseStop
    then show ?thesis using e by (intro same) (auto split: closer.splits if_splits)
  qed (use e calm_worker_step [OF calm o opn e] in \<open>simp_all del: pl_step.simps,
      (intro same; auto split: sum.splits prod.splits if_splits)+\<close>)
qed

lemma pl_reach_calm: "pl_reach cfg s \<Longrightarrow> pl_calm s"
proof (induction rule: pl_reach.induct)
  case (init now wp)
  have "countp P (replicate n WLoop) = (if P WLoop then n else 0)" for P :: "'a wk_pc \<Rightarrow> bool" and n
    by (simp add: countp_def)
  then show ?case by (simp add: pl_start_def pl_calm_def)
next
  case (step s e s')
  then show ?case using pl_reach_inv [OF step(1)] pl_calm_step by blast
qed

section \<open>What Close waits for\<close>



text \<open>A pool of one worker that is being closed.\<close>

definition closing_events :: "nat pl_event list" where
  "closing_events = [PlSubmit some_job, PlClose, PlTick 100000000, PlCloseStop, PlCheck 0]"

definition closing_pool :: "nat pl_sys" where
  "closing_pool = the (pl_run closing_events (pl_start 0 (small_pool 5)))"

lemmas close_eval = pool_eval WorkerPool_Close_flag_def Close_stop_workers_def stop_workers_def Worker_stop_def
  GracefulShutdownTimeoutPool_def worker_returns_def wg_done_def Close_channels_def chan_close_def pl_ticked_def
  WorkerPool_updateHealthStatus_def WorkerPool_GetStats_def WorkerPool_calculateJobsPerSecond_def

lemma closing_run: "pl_run closing_events (pl_start 0 (small_pool 5)) = Some closing_pool"
  and closing_simps: "pl_pcs closing_pool = [WExited]" "pl_closer closing_pool = CloWait 30100000000"
    "pl_now closing_pool = 100000000" "pl_wg closing_pool = 0"
  by (simp_all add: closing_pool_def closing_events_def close_eval)

lemma closing_reach: "pl_reach (small_cfg 5) closing_pool"
  by (rule pl_reach_run [OF pl_reach.init [OF small_new] closing_run]) simp_all


text \<open>The end of Close. Once it has stopped the workers it closes the channels at the latest
  when its grace period is over, however long jobs run, and it does not panic.\<close>

theorem Close_ends:
  assumes "pl_reach cfg s" and "pl_closer s = CloWait t" and "t \<le> pl_now s"
  shows "\<exists>s'. pl_step PlCloseChannels s = Some s' \<and> pl_closer s' = CloOver \<and> pl_panic s' = None
    \<and> ch_closed (wp_jobQueue (pl_wp s')) \<and> ch_closed (wp_jobResults (pl_wp s'))
    \<and> ch_closed (wp_workerPool (pl_wp s'))"
proof -
  from pl_reach_inv [OF assms(1)] assms(2)
  have q: "0 < cp_QueueSize (wp_config (pl_wp s))" and o: "\<not> some_closed (pl_wp s)"
    using shape_queue by (auto simp: pl_life_def)
  obtain wp where wp: "Close_channels (pl_now s) (pl_wp s) = Returns wp"
    using health_never_panics(4) [OF q o] by blast
  have "wp_jobQueue wp' = wp_jobQueue w \<and> wp_jobResults wp' = wp_jobResults w \<and> wp_workerPool wp' = wp_workerPool w"
    if "WorkerPool_updateHealthStatus now h is w = Returns wp'" for now h "is" w and wp' :: "'a WorkerPool"
    using that
    by (auto simp: WorkerPool_updateHealthStatus_def WorkerPool_GetStats_def
        WorkerPool_calculateJobsPerSecond_def Let_def split: option.splits)
  then have "ch_closed (wp_jobQueue wp) \<and> ch_closed (wp_jobResults wp) \<and> ch_closed (wp_workerPool wp)"
    using wp by (fastforce simp: Close_channels_def chan_close_def split: option.splits if_splits)
  moreover have "pl_panic s = None" using pl_reach_calm [OF assms(1)] assms(2) by (simp add: pl_calm_def)
  ultimately show ?thesis using assms(2,3) wp by (simp add: pl_ticked_def)
qed

definition overdue_events :: "nat pl_event list" where
  "overdue_events = [PlSubmit some_job, PlEnqueue 0 False, PlCheck 0, PlTake 0, PlClose, PlTick 100000000,
     PlCloseStop, PlTick 30000000000]"

definition overdue_pool :: "nat pl_sys" where
  "overdue_pool = the (pl_run overdue_events (pl_start 0 (small_pool 5)))"

lemma overdue_run: "pl_run overdue_events (pl_start 0 (small_pool 5)) = Some overdue_pool"
  and overdue_simps: "pl_closer overdue_pool = CloWait 30100000000" "pl_now overdue_pool = 30100000000"
    "countp is_busy (pl_pcs overdue_pool) = 1"
  by (simp_all add: overdue_pool_def overdue_events_def close_eval)

lemma overdue_reach: "pl_reach (small_cfg 5) overdue_pool"
  by (rule pl_reach_run [OF pl_reach.init [OF small_new] overdue_run]) simp_all

theorem Close_ends_witness:
  "countp is_busy (pl_pcs overdue_pool) = 1
   \<and> (\<exists>s'. pl_step PlCloseChannels overdue_pool = Some s' \<and> pl_closer s' = CloOver)"
  using Close_ends [OF overdue_reach overdue_simps(1)] overdue_simps by auto

text \<open>The events of a Close that is left alone with the clock.\<close>

fun close_event :: "'v pl_event \<Rightarrow> bool" where
  "close_event (PlTick _) = True"
| "close_event PlCloseStop = True"
| "close_event PlCloseChannels = True"
| "close_event _ = False"

lemma Close_wait_over:
  assumes r: "pl_reach cfg s" and c: "pl_closer s = CloWait t"
  shows "\<exists>es s'. list_all close_event es \<and> pl_run es s = Some s' \<and> pl_closer s' = CloOver
    \<and> pl_panic s' = None \<and> ch_closed (wp_jobQueue (pl_wp s')) \<and> ch_closed (wp_jobResults (pl_wp s'))
    \<and> ch_closed (wp_workerPool (pl_wp s')) \<and> pl_now s' = max (pl_now s) t"
proof -
  let ?tick = "PlTick (nat (t - pl_now s)) :: 'a pl_event"
  let ?s1 = "s\<lparr>pl_now := max (pl_now s) t\<rparr>"
  have tick: "pl_step ?tick s = Some ?s1" by (simp add: max_def)
  obtain s' where s': "pl_step PlCloseChannels ?s1 = Some s'" "pl_closer s' = CloOver" "pl_panic s' = None"
      "ch_closed (wp_jobQueue (pl_wp s')) \<and> ch_closed (wp_jobResults (pl_wp s')) \<and> ch_closed (wp_workerPool (pl_wp s'))"
    using Close_ends [OF pl_reach.step [OF r tick], of t] c by auto
  moreover have "pl_now s' = max (pl_now s) t"
    using s'(1) by (auto simp: pl_ticked_def split: closer.splits if_splits outcome.splits)
  moreover have "pl_run [?tick, PlCloseChannels] s = Some s'"
    by (rule plr.run_ConsI [OF tick plr.run_ConsI [OF s'(1) plr.run_Nil]])
  ultimately show ?thesis by (intro exI [of _ "[?tick, PlCloseChannels]"] exI [of _ s']) simp
qed

text \<open>Property C32: Close returns. Wherever it stands, unless a ScaleUp holds the mutex that it needs to stop
  the workers, the clock alone brings it to its end: whatever the workers are doing, it closes the three
  channels, without a panic, at the latest 30 seconds after its pause.\<close>

theorem Close_returns:
  assumes "pl_reach cfg s" and "pl_closer s = CloPause t \<and> pl_scaling s = None \<or> pl_closer s = CloWait t"
  shows "\<exists>es s'. list_all close_event es \<and> pl_run es s = Some s' \<and> pl_closer s' = CloOver
    \<and> pl_panic s' = None \<and> ch_closed (wp_jobQueue (pl_wp s')) \<and> ch_closed (wp_jobResults (pl_wp s'))
    \<and> ch_closed (wp_workerPool (pl_wp s')) \<and> pl_now s' \<le> max (pl_now s) t + GracefulShutdownTimeoutPool"
  using assms(2)
proof
  assume "pl_closer s = CloWait t"
  from Close_wait_over [OF assms(1) this] show ?thesis
    by (elim exE conjE, intro exI conjI) (assumption | simp add: GracefulShutdownTimeoutPool_def)+
next
  assume c: "pl_closer s = CloPause t \<and> pl_scaling s = None"
  let ?now = "max (pl_now s) t" and ?tick = "PlTick (nat (t - pl_now s)) :: 'a pl_event"
  let ?s1 = "s\<lparr>pl_now := ?now\<rparr>"
  let ?s2 = "?s1\<lparr>pl_wp := Close_stop_workers (pl_wp s), pl_closer := CloWait (?now + GracefulShutdownTimeoutPool)\<rparr>"
  have tick: "pl_step ?tick s = Some ?s1" by (simp add: max_def)
  have stop: "pl_step PlCloseStop ?s1 = Some ?s2" using c by simp
  have "pl_reach cfg ?s2" by (rule pl_reach.step [OF pl_reach.step [OF assms(1) tick] stop])
  from Close_wait_over [OF this, of "?now + GracefulShutdownTimeoutPool"] obtain es s'
    where s': "list_all close_event es" "pl_run es ?s2 = Some s'" "pl_closer s' = CloOver" "pl_panic s' = None"
      "ch_closed (wp_jobQueue (pl_wp s')) \<and> ch_closed (wp_jobResults (pl_wp s')) \<and> ch_closed (wp_workerPool (pl_wp s'))"
      "pl_now s' = max ?now (?now + GracefulShutdownTimeoutPool)" by auto
  have "pl_run (?tick # PlCloseStop # es) s = Some s'"
    by (rule plr.run_ConsI [OF tick plr.run_ConsI [OF stop s'(2)]])
  with s' show ?thesis
    by (intro exI [of _ "?tick # PlCloseStop # es"] exI [of _ s']) (simp add: GracefulShutdownTimeoutPool_def)
qed

theorem Close_returns_witness:
  "countp is_busy (pl_pcs overdue_pool) = 1
   \<and> (\<exists>es s'. pl_run es overdue_pool = Some s' \<and> pl_closer s' = CloOver)"
  using Close_returns [OF overdue_reach, of 30100000000] overdue_simps by auto

section \<open>A blocked ScaleUp\<close>

lemma jammed_step:
  assumes e: "pl_step e s = Some s'" and life: "pl_life s"
    and j: "pl_scaling s = Some x" "ch_cap (wp_workerPool (pl_wp s)) \<le> length (ch_buf (wp_workerPool (pl_wp s)))"
      "pl_closer s = CloIdle \<or> (\<exists>t. pl_closer s = CloPause t)"
  shows "pl_scaling s' = Some x \<and> ch_cap (wp_workerPool (pl_wp s')) \<le> length (ch_buf (wp_workerPool (pl_wp s')))
    \<and> (pl_closer s' = CloIdle \<or> (\<exists>t. pl_closer s' = CloPause t))"
proof -
  have "pl_closer s' = CloIdle \<or> (\<exists>t. pl_closer s' = CloPause t)"
    using pl_step_life [OF e] e j
    by (cases "e \<in> {PlClose, PlCloseStop, PlCloseChannels}") (auto split: prod.splits option.splits)
  moreover have "\<not> some_closed (pl_wp s)" using life j(3) by (auto simp: pl_life_def)
  with pl_step_effect [OF e] have "pl_scaling s' = Some x
      \<and> ch_cap (wp_workerPool (pl_wp s')) \<le> length (ch_buf (wp_workerPool (pl_wp s')))"
  proof cases
    case collect
    then show ?thesis using j processJobResults_effect(4) [OF collect(1)] by simp
  next
    case (push remaining w wp)
    then show ?thesis using j by (simp add: push_worker_Some)
  qed (use j in \<open>simp_all add: same_defs\<close>)
  ultimately show ?thesis by blast
qed

text \<open>Property C24: a blocked ScaleUp blocks the pool for good. When ScaleUp has found the channel
  workerPool full, it keeps the mutex for ever, and from then on, whatever happens, no other scaling
  succeeds and Close never gets past its pause: it never stops the workers.\<close>

theorem ScaleUp_blocks_Close:
  assumes "pl_reach cfg s" and "pl_scaling s = Some x"
    and "ch_cap (wp_workerPool (pl_wp s)) \<le> length (ch_buf (wp_workerPool (pl_wp s)))"
    and "pl_closer s = CloIdle" and "pl_run es s = Some s'"
  shows "pl_scaling s' = Some x \<and> (pl_closer s' = CloIdle \<or> (\<exists>t. pl_closer s' = CloPause t))"
proof -
  have "pl_closer s = CloIdle \<or> (\<exists>t. pl_closer s = CloPause t)" using assms(4) by simp
  from assms(1-3) this assms(5) show ?thesis
  proof (induction es arbitrary: s)
    case (Cons e es)
    then obtain s1 where s1: "pl_step e s = Some s1" "pl_run es s1 = Some s'" by (auto split: option.splits)
    have "pl_life s" using pl_reach_inv [OF Cons.prems(1)] by blast
    from jammed_step [OF s1(1) this Cons.prems(2-4)] Cons.IH [of s1] s1
      pl_reach.step [OF Cons.prems(1) s1(1)] show ?case by blast
  qed simp
qed

definition jammed_events :: "nat pl_event list" where
  "jammed_events = [PlSubmit some_job, PlEnqueue 0 False, PlCheck 0, PlTake 0, PlFinish 0 False, PlSend 0,
     PlReturn 0, PlScaleUp 1]"

definition jammed_pool :: "nat pl_sys" where
  "jammed_pool = the (pl_run jammed_events (pl_start 0 (small_pool 2)))"

lemma jammed_run: "pl_run jammed_events (pl_start 0 (small_pool 2)) = Some jammed_pool"
  and jammed_simps: "pl_scaling jammed_pool = Some (0, 1)" "pl_closer jammed_pool = CloIdle"
    "ch_cap (wp_workerPool (pl_wp jammed_pool)) = 2" "length (ch_buf (wp_workerPool (pl_wp jammed_pool))) = 2"
    "\<exists>s'. pl_run [PlClose, PlTick 100000000] jammed_pool = Some s'"
  by (simp_all add: jammed_pool_def jammed_events_def close_eval scale_up_count_def pl_create_def add_worker_def
      WorkerPool_createWorker_def)

lemma jammed_reach: "pl_reach (small_cfg 2) jammed_pool"
  by (rule pl_reach_run [OF pl_reach.init [OF small_new] jammed_run]) simp_all

theorem ScaleUp_blocks_Close_witness:
  "\<exists>s'. pl_run [PlClose, PlTick 100000000] jammed_pool = Some s' \<and> pl_scaling s' = Some (0, 1)"
  using ScaleUp_blocks_Close [OF jammed_reach jammed_simps(1) _ jammed_simps(2)] jammed_simps(3-5) by (auto simp del: pl_run.simps)

section \<open>Panics after Close\<close>

text \<open>Submit checks that the pool is open and sends later: when Close closes the queue in between,
  the send panics in the caller.\<close>

theorem submit_close_race_panics:
  "\<exists>s. pl_reach (small_cfg 5) s \<and> pl_run [PlCloseChannels, PlEnqueue 0 False] closing_pool = Some s
     \<and> pl_panic s = Some SendOnClosedChannel"
proof -
  have "\<exists>s. pl_run [PlCloseChannels, PlEnqueue 0 False] closing_pool = Some s
     \<and> pl_panic s = Some SendOnClosedChannel"
    by (simp add: closing_pool_def closing_events_def close_eval)
  then show ?thesis using pl_reach_run [OF closing_reach] by blast
qed

text \<open>A worker that ScaleUp adds while Close is waiting is not stopped by it. It takes a job, finds
  the result channel closed, and is started again after its panic.\<close>

definition negative_events :: "nat pl_event list" where
  "negative_events = [PlSubmit some_job, PlEnqueue 0 False, PlClose, PlTick 100000000, PlCloseStop,
     PlScaleUp 1, PlScalePush, PlCheck 1, PlTake 1, PlCheck 0, PlTick 30000000000, PlCloseChannels,
     PlFinish 1 False, PlSend 1, PlTick 10000000, PlRestart 1, PlCheck 1, PlExit 1]"

text \<open>A worker that is restarted after a panic of its loop calls wg.Done twice: there is a run that
  ends in the panic for a negative WaitGroup counter.\<close>

theorem restart_breaks_wait_group:
  "\<exists>s. pl_reach (small_cfg 5) s \<and> pl_run negative_events (pl_start 0 (small_pool 5)) = Some s
     \<and> pl_panic s = Some NegativeWaitGroup"
proof -
  have "\<exists>s. pl_run negative_events (pl_start 0 (small_pool 5)) = Some s \<and> pl_panic s = Some NegativeWaitGroup"
    by (simp add: negative_events_def close_eval scale_up_count_def pl_create_def add_worker_def worker_panics_def
        WorkerPool_createWorker_def push_worker_def scaled_up_def)
  then obtain s where s: "pl_run negative_events (pl_start 0 (small_pool 5)) = Some s"
      "pl_panic s = Some NegativeWaitGroup" by blast
  have "pl_reach (small_cfg 5) s" by (rule pl_reach_run [OF pl_reach.init [OF small_new] s(1)]) simp_all
  with s show ?thesis by blast
qed

end
