(* ===== verification/Bloom.thy ===== *)
theory Bloom
  imports GoFloat GoContext Lifecycle
begin

text \<open>
  \<open>src/bloom.go\<close>: the Bloom filter, its persistence, its statistics.

  The two digests, the natural logarithm, the store and the time a call spends waiting are
  parameters: an environment holds the functions, \<open>BloomStore\<close> the operations of the store the
  filter was given. The state behind the store is the field \<open>bf_stored\<close>. The bytes written to the
  store are modelled as the JSON document they contain.

  A panic that an index, a modulus or a length could cause is a value of the model, so that its
  absence is a theorem. Not modelled: log messages, and the two timestamps of a loaded state, which
  the code only logs.
\<close>

unbundle bit_operations_syntax

section \<open>Limits and configurations\<close>

definition MaxItemLengthBloom :: nat where "MaxItemLengthBloom = 1024 * 1024"
definition MaxExpectedItemsBloom :: counter where "MaxExpectedItemsBloom = 1000000000"
definition MinExpectedItemsBloom :: counter where "MinExpectedItemsBloom = 1"
definition MaxFalsePositiveBloom :: float64 where "MaxFalsePositiveBloom = fl (1 / 2)"
definition MinFalsePositiveBloom :: float64 where "MinFalsePositiveBloom = fl (1 / 1000000)"
definition MaxHashCountBloom :: int where "MaxHashCountBloom = 50"
definition MinHashCountBloom :: int where "MinHashCountBloom = 1"
definition MaxBitsetSizeBloom :: counter where "MaxBitsetSizeBloom = 10000000000"
definition DefaultTTLBloom :: duration where "DefaultTTLBloom = 24 * Hour"
definition DefaultKeyPrefixBloom :: string where "DefaultKeyPrefixBloom = ''bloom''"
definition MaxRetryAttemptsBloom :: nat where "MaxRetryAttemptsBloom = 3"
definition RetryDelayBloom :: duration where "RetryDelayBloom = 100 * Millisecond"

lemmas bloom_limits = MaxItemLengthBloom_def MaxExpectedItemsBloom_def MinExpectedItemsBloom_def
  MaxFalsePositiveBloom_def MinFalsePositiveBloom_def MaxHashCountBloom_def MinHashCountBloom_def
  MaxBitsetSizeBloom_def

subsection \<open>Documents\<close>

text \<open>A JSON text. A number is an integer literal or another one, with its exact value.\<close>

datatype json =
    JNull
  | JBool bool
  | JInt int
  | JReal rat
  | JStr string
  | JArr "json list"
  | JObj "(string \<times> json) list"

datatype document = NotJSON | Doc json

section \<open>Store, configuration, state\<close>

text \<open>An operation of the store returns its result, when it returned, and the state behind it.\<close>

record 's BloomStore =
  st_Set :: "instant \<Rightarrow> ctx \<Rightarrow> string \<Rightarrow> document \<Rightarrow> duration \<Rightarrow> 's \<Rightarrow> goerr option \<times> instant \<times> 's"
  st_Get :: "instant \<Rightarrow> ctx \<Rightarrow> string \<Rightarrow> 's \<Rightarrow> (goerr + document) \<times> instant \<times> 's"
  st_Del :: "instant \<Rightarrow> ctx \<Rightarrow> string \<Rightarrow> 's \<Rightarrow> goerr option \<times> instant \<times> 's"

record 's BloomConfig =
  bc_ExpectedItems :: counter
  bc_FalsePositiveRate :: float64
  bc_Store :: "'s BloomStore option"
  bc_KeyPrefix :: string
  bc_TTL :: duration
  bc_EnableMetrics :: bool

definition DefaultBloomConfig :: "'s BloomStore option \<Rightarrow> 's BloomConfig" where
  "DefaultBloomConfig store =
     \<lparr>bc_ExpectedItems = 10000, bc_FalsePositiveRate = fl (1 / 100), bc_Store = store,
      bc_KeyPrefix = DefaultKeyPrefixBloom, bc_TTL = DefaultTTLBloom, bc_EnableMetrics = True\<rparr>"

definition ConservativeBloomConfig :: "'s BloomStore option \<Rightarrow> 's BloomConfig" where
  "ConservativeBloomConfig store =
     \<lparr>bc_ExpectedItems = 50000, bc_FalsePositiveRate = fl (1 / 1000), bc_Store = store,
      bc_KeyPrefix = DefaultKeyPrefixBloom, bc_TTL = DefaultTTLBloom, bc_EnableMetrics = True\<rparr>"

definition AggressiveBloomConfig :: "'s BloomStore option \<Rightarrow> 's BloomConfig" where
  "AggressiveBloomConfig store =
     \<lparr>bc_ExpectedItems = 1000, bc_FalsePositiveRate = fl (5 / 100), bc_Store = store,
      bc_KeyPrefix = DefaultKeyPrefixBloom, bc_TTL = DefaultTTLBloom, bc_EnableMetrics = True\<rparr>"

record BloomMetrics =
  bm_AddOperations :: counter
  bm_ContainsOperations :: counter
  bm_AddBatchOperations :: counter
  bm_ContainsBatchOperations :: counter
  bm_FalsePositives :: counter
  bm_TrueNegatives :: counter
  bm_StoreOperations :: counter
  bm_StoreErrors :: counter
  bm_LastAddTime :: "instant option"
  bm_LastContainsTime :: "instant option"
  bm_AverageAddLatency :: duration
  bm_AverageContainsLatency :: duration

definition zero_BloomMetrics :: BloomMetrics where
  "zero_BloomMetrics =
     \<lparr>bm_AddOperations = 0, bm_ContainsOperations = 0, bm_AddBatchOperations = 0,
      bm_ContainsBatchOperations = 0, bm_FalsePositives = 0, bm_TrueNegatives = 0,
      bm_StoreOperations = 0, bm_StoreErrors = 0, bm_LastAddTime = None, bm_LastContainsTime = None,
      bm_AverageAddLatency = 0, bm_AverageContainsLatency = 0\<rparr>"

record 's BloomFilter =
  bf_bitset :: "bool list"
  bf_size :: counter
  bf_hashCount :: int
  bf_itemCount :: counter
  bf_maxItems :: counter
  bf_falsePositiveRate :: float64
  bf_store :: "'s BloomStore option"
  bf_keyPrefix :: string
  bf_ttl :: duration
  bf_closed :: bool
  bf_metrics :: BloomMetrics
  bf_stored :: 's

record BloomFilterState =
  bs_ItemCount :: counter
  bs_Size :: counter
  bs_HashCount :: int
  bs_Bitset :: "bool list"
  bs_Version :: string

definition upd_bm :: "(BloomMetrics \<Rightarrow> BloomMetrics) \<Rightarrow> 's BloomFilter \<Rightarrow> 's BloomFilter" where
  "upd_bm f bf = bf\<lparr>bf_metrics := f (bf_metrics bf)\<rparr>"

text \<open>
  The environment: the digests, \<open>math.Log\<close>, what a float conversion gives outside its range,
  \<open>time.RFC3339\<close> in both directions, and the scheduling: how long a call waits for the mutex, how
  long a batch takes to reach its \<open>i\<close>-th item, how late a timer is noticed, which branch of a
  \<open>select\<close> is taken.
\<close>

record bloom_env =
  be_md5 :: "8 word list \<Rightarrow> 8 word list"
  be_sha256 :: "8 word list \<Rightarrow> 8 word list"
  be_Log :: "float64 \<Rightarrow> float64"
  be_oor :: "float64 \<Rightarrow> int"
  be_rfc3339 :: "instant \<Rightarrow> string"
  be_time_ok :: "string \<Rightarrow> bool"
  be_lock :: nat
  be_elapsed :: "nat \<Rightarrow> nat"
  be_lag :: "nat \<Rightarrow> nat"
  be_pick :: "nat \<Rightarrow> bool"

type_synonym ('r, 's) bloom_result = "'r outcome \<times> instant \<times> 's BloomFilter"

abbreviation bloom :: "bloom_err \<Rightarrow> goerr" where "bloom e \<equiv> Sentinel (EBloom e)"
abbreviation ctx_cancelled :: goerr where "ctx_cancelled \<equiv> wrapping (common ErrContextCancelled)"

section \<open>Validation\<close>

definition validateBloomConfig :: "'s BloomConfig option \<Rightarrow> goerr option" where
  "validateBloomConfig config =
     (case config of
        None \<Rightarrow> Some (ErrText ''config cannot be nil'')
      | Some c \<Rightarrow>
          if bc_ExpectedItems c < MinExpectedItemsBloom \<or> bc_ExpectedItems c > MaxExpectedItemsBloom
          then Some (wrapping (bloom ErrInvalidExpectedItems))
          else if f_lt (bc_FalsePositiveRate c) MinFalsePositiveBloom
             \<or> f_gt (bc_FalsePositiveRate c) MaxFalsePositiveBloom
          then Some (wrapping (bloom ErrInvalidFalsePositive))
          else None)"

definition applyBloomDefaults :: "'s BloomConfig \<Rightarrow> 's BloomConfig" where
  "applyBloomDefaults c0 =
     (let c1 = (if bc_KeyPrefix c0 = [] then c0\<lparr>bc_KeyPrefix := DefaultKeyPrefixBloom\<rparr> else c0)
      in if bc_TTL c1 = 0 then c1\<lparr>bc_TTL := DefaultTTLBloom\<rparr> else c1)"

definition validateItem :: "string \<Rightarrow> goerr option" where
  "validateItem item =
     (if item = [] then Some (bloom ErrEmptyItem)
      else if length item > MaxItemLengthBloom then Some (wrapping (bloom ErrItemTooLong))
      else None)"

fun first_invalid :: "string list \<Rightarrow> goerr option" where
  "first_invalid [] = None"
| "first_invalid (item # items) =
     (case validateItem item of Some err \<Rightarrow> Some (wrapping err) | None \<Rightarrow> first_invalid items)"

definition validateBatch :: "string list \<Rightarrow> goerr option" where
  "validateBatch items =
     (if items = [] then Some (ErrText ''items slice cannot be empty'') else first_invalid items)"

definition validateBloomFilterState :: "BloomFilterState \<Rightarrow> counter \<Rightarrow> int \<Rightarrow> goerr option" where
  "validateBloomFilterState state expectedSize expectedHashCount =
     (if bs_Size state \<noteq> expectedSize
      then Some (ErrText ''loaded size %d does not match expected %d'')
      else if bs_HashCount state \<noteq> expectedHashCount
      then Some (ErrText ''loaded hash count %d does not match expected %d'')
      else if int (length (bs_Bitset state)) \<noteq> sint expectedSize
      then Some (ErrText ''loaded bitset length %d does not match expected size %d'')
      else None)"

section \<open>Size and number of hash functions\<close>

definition calculateOptimalSize :: "bloom_env \<Rightarrow> counter \<Rightarrow> float64 \<Rightarrow> counter" where
  "calculateOptimalSize env n p =
     (let m = f_div (f_mul (f_of_int (uint n)) (be_Log env p))
                (f_mul (be_Log env (Fin 2)) (be_Log env (Fin 2)))
      in word_of_int (f_to_uint64 (be_oor env) (f_ceil (f_neg m))))"

definition calculateOptimalHashCount :: "bloom_env \<Rightarrow> counter \<Rightarrow> counter \<Rightarrow> int" where
  "calculateOptimalHashCount env m n =
     (let k = f_mul (f_div (f_of_int (uint m)) (f_of_int (uint n))) (be_Log env (Fin 2))
      in f_to_int64 (be_oor env) (f_ceil k))"

definition calculateOptimalParameters :: "bloom_env \<Rightarrow> counter \<Rightarrow> float64 \<Rightarrow> goerr + counter \<times> int" where
  "calculateOptimalParameters env n p =
     (let sz = calculateOptimalSize env n p in
      if sz = 0 \<or> sz > MaxBitsetSizeBloom then Inl (wrapping (bloom ErrInvalidSize))
      else let hashCount = calculateOptimalHashCount env sz n in
        if hashCount < MinHashCountBloom \<or> hashCount > MaxHashCountBloom
        then Inl (wrapping (bloom ErrInvalidHashCount))
        else Inr (sz, hashCount))"

section \<open>Hash positions\<close>

text \<open>\<open>[]byte(item)\<close>, \<open>hash/fnv\<close>'s 64-bit FNV-1a, and \<open>binary.BigEndian.Uint64\<close>.\<close>

definition to_bytes :: "string \<Rightarrow> 8 word list" where
  "to_bytes s = map of_char s"

definition fnv64a :: "8 word list \<Rightarrow> counter" where
  "fnv64a bs = foldl (\<lambda>h b. (h XOR ucast b) * 1099511628211) 14695981039346656037 bs"

definition BigEndian_Uint64 :: "8 word list \<Rightarrow> counter" where
  "BigEndian_Uint64 bs = foldl (\<lambda>h b. push_bit 8 h OR ucast b) 0 (take 8 bs)"

definition BloomFilter_getHashPositions ::
    "bloom_env \<Rightarrow> string \<Rightarrow> 's BloomFilter \<Rightarrow> counter list outcome" where
  "BloomFilter_getHashPositions env item bf =
     (let hash1 = fnv64a (to_bytes item);
          hash2 = BigEndian_Uint64 (be_md5 env (to_bytes item));
          hash3 = BigEndian_Uint64 (be_sha256 env (to_bytes item))
      in if bf_hashCount bf < 0 then Panics SliceLengthOutOfRange
         else if 0 < bf_hashCount bf \<and> bf_size bf = 0 then Panics IntegerDivideByZero
         else Returns (map (\<lambda>i. (hash1 + of_nat i * hash2 + of_nat (i * i) * hash3) mod bf_size bf)
                [0..<nat (bf_hashCount bf)]))"

text \<open>The loops that set and that test the bits at the positions of an item.\<close>

fun set_bits :: "counter list \<Rightarrow> bool list \<Rightarrow> unit outcome \<times> bool list" where
  "set_bits [] bits = (Returns (), bits)"
| "set_bits (pos # ps) bits =
     (if unat pos < length bits then set_bits ps (bits[unat pos := True])
      else (Panics IndexOutOfRange, bits))"

fun test_bits :: "counter list \<Rightarrow> bool list \<Rightarrow> bool outcome" where
  "test_bits [] bits = Returns True"
| "test_bits (pos # ps) bits =
     (if unat pos < length bits then (if bits ! unat pos then test_bits ps bits else Returns False)
      else Panics IndexOutOfRange)"

section \<open>Metrics\<close>

definition latency :: "duration \<Rightarrow> duration \<Rightarrow> duration" where
  "latency average d = (if average = 0 then d else wrap64 (average + d) sdiv 2)"

definition BloomFilter_updateAddMetrics :: "instant \<Rightarrow> duration \<Rightarrow> 's BloomFilter \<Rightarrow> 's BloomFilter" where
  "BloomFilter_updateAddMetrics now d = upd_bm (\<lambda>m.
     m\<lparr>bm_LastAddTime := Some now, bm_AverageAddLatency := latency (bm_AverageAddLatency m) d\<rparr>)"

definition BloomFilter_updateContainsMetrics ::
    "instant \<Rightarrow> duration \<Rightarrow> 's BloomFilter \<Rightarrow> 's BloomFilter" where
  "BloomFilter_updateContainsMetrics now d = upd_bm (\<lambda>m.
     m\<lparr>bm_LastContainsTime := Some now,
       bm_AverageContainsLatency := latency (bm_AverageContainsLatency m) d\<rparr>)"

definition BloomFilter_updateAddBatchMetrics ::
    "instant \<Rightarrow> duration \<Rightarrow> nat \<Rightarrow> 's BloomFilter \<Rightarrow> 's BloomFilter" where
  "BloomFilter_updateAddBatchMetrics now d itemCount = upd_bm (\<lambda>m0.
     (let m = m0\<lparr>bm_LastAddTime := Some now\<rparr> in
      if 0 < itemCount
      then m\<lparr>bm_AverageAddLatency := latency (bm_AverageAddLatency m) (d sdiv int itemCount)\<rparr> else m))"

definition BloomFilter_updateContainsBatchMetrics ::
    "instant \<Rightarrow> duration \<Rightarrow> nat \<Rightarrow> 's BloomFilter \<Rightarrow> 's BloomFilter" where
  "BloomFilter_updateContainsBatchMetrics now d itemCount = upd_bm (\<lambda>m0.
     (let m = m0\<lparr>bm_LastContainsTime := Some now\<rparr> in
      if 0 < itemCount
      then m\<lparr>bm_AverageContainsLatency := latency (bm_AverageContainsLatency m) (d sdiv int itemCount)\<rparr>
      else m))"

section \<open>The stored form\<close>

text \<open>
  \<open>bitsetToBytes\<close>: the loop over the bits, from the least significant bit of the first byte on.
\<close>

definition BloomFilter_bitsetToBytes :: "bool list \<Rightarrow> 8 word list" where
  "BloomFilter_bitsetToBytes bitset =
     fold (\<lambda>i bytes. if bitset ! i
             then bytes[i div 8 := bytes ! (i div 8) OR push_bit (i mod 8) 1] else bytes)
       [0..<length bitset] (replicate ((length bitset + 7) div 8) 0)"

text \<open>A dynamic value asserted to be a \<open>string\<close>, a \<open>float64\<close>, a \<open>[]interface{}\<close>.\<close>

fun as_string :: "json option \<Rightarrow> string option" where
  "as_string (Some (JStr s)) = Some s"
| "as_string _ = None"

fun as_float64 :: "json option \<Rightarrow> float64 option" where
  "as_float64 (Some (JInt n)) = Some (f_of_int n)"
| "as_float64 (Some (JReal q)) = Some (fl q)"
| "as_float64 _ = None"

fun as_slice :: "json option \<Rightarrow> json list option" where
  "as_slice (Some (JArr xs)) = Some xs"
| "as_slice _ = None"

text \<open>\<open>make([]bool, n)\<close> panics for a negative \<open>n\<close> and above the address space of the platform.\<close>

definition BloomFilter_bytesToBitset :: "bloom_env \<Rightarrow> json list \<Rightarrow> int \<Rightarrow> bool list outcome" where
  "BloomFilter_bytesToBitset env bytes sz =
     (if sz < 0 \<or> 2 ^ 48 < sz then Panics SliceLengthOutOfRange
      else Returns (map (\<lambda>i.
        if i div 8 < length bytes
        then (case as_float64 (Some (bytes ! (i div 8))) of
                None \<Rightarrow> False
              | Some byteVal \<Rightarrow>
                  (word_of_int (f_to_int 0 255 (be_oor env) byteVal) :: 8 word)
                    AND push_bit (i mod 8) 1 \<noteq> 0)
        else False) [0..<nat sz]))"

text \<open>\<open>encoding/base64\<close>, which \<open>json.Marshal\<close> uses for a \<open>[]byte\<close>.\<close>

definition base64_char :: "8 word \<Rightarrow> char" where
  "base64_char w =
     ''ABCDEFGHIJKLMNOPQRSTUVWXYZabcdefghijklmnopqrstuvwxyz0123456789+/'' ! (unat w mod 64)"

fun base64 :: "8 word list \<Rightarrow> string" where
  "base64 [] = []"
| "base64 [a] = [base64_char (drop_bit 2 a), base64_char (push_bit 4 (a AND 3)), CHR ''='', CHR ''='']"
| "base64 [a, b] = [base64_char (drop_bit 2 a), base64_char (push_bit 4 (a AND 3) OR drop_bit 4 b),
     base64_char (push_bit 2 (b AND 15)), CHR ''='']"
| "base64 (a # b # c # bs) =
     [base64_char (drop_bit 2 a), base64_char (push_bit 4 (a AND 3) OR drop_bit 4 b),
      base64_char (push_bit 2 (b AND 15) OR drop_bit 6 c), base64_char (c AND 63)] @ base64 bs"

text \<open>\<open>json.Marshal\<close> of a float fails for the values JSON has no number for.\<close>

definition BloomFilter_serializeState ::
    "bloom_env \<Rightarrow> instant \<Rightarrow> BloomFilterState \<Rightarrow> 's BloomFilter \<Rightarrow> goerr + document" where
  "BloomFilter_serializeState env now state bf =
     (case bf_falsePositiveRate bf of
        Fin q \<Rightarrow>
          Inr (Doc (JObj
            [(''bitset'', JStr (base64 (BloomFilter_bitsetToBytes (bs_Bitset state)))),
             (''created_at'', JStr (be_rfc3339 env now)),
             (''hash_count'', JInt (bs_HashCount state)),
             (''item_count'', JInt (uint (bs_ItemCount state))),
             (''metadata'', JObj
               [(''false_positive_rate'', JReal q),
                (''key_prefix'', JStr (bf_keyPrefix bf)),
                (''max_items'', JInt (uint (bf_maxItems bf)))]),
             (''size'', JInt (uint (bs_Size state))),
             (''updated_at'', JStr (be_rfc3339 env now)),
             (''version'', JStr (bs_Version state))]))
      | _ \<Rightarrow> Inl (wrapping (ErrText ''json: unsupported value'')))"

text \<open>
  \<open>json.Unmarshal\<close> into a \<open>map[string]interface{}\<close>: every number must fit a \<open>float64\<close>, the last of
  several equal keys counts, and \<open>null\<close> gives the nil map.
\<close>

fun is_Fin :: "float64 \<Rightarrow> bool" where
  "is_Fin (Fin q) = True"
| "is_Fin _ = False"

fun json_fits :: "json \<Rightarrow> bool" where
  "json_fits (JInt n) = is_Fin (f_of_int n)"
| "json_fits (JReal r) = is_Fin (fl r)"
| "json_fits (JArr xs) = list_all json_fits xs"
| "json_fits (JObj kvs) = list_all (\<lambda>kv. json_fits (snd kv)) kvs"
| "json_fits _ = True"

fun unmarshal_map :: "document \<Rightarrow> (string \<rightharpoonup> json) option" where
  "unmarshal_map (Doc JNull) = Some Map.empty"
| "unmarshal_map (Doc (JObj kvs)) =
     (if json_fits (JObj kvs) then Some (map_of (rev kvs)) else None)"
| "unmarshal_map _ = None"

text \<open>
  \<open>json.Unmarshal\<close> into the struct \<open>BloomFilterState\<close>: keys match without regard to case, unknown
  keys are skipped, \<open>null\<close> leaves a field alone, and a value of the wrong kind is an error.
\<close>

definition ascii_lower :: "string \<Rightarrow> string" where
  "ascii_lower s = map (\<lambda>c. let n = of_char c :: nat in if 65 \<le> n \<and> n \<le> 90 then char_of (n + 32) else c) s"

definition struct_field :: "string \<Rightarrow> (string \<times> json) list \<Rightarrow> json" where
  "struct_field name kvs =
     (case map_of (rev (map (\<lambda>(k, v). (ascii_lower k, v)) (filter (\<lambda>kv. snd kv \<noteq> JNull) kvs))) name of
        None \<Rightarrow> JNull | Some v \<Rightarrow> v)"

fun decode_int :: "int \<Rightarrow> int \<Rightarrow> json \<Rightarrow> int option" where
  "decode_int lo hi JNull = Some 0"
| "decode_int lo hi (JInt n) = (if lo \<le> n \<and> n \<le> hi then Some n else None)"
| "decode_int lo hi _ = None"

fun decode_bools :: "json list \<Rightarrow> bool list option" where
  "decode_bools [] = Some []"
| "decode_bools (JBool b # xs) = map_option (Cons b) (decode_bools xs)"
| "decode_bools (JNull # xs) = map_option (Cons False) (decode_bools xs)"
| "decode_bools _ = None"

definition decode_time :: "bloom_env \<Rightarrow> json \<Rightarrow> bool" where
  "decode_time env v = (case v of JNull \<Rightarrow> True | JStr s \<Rightarrow> be_time_ok env s | _ \<Rightarrow> False)"

definition unmarshal_state :: "bloom_env \<Rightarrow> document \<Rightarrow> BloomFilterState option" where
  "unmarshal_state env doc =
     (case doc of
        Doc JNull \<Rightarrow> Some \<lparr>bs_ItemCount = 0, bs_Size = 0, bs_HashCount = 0, bs_Bitset = [], bs_Version = []\<rparr>
      | Doc (JObj kvs) \<Rightarrow>
         (case (decode_int 0 (2 ^ 64 - 1) (struct_field ''item_count'' kvs),
                decode_int 0 (2 ^ 64 - 1) (struct_field ''size'' kvs),
                decode_int min_int64 max_int64 (struct_field ''hash_count'' kvs),
                (case struct_field ''bitset'' kvs of
                   JNull \<Rightarrow> Some [] | JArr xs \<Rightarrow> decode_bools xs | _ \<Rightarrow> None),
                (case struct_field ''version'' kvs of
                   JNull \<Rightarrow> Some [] | JStr s \<Rightarrow> Some s | _ \<Rightarrow> None)) of
            (Some n, Some sz, Some h, Some bits, Some v) \<Rightarrow>
              if decode_time env (struct_field ''created_at'' kvs)
                 \<and> decode_time env (struct_field ''updated_at'' kvs)
              then Some \<lparr>bs_ItemCount = word_of_int n, bs_Size = word_of_int sz, bs_HashCount = h,
                         bs_Bitset = bits, bs_Version = v\<rparr>
              else None
          | _ \<Rightarrow> None)
      | _ \<Rightarrow> None)"

definition BloomFilter_deserializeLegacyState :: "bloom_env \<Rightarrow> document \<Rightarrow> goerr + BloomFilterState" where
  "BloomFilter_deserializeLegacyState env data =
     (case unmarshal_state env data of
        None \<Rightarrow> Inl (wrapping (ErrText ''json: cannot unmarshal''))
      | Some state \<Rightarrow> Inr (if bs_Version state = [] then state\<lparr>bs_Version := ''1.0''\<rparr> else state))"

definition BloomFilter_deserializeState ::
    "bloom_env \<Rightarrow> document \<Rightarrow> (goerr + BloomFilterState) outcome" where
  "BloomFilter_deserializeState env data =
     (case unmarshal_map data of
        None \<Rightarrow> Returns (BloomFilter_deserializeLegacyState env data)
      | Some enhancedState \<Rightarrow>
         (case as_string (enhancedState ''version'') of
            None \<Rightarrow> Returns (Inl (ErrText ''invalid version in enhanced state''))
          | Some version \<Rightarrow>
         (case as_float64 (enhancedState ''item_count'') of
            None \<Rightarrow> Returns (Inl (ErrText ''invalid item_count in enhanced state''))
          | Some itemCount \<Rightarrow>
         (case as_float64 (enhancedState ''size'') of
            None \<Rightarrow> Returns (Inl (ErrText ''invalid size in enhanced state''))
          | Some sz \<Rightarrow>
         (case as_float64 (enhancedState ''hash_count'') of
            None \<Rightarrow> Returns (Inl (ErrText ''invalid hash_count in enhanced state''))
          | Some hashCount \<Rightarrow>
         (case as_slice (enhancedState ''bitset'') of
            None \<Rightarrow> Returns (Inl (ErrText ''invalid bitset in enhanced state''))
          | Some bitsetBytes \<Rightarrow>
         (case BloomFilter_bytesToBitset env bitsetBytes (f_to_int64 (be_oor env) sz) of
            Panics p \<Rightarrow> Panics p
          | Returns bitset \<Rightarrow>
              Returns (Inr \<lparr>bs_ItemCount = word_of_int (f_to_uint64 (be_oor env) itemCount),
                            bs_Size = word_of_int (f_to_uint64 (be_oor env) sz),
                            bs_HashCount = f_to_int64 (be_oor env) hashCount,
                            bs_Bitset = bitset, bs_Version = version\<rparr>))))))))"

section \<open>Store operations\<close>

definition BloomFilter_getStoreKey :: "'s BloomFilter \<Rightarrow> string" where
  "BloomFilter_getStoreKey bf = bf_keyPrefix bf @ '':filter''"

text \<open>
  The loop of \<open>saveToStoreWithRetry\<close> and \<open>loadFromStoreWithRetry\<close>: \<open>op\<close> is the operation that is
  tried, \<open>n\<close> the number of attempts left.
\<close>

fun store_retry ::
    "bloom_env \<Rightarrow> (instant \<Rightarrow> 's BloomFilter \<Rightarrow> (goerr option, 's) bloom_result) \<Rightarrow> ctx \<Rightarrow> nat \<Rightarrow> nat
       \<Rightarrow> instant \<Rightarrow> 's BloomFilter \<Rightarrow> (goerr option, 's) bloom_result" where
  "store_retry env op c 0 attempt t bf = (Returns (Some (wrapping (bloom ErrStoreOperationFailed))), t, bf)"
| "store_retry env op c (Suc n) attempt t bf =
     (if ctx_done t c then (Returns (Some ctx_cancelled), t, bf)
      else case op t bf of
        (Panics p, t1, bf1) \<Rightarrow> (Panics p, t1, bf1)
      | (Returns None, t1, bf1) \<Rightarrow>
          (Returns None, t1, upd_bm (\<lambda>m. m\<lparr>bm_StoreOperations := bm_StoreOperations m + 1\<rparr>) bf1)
      | (Returns (Some err), t1, bf1) \<Rightarrow>
          if attempt < MaxRetryAttemptsBloom - 1
          then (case timer_wait (be_lag env attempt) (be_pick env attempt)
                       (RetryDelayBloom * int (attempt + 1)) t1 c of
                  (t2, True) \<Rightarrow> (Returns (Some ctx_cancelled), t2, bf1)
                | (t2, False) \<Rightarrow> store_retry env op c n (Suc attempt) t2 bf1)
          else store_retry env op c n (Suc attempt) t1 bf1)"

definition BloomFilter_saveToStore ::
    "bloom_env \<Rightarrow> 's BloomStore \<Rightarrow> ctx \<Rightarrow> instant \<Rightarrow> 's BloomFilter \<Rightarrow> (goerr option, 's) bloom_result" where
  "BloomFilter_saveToStore env store c t bf =
     (if ctx_done t c then (Returns (Some ctx_cancelled), t, bf)
      else case BloomFilter_serializeState env t
          \<lparr>bs_ItemCount = bf_itemCount bf, bs_Size = bf_size bf, bs_HashCount = bf_hashCount bf,
           bs_Bitset = bf_bitset bf, bs_Version = ''1.1''\<rparr> bf of
        Inl err \<Rightarrow> (Returns (Some (wrapping (bloom ErrSerializationFailed))), t, bf)
      | Inr data \<Rightarrow>
         (case st_Set store t c (BloomFilter_getStoreKey bf) data (bf_ttl bf) (bf_stored bf) of
            (err, t1, w) \<Rightarrow> (Returns err, t1, bf\<lparr>bf_stored := w\<rparr>)))"

definition BloomFilter_saveToStoreWithRetry ::
    "bloom_env \<Rightarrow> ctx \<Rightarrow> instant \<Rightarrow> 's BloomFilter \<Rightarrow> (goerr option, 's) bloom_result" where
  "BloomFilter_saveToStoreWithRetry env c t bf =
     (case bf_store bf of
        None \<Rightarrow> (Returns (Some (bloom ErrStoreUnavailable)), t, bf)
      | Some store \<Rightarrow>
          store_retry env (BloomFilter_saveToStore env store c) c MaxRetryAttemptsBloom 0 t bf)"

text \<open>Go's \<open>copy(dst, src)\<close>.\<close>

definition go_copy :: "'a list \<Rightarrow> 'a list \<Rightarrow> 'a list" where
  "go_copy dst src = take (length dst) src @ drop (length src) dst"

definition BloomFilter_loadFromStore ::
    "bloom_env \<Rightarrow> 's BloomStore \<Rightarrow> ctx \<Rightarrow> instant \<Rightarrow> 's BloomFilter \<Rightarrow> (goerr option, 's) bloom_result" where
  "BloomFilter_loadFromStore env store c t bf =
     (if ctx_done t c then (Returns (Some ctx_cancelled), t, bf)
      else case st_Get store t c (BloomFilter_getStoreKey bf) (bf_stored bf) of
        (Inl err, t1, w) \<Rightarrow> (Returns (Some err), t1, bf\<lparr>bf_stored := w\<rparr>)
      | (Inr data, t1, w) \<Rightarrow>
          let bf1 = bf\<lparr>bf_stored := w\<rparr> in
          if ctx_done t1 c then (Returns (Some ctx_cancelled), t1, bf1)
          else case BloomFilter_deserializeState env data of
            Panics p \<Rightarrow> (Panics p, t1, bf1)
          | Returns (Inl err) \<Rightarrow> (Returns (Some (wrapping (bloom ErrDeserializationFailed))), t1, bf1)
          | Returns (Inr state) \<Rightarrow>
             (case validateBloomFilterState state (bf_size bf1) (bf_hashCount bf1) of
                Some err \<Rightarrow> (Returns (Some (wrapping err)), t1, bf1)
              | None \<Rightarrow>
                  (Returns None, t1, bf1\<lparr>bf_itemCount := bs_ItemCount state,
                                        bf_bitset := go_copy (bf_bitset bf1) (bs_Bitset state)\<rparr>)))"

definition BloomFilter_loadFromStoreWithRetry ::
    "bloom_env \<Rightarrow> ctx \<Rightarrow> instant \<Rightarrow> 's BloomFilter \<Rightarrow> (goerr option, 's) bloom_result" where
  "BloomFilter_loadFromStoreWithRetry env c t bf =
     (case bf_store bf of
        None \<Rightarrow> (Returns (Some (bloom ErrStoreUnavailable)), t, bf)
      | Some store \<Rightarrow>
          store_retry env (BloomFilter_loadFromStore env store c) c MaxRetryAttemptsBloom 0 t bf)"

section \<open>The constructor\<close>

definition make_BloomFilter :: "'s BloomConfig \<Rightarrow> counter \<Rightarrow> int \<Rightarrow> 's \<Rightarrow> 's BloomFilter" where
  "make_BloomFilter config sz hashCount stored =
     \<lparr>bf_bitset = replicate (unat sz) False, bf_size = sz, bf_hashCount = hashCount,
      bf_itemCount = 0, bf_maxItems = bc_ExpectedItems config,
      bf_falsePositiveRate = bc_FalsePositiveRate config, bf_store = bc_Store config,
      bf_keyPrefix = bc_KeyPrefix config, bf_ttl = bc_TTL config, bf_closed = False,
      bf_metrics = zero_BloomMetrics, bf_stored = stored\<rparr>"

definition NewBloomFilter ::
    "bloom_env \<Rightarrow> instant \<Rightarrow> 's BloomConfig option \<Rightarrow> 's \<Rightarrow> (goerr + 's BloomFilter) outcome" where
  "NewBloomFilter env now config stored =
     (case validateBloomConfig config of
        Some err \<Rightarrow> Returns (Inl (wrapping (common ErrInvalidConfig)))
      | None \<Rightarrow>
         (let c = applyBloomDefaults (the config) in
          case calculateOptimalParameters env (bc_ExpectedItems c) (bc_FalsePositiveRate c) of
            Inl err \<Rightarrow> Returns (Inl (wrapping err))
          | Inr (sz, hashCount) \<Rightarrow>
             (let bf = make_BloomFilter c sz hashCount stored in
              case bc_Store c of
                None \<Rightarrow> Returns (Inr bf)
              | Some store \<Rightarrow>
                 (case BloomFilter_loadFromStoreWithRetry env Background now bf of
                    (Panics p, t, bf1) \<Rightarrow> Panics p
                  | (Returns err, t, bf1) \<Rightarrow> Returns (Inr bf1)))))"

section \<open>Adding\<close>

text \<open>Persisting after an add: a failure is counted and otherwise ignored.\<close>

definition persist :: "bloom_env \<Rightarrow> ctx \<Rightarrow> instant \<Rightarrow> 's BloomFilter \<Rightarrow> (goerr option, 's) bloom_result" where
  "persist env c t bf =
     (case BloomFilter_saveToStoreWithRetry env c t bf of
        (Panics p, t1, bf1) \<Rightarrow> (Panics p, t1, bf1)
      | (Returns None, t1, bf1) \<Rightarrow> (Returns None, t1, bf1)
      | (Returns (Some err), t1, bf1) \<Rightarrow>
          (Returns None, t1, upd_bm (\<lambda>m. m\<lparr>bm_StoreErrors := bm_StoreErrors m + 1\<rparr>) bf1))"

text \<open>Hashing an item and setting its bits.\<close>

definition insert_item :: "bloom_env \<Rightarrow> string \<Rightarrow> 's BloomFilter \<Rightarrow> unit outcome \<times> 's BloomFilter" where
  "insert_item env item bf =
     (case BloomFilter_getHashPositions env item bf of
        Panics p \<Rightarrow> (Panics p, bf)
      | Returns positions \<Rightarrow>
         (case set_bits positions (bf_bitset bf) of
            (Panics p, bits) \<Rightarrow> (Panics p, bf\<lparr>bf_bitset := bits\<rparr>)
          | (Returns u, bits) \<Rightarrow>
              (Returns u, bf\<lparr>bf_bitset := bits, bf_itemCount := bf_itemCount bf + 1\<rparr>)))"

text \<open>\<open>Add\<close> from the moment it holds the mutex, at \<open>t\<close>.\<close>

definition Add_locked ::
    "bloom_env \<Rightarrow> instant \<Rightarrow> ctx \<Rightarrow> string \<Rightarrow> 's BloomFilter \<Rightarrow> (goerr option, 's) bloom_result" where
  "Add_locked env t opCtx item bf =
     (if ctx_done t opCtx then (Returns (Some ctx_cancelled), t, bf)
      else if bf_maxItems bf \<le> bf_itemCount bf
      then (Returns (Some (wrapping (bloom ErrCapacityExceeded))), t, bf)
      else case insert_item env item bf of
        (Panics p, bf1) \<Rightarrow> (Panics p, t, bf1)
      | (Returns _, bf1) \<Rightarrow>
         (let bf2 = upd_bm (\<lambda>m. m\<lparr>bm_AddOperations := bm_AddOperations m + 1\<rparr>) bf1 in
          case bf_store bf2 of
            None \<Rightarrow> (Returns None, t, bf2)
          | Some store \<Rightarrow> persist env opCtx t bf2))"

definition BloomFilter_Add ::
    "bloom_env \<Rightarrow> instant \<Rightarrow> ctx \<Rightarrow> string \<Rightarrow> 's BloomFilter \<Rightarrow> (goerr option, 's) bloom_result" where
  "BloomFilter_Add env now c item bf =
     (if bf_closed bf then (Returns (Some (bloom ErrFilterClosed)), now, bf)
      else case validateItem item of
        Some err \<Rightarrow> (Returns (Some (wrapping err)), now, bf)
      | None \<Rightarrow>
          if ctx_done now c then (Returns (Some ctx_cancelled), now, bf)
          else case Add_locked env (now + int (be_lock env)) (WithTimeout now (30 * Second) c) item bf of
            (r, t, bf1) \<Rightarrow> (r, t, BloomFilter_updateAddMetrics t (time_sub t now) bf1))"

text \<open>The loop of \<open>AddBatch\<close>; \<open>t\<close> is when the mutex was taken, \<open>i\<close> the index of the next item.\<close>

fun add_items ::
    "bloom_env \<Rightarrow> instant \<Rightarrow> ctx \<Rightarrow> nat \<Rightarrow> string list \<Rightarrow> nat \<Rightarrow> 's BloomFilter
       \<Rightarrow> goerr option outcome \<times> nat \<times> instant \<times> 's BloomFilter" where
  "add_items env t opCtx i [] added bf = (Returns None, added, t + int (be_elapsed env i), bf)"
| "add_items env t opCtx i (item # items) added bf =
     (let now = t + int (be_elapsed env i) in
      if i mod 100 = 0 \<and> ctx_done now opCtx then (Returns (Some ctx_cancelled), added, now, bf)
      else if bf_maxItems bf \<le> bf_itemCount bf then (Returns None, added, now, bf)
      else case insert_item env item bf of
        (Panics p, bf1) \<Rightarrow> (Panics p, added, now, bf1)
      | (Returns _, bf1) \<Rightarrow> add_items env t opCtx (Suc i) items (Suc added) bf1)"

definition AddBatch_locked ::
    "bloom_env \<Rightarrow> instant \<Rightarrow> ctx \<Rightarrow> string list \<Rightarrow> 's BloomFilter \<Rightarrow> (goerr option, 's) bloom_result" where
  "AddBatch_locked env t opCtx items bf =
     (if ctx_done t opCtx then (Returns (Some ctx_cancelled), t, bf)
      else case add_items env t opCtx 0 items 0 bf of
        (Panics p, added, t1, bf1) \<Rightarrow> (Panics p, t1, bf1)
      | (Returns (Some err), added, t1, bf1) \<Rightarrow> (Returns (Some err), t1, bf1)
      | (Returns None, added, t1, bf1) \<Rightarrow>
         (let bf2 = upd_bm (\<lambda>m. m\<lparr>bm_AddBatchOperations := bm_AddBatchOperations m + 1,
                                 bm_AddOperations := bm_AddOperations m + of_nat added\<rparr>) bf1 in
          case bf_store bf2 of
            None \<Rightarrow> (Returns None, t1, bf2)
          | Some store \<Rightarrow> if 0 < added then persist env opCtx t1 bf2 else (Returns None, t1, bf2)))"

definition BloomFilter_AddBatch ::
    "bloom_env \<Rightarrow> instant \<Rightarrow> ctx \<Rightarrow> string list \<Rightarrow> 's BloomFilter \<Rightarrow> (goerr option, 's) bloom_result" where
  "BloomFilter_AddBatch env now c items bf =
     (if bf_closed bf then (Returns (Some (bloom ErrFilterClosed)), now, bf)
      else case validateBatch items of
        Some err \<Rightarrow> (Returns (Some (wrapping err)), now, bf)
      | None \<Rightarrow>
          if ctx_done now c then (Returns (Some ctx_cancelled), now, bf)
          else case AddBatch_locked env (now + int (be_lock env)) (WithTimeout now (60 * Second) c) items bf of
            (r, t, bf1) \<Rightarrow>
              (r, t, BloomFilter_updateAddBatchMetrics t (time_sub t now) (length items) bf1))"

section \<open>Looking up\<close>

definition lookup_item :: "bloom_env \<Rightarrow> string \<Rightarrow> 's BloomFilter \<Rightarrow> bool outcome" where
  "lookup_item env item bf =
     (case BloomFilter_getHashPositions env item bf of
        Panics p \<Rightarrow> Panics p
      | Returns positions \<Rightarrow> test_bits positions (bf_bitset bf))"

definition Contains_locked ::
    "bloom_env \<Rightarrow> instant \<Rightarrow> ctx \<Rightarrow> string \<Rightarrow> 's BloomFilter \<Rightarrow> (bool \<times> goerr option, 's) bloom_result" where
  "Contains_locked env t opCtx item bf =
     (if ctx_done t opCtx then (Returns (False, Some ctx_cancelled), t, bf)
      else case lookup_item env item bf of
        Panics p \<Rightarrow> (Panics p, t, bf)
      | Returns False \<Rightarrow>
          (Returns (False, None), t, upd_bm (\<lambda>m. m\<lparr>bm_TrueNegatives := bm_TrueNegatives m + 1\<rparr>) bf)
      | Returns True \<Rightarrow>
          (Returns (True, None), t,
           upd_bm (\<lambda>m. m\<lparr>bm_ContainsOperations := bm_ContainsOperations m + 1\<rparr>) bf))"

definition BloomFilter_Contains ::
    "bloom_env \<Rightarrow> instant \<Rightarrow> ctx \<Rightarrow> string \<Rightarrow> 's BloomFilter \<Rightarrow> (bool \<times> goerr option, 's) bloom_result" where
  "BloomFilter_Contains env now c item bf =
     (if bf_closed bf then (Returns (False, Some (bloom ErrFilterClosed)), now, bf)
      else case validateItem item of
        Some err \<Rightarrow> (Returns (False, Some (wrapping err)), now, bf)
      | None \<Rightarrow>
          if ctx_done now c then (Returns (False, Some ctx_cancelled), now, bf)
          else case Contains_locked env (now + int (be_lock env)) (WithTimeout now (30 * Second) c) item bf of
            (r, t, bf1) \<Rightarrow> (r, t, BloomFilter_updateContainsMetrics t (time_sub t now) bf1))"

text \<open>The loop of \<open>ContainsBatch\<close>: the map built so far, or the error.\<close>

fun look_up_items ::
    "bloom_env \<Rightarrow> instant \<Rightarrow> ctx \<Rightarrow> nat \<Rightarrow> string list \<Rightarrow> (string \<rightharpoonup> bool) \<Rightarrow> 's BloomFilter
       \<Rightarrow> (goerr + (string \<rightharpoonup> bool)) outcome \<times> instant" where
  "look_up_items env t opCtx i [] results bf = (Returns (Inr results), t + int (be_elapsed env i))"
| "look_up_items env t opCtx i (item # items) results bf =
     (let now = t + int (be_elapsed env i) in
      if i mod 100 = 0 \<and> ctx_done now opCtx then (Returns (Inl ctx_cancelled), now)
      else case lookup_item env item bf of
        Panics p \<Rightarrow> (Panics p, now)
      | Returns contains \<Rightarrow> look_up_items env t opCtx (Suc i) items (results(item \<mapsto> contains)) bf)"

definition ContainsBatch_locked ::
    "bloom_env \<Rightarrow> instant \<Rightarrow> ctx \<Rightarrow> string list \<Rightarrow> 's BloomFilter
       \<Rightarrow> (goerr + (string \<rightharpoonup> bool), 's) bloom_result" where
  "ContainsBatch_locked env t opCtx items bf =
     (if ctx_done t opCtx then (Returns (Inl ctx_cancelled), t, bf)
      else case look_up_items env t opCtx 0 items Map.empty bf of
        (Panics p, t1) \<Rightarrow> (Panics p, t1, bf)
      | (Returns (Inl err), t1) \<Rightarrow> (Returns (Inl err), t1, bf)
      | (Returns (Inr results), t1) \<Rightarrow>
          (Returns (Inr results), t1,
           upd_bm (\<lambda>m. m\<lparr>bm_ContainsBatchOperations := bm_ContainsBatchOperations m + 1,
             bm_ContainsOperations := bm_ContainsOperations m + of_nat (length items)\<rparr>) bf))"

definition BloomFilter_ContainsBatch ::
    "bloom_env \<Rightarrow> instant \<Rightarrow> ctx \<Rightarrow> string list \<Rightarrow> 's BloomFilter
       \<Rightarrow> (goerr + (string \<rightharpoonup> bool), 's) bloom_result" where
  "BloomFilter_ContainsBatch env now c items bf =
     (if bf_closed bf then (Returns (Inl (bloom ErrFilterClosed)), now, bf)
      else case validateBatch items of
        Some err \<Rightarrow> (Returns (Inl (wrapping err)), now, bf)
      | None \<Rightarrow>
          if ctx_done now c then (Returns (Inl ctx_cancelled), now, bf)
          else case ContainsBatch_locked env (now + int (be_lock env)) (WithTimeout now (60 * Second) c) items bf of
            (r, t, bf1) \<Rightarrow>
              (r, t, BloomFilter_updateContainsBatchMetrics t (time_sub t now) (length items) bf1))"

section \<open>Clearing, statistics, closing\<close>

definition BloomFilter_Clear ::
    "bloom_env \<Rightarrow> instant \<Rightarrow> ctx \<Rightarrow> 's BloomFilter \<Rightarrow> goerr option \<times> instant \<times> 's BloomFilter" where
  "BloomFilter_Clear env now c bf =
     (if bf_closed bf then (Some (ErrText ''bloom filter is closed''), now, bf)
      else if ctx_done now c then (Some ctx_cancelled, now, bf)
      else let t = now + int (be_lock env);
               bf1 = bf\<lparr>bf_bitset := replicate (length (bf_bitset bf)) False, bf_itemCount := 0\<rparr> in
        case bf_store bf1 of
          None \<Rightarrow> (None, t, bf1)
        | Some store \<Rightarrow>
           (case st_Del store t c (BloomFilter_getStoreKey bf1) (bf_stored bf1) of
              (None, t1, w) \<Rightarrow> (None, t1, bf1\<lparr>bf_stored := w\<rparr>)
            | (Some err, t1, w) \<Rightarrow>
                (Some (wrapping (bloom ErrStoreOperationFailed)), t1,
                 upd_bm (\<lambda>m. m\<lparr>bm_StoreErrors := bm_StoreErrors m + 1\<rparr>) (bf1\<lparr>bf_stored := w\<rparr>))))"

definition BloomFilter_countSetBits :: "'s BloomFilter \<Rightarrow> counter" where
  "BloomFilter_countSetBits bf =
     foldl (\<lambda>count bit. if bit then count + 1 else count) 0 (bf_bitset bf)"

definition BloomFilter_calculateCurrentFalsePositiveRate :: "'s BloomFilter \<Rightarrow> float64" where
  "BloomFilter_calculateCurrentFalsePositiveRate bf =
     (if bf_itemCount bf = 0 then Fin 0
      else let p = f_div (f_of_int (uint (BloomFilter_countSetBits bf))) (f_of_int (uint (bf_size bf)))
           in math_Pow p (nat (bf_hashCount bf)))"

record BloomStats =
  bst_size :: counter
  bst_hash_count :: int
  bst_item_count :: counter
  bst_max_items :: counter
  bst_desired_false_positive_rate :: float64
  bst_current_false_positive_rate :: float64
  bst_load_factor :: float64
  bst_bits_set :: counter
  bst_bits_set_percentage :: float64
  bst_is_at_capacity :: bool
  bst_available_capacity :: counter
  bst_metrics :: BloomMetrics

definition BloomFilter_GetStats :: "'s BloomFilter \<Rightarrow> BloomStats" where
  "BloomFilter_GetStats bf =
     \<lparr>bst_size = bf_size bf, bst_hash_count = bf_hashCount bf, bst_item_count = bf_itemCount bf,
      bst_max_items = bf_maxItems bf, bst_desired_false_positive_rate = bf_falsePositiveRate bf,
      bst_current_false_positive_rate = BloomFilter_calculateCurrentFalsePositiveRate bf,
      bst_load_factor = f_div (f_of_int (uint (bf_itemCount bf))) (f_of_int (uint (bf_maxItems bf))),
      bst_bits_set = BloomFilter_countSetBits bf,
      bst_bits_set_percentage =
        f_mul (f_div (f_of_int (uint (BloomFilter_countSetBits bf))) (f_of_int (uint (bf_size bf)))) (Fin 100),
      bst_is_at_capacity = (bf_maxItems bf \<le> bf_itemCount bf),
      bst_available_capacity = bf_maxItems bf - bf_itemCount bf,
      bst_metrics = bf_metrics bf\<rparr>"

definition BloomFilter_Close :: "'s BloomFilter \<Rightarrow> goerr option \<times> 's BloomFilter" where
  "BloomFilter_Close bf =
     (if bf_closed bf then (Some (ErrText ''bloom filter already closed''), bf)
      else (None, bf\<lparr>bf_closed := True\<rparr>))"

definition BloomFilter_IsClosed :: "'s BloomFilter \<Rightarrow> bool" where
  "BloomFilter_IsClosed bf = bf_closed bf"

definition truncateString :: "string \<Rightarrow> nat \<Rightarrow> string" where
  "truncateString s maxLen = (if length s \<le> maxLen then s else take maxLen s @ ''...'')"

section \<open>Laws\<close>

lemma applyBloomDefaults_fields:
  "bc_ExpectedItems (applyBloomDefaults c) = bc_ExpectedItems c"
  "bc_FalsePositiveRate (applyBloomDefaults c) = bc_FalsePositiveRate c"
  "bc_KeyPrefix (applyBloomDefaults c) \<noteq> []" "bc_TTL (applyBloomDefaults c) \<noteq> 0"
  by (auto simp: applyBloomDefaults_def Let_def DefaultKeyPrefixBloom_def DefaultTTLBloom_def)

interpretation bfc: config_check "\<lambda>c. validateBloomConfig (Some c)" applyBloomDefaults
proof unfold_locales
  fix c :: "'a BloomConfig"
  assume "validateBloomConfig (Some c) = None"
  then show "validateBloomConfig (Some (applyBloomDefaults c)) = None"
    by (simp only: validateBloomConfig_def applyBloomDefaults_fields option.case)
  show "applyBloomDefaults (applyBloomDefaults c) = applyBloomDefaults c"
    using applyBloomDefaults_fields(3,4) [of c] by (simp add: applyBloomDefaults_def [of "applyBloomDefaults c"])
qed

interpretation bfl: closable BloomFilter_Close bf_closed
  by unfold_locales (auto simp: BloomFilter_Close_def)

text \<open>\<open>Add\<close> as an operation that a closed filter refuses.\<close>

definition add_op :: "bloom_env \<Rightarrow> instant \<times> ctx \<times> string \<Rightarrow> 's BloomFilter \<Rightarrow> goerr option outcome \<times> 's BloomFilter" where
  "add_op env a bf = (case a of (now, c, item) \<Rightarrow>
     (case BloomFilter_Add env now c item bf of (r, t, bf') \<Rightarrow> (r, bf')))"

interpretation bfg: guarded BloomFilter_Close bf_closed "add_op env" "\<lambda>_. Returns (Some (bloom ErrFilterClosed))"
  for env
  by unfold_locales (simp add: add_op_def BloomFilter_Add_def split: prod.splits)

end
