(* ===== verification/BloomSystem.thy ===== *)
theory BloomSystem
  imports Bloom
begin

text \<open>
  The Bloom filter as a set of bit positions. The locale \<open>bloom_set\<close> is the contract of a Bloom
  filter over any representation of a bit set; the model's filter interprets it. On top of it, runs
  of the filter: the operations hold the mutex, so a run is a sequence of them, in any order, by any
  callers, with any store behind the filter.
\<close>

declare not_None_eq [simp del]

section \<open>The contract\<close>

locale bloom_set =
  fixes positions :: "'i \<Rightarrow> nat set"
    and bits :: "'b \<Rightarrow> nat set"
    and inv :: "'b \<Rightarrow> bool"
    and insert :: "'i \<Rightarrow> 'b \<Rightarrow> 'b"
    and member :: "'i \<Rightarrow> 'b \<Rightarrow> bool"
  assumes insert_inv: "inv b \<Longrightarrow> inv (insert i b)"
    and insert_bits: "inv b \<Longrightarrow> bits (insert i b) = bits b \<union> positions i"
    and member_bits: "inv b \<Longrightarrow> member i b \<longleftrightarrow> positions i \<subseteq> bits b"
begin

definition insert_all :: "'i list \<Rightarrow> 'b \<Rightarrow> 'b" where
  "insert_all xs b = fold insert xs b"

lemma insert_all_simps [simp]: "insert_all [] b = b" "insert_all (x # xs) b = insert_all xs (insert x b)"
  by (simp_all add: insert_all_def)

lemma insert_all_inv: "inv b \<Longrightarrow> inv (insert_all xs b)"
  by (induction xs arbitrary: b) (auto intro: insert_inv)

lemma insert_all_bits: "inv b \<Longrightarrow> bits (insert_all xs b) = bits b \<union> \<Union> (positions ` set xs)"
  by (induction xs arbitrary: b) (auto simp: insert_inv insert_bits)

lemma member_insert: "inv b \<Longrightarrow> member i (insert i b)"
  by (simp add: member_bits insert_inv insert_bits)

lemma member_mono: "inv b \<Longrightarrow> inv b' \<Longrightarrow> bits b \<subseteq> bits b' \<Longrightarrow> member i b \<Longrightarrow> member i b'"
  by (auto simp: member_bits)

lemma member_insert_all: "inv b \<Longrightarrow> member i (insert_all xs b) \<longleftrightarrow> positions i \<subseteq> bits b \<union> \<Union> (positions ` set xs)"
  by (simp add: member_bits insert_all_inv insert_all_bits)

text \<open>No false negatives.\<close>

lemma no_false_negative: "inv b \<Longrightarrow> i \<in> set xs \<Longrightarrow> member i (insert_all xs b)"
  by (auto simp: member_insert_all)

text \<open>A false positive needs a collision at every position.\<close>

lemma false_positive:
  "inv b \<Longrightarrow> bits b = {} \<Longrightarrow> member i (insert_all xs b) \<Longrightarrow> p \<in> positions i \<Longrightarrow> \<exists>x\<in>set xs. p \<in> positions x"
  by (auto simp: member_insert_all)

end

section \<open>The filter's representation\<close>

definition bits_of :: "'s BloomFilter \<Rightarrow> nat set" where
  "bits_of bf = {p. p < length (bf_bitset bf) \<and> bf_bitset bf ! p}"

definition bloom_ok :: "'s BloomFilter \<Rightarrow> bool" where
  "bloom_ok bf \<longleftrightarrow> 0 < bf_size bf \<and> length (bf_bitset bf) = unat (bf_size bf) \<and> 0 \<le> bf_hashCount bf"

definition hash_list :: "bloom_env \<Rightarrow> counter \<Rightarrow> int \<Rightarrow> string \<Rightarrow> counter list" where
  "hash_list env sz h item =
     map (\<lambda>i. (fnv64a (to_bytes item) + of_nat i * BigEndian_Uint64 (be_md5 env (to_bytes item))
               + of_nat (i * i) * BigEndian_Uint64 (be_sha256 env (to_bytes item))) mod sz) [0..<nat h]"

definition positions_of :: "bloom_env \<Rightarrow> counter \<Rightarrow> int \<Rightarrow> string \<Rightarrow> nat set" where
  "positions_of env sz h item = unat ` set (hash_list env sz h item)"

definition or_bits :: "nat set \<Rightarrow> bool list \<Rightarrow> bool list" where
  "or_bits P bits = map (\<lambda>i. bits ! i \<or> i \<in> P) [0..<length bits]"

lemma or_bits_length [simp]: "length (or_bits P bits) = length bits"
  by (simp add: or_bits_def)

lemma or_bits_nth [simp]: "i < length bits \<Longrightarrow> or_bits P bits ! i \<longleftrightarrow> bits ! i \<or> i \<in> P"
  by (simp add: or_bits_def)

lemma positions_lt: "0 < sz \<Longrightarrow> p \<in> positions_of env sz h item \<Longrightarrow> p < unat sz"
  by (auto simp: positions_of_def hash_list_def word_less_nat_alt unat_mod intro!: mod_less_divisor)

lemma getHashPositions_ok:
  "bloom_ok bf \<Longrightarrow>
     BloomFilter_getHashPositions env item bf = Returns (hash_list env (bf_size bf) (bf_hashCount bf) item)"
  by (auto simp: BloomFilter_getHashPositions_def bloom_ok_def hash_list_def Let_def)

lemma set_bits_ok:
  "\<forall>p\<in>set ps. unat p < length bits \<Longrightarrow> set_bits ps bits = (Returns (), or_bits (unat ` set ps) bits)"
proof (induction ps arbitrary: bits)
  case Nil
  then show ?case by (simp add: or_bits_def map_nth)
next
  case (Cons p ps)
  have "or_bits (unat ` set ps) (bits[unat p := True]) = or_bits (unat ` set (p # ps)) bits"
    using Cons.prems by (intro nth_equalityI) (auto simp: nth_list_update)
  with Cons show ?case by simp
qed

lemma test_bits_ok:
  "\<forall>p\<in>set ps. unat p < length bits \<Longrightarrow> test_bits ps bits = Returns (\<forall>p\<in>set ps. bits ! unat p)"
  by (induction ps) auto

definition inserted :: "nat set \<Rightarrow> 's BloomFilter \<Rightarrow> 's BloomFilter" where
  "inserted P bf = bf\<lparr>bf_bitset := or_bits P (bf_bitset bf), bf_itemCount := bf_itemCount bf + 1\<rparr>"

lemma insert_item_ok:
  assumes "bloom_ok bf"
  shows "insert_item env item bf
    = (Returns (), inserted (positions_of env (bf_size bf) (bf_hashCount bf) item) bf)"
proof -
  have "\<forall>p\<in>set (hash_list env (bf_size bf) (bf_hashCount bf) item). unat p < length (bf_bitset bf)"
    using assms positions_lt [of "bf_size bf" _ env "bf_hashCount bf" item]
    by (auto simp: bloom_ok_def positions_of_def)
  then show ?thesis
    using assms
    by (simp add: insert_item_def getHashPositions_ok set_bits_ok inserted_def positions_of_def)
qed

lemma lookup_item_ok:
  assumes "bloom_ok bf"
  shows "lookup_item env item bf
    = Returns (positions_of env (bf_size bf) (bf_hashCount bf) item \<subseteq> bits_of bf)"
proof -
  have "\<forall>p\<in>set (hash_list env (bf_size bf) (bf_hashCount bf) item). unat p < length (bf_bitset bf)"
    using assms positions_lt [of "bf_size bf" _ env "bf_hashCount bf" item]
    by (auto simp: bloom_ok_def positions_of_def)
  then show ?thesis
    using assms
    by (auto simp: lookup_item_def getHashPositions_ok test_bits_ok positions_of_def bits_of_def)
qed

lemma inserted_ok: "bloom_ok bf \<Longrightarrow> bloom_ok (inserted P bf)"
  by (simp add: bloom_ok_def inserted_def)

lemma inserted_bits:
  "bloom_ok bf \<Longrightarrow> P \<subseteq> {..<unat (bf_size bf)} \<Longrightarrow> bits_of (inserted P bf) = bits_of bf \<union> P"
  by (auto simp: bits_of_def inserted_def bloom_ok_def)

text \<open>A filter of size \<open>sz\<close> with \<open>h\<close> hash functions is a Bloom filter.\<close>

definition insert_op :: "bloom_env \<Rightarrow> string \<Rightarrow> 's BloomFilter \<Rightarrow> 's BloomFilter" where
  "insert_op env item bf = snd (insert_item env item bf)"

definition member_op :: "bloom_env \<Rightarrow> string \<Rightarrow> 's BloomFilter \<Rightarrow> bool" where
  "member_op env item bf \<longleftrightarrow> lookup_item env item bf = Returns True"

definition bloom_dim :: "counter \<Rightarrow> int \<Rightarrow> 's BloomFilter \<Rightarrow> bool" where
  "bloom_dim sz h bf \<longleftrightarrow> bloom_ok bf \<and> bf_size bf = sz \<and> bf_hashCount bf = h"

interpretation bfs: bloom_set "positions_of env sz h" bits_of "bloom_dim sz h" "insert_op env" "member_op env"
  for env sz h
proof unfold_locales
  fix b :: "'a BloomFilter" and i
  assume b: "bloom_dim sz h b"
  then have ok: "bloom_ok b" by (simp add: bloom_dim_def)
  show "bloom_dim sz h (insert_op env i b)"
    using b inserted_ok [OF ok] by (simp add: bloom_dim_def insert_op_def insert_item_ok [OF ok] inserted_def)
  have "positions_of env sz h i \<subseteq> {..<unat (bf_size b)}"
    using b positions_lt [of sz] by (auto simp: bloom_dim_def bloom_ok_def)
  then show "bits_of (insert_op env i b) = bits_of b \<union> positions_of env sz h i"
    using b inserted_bits [OF ok] by (simp add: bloom_dim_def insert_op_def insert_item_ok [OF ok])
  show "member_op env i b \<longleftrightarrow> positions_of env sz h i \<subseteq> bits_of b"
    using b by (simp add: bloom_dim_def member_op_def lookup_item_ok [OF ok])
qed

section \<open>What the store operations leave alone\<close>

definition core :: "'s BloomFilter \<Rightarrow> bool list \<times> counter \<times> int \<times> counter \<times> counter \<times> bool" where
  "core bf = (bf_bitset bf, bf_size bf, bf_hashCount bf, bf_itemCount bf, bf_maxItems bf, bf_closed bf)"

lemma core_upd_bm [simp]: "core (upd_bm f bf) = core bf"
  by (simp add: core_def upd_bm_def)

lemma core_metrics [simp]:
  "core (BloomFilter_updateAddMetrics t d bf) = core bf"
  "core (BloomFilter_updateContainsMetrics t d bf) = core bf"
  "core (BloomFilter_updateAddBatchMetrics t d n bf) = core bf"
  "core (BloomFilter_updateContainsBatchMetrics t d n bf) = core bf"
  by (simp_all add: BloomFilter_updateAddMetrics_def BloomFilter_updateContainsMetrics_def
      BloomFilter_updateAddBatchMetrics_def BloomFilter_updateContainsBatchMetrics_def)

lemma core_fields:
  assumes "core bf' = core bf"
  shows "bf_bitset bf' = bf_bitset bf" "bf_size bf' = bf_size bf" "bf_hashCount bf' = bf_hashCount bf"
    "bf_itemCount bf' = bf_itemCount bf" "bf_maxItems bf' = bf_maxItems bf" "bf_closed bf' = bf_closed bf"
    "bits_of bf' = bits_of bf" "bloom_ok bf' = bloom_ok bf"
  using assms by (auto simp: core_def bits_of_def bloom_ok_def)

text \<open>An operation that never panics and keeps a property does so under the retry loop.\<close>

lemma store_retry_keeps:
  assumes "\<And>t bf r t' bf'. op t bf = (r, t', bf') \<Longrightarrow> P bf \<Longrightarrow> P bf' \<and> (safe \<longrightarrow> (\<exists>e. r = Returns e))"
    and "\<And>f bf. P (upd_bm f bf) = P bf"
  shows "store_retry env op c n attempt t bf = (r, t', bf') \<Longrightarrow> P bf \<Longrightarrow> P bf' \<and> (safe \<longrightarrow> (\<exists>e. r = Returns e))"
proof (induction n arbitrary: attempt t bf)
  case (Suc n)
  obtain r1 t1 bf1 where o: "op t bf = (r1, t1, bf1)" by (cases "op t bf")
  have P1: "P bf1" "safe \<longrightarrow> (\<exists>e. r1 = Returns e)" using assms(1) [OF o Suc.prems(2)] by auto
  show ?case
  proof (cases "ctx_done t c")
    case True
    then show ?thesis using Suc.prems by auto
  next
    case False
    show ?thesis
    proof (cases r1)
      case (Panics p)
      then show ?thesis using Suc.prems(1) False o P1 by auto
    next
      case (Returns e)
      show ?thesis
      proof (cases e)
        case None
        then show ?thesis using Suc.prems(1) False o P1 Returns assms(2) by auto
      next
        case (Some x)
        then show ?thesis
          using Suc.prems(1) False o P1 Returns Suc.IH [of "Suc attempt" _ bf1]
          by (auto split: if_splits prod.splits bool.splits)
      qed
    qed
  qed
qed auto

lemma saveToStore_keeps:
  assumes "BloomFilter_saveToStore env store c t bf = (r, t', bf')"
  shows "core bf' = core bf \<and> (\<exists>e. r = Returns e)"
  using assms by (auto simp: BloomFilter_saveToStore_def core_def split: if_splits sum.splits prod.splits)

lemma save_keeps:
  assumes "BloomFilter_saveToStoreWithRetry env c t bf = (r, t', bf')"
  shows "core bf' = core bf \<and> (\<exists>e. r = Returns e)"
proof (cases "bf_store bf")
  case None
  then show ?thesis using assms by (auto simp: BloomFilter_saveToStoreWithRetry_def)
next
  case (Some store)
  have "core bf' = core bf \<and> (True \<longrightarrow> (\<exists>e. r = Returns e))"
  proof (rule store_retry_keeps [where P = "\<lambda>x. core x = core bf"])
    show "store_retry env (BloomFilter_saveToStore env store c) c MaxRetryAttemptsBloom 0 t bf = (r, t', bf')"
      using assms Some by (simp add: BloomFilter_saveToStoreWithRetry_def)
  qed (auto dest: saveToStore_keeps)
  then show ?thesis by simp
qed

lemma persist_keeps:
  assumes "persist env c t bf = (r, t', bf')"
  shows "core bf' = core bf \<and> r = Returns None"
proof -
  obtain r1 t1 bf1 where x: "BloomFilter_saveToStoreWithRetry env c t bf = (r1, t1, bf1)"
    by (cases "BloomFilter_saveToStoreWithRetry env c t bf")
  from save_keeps [OF x] obtain e where "core bf1 = core bf" "r1 = Returns e" by blast
  with x assms show ?thesis by (cases e) (auto simp: persist_def)
qed

lemma persist_returns [simp]: "fst (persist env c t bf) = Returns None"
  using persist_keeps [of env c t bf] by (cases "persist env c t bf") auto

section \<open>What an add does\<close>

lemma core_ok: "core bf' = core bf \<Longrightarrow> bloom_ok bf \<Longrightarrow> bloom_ok bf'"
  using core_fields(8) by blast

lemma insert_item_op: "bloom_ok bf \<Longrightarrow> insert_item env item bf = (Returns (), insert_op env item bf)"
  by (simp add: insert_op_def insert_item_ok)

lemma Add_locked_run:
  assumes ok: "bloom_ok bf" and "\<not> ctx_done t c" and "bf_itemCount bf < bf_maxItems bf"
  obtains t' bf' where "Add_locked env t c item bf = (Returns None, t', bf')"
    "core bf' = core (insert_op env item bf)"
proof -
  let ?bf2 = "upd_bm (\<lambda>m. m\<lparr>bm_AddOperations := bm_AddOperations m + 1\<rparr>) (insert_op env item bf)"
  have x: "Add_locked env t c item bf = (case bf_store ?bf2 of None \<Rightarrow> (Returns None, t, ?bf2)
      | Some store \<Rightarrow> persist env c t ?bf2)"
    using assms(2,3) by (simp add: Add_locked_def insert_item_op [OF ok] Let_def flip: not_le)
  show thesis
  proof (cases "bf_store ?bf2")
    case None
    then show thesis using x by (intro that [of t ?bf2]) simp_all
  next
    case (Some store)
    obtain r t' bf' where p: "persist env c t ?bf2 = (r, t', bf')" by (cases "persist env c t ?bf2")
    from persist_keeps [OF p] x Some p show thesis by (intro that [of t' bf']) simp_all
  qed
qed

lemma Add_locked_cases:
  assumes ok: "bloom_ok bf" and x: "Add_locked env t c item bf = (r, t', bf')"
  shows "(r = Returns None \<and> \<not> ctx_done t c \<and> bf_itemCount bf < bf_maxItems bf
        \<and> core bf' = core (insert_op env item bf))
    \<or> (\<exists>e. r = Returns (Some e)) \<and> core bf' = core bf"
proof (cases "ctx_done t c \<or> bf_maxItems bf \<le> bf_itemCount bf")
  case True
  then have "\<exists>e. (r, t', bf') = (Returns (Some e), t, bf)"
    using x by (cases "ctx_done t c") (auto simp: Add_locked_def)
  then show ?thesis by auto
next
  case False
  then have "\<not> ctx_done t c" "bf_itemCount bf < bf_maxItems bf" by (auto simp: not_le)
  from Add_locked_run [OF ok this, of env item] show ?thesis using x False by (auto simp: not_le)
qed

lemma Add_cases:
  assumes ok: "bloom_ok bf" and x: "BloomFilter_Add env now c item bf = (r, t', bf')"
  shows "(r = Returns None \<and> \<not> bf_closed bf \<and> validateItem item = None
        \<and> bf_itemCount bf < bf_maxItems bf \<and> core bf' = core (insert_op env item bf))
    \<or> (\<exists>e. r = Returns (Some e)) \<and> core bf' = core bf"
proof (cases "bf_closed bf \<or> validateItem item \<noteq> None \<or> ctx_done now c")
  case True
  then have "\<exists>e. (r, t', bf') = (Returns (Some e), now, bf)"
    using x by (cases "bf_closed bf"; cases "validateItem item"; cases "ctx_done now c")
      (auto simp: BloomFilter_Add_def)
  then show ?thesis by auto
next
  case False
  obtain r1 t1 bf1 where l: "Add_locked env (now + int (be_lock env)) (WithTimeout now (30 * Second) c) item bf
      = (r1, t1, bf1)" by (cases "Add_locked env (now + int (be_lock env)) (WithTimeout now (30 * Second) c) item bf")
  with False x have "r = r1" "core bf' = core bf1" by (auto simp: BloomFilter_Add_def)
  with Add_locked_cases [OF ok l] False show ?thesis by auto
qed

text \<open>When nothing stands in the way, \<open>Add\<close> succeeds.\<close>

lemma Add_succeeds:
  assumes ok: "bloom_ok bf" and "\<not> bf_closed bf" and "validateItem item = None"
    and "bf_itemCount bf < bf_maxItems bf" and "\<not> ctx_done (now + int (be_lock env)) c"
    and "int (be_lock env) < 30 * Second"
  shows "fst (BloomFilter_Add env now c item bf) = Returns None"
proof -
  let ?t = "now + int (be_lock env)" and ?c = "WithTimeout now (30 * Second) c"
  have n: "\<not> ctx_done now c" using assms(5) ctx_done_mono [of now c ?t] by auto
  have d: "\<not> ctx_done ?t ?c"
    using assms(5,6) unfolding ctx_done_iff by (auto simp: WithTimeout_def passed_def split: option.splits)
  obtain t1 bf1 where "Add_locked env ?t ?c item bf = (Returns None, t1, bf1)"
    using Add_locked_run [OF ok d assms(4)] by blast
  then show ?thesis using n assms(2,3) by (simp add: BloomFilter_Add_def)
qed

lemma insert_op_fields:
  assumes "bloom_ok bf"
  shows "bf_itemCount (insert_op env item bf) = bf_itemCount bf + 1"
    "bf_maxItems (insert_op env item bf) = bf_maxItems bf" "bf_size (insert_op env item bf) = bf_size bf"
    "bf_hashCount (insert_op env item bf) = bf_hashCount bf" "bf_closed (insert_op env item bf) = bf_closed bf"
    "bf_store (insert_op env item bf) = bf_store bf" "bloom_ok (insert_op env item bf)"
  using assms inserted_ok [OF assms] by (simp_all add: insert_op_def insert_item_ok inserted_def)

lemma insert_all_fields:
  assumes "bloom_ok bf"
  shows "bf_maxItems (bfs.insert_all env xs bf) = bf_maxItems bf \<and> bf_size (bfs.insert_all env xs bf) = bf_size bf
    \<and> bf_hashCount (bfs.insert_all env xs bf) = bf_hashCount bf \<and> bf_closed (bfs.insert_all env xs bf) = bf_closed bf
    \<and> bf_store (bfs.insert_all env xs bf) = bf_store bf \<and> bloom_ok (bfs.insert_all env xs bf)
    \<and> bf_itemCount (bfs.insert_all env xs bf) = bf_itemCount bf + of_nat (length xs)"
  using assms
proof (induction xs arbitrary: bf)
  case (Cons x xs)
  from Cons.IH [of "insert_op env x bf"] insert_op_fields [OF Cons.prems] show ?case by (simp add: add.assoc)
qed simp

lemma filter_insert_all_bits:
  assumes "bloom_ok bf"
  shows "bits_of (bfs.insert_all env xs bf)
    = bits_of bf \<union> \<Union> (positions_of env (bf_size bf) (bf_hashCount bf) ` set xs)"
  using bfs.insert_all_bits [of "bf_size bf" "bf_hashCount bf" bf env xs] assms by (simp add: bloom_dim_def)

text \<open>The batch loop adds a prefix of the items, as far as the capacity goes.\<close>

lemma unat_Suc_lt: "(w::counter) < v \<Longrightarrow> unat (w + 1) = Suc (unat w)"
proof -
  have "unat v < 2 ^ 64" using unsigned_less [of v] by simp
  moreover assume "w < v"
  ultimately show ?thesis by (simp add: unat_word_ariths word_less_nat_alt)
qed

lemma add_items_cases:
  "bloom_ok bf \<Longrightarrow> add_items env t c i items n bf = (r, n', t', bf') \<Longrightarrow>
     \<exists>k\<le>length items. n' = n + k \<and> k \<le> unat (bf_maxItems bf) - unat (bf_itemCount bf)
       \<and> bf' = bfs.insert_all env (take k items) bf \<and> (\<exists>e. r = Returns e)
       \<and> (r = Returns None \<longrightarrow> k = min (length items) (unat (bf_maxItems bf) - unat (bf_itemCount bf)))"
proof (induction items arbitrary: i n bf)
  case Nil
  then show ?case by auto
next
  case (Cons item items)
  let ?now = "t + int (be_elapsed env i)"
  show ?case
  proof (cases "i mod 100 = 0 \<and> ctx_done ?now c \<or> bf_maxItems bf \<le> bf_itemCount bf")
    case True
    with Cons.prems have "n' = n" "bf' = bf" "\<exists>e. r = Returns e"
      "r = Returns None \<longrightarrow> unat (bf_maxItems bf) \<le> unat (bf_itemCount bf)"
      by (auto simp: Let_def word_le_nat_alt split: if_splits)
    then show ?thesis by (intro exI [of _ 0]) auto
  next
    case False
    let ?bf = "insert_op env item bf"
    have "add_items env t c i (item # items) n bf = add_items env t c (Suc i) items (Suc n) ?bf"
      using False by (simp only: add_items.simps insert_item_op [OF Cons.prems(1)] Let_def if_False
          de_Morgan_disj prod.case outcome.case)
    then have "add_items env t c (Suc i) items (Suc n) ?bf = (r, n', t', bf')" using Cons.prems(2) by simp
    with Cons.IH [of ?bf "Suc i" "Suc n"] insert_op_fields [OF Cons.prems(1)] obtain k where k:
      "k \<le> length items" "n' = Suc n + k"
      "k \<le> unat (bf_maxItems bf) - unat (bf_itemCount bf + 1)"
      "bf' = bfs.insert_all env (take k items) ?bf" "\<exists>e. r = Returns e"
      "r = Returns None \<longrightarrow> k = min (length items) (unat (bf_maxItems bf) - unat (bf_itemCount bf + 1))"
      by auto
    have u: "unat (bf_itemCount bf + 1) = Suc (unat (bf_itemCount bf))"
      "unat (bf_itemCount bf) < unat (bf_maxItems bf)"
      using False unat_Suc_lt [of "bf_itemCount bf" "bf_maxItems bf"] by (auto simp: word_less_nat_alt not_le)
    show ?thesis
    proof (intro exI [of _ "Suc k"] conjI)
      show "Suc k \<le> unat (bf_maxItems bf) - unat (bf_itemCount bf)" using k(3) u by linarith
      show "r = Returns None \<longrightarrow> Suc k = min (length (item # items)) (unat (bf_maxItems bf) - unat (bf_itemCount bf))"
        using k(6) u by auto
    qed (use k in auto)
  qed
qed

lemma AddBatch_cases:
  assumes ok: "bloom_ok bf" and x: "BloomFilter_AddBatch env now c items bf = (r, t', bf')"
  shows "\<exists>k\<le>length items. k \<le> unat (bf_maxItems bf) - unat (bf_itemCount bf)
    \<and> core bf' = core (bfs.insert_all env (take k items) bf) \<and> (\<exists>e. r = Returns e)
    \<and> (r = Returns None \<longrightarrow> k = min (length items) (unat (bf_maxItems bf) - unat (bf_itemCount bf)))"
proof (cases "bf_closed bf \<or> validateBatch items \<noteq> None \<or> ctx_done now c")
  case True
  then have "\<exists>e. (r, t', bf') = (Returns (Some e), now, bf)"
    using x by (cases "bf_closed bf"; cases "validateBatch items"; cases "ctx_done now c")
      (auto simp: BloomFilter_AddBatch_def)
  then show ?thesis by (intro exI [of _ 0]) auto
next
  case False
  let ?t = "now + int (be_lock env)" and ?c = "WithTimeout now (60 * Second) c"
  obtain r1 t1 bf1 where l: "AddBatch_locked env ?t ?c items bf = (r1, t1, bf1)"
    by (cases "AddBatch_locked env ?t ?c items bf")
  with False x have r: "r = r1" "core bf' = core bf1" by (auto simp: BloomFilter_AddBatch_def)
  show ?thesis
  proof (cases "ctx_done ?t ?c")
    case True
    with l r show ?thesis by (intro exI [of _ 0]) (auto simp: AddBatch_locked_def)
  next
    case False
    obtain r2 n t2 bf2 where a: "add_items env ?t ?c 0 items 0 bf = (r2, n, t2, bf2)"
      by (cases "add_items env ?t ?c 0 items 0 bf")
    obtain k where k: "k \<le> length items" "k \<le> unat (bf_maxItems bf) - unat (bf_itemCount bf)"
      "bf2 = bfs.insert_all env (take k items) bf" "\<exists>e. r2 = Returns e"
      "r2 = Returns None \<longrightarrow> k = min (length items) (unat (bf_maxItems bf) - unat (bf_itemCount bf))"
      using add_items_cases [OF ok a] by auto
    have "r1 = r2 \<and> core bf1 = core bf2"
    proof (cases "r2 = Returns None")
      case True
      let ?bf3 = "upd_bm (\<lambda>m. m\<lparr>bm_AddBatchOperations := bm_AddBatchOperations m + 1,
          bm_AddOperations := bm_AddOperations m + of_nat n\<rparr>) bf2"
      from l False a True have "(case bf_store ?bf3 of None \<Rightarrow> (Returns None, t2, ?bf3)
          | Some store \<Rightarrow> if 0 < n then persist env ?c t2 ?bf3 else (Returns None, t2, ?bf3)) = (r1, t1, bf1)"
        by (simp only: AddBatch_locked_def Let_def prod.case outcome.case option.case if_False)
      then show ?thesis
        using persist_keeps [of env ?c t2 ?bf3 r1 t1 bf1] True
        by (cases "bf_store ?bf3") (auto split: if_splits)
    next
      case nn: False
      with k(4) obtain e where "r2 = Returns (Some e)" by (metis not_None_eq)
      with l False a show ?thesis by (simp add: AddBatch_locked_def)
    qed
    with k r show ?thesis by (intro exI [of _ k]) simp
  qed
qed

section \<open>What a lookup does\<close>

lemma Contains_value:
  assumes ok: "bloom_ok bf" and "\<not> bf_closed bf" and "validateItem item = None"
    and "\<not> ctx_done (now + int (be_lock env)) c" and "int (be_lock env) < 30 * Second"
  shows "fst (BloomFilter_Contains env now c item bf)
    = Returns (positions_of env (bf_size bf) (bf_hashCount bf) item \<subseteq> bits_of bf, None)"
proof -
  let ?t = "now + int (be_lock env)" and ?c = "WithTimeout now (30 * Second) c"
  have n: "\<not> ctx_done now c" using assms(4) ctx_done_mono [of now c ?t] by auto
  have d: "\<not> ctx_done ?t ?c"
    using assms(4,5) unfolding ctx_done_iff by (auto simp: WithTimeout_def passed_def split: option.splits)
  show ?thesis
    using n d assms(2,3)
    by (cases "positions_of env (bf_size bf) (bf_hashCount bf) item \<subseteq> bits_of bf")
      (simp_all add: BloomFilter_Contains_def Contains_locked_def lookup_item_ok [OF ok])
qed

lemma Contains_keeps:
  assumes ok: "bloom_ok bf" and x: "BloomFilter_Contains env now c item bf = (r, t', bf')"
  shows "core bf' = core bf \<and> (\<exists>v. r = Returns v)"
proof (cases "bf_closed bf \<or> validateItem item \<noteq> None \<or> ctx_done now c")
  case True
  then have "\<exists>v. (r, t', bf') = (Returns v, now, bf)"
    using x by (cases "bf_closed bf"; cases "validateItem item"; cases "ctx_done now c")
      (auto simp: BloomFilter_Contains_def)
  then show ?thesis by auto
next
  case False
  then show ?thesis
    using x by (cases "positions_of env (bf_size bf) (bf_hashCount bf) item \<subseteq> bits_of bf")
      (auto simp: BloomFilter_Contains_def Contains_locked_def lookup_item_ok [OF ok] split: if_splits)
qed

lemma look_up_items_returns:
  "bloom_ok bf \<Longrightarrow> \<exists>v. fst (look_up_items env t c i items results bf) = Returns v"
  by (induction items arbitrary: i results) (auto simp: lookup_item_ok Let_def)

lemma ContainsBatch_keeps:
  assumes ok: "bloom_ok bf" and x: "BloomFilter_ContainsBatch env now c items bf = (r, t', bf')"
  shows "core bf' = core bf \<and> (\<exists>v. r = Returns v)"
proof (cases "bf_closed bf \<or> validateBatch items \<noteq> None \<or> ctx_done now c")
  case True
  then have "\<exists>v. (r, t', bf') = (Returns v, now, bf)"
    using x by (cases "bf_closed bf"; cases "validateBatch items"; cases "ctx_done now c")
      (auto simp: BloomFilter_ContainsBatch_def)
  then show ?thesis by auto
next
  case False
  let ?t = "now + int (be_lock env)" and ?c = "WithTimeout now (60 * Second) c"
  obtain v t1 where l: "look_up_items env ?t ?c 0 items Map.empty bf = (Returns v, t1)"
    using look_up_items_returns [OF ok, of env ?t ?c 0 items Map.empty]
    by (cases "look_up_items env ?t ?c 0 items Map.empty bf") auto
  show ?thesis
  proof (cases "ctx_done ?t ?c")
    case True
    then show ?thesis using x False by (auto simp: BloomFilter_ContainsBatch_def ContainsBatch_locked_def)
  next
    case nd: False
    then show ?thesis using x False l
      by (cases v) (auto simp: BloomFilter_ContainsBatch_def ContainsBatch_locked_def)
  qed
qed

section \<open>What the constructor returns\<close>

definition dims :: "'s BloomFilter \<Rightarrow> counter \<times> int \<times> nat" where
  "dims bf = (bf_size bf, bf_hashCount bf, length (bf_bitset bf))"

lemma go_copy_length [simp]: "length (go_copy dst src) = length dst"
  by (auto simp: go_copy_def)

lemma load_dims:
  assumes "BloomFilter_loadFromStore env store c t bf = (r, t', bf')"
  shows "dims bf' = dims bf"
  using assms
  by (auto simp: BloomFilter_loadFromStore_def dims_def Let_def
      split: if_splits sum.splits prod.splits outcome.splits option.splits)

lemma loadWithRetry_dims:
  assumes "BloomFilter_loadFromStoreWithRetry env c t bf = (r, t', bf')"
  shows "dims bf' = dims bf"
proof (cases "bf_store bf")
  case None
  then show ?thesis using assms by (auto simp: BloomFilter_loadFromStoreWithRetry_def)
next
  case (Some store)
  have "dims bf' = dims bf \<and> (False \<longrightarrow> (\<exists>e. r = Returns e))"
  proof (rule store_retry_keeps [where P = "\<lambda>x. dims x = dims bf"])
    show "store_retry env (BloomFilter_loadFromStore env store c) c MaxRetryAttemptsBloom 0 t bf = (r, t', bf')"
      using assms Some by (simp add: BloomFilter_loadFromStoreWithRetry_def)
  qed (auto dest: load_dims simp: dims_def upd_bm_def)
  then show ?thesis by simp
qed

lemma calculateOptimalParameters_Inr:
  assumes "calculateOptimalParameters env n p = Inr (sz, h)"
  shows "0 < sz \<and> sz \<le> MaxBitsetSizeBloom \<and> 1 \<le> h \<and> h \<le> 50"
  using assms
  by (auto simp: calculateOptimalParameters_def Let_def MinHashCountBloom_def MaxHashCountBloom_def
      word_neq_0_conv not_less split: if_splits)

lemma NewBloomFilter_ok:
  assumes "NewBloomFilter env now config w = Returns (Inr bf)"
  shows "bloom_ok bf \<and> 1 \<le> bf_hashCount bf \<and> bf_hashCount bf \<le> 50"
proof -
  from assms obtain sz h where p:
      "calculateOptimalParameters env (bc_ExpectedItems (applyBloomDefaults (the config)))
         (bc_FalsePositiveRate (applyBloomDefaults (the config))) = Inr (sz, h)"
    by (auto simp: NewBloomFilter_def Let_def split: option.splits sum.splits)
  let ?c = "applyBloomDefaults (the config)"
  let ?m = "make_BloomFilter ?c sz h w"
  have d: "dims ?m = (sz, h, unat sz)" by (simp add: dims_def make_BloomFilter_def)
  have "dims bf = dims ?m"
  proof (cases "bc_Store ?c")
    case None
    then show ?thesis using assms p by (auto simp: NewBloomFilter_def Let_def split: option.splits)
  next
    case (Some store)
    obtain r t bf1 where l: "BloomFilter_loadFromStoreWithRetry env Background now ?m = (r, t, bf1)"
      by (cases "BloomFilter_loadFromStoreWithRetry env Background now ?m")
    then have "bf = bf1" using assms p Some by (auto simp: NewBloomFilter_def Let_def split: option.splits outcome.splits)
    with loadWithRetry_dims [OF l] show ?thesis by simp
  qed
  with d calculateOptimalParameters_Inr [OF p] show ?thesis by (simp add: dims_def bloom_ok_def)
qed

section \<open>Runs\<close>

datatype bl_event =
    BlAdd ctx string
  | BlAddBatch ctx "string list"
  | BlContains ctx string
  | BlContainsBatch ctx "string list"
  | BlClear ctx
  | BlClose

text \<open>
  The filter, the bits it had when it was created or last cleared, and the items added since.
\<close>

record 's bl_sys =
  bl_bf :: "'s BloomFilter"
  bl_base :: "nat set"
  bl_added :: "string list"

fun bl_step :: "bloom_env \<Rightarrow> instant \<Rightarrow> bl_event \<Rightarrow> 's bl_sys \<Rightarrow> 's bl_sys" where
  "bl_step env now (BlAdd c item) s =
     (case BloomFilter_Add env now c item (bl_bf s) of
        (r, t, bf) \<Rightarrow> s\<lparr>bl_bf := bf,
          bl_added := (if r = Returns None then bl_added s @ [item] else bl_added s)\<rparr>)"
| "bl_step env now (BlAddBatch c items) s =
     (case BloomFilter_AddBatch env now c items (bl_bf s) of
        (r, t, bf) \<Rightarrow> s\<lparr>bl_bf := bf,
          bl_added := bl_added s @ take (unat (bf_itemCount bf - bf_itemCount (bl_bf s))) items\<rparr>)"
| "bl_step env now (BlContains c item) s =
     (case BloomFilter_Contains env now c item (bl_bf s) of (r, t, bf) \<Rightarrow> s\<lparr>bl_bf := bf\<rparr>)"
| "bl_step env now (BlContainsBatch c items) s =
     (case BloomFilter_ContainsBatch env now c items (bl_bf s) of (r, t, bf) \<Rightarrow> s\<lparr>bl_bf := bf\<rparr>)"
| "bl_step env now (BlClear c) s =
     (case BloomFilter_Clear env now c (bl_bf s) of
        (r, t, bf) \<Rightarrow>
          if bf_closed (bl_bf s) \<or> ctx_done now c then s\<lparr>bl_bf := bf\<rparr>
          else s\<lparr>bl_bf := bf, bl_base := {}, bl_added := []\<rparr>)"
| "bl_step env now BlClose s = s\<lparr>bl_bf := snd (BloomFilter_Close (bl_bf s))\<rparr>"

text \<open>Two environments with the same digests.\<close>

definition same_hash :: "bloom_env \<Rightarrow> bloom_env \<Rightarrow> bool" where
  "same_hash H env \<longleftrightarrow> be_md5 env = be_md5 H \<and> be_sha256 env = be_sha256 H"

inductive bl_reach :: "bloom_env \<Rightarrow> 's bl_sys \<Rightarrow> bool" for H where
  init: "same_hash H env \<Longrightarrow> NewBloomFilter env now config w = Returns (Inr bf)
           \<Longrightarrow> bl_reach H \<lparr>bl_bf = bf, bl_base = bits_of bf, bl_added = []\<rparr>"
| step: "bl_reach H s \<Longrightarrow> same_hash H env \<Longrightarrow> bl_reach H (bl_step env now e s)"

text \<open>The bits a filter should have.\<close>

definition spec_bits :: "bloom_env \<Rightarrow> 's bl_sys \<Rightarrow> nat set" where
  "spec_bits H s = bl_base s \<union> \<Union> (positions_of H (bf_size (bl_bf s)) (bf_hashCount (bl_bf s)) ` set (bl_added s))"

definition bl_inv :: "bloom_env \<Rightarrow> 's bl_sys \<Rightarrow> bool" where
  "bl_inv H s \<longleftrightarrow> bloom_ok (bl_bf s) \<and> bits_of (bl_bf s) = spec_bits H s"

lemma positions_same_hash: "same_hash H env \<Longrightarrow> positions_of env = positions_of H"
  by (simp add: fun_eq_iff positions_of_def hash_list_def same_hash_def)

text \<open>The filter after a step: the same but for metrics, or with items inserted, or cleared.\<close>

lemma bl_inv_core:
  assumes "bl_inv H s" and "core bf = core (bfs.insert_all env xs (bl_bf s))" and "same_hash H env"
  shows "bl_inv H (s\<lparr>bl_bf := bf, bl_added := bl_added s @ xs\<rparr>)"
proof -
  have ok: "bloom_ok (bl_bf s)" and b: "bits_of (bl_bf s) = spec_bits H s"
    using assms(1) by (auto simp: bl_inv_def)
  note f = core_fields [OF assms(2)]
  have dim: "bf_size bf = bf_size (bl_bf s)" "bf_hashCount bf = bf_hashCount (bl_bf s)" "bloom_ok bf"
    using f(2,3,8) insert_all_fields [OF ok, of env xs] by simp_all
  have "bits_of bf = bits_of (bl_bf s) \<union> \<Union> (positions_of H (bf_size bf) (bf_hashCount bf) ` set xs)"
    using f(7) filter_insert_all_bits [OF ok, of env xs] positions_same_hash [OF assms(3)] dim by simp
  then show ?thesis using b dim by (auto simp: bl_inv_def spec_bits_def)
qed

lemma bl_inv_same:
  assumes "bl_inv H s" and "core bf = core (bl_bf s)" and "same_hash H env"
  shows "bl_inv H (s\<lparr>bl_bf := bf\<rparr>)"
  using bl_inv_core [of H s bf env "[]"] assms by simp

lemma Clear_cases:
  assumes "BloomFilter_Clear env now c bf = (r, t, bf')" and "\<not> bf_closed bf" and "\<not> ctx_done now c"
  shows "core bf' = core (bf\<lparr>bf_bitset := replicate (length (bf_bitset bf)) False, bf_itemCount := 0\<rparr>)"
  using assms by (auto simp: BloomFilter_Clear_def Let_def core_def upd_bm_def split: option.splits prod.splits)

lemma Clear_refused:
  assumes "BloomFilter_Clear env now c bf = (r, t, bf')" and "bf_closed bf \<or> ctx_done now c"
  shows "bf' = bf"
  using assms by (auto simp: BloomFilter_Clear_def split: if_splits)

lemma bl_inv_step:
  assumes "bl_inv H s" and "same_hash H env"
  shows "bl_inv H (bl_step env now e s)"
proof (cases e)
  case (BlAdd c item)
  have ok: "bloom_ok (bl_bf s)" using assms(1) by (simp add: bl_inv_def)
  obtain r t bf where x: "BloomFilter_Add env now c item (bl_bf s) = (r, t, bf)"
    by (cases "BloomFilter_Add env now c item (bl_bf s)")
  from Add_cases [OF ok x] show ?thesis
    using BlAdd x bl_inv_core [OF assms(1) _ assms(2), of bf "[item]"] bl_inv_same [OF assms(1) _ assms(2), of bf]
    by auto
next
  case (BlAddBatch c items)
  have ok: "bloom_ok (bl_bf s)" using assms(1) by (simp add: bl_inv_def)
  obtain r t bf where x: "BloomFilter_AddBatch env now c items (bl_bf s) = (r, t, bf)"
    by (cases "BloomFilter_AddBatch env now c items (bl_bf s)")
  from AddBatch_cases [OF ok x] obtain k where k: "k \<le> length items"
      "k \<le> unat (bf_maxItems (bl_bf s)) - unat (bf_itemCount (bl_bf s))"
      "core bf = core (bfs.insert_all env (take k items) (bl_bf s))" by blast
  have "bf_itemCount bf = bf_itemCount (bl_bf s) + of_nat k"
    using core_fields(4) [OF k(3)] insert_all_fields [OF ok, of env "take k items"] k(1) by simp
  moreover have "unat (of_nat k :: counter) = k"
  proof -
    have "unat (bf_maxItems (bl_bf s)) < 2 ^ 64" using unsigned_less [of "bf_maxItems (bl_bf s)"] by simp
    then have "k < 2 ^ 64" using k(2) by linarith
    then show ?thesis by (simp add: unat_of_nat)
  qed
  ultimately have "unat (bf_itemCount bf - bf_itemCount (bl_bf s)) = k" by simp
  then show ?thesis using BlAddBatch x bl_inv_core [OF assms(1) k(3) assms(2)] by simp
next
  case (BlContains c item)
  have ok: "bloom_ok (bl_bf s)" using assms(1) by (simp add: bl_inv_def)
  obtain r t bf where x: "BloomFilter_Contains env now c item (bl_bf s) = (r, t, bf)"
    by (cases "BloomFilter_Contains env now c item (bl_bf s)")
  with Contains_keeps [OF ok x] BlContains show ?thesis using bl_inv_same [OF assms(1) _ assms(2), of bf] by simp
next
  case (BlContainsBatch c items)
  have ok: "bloom_ok (bl_bf s)" using assms(1) by (simp add: bl_inv_def)
  obtain r t bf where x: "BloomFilter_ContainsBatch env now c items (bl_bf s) = (r, t, bf)"
    by (cases "BloomFilter_ContainsBatch env now c items (bl_bf s)")
  with ContainsBatch_keeps [OF ok x] BlContainsBatch show ?thesis
    using bl_inv_same [OF assms(1) _ assms(2), of bf] by simp
next
  case (BlClear c)
  obtain r t bf where x: "BloomFilter_Clear env now c (bl_bf s) = (r, t, bf)"
    by (cases "BloomFilter_Clear env now c (bl_bf s)")
  show ?thesis
  proof (cases "bf_closed (bl_bf s) \<or> ctx_done now c")
    case True
    with x Clear_refused [OF x] BlClear assms(1) show ?thesis by simp
  next
    case False
    let ?z = "(bl_bf s)\<lparr>bf_bitset := replicate (length (bf_bitset (bl_bf s))) False, bf_itemCount := 0\<rparr>"
    have c: "core bf = core ?z" using Clear_cases [OF x] False by simp
    have "bloom_ok ?z" "bits_of ?z = {}" using assms(1) by (auto simp: bl_inv_def bloom_ok_def bits_of_def)
    then have "bloom_ok bf" "bits_of bf = {}" using core_fields(7,8) [OF c] by auto
    then show ?thesis using BlClear x False by (simp add: bl_inv_def spec_bits_def)
  qed
next
  case BlClose
  have "bloom_ok (snd (BloomFilter_Close (bl_bf s))) = bloom_ok (bl_bf s)"
    "bits_of (snd (BloomFilter_Close (bl_bf s))) = bits_of (bl_bf s)"
    "bf_size (snd (BloomFilter_Close (bl_bf s))) = bf_size (bl_bf s)"
    "bf_hashCount (snd (BloomFilter_Close (bl_bf s))) = bf_hashCount (bl_bf s)"
    by (simp_all add: BloomFilter_Close_def bloom_ok_def bits_of_def)
  then show ?thesis using BlClose assms(1) by (simp add: bl_inv_def spec_bits_def)
qed

lemma bl_reach_inv: "bl_reach H s \<Longrightarrow> bl_inv H s"
proof (induction rule: bl_reach.induct)
  case (init env now config w bf)
  then show ?case using NewBloomFilter_ok [OF init(2)] by (simp add: bl_inv_def spec_bits_def)
next
  case (step s env now e)
  then show ?case by (intro bl_inv_step)
qed

end
