(* ===== verification/BloomProps.thy ===== *)
theory BloomProps
  imports BloomSystem
begin

text \<open>
  The properties of the Bloom filter: what its answers mean, that no input can make it panic, what a
  batch adds, and what becomes of a filter that is stored and loaded again.
\<close>

section \<open>A small filter\<close>

text \<open>
  Four items at most, a false positive rate of one half: eight bits, one hash function. The digests
  are constant and the logarithm is a step function, which is enough here.
\<close>

definition tiny_env :: bloom_env where
  "tiny_env =
     \<lparr>be_md5 = (\<lambda>_. replicate 16 1), be_sha256 = (\<lambda>_. replicate 32 1),
      be_Log = (\<lambda>x. if f_lt x (Fin 1) then Fin (- 1 / 2) else Fin (1 / 2)), be_oor = (\<lambda>_. 0),
      be_rfc3339 = (\<lambda>_. ''2024-01-01T00:00:00Z''), be_time_ok = (\<lambda>_. True), be_lock = 0,
      be_elapsed = (\<lambda>_. 1), be_lag = (\<lambda>_. 0), be_pick = (\<lambda>_. False)\<rparr>"

definition tiny_config :: "'s BloomStore option \<Rightarrow> 's BloomConfig" where
  "tiny_config store = (AggressiveBloomConfig store)\<lparr>bc_ExpectedItems := 4, bc_FalsePositiveRate := Fin (1 / 2)\<rparr>"

lemma tiny_config_simps [simp]:
  "bc_ExpectedItems (tiny_config store) = 4" "bc_FalsePositiveRate (tiny_config store) = Fin (1 / 2)"
  "bc_Store (tiny_config store) = store" "applyBloomDefaults (tiny_config store) = tiny_config store"
  by (simp_all add: tiny_config_def AggressiveBloomConfig_def applyBloomDefaults_def DefaultKeyPrefixBloom_def
      DefaultTTLBloom_def)

lemma tiny_config_valid: "validateBloomConfig (Some (tiny_config store)) = None"
proof -
  have "f_le (fl (1 / 1000000)) (fl (1 / 2))" by (rule fl_mono) simp
  then have "\<not> f_lt (Fin (1 / 2)) (fl (1 / 1000000))" using f_le_not_lt by fastforce
  then show ?thesis by (simp add: validateBloomConfig_def bloom_limits)
qed

lemma tiny_parameters: "calculateOptimalParameters tiny_env 4 (Fin (1 / 2)) = Inr (8, 1)"
proof -
  have "fl (- 2) = Fin (- 2)" "fl 4 = Fin 4" "fl 8 = Fin 8" "fl 2 = Fin 2" "fl (- 8) = Fin (- 8)"
    using f_of_int_exact [of "- 2"] f_of_int_exact [of 4] f_of_int_exact [of 8] f_of_int_exact [of 2]
      f_of_int_exact [of "- 8"] by simp_all
  moreover have "fl (1 / 4) = Fin (1 / 4)"
    using representable_dyadic [of 1 2] fl_representable [of "1 / 4"] by simp
  ultimately show ?thesis
    by (simp add: calculateOptimalParameters_def calculateOptimalSize_def calculateOptimalHashCount_def
        tiny_env_def bloom_limits rat_trunc_def Let_def max_int64_def min_int64_def)
qed

definition tiny_filter :: "unit BloomFilter" where
  "tiny_filter = make_BloomFilter (tiny_config None) 8 1 ()"

lemma tiny_new: "NewBloomFilter tiny_env 0 (Some (tiny_config None)) () = Returns (Inr tiny_filter)"
  by (simp add: NewBloomFilter_def tiny_config_valid tiny_parameters tiny_filter_def)

definition tiny_run :: "unit bl_sys" where
  "tiny_run = bl_step tiny_env 0 (BlAdd Background ''a'')
     \<lparr>bl_bf = tiny_filter, bl_base = bits_of tiny_filter, bl_added = []\<rparr>"

lemma tiny_reach: "bl_reach tiny_env tiny_run"
  unfolding tiny_run_def
  by (rule bl_reach.step [OF bl_reach.init [OF _ tiny_new]]) (simp_all add: same_hash_def)

lemma tiny_ok: "bloom_ok tiny_filter"
  using NewBloomFilter_ok [OF tiny_new] by simp

lemma tiny_run_state: "bl_added tiny_run = [''a''] \<and> \<not> bf_closed (bl_bf tiny_run)"
proof -
  obtain r t bf where x: "BloomFilter_Add tiny_env 0 Background ''a'' tiny_filter = (r, t, bf)"
    by (cases "BloomFilter_Add tiny_env 0 Background ''a'' tiny_filter")
  have "fst (BloomFilter_Add tiny_env 0 Background ''a'' tiny_filter) = Returns None"
    by (rule Add_succeeds [OF tiny_ok])
      (simp_all add: tiny_filter_def make_BloomFilter_def validateItem_def MaxItemLengthBloom_def tiny_env_def)
  with x have r: "r = Returns None" by simp
  with Add_cases [OF tiny_ok x] have "core bf = core (insert_op tiny_env ''a'' tiny_filter)" by auto
  then have "bf_closed bf = bf_closed tiny_filter"
    using core_fields(6) insert_op_fields(5) [OF tiny_ok] by metis
  then show ?thesis using x r by (simp add: tiny_run_def tiny_filter_def make_BloomFilter_def)
qed

section \<open>Answers\<close>

text \<open>Property C6: no false negatives. In any run of the filter, with any store behind it, an item that
  was added since the filter was created or last cleared is found, until the filter is closed.\<close>

theorem bloom_no_false_negatives:
  assumes "bl_reach H s" and "same_hash H env" and "item \<in> set (bl_added s)"
    and "\<not> bf_closed (bl_bf s)" and "validateItem item = None"
    and "\<not> ctx_done (now + int (be_lock env)) c" and "int (be_lock env) < 30 * Second"
  shows "fst (BloomFilter_Contains env now c item (bl_bf s)) = Returns (True, None)"
proof -
  from bl_reach_inv [OF assms(1)] have ok: "bloom_ok (bl_bf s)" and b: "bits_of (bl_bf s) = spec_bits H s"
    by (auto simp: bl_inv_def)
  then have "positions_of H (bf_size (bl_bf s)) (bf_hashCount (bl_bf s)) item \<subseteq> bits_of (bl_bf s)"
    using assms(3) by (auto simp: spec_bits_def)
  then show ?thesis
    using Contains_value [OF ok assms(4-7)] positions_same_hash [OF assms(2)] by simp
qed

theorem bloom_no_false_negatives_witness:
  "fst (BloomFilter_Contains tiny_env 7 Background ''a'' (bl_bf tiny_run)) = Returns (True, None)"
  using bloom_no_false_negatives [OF tiny_reach, of tiny_env "''a''" 7 Background] tiny_run_state
  by (simp add: same_hash_def validateItem_def MaxItemLengthBloom_def tiny_env_def)

text \<open>Property C8: the filter implements a set of bit positions. Its bits are exactly those it started
  with and the hash positions of the items added since, and Contains answers whether the positions
  of its argument are among them; a false positive needs a collision at every position.\<close>

theorem bloom_refines_bit_set:
  assumes "bl_reach H s" and "same_hash H env"
    and "\<not> bf_closed (bl_bf s)" and "validateItem item = None"
    and "\<not> ctx_done (now + int (be_lock env)) c" and "int (be_lock env) < 30 * Second"
  shows "bits_of (bl_bf s) = spec_bits H s
    \<and> fst (BloomFilter_Contains env now c item (bl_bf s))
      = Returns (positions_of H (bf_size (bl_bf s)) (bf_hashCount (bl_bf s)) item \<subseteq> spec_bits H s, None)"
proof -
  from bl_reach_inv [OF assms(1)] have ok: "bloom_ok (bl_bf s)" and b: "bits_of (bl_bf s) = spec_bits H s"
    by (auto simp: bl_inv_def)
  then show ?thesis
    using Contains_value [OF ok assms(3-6)] positions_same_hash [OF assms(2)] by simp
qed

theorem bloom_refines_bit_set_witness:
  "bits_of (bl_bf tiny_run) = spec_bits tiny_env tiny_run"
  using bloom_refines_bit_set [OF tiny_reach, of tiny_env "''a''" 7 Background] tiny_run_state
  by (simp add: same_hash_def validateItem_def MaxItemLengthBloom_def tiny_env_def)



section \<open>Batches\<close>

lemma add_items_on_time:
  "bloom_ok bf \<Longrightarrow> (\<And>i. \<not> ctx_done (t + int (be_elapsed env i)) c)
     \<Longrightarrow> fst (add_items env t c i items n bf) = Returns None"
  by (induction items arbitrary: i n bf) (simp_all add: insert_item_op insert_op_fields Let_def)

text \<open>AddBatch adds what fits and says nothing about the rest. Given enough time it returns
  nil after adding, in order, the items the remaining capacity has room for; the others are dropped
  without an error.\<close>

theorem AddBatch_drops_silently:
  assumes ok: "bloom_ok bf" and "\<not> bf_closed bf" and "validateBatch items = None"
    and "\<And>i. int (be_lock env) + int (be_elapsed env i) < 60 * Second"
    and k: "k = min (length items) (unat (bf_maxItems bf) - unat (bf_itemCount bf))"
  shows "fst (BloomFilter_AddBatch env now Background items bf) = Returns None
    \<and> bits_of (snd (snd (BloomFilter_AddBatch env now Background items bf)))
      = bits_of bf \<union> \<Union> (positions_of env (bf_size bf) (bf_hashCount bf) ` set (take k items))"
proof -
  let ?t = "now + int (be_lock env)" and ?c = "WithTimeout now (60 * Second) Background"
  have d: "\<not> ctx_done (?t + int (be_elapsed env i)) ?c" for i
    using assms(4) [of i] unfolding ctx_done_iff by (simp add: WithTimeout_def passed_def Background_def)
  have d0: "\<not> ctx_done ?t ?c" using d [of 0] ctx_done_mono [of ?t ?c "?t + int (be_elapsed env 0)"] by auto
  obtain n t1 bf1 where a: "add_items env ?t ?c 0 items 0 bf = (Returns None, n, t1, bf1)"
    using add_items_on_time [where t = ?t and c = ?c and env = env, OF ok d, of 0 items 0]
    by (cases "add_items env ?t ?c 0 items 0 bf") auto
  have "fst (AddBatch_locked env ?t ?c items bf) = Returns None"
    using d0 a by (auto simp: AddBatch_locked_def Let_def split: option.split)
  then have r: "fst (BloomFilter_AddBatch env now Background items bf) = Returns None"
    using assms(2,3) by (auto simp: BloomFilter_AddBatch_def split: prod.splits)
  obtain t' bf' where x: "BloomFilter_AddBatch env now Background items bf = (Returns None, t', bf')"
    using r by (cases "BloomFilter_AddBatch env now Background items bf") auto
  from AddBatch_cases [OF ok x] k have "core bf' = core (bfs.insert_all env (take k items) bf)" by auto
  from core_fields(7) [OF this] filter_insert_all_bits [OF ok] r x show ?thesis by simp
qed

theorem AddBatch_drops_silently_witness:
  "fst (BloomFilter_AddBatch tiny_env 0 Background [''a'', ''b'', ''c'', ''d'', ''e''] tiny_filter) = Returns None
   \<and> bits_of (snd (snd (BloomFilter_AddBatch tiny_env 0 Background [''a'', ''b'', ''c'', ''d'', ''e''] tiny_filter)))
     = bits_of tiny_filter \<union> \<Union> (positions_of tiny_env 8 1 ` {''a'', ''b'', ''c'', ''d''})"
proof -
  have "\<not> bf_closed tiny_filter" "4 = min (length [''a'', ''b'', ''c'', ''d'', ''e''])
      (unat (bf_maxItems tiny_filter) - unat (bf_itemCount tiny_filter))"
    "bf_size tiny_filter = 8" "bf_hashCount tiny_filter = 1"
    by (simp_all add: tiny_filter_def make_BloomFilter_def)
  moreover have "validateBatch [''a'', ''b'', ''c'', ''d'', ''e''] = None"
    by (simp add: validateBatch_def validateItem_def MaxItemLengthBloom_def)
  moreover have "int (be_lock tiny_env) + int (be_elapsed tiny_env i) < 60 * Second" for i
    by (simp add: tiny_env_def)
  moreover have "set (take 4 [''a'', ''b'', ''c'', ''d'', ''e'']) = {''a'', ''b'', ''c'', ''d''}"
    by (simp add: numeral_eq_Suc)
  ultimately show ?thesis
    using AddBatch_drops_silently [OF tiny_ok, of "[''a'', ''b'', ''c'', ''d'', ''e'']" tiny_env 4 0] by metis
qed

section \<open>Storing and loading\<close>

text \<open>The bytes of a bit set, bit by bit.\<close>

lemma byte_or_bit: "k < 8 \<Longrightarrow> bit ((w::8 word) OR 2 ^ k) j \<longleftrightarrow> bit w j \<or> j = k"
  by (auto simp: bit_or_iff bit_exp_iff)

definition pack_bit :: "bool list \<Rightarrow> nat \<Rightarrow> 8 word list \<Rightarrow> 8 word list" where
  "pack_bit bits i bytes =
     (if bits ! i then bytes[i div 8 := bytes ! (i div 8) OR push_bit (i mod 8) 1] else bytes)"

definition packed :: "bool list \<Rightarrow> nat \<Rightarrow> 8 word list" where
  "packed bits n = fold (pack_bit bits) [0..<n] (replicate ((length bits + 7) div 8) 0)"

lemma bitsetToBytes_packed: "BloomFilter_bitsetToBytes bits = packed bits (length bits)"
  by (simp add: BloomFilter_bitsetToBytes_def packed_def pack_bit_def [abs_def])

lemma packed_bit:
  assumes "n \<le> length bits"
  shows "length (packed bits n) = (length bits + 7) div 8
    \<and> (\<forall>j<(length bits + 7) div 8. \<forall>b<8. bit (packed bits n ! j) b \<longleftrightarrow> 8 * j + b < n \<and> bits ! (8 * j + b))"
  using assms
proof (induction n)
  case 0
  then show ?case by (simp add: packed_def)
next
  case (Suc n)
  then have IH: "length (packed bits n) = (length bits + 7) div 8"
    "\<And>j b. j < (length bits + 7) div 8 \<Longrightarrow> b < 8 \<Longrightarrow> bit (packed bits n ! j) b \<longleftrightarrow> 8 * j + b < n \<and> bits ! (8 * j + b)"
    by auto
  have n: "n div 8 < (length bits + 7) div 8" using Suc.prems by linarith
  have step: "packed bits (Suc n) = pack_bit bits n (packed bits n)" by (simp add: packed_def)
  have "bit (packed bits (Suc n) ! j) b \<longleftrightarrow> 8 * j + b < Suc n \<and> bits ! (8 * j + b)"
    if jb: "j < (length bits + 7) div 8" "b < 8" for j b
  proof (cases "j = n div 8 \<and> b = n mod 8")
    case True
    then have "8 * j + b = n" by simp
    then show ?thesis using IH(1) IH(2) [OF jb] n True by (auto simp: byte_or_bit step pack_bit_def)
  next
    case False
    then have "8 * j + b \<noteq> n" using jb(2) by auto
    moreover have "bit (packed bits (Suc n) ! j) b = bit (packed bits n ! j) b"
      using False IH(1) n jb by (auto simp: nth_list_update byte_or_bit step pack_bit_def)
    ultimately show ?thesis using IH(2) [OF jb] by auto
  qed
  moreover have "length (packed bits (Suc n)) = (length bits + 7) div 8"
    using IH(1) by (simp add: step pack_bit_def)
  ultimately show ?case by blast
qed

lemma bitsetToBytes_bit:
  assumes "i < length bits"
  shows "i div 8 < length (BloomFilter_bitsetToBytes bits)
    \<and> (bit (BloomFilter_bitsetToBytes bits ! (i div 8)) (i mod 8) \<longleftrightarrow> bits ! i)"
proof -
  have j: "i div 8 < (length bits + 7) div 8" "i mod 8 < 8" using assms by auto
  have "8 * (i div 8) + i mod 8 = i" by simp
  then show ?thesis
    using packed_bit [of "length bits" bits] j assms unfolding bitsetToBytes_packed by auto
qed

lemma f_to_int_exact:
  assumes "lo \<le> n" and "n \<le> hi" and "\<bar>n\<bar> < 2 ^ 53"
  shows "f_to_int lo hi oor (f_of_int n) = n"
  using assms(1,2) unfolding f_of_int_exact [OF assms(3)] by (simp add: rat_trunc_def)

lemma byte_number: "word_of_int (f_to_int 0 255 oor (fl (unsigned (w::8 word)))) = w"
proof -
  have "uint w < 256" using uint_lt2p [of w] by simp
  then have "f_to_int 0 255 oor (f_of_int (uint w)) = uint w" by (intro f_to_int_exact) simp_all
  moreover have "f_of_int (uint w) = fl (unsigned w)" by simp
  ultimately show ?thesis by simp
qed

text \<open>Property C29: the packed form of a bit set is faithful. Reading the bytes of bitsetToBytes as JSON
  numbers with bytesToBitset gives back every bit set of up to 2^48 bits, whatever its length
  modulo 8.\<close>

theorem bitset_bytes_roundtrip:
  assumes "length bits \<le> 2 ^ 48"
  shows "BloomFilter_bytesToBitset env (map (\<lambda>b. JInt (uint b)) (BloomFilter_bitsetToBytes bits))
      (int (length bits)) = Returns bits"
proof -
  have "int (length bits) \<le> 2 ^ 48" using assms by (simp add: of_nat_le_iff [of _ "2 ^ 48", symmetric])
  moreover have "map (\<lambda>i. if i div 8 < length (map (\<lambda>b. JInt (uint b)) (BloomFilter_bitsetToBytes bits))
        then (case as_float64 (Some (map (\<lambda>b. JInt (uint b)) (BloomFilter_bitsetToBytes bits) ! (i div 8))) of
                None \<Rightarrow> False
              | Some byteVal \<Rightarrow>
                  (word_of_int (f_to_int 0 255 (be_oor env) byteVal) :: 8 word)
                    AND push_bit (i mod 8) 1 \<noteq> 0)
        else False) [0..<length bits] = bits"
    using bitsetToBytes_bit [of _ bits]
    by (intro nth_equalityI) (auto simp: byte_number bit_iff_and_push_bit_not_eq_0 simp del: f_to_int.simps)
  ultimately show ?thesis by (simp add: BloomFilter_bytesToBitset_def)
qed

theorem bitset_bytes_roundtrip_witness:
  "BloomFilter_bytesToBitset tiny_env
     (map (\<lambda>b. JInt (uint b)) (BloomFilter_bitsetToBytes [True, False, True, True, False, False, True, False, True])) 9
   = Returns [True, False, True, True, False, False, True, False, True]"
  using bitset_bytes_roundtrip [of "[True, False, True, True, False, False, True, False, True]" tiny_env] by simp

lemma ascii_lower_fields:
  "ascii_lower ''bitset'' = ''bitset''" "ascii_lower ''created_at'' = ''created_at''"
  "ascii_lower ''hash_count'' = ''hash_count''" "ascii_lower ''item_count'' = ''item_count''"
  "ascii_lower ''metadata'' = ''metadata''" "ascii_lower ''size'' = ''size''"
  "ascii_lower ''updated_at'' = ''updated_at''" "ascii_lower ''version'' = ''version''"
  by (simp_all add: ascii_lower_def Let_def)

text \<open>A document that \<open>serializeState\<close> wrote is never accepted by \<open>deserializeState\<close>.\<close>

lemma serialized_rejected:
  assumes "BloomFilter_serializeState env0 t0 st bf0 = Inr doc"
  shows "\<exists>e. BloomFilter_deserializeState env doc = Returns (Inl e)"
proof -
  obtain kvs b where d: "doc = Doc (JObj kvs)" and kvs: "map_of (rev kvs) ''bitset'' = Some (JStr b)"
      "struct_field ''bitset'' kvs = JStr b"
    using assms by (auto simp: BloomFilter_serializeState_def struct_field_def ascii_lower_fields split: float64.splits)
  show ?thesis
  proof (cases "json_fits (JObj kvs)")
    case True
    then show ?thesis
      using d kvs(1) by (simp add: BloomFilter_deserializeState_def split: option.split)
  next
    case False
    then have "unmarshal_map doc = None" using d by simp
    moreover have "unmarshal_state env doc = None"
      using d kvs(2) by (simp add: unmarshal_state_def split: option.split)
    ultimately show ?thesis
      by (simp add: BloomFilter_deserializeState_def BloomFilter_deserializeLegacyState_def)
  qed
qed

text \<open>
  \<open>holds_saved W store\<close>: in the states \<open>W\<close> of the store, which reading does not leave, the store
  answers with a document that some filter saved.
\<close>

definition holds_saved :: "('s \<Rightarrow> bool) \<Rightarrow> 's BloomStore \<Rightarrow> bool" where
  "holds_saved W store \<longleftrightarrow> (\<forall>t k w. W w \<longrightarrow>
     (\<exists>env0 t0 st (bf0 :: 's BloomFilter) doc t'. \<exists>w'. W w' \<and> st_Get store t Background k w = (Inr doc, t', w')
        \<and> BloomFilter_serializeState env0 t0 st bf0 = Inr doc))"

lemma load_rejected:
  assumes h: "holds_saved W store" and w: "W (bf_stored bf)"
    and x: "BloomFilter_loadFromStore env store Background t bf = (r, t', bf')"
  shows "core bf' = core bf \<and> W (bf_stored bf') \<and> (\<exists>e. r = Returns (Some e))"
proof -
  obtain env0 t0 st bf0 doc t1 w1 where g: "W w1"
      "st_Get store t Background (BloomFilter_getStoreKey bf) (bf_stored bf) = (Inr doc, t1, w1)"
      "BloomFilter_serializeState env0 t0 st (bf0 :: 'a BloomFilter) = Inr doc"
    using h w unfolding holds_saved_def by blast
  obtain e where "BloomFilter_deserializeState env doc = Returns (Inl e)" using serialized_rejected [OF g(3)] by blast
  with g(1,2) x show ?thesis by (auto simp: BloomFilter_loadFromStore_def Let_def core_def)
qed

text \<open>Property C31: a filter does not survive a restart. When the store answers with what any filter
  saved there, NewBloomFilter succeeds with an empty filter: saving writes the bit set as a base64
  string, loading accepts only an array, and the error is only logged.\<close>

theorem bloom_restart_forgets:
  assumes v: "validateBloomConfig (Some config) = None"
    and p: "calculateOptimalParameters env (bc_ExpectedItems config) (bc_FalsePositiveRate config) = Inr (sz, h)"
    and st: "bc_Store config = Some store" and saved: "holds_saved W store" "W w"
  shows "\<exists>bf. NewBloomFilter env now (Some config) w = Returns (Inr bf) \<and> bits_of bf = {}
    \<and> bf_itemCount bf = 0"
proof -
  let ?c = "applyBloomDefaults config"
  let ?m = "make_BloomFilter ?c sz h w"
  have c: "bc_Store ?c = Some store" "bc_ExpectedItems ?c = bc_ExpectedItems config"
    "bc_FalsePositiveRate ?c = bc_FalsePositiveRate config"
    using st by (auto simp: applyBloomDefaults_def Let_def)
  obtain r t bf where l: "store_retry env (BloomFilter_loadFromStore env store Background) Background
      MaxRetryAttemptsBloom 0 now ?m = (r, t, bf)"
    by (cases "store_retry env (BloomFilter_loadFromStore env store Background) Background
      MaxRetryAttemptsBloom 0 now ?m")
  have "(core bf = core ?m \<and> W (bf_stored bf)) \<and> (True \<longrightarrow> (\<exists>e. r = Returns e))"
  proof (rule store_retry_keeps [OF _ _ l])
    fix t bf r t' bf'
    assume "BloomFilter_loadFromStore env store Background t bf = (r, t', bf')"
      and "core bf = core ?m \<and> W (bf_stored bf)"
    then show "(core bf' = core ?m \<and> W (bf_stored bf')) \<and> (True \<longrightarrow> (\<exists>e. r = Returns e))"
      using load_rejected [OF saved(1), of bf env t r t' bf'] by auto
  qed (use saved(2) in \<open>auto simp: make_BloomFilter_def upd_bm_def core_def\<close>)
  then obtain e where bf: "core bf = core ?m" "r = Returns e" by blast
  have "NewBloomFilter env now (Some config) w = Returns (Inr bf)"
    using v p c l bf(2)
    by (simp add: NewBloomFilter_def BloomFilter_loadFromStoreWithRetry_def make_BloomFilter_def Let_def)
  moreover have "bits_of ?m = {}" "bf_itemCount ?m = 0" by (auto simp: bits_of_def make_BloomFilter_def)
  ultimately show ?thesis using core_fields(4,7) [OF bf(1)] by auto
qed

text \<open>A store of one document, and what the small filter saves in it.\<close>

definition document_store :: "document BloomStore" where
  "document_store =
     \<lparr>st_Set = (\<lambda>t c k d ttl w. (None, t, d)), st_Get = (\<lambda>t c k w. (Inr w, t, w)),
      st_Del = (\<lambda>t c k w. (None, t, NotJSON))\<rparr>"

definition saved_document :: document where
  "saved_document = bf_stored (snd (snd (BloomFilter_saveToStore tiny_env document_store Background 0
     (make_BloomFilter (tiny_config (Some document_store)) 8 1 NotJSON))))"

theorem bloom_restart_forgets_witness:
  "\<exists>bf. NewBloomFilter tiny_env 5 (Some (tiny_config (Some document_store))) saved_document = Returns (Inr bf)
     \<and> bits_of bf = {}"
proof -
  let ?bf = "make_BloomFilter (tiny_config (Some document_store)) 8 1 NotJSON"
  have "\<exists>st. BloomFilter_serializeState tiny_env 0 st ?bf = Inr saved_document"
    by (intro exI [of _ "\<lparr>bs_ItemCount = 0, bs_Size = 8, bs_HashCount = 1, bs_Bitset = replicate 8 False,
          bs_Version = ''1.1''\<rparr>"])
      (simp add: saved_document_def BloomFilter_saveToStore_def BloomFilter_serializeState_def
        make_BloomFilter_def document_store_def)
  then have "holds_saved (\<lambda>w. w = saved_document) document_store"
    unfolding holds_saved_def by (auto simp: document_store_def)
  then show ?thesis
    using bloom_restart_forgets [of "tiny_config (Some document_store)" tiny_env 8 1 document_store
        "\<lambda>w. w = saved_document" saved_document 5] tiny_config_valid [of "Some document_store"] tiny_parameters
    by auto
qed

text \<open>A document in the older form, the JSON of BloomFilterState with its bits as an array
  of booleans, is accepted and loses every bit: the item count is kept and the bit set is empty, so
  that every item of the old filter becomes a false negative.\<close>

theorem legacy_document_loads_empty:
  assumes "0 \<le> n" and "n < 2 ^ 53" and "0 \<le> h" and "h \<le> 50" and "length bits \<le> 2 ^ 48"
  shows "BloomFilter_deserializeState env (Doc (JObj
      [(''item_count'', JInt n), (''size'', JInt (int (length bits))), (''hash_count'', JInt h),
       (''bitset'', JArr (map JBool bits)), (''version'', JStr v)]))
    = Returns (Inr \<lparr>bs_ItemCount = word_of_int n, bs_Size = word_of_int (int (length bits)), bs_HashCount = h,
                    bs_Bitset = replicate (length bits) False, bs_Version = v\<rparr>)"
proof -
  have l: "int (length bits) \<le> 2 ^ 48" using assms(5) by (simp add: of_nat_le_iff [of _ "2 ^ 48", symmetric])
  have fits: "is_Fin (f_of_int n)" "is_Fin (f_of_int h)" "is_Fin (f_of_int (int (length bits)))"
    using assms(1-4) l f_of_int_exact [of n] f_of_int_exact [of h] f_of_int_exact [of "int (length bits)"] by auto
  have bools: "list_all json_fits (map JBool bits)" by (induction bits) auto
  have no_byte: "as_float64 (Some (map JBool bits ! j)) = None" if "j < length bits" for j
    using that by simp
  have "f_to_uint64 (be_oor env) (f_of_int n) = n" "f_to_int64 (be_oor env) (f_of_int h) = h"
    "f_to_uint64 (be_oor env) (f_of_int (int (length bits))) = int (length bits)"
    "f_to_int64 (be_oor env) (f_of_int (int (length bits))) = int (length bits)"
    by (rule f_to_int_exact; use assms(1-4) l in \<open>simp add: min_int64_def max_int64_def\<close>)+
  moreover have "BloomFilter_bytesToBitset env (map JBool bits) (int (length bits))
      = Returns (replicate (length bits) False)"
  proof -
    have "map (\<lambda>i. if i div 8 < length (map JBool bits)
        then (case as_float64 (Some (map JBool bits ! (i div 8))) of
                None \<Rightarrow> False
              | Some byteVal \<Rightarrow>
                  (word_of_int (f_to_int 0 255 (be_oor env) byteVal) :: 8 word)
                    AND push_bit (i mod 8) 1 \<noteq> 0)
        else False) [0..<length bits] = replicate (length bits) False"
      by (intro nth_equalityI) auto
    with l show ?thesis by (simp add: BloomFilter_bytesToBitset_def)
  qed
  ultimately show ?thesis
    using fits bools by (simp add: BloomFilter_deserializeState_def del: f_to_int.simps)
qed

theorem legacy_document_loads_empty_witness:
  "BloomFilter_deserializeState tiny_env (Doc (JObj
      [(''item_count'', JInt 2), (''size'', JInt (int (length [True, True]))), (''hash_count'', JInt 1),
       (''bitset'', JArr (map JBool [True, True])), (''version'', JStr ''1.0'')]))
    = Returns (Inr \<lparr>bs_ItemCount = word_of_int 2, bs_Size = word_of_int (int (length [True, True])), bs_HashCount = 1,
                    bs_Bitset = replicate (length [True, True]) False, bs_Version = ''1.0''\<rparr>)"
  by (rule legacy_document_loads_empty) simp_all

text \<open>A corrupt document crashes the constructor. A stored document with an array of bytes
  and a negative size makes NewBloomFilter panic, because the bit set is allocated before the size
  is compared with the expected one.\<close>

theorem corrupt_document_panics:
  "NewBloomFilter tiny_env 0 (Some (tiny_config (Some document_store)))
     (Doc (JObj [(''version'', JStr ''1.1''), (''item_count'', JInt 0), (''size'', JInt (- 1)),
        (''hash_count'', JInt 1), (''bitset'', JArr [])])) = Panics SliceLengthOutOfRange"
proof -
  have "fl (- 1) = Fin (- 1)" using f_of_int_exact [of "- 1"] by simp
  then show ?thesis
    by (simp add: NewBloomFilter_def tiny_config_valid tiny_parameters make_BloomFilter_def Let_def
        BloomFilter_loadFromStoreWithRetry_def MaxRetryAttemptsBloom_def numeral_eq_Suc
        BloomFilter_loadFromStore_def document_store_def BloomFilter_deserializeState_def
        BloomFilter_bytesToBitset_def rat_trunc_def min_int64_def max_int64_def)
qed

end
