(* ===== verification/DeadLetter.thy ===== *)
theory DeadLetter
  imports GoFloat GoChannel GoContext Lifecycle "HOL-Library.AList"
begin

text \<open>
  \<open>src/deadletter.go\<close>: the dead letter queue. Operations are shared by pointer: \<open>dq_heap\<close> holds the
  operations, the map \<open>dq_queue\<close> and the channel \<open>dq_workerChan\<close> hold indices into it; \<open>None\<close> in the
  channel is the nil that \<open>IsHealthy\<close> sends. A handler is the caller's code: given the time, its
  context and the operation, it returns when it ends and how.

  \<open>processOperation\<close> is cut where it lets other goroutines run: at the wait for the next retry, at
  the call of the handler, and at the send that queues the operation again.
\<close>

section \<open>Configuration\<close>

definition MaxRetriesLimitDLQ :: int where "MaxRetriesLimitDLQ = 100"
definition MinRetriesLimitDLQ :: int where "MinRetriesLimitDLQ = 0"
definition MaxRetryDelayLimitDLQ :: duration where "MaxRetryDelayLimitDLQ = 24 * Hour"
definition MinRetryDelayLimitDLQ :: duration where "MinRetryDelayLimitDLQ = 1 * Millisecond"
definition MaxWorkerCountLimitDLQ :: int where "MaxWorkerCountLimitDLQ = 100"
definition MinWorkerCountLimitDLQ :: int where "MinWorkerCountLimitDLQ = 1"
definition MaxQueueSizeLimitDLQ :: int where "MaxQueueSizeLimitDLQ = 100000"
definition MinQueueSizeLimitDLQ :: int where "MinQueueSizeLimitDLQ = 10"
definition DefaultMaxRetriesDLQ :: int where "DefaultMaxRetriesDLQ = 3"
definition DefaultRetryDelayDLQ :: duration where "DefaultRetryDelayDLQ = 5 * Minute"
definition DefaultWorkerCountDLQ :: int where "DefaultWorkerCountDLQ = 2"
definition DefaultQueueSizeDLQ :: int where "DefaultQueueSizeDLQ = 1000"
definition MaxOperationTimeoutDLQ :: duration where "MaxOperationTimeoutDLQ = 60 * Second"
definition GracefulShutdownWaitDLQ :: duration where "GracefulShutdownWaitDLQ = 5 * Second"

lemmas dlq_limits = MaxRetriesLimitDLQ_def MinRetriesLimitDLQ_def MaxRetryDelayLimitDLQ_def
  MinRetryDelayLimitDLQ_def MaxWorkerCountLimitDLQ_def MinWorkerCountLimitDLQ_def
  MaxQueueSizeLimitDLQ_def MinQueueSizeLimitDLQ_def DefaultMaxRetriesDLQ_def
  DefaultRetryDelayDLQ_def DefaultWorkerCountDLQ_def DefaultQueueSizeDLQ_def

record ConfigDLQ =
  dc_MaxRetries :: int
  dc_RetryDelay :: duration
  dc_WorkerCount :: int
  dc_QueueSize :: int
  dc_EnableMetrics :: bool

definition DefaultConfigDLQ :: ConfigDLQ where
  "DefaultConfigDLQ =
     \<lparr>dc_MaxRetries = DefaultMaxRetriesDLQ, dc_RetryDelay = DefaultRetryDelayDLQ,
      dc_WorkerCount = DefaultWorkerCountDLQ, dc_QueueSize = DefaultQueueSizeDLQ, dc_EnableMetrics = True\<rparr>"

definition HighPerformanceConfigDLQ :: ConfigDLQ where
  "HighPerformanceConfigDLQ =
     \<lparr>dc_MaxRetries = 10, dc_RetryDelay = 1 * Minute, dc_WorkerCount = 10, dc_QueueSize = 10000,
      dc_EnableMetrics = True\<rparr>"

definition ConservativeConfigDLQ :: ConfigDLQ where
  "ConservativeConfigDLQ =
     \<lparr>dc_MaxRetries = 5, dc_RetryDelay = 10 * Minute, dc_WorkerCount = 2, dc_QueueSize = 1000,
      dc_EnableMetrics = True\<rparr>"

definition EnterpriseConfigDLQ :: ConfigDLQ where
  "EnterpriseConfigDLQ =
     \<lparr>dc_MaxRetries = 20, dc_RetryDelay = 2 * Minute, dc_WorkerCount = 20, dc_QueueSize = 50000,
      dc_EnableMetrics = True\<rparr>"

definition validateDLQConfig :: "ConfigDLQ option \<Rightarrow> goerr option" where
  "validateDLQConfig config =
     (case config of
        None \<Rightarrow> Some (ErrText ''configuration cannot be nil'')
      | Some c \<Rightarrow>
          if dc_MaxRetries c < MinRetriesLimitDLQ \<or> dc_MaxRetries c > MaxRetriesLimitDLQ
          then Some (ErrText ''max retries must be between %d and %d, got %d'')
          else if dc_RetryDelay c < MinRetryDelayLimitDLQ \<or> dc_RetryDelay c > MaxRetryDelayLimitDLQ
          then Some (ErrText ''retry delay must be between %v and %v, got %v'')
          else if dc_WorkerCount c < MinWorkerCountLimitDLQ \<or> dc_WorkerCount c > MaxWorkerCountLimitDLQ
          then Some (ErrText ''worker count must be between %d and %d, got %d'')
          else if dc_QueueSize c < MinQueueSizeLimitDLQ \<or> dc_QueueSize c > MaxQueueSizeLimitDLQ
          then Some (ErrText ''queue size must be between %d and %d, got %d'')
          else None)"

definition applyDLQDefaults :: "ConfigDLQ \<Rightarrow> ConfigDLQ" where
  "applyDLQDefaults c0 =
     (let c1 = (if dc_MaxRetries c0 \<le> 0 then c0\<lparr>dc_MaxRetries := DefaultMaxRetriesDLQ\<rparr> else c0);
          c2 = (if dc_RetryDelay c1 \<le> 0 then c1\<lparr>dc_RetryDelay := DefaultRetryDelayDLQ\<rparr> else c1);
          c3 = (if dc_WorkerCount c2 \<le> 0 then c2\<lparr>dc_WorkerCount := DefaultWorkerCountDLQ\<rparr> else c2)
      in if dc_QueueSize c3 \<le> 0 then c3\<lparr>dc_QueueSize := DefaultQueueSizeDLQ\<rparr> else c3)"

section \<open>Data\<close>

text \<open>The text of an error is the caller's, or that of an error the handler returned.\<close>

record 'd FailedOperation =
  fo_ID :: string
  fo_Operation :: string
  fo_Key :: string
  fo_Data :: 'd
  fo_Error :: "string + goerr"
  fo_RetryCount :: int
  fo_MaxRetries :: int
  fo_CreatedAt :: "instant option"
  fo_LastRetry :: "instant option"
  fo_NextRetry :: "instant option"
  fo_Metadata :: "(string \<times> 'd) list option"
  fo_HandlerType :: string

record 'd RetryHandler =
  rh_Retry :: "instant \<Rightarrow> ctx \<Rightarrow> 'd FailedOperation \<Rightarrow> instant \<times> goerr option outcome"
  rh_ShouldRetry :: "'d FailedOperation \<Rightarrow> bool outcome"

record Metrics =
  dm_TotalFailed :: counter
  dm_TotalRetried :: counter
  dm_TotalSucceeded :: counter
  dm_TotalDropped :: counter
  dm_CurrentQueue :: counter
  dm_AverageRetries :: float64
  dm_LastRetryTime :: "instant option"
  dm_RetryDurations :: "duration list"

definition zero_Metrics :: Metrics where
  "zero_Metrics =
     \<lparr>dm_TotalFailed = 0, dm_TotalRetried = 0, dm_TotalSucceeded = 0, dm_TotalDropped = 0,
      dm_CurrentQueue = 0, dm_AverageRetries = Fin 0, dm_LastRetryTime = None, dm_RetryDurations = []\<rparr>"

record 'd DeadLetterQueue =
  dq_maxRetries :: int
  dq_retryDelay :: duration
  dq_workerCount :: int
  dq_queueSize :: int
  dq_queue :: "(string \<times> nat) list"
  dq_handlers :: "string \<rightharpoonup> 'd RetryHandler"
  dq_closed :: bool
  dq_ctx :: ctx
  dq_workerChan :: "nat option chan"
  dq_metrics :: "Metrics option"
  dq_heap :: "'d FailedOperation list"

definition NewDeadLetterQueue :: "ConfigDLQ option \<Rightarrow> goerr + 'd DeadLetterQueue" where
  "NewDeadLetterQueue config =
     (case validateDLQConfig config of
        Some err \<Rightarrow> Inl (wrapping (common ErrInvalidConfig))
      | None \<Rightarrow>
         (let c = applyDLQDefaults (the config) in
          Inr \<lparr>dq_maxRetries = dc_MaxRetries c, dq_retryDelay = dc_RetryDelay c,
               dq_workerCount = dc_WorkerCount c, dq_queueSize = dc_QueueSize c, dq_queue = [],
               dq_handlers = Map.empty, dq_closed = False, dq_ctx = Background,
               dq_workerChan = make_chan (nat (dc_QueueSize c)),
               dq_metrics = (if dc_EnableMetrics c then Some zero_Metrics else None), dq_heap = []\<rparr>))"

text \<open>An update of the metrics, if there are any.\<close>

definition upd_dm :: "(Metrics \<Rightarrow> Metrics) \<Rightarrow> 'd DeadLetterQueue \<Rightarrow> 'd DeadLetterQueue" where
  "upd_dm f d = d\<lparr>dq_metrics := map_option f (dq_metrics d)\<rparr>"

definition set_op :: "nat \<Rightarrow> 'd FailedOperation \<Rightarrow> 'd DeadLetterQueue \<Rightarrow> 'd DeadLetterQueue" where
  "set_op a op d = d\<lparr>dq_heap := (dq_heap d)[a := op]\<rparr>"

section \<open>Adding\<close>

definition validateFailedOperation :: "'d FailedOperation option \<Rightarrow> goerr option" where
  "validateFailedOperation operation =
     (case operation of
        None \<Rightarrow> Some (ErrText ''operation cannot be nil'')
      | Some op \<Rightarrow>
          if fo_Operation op = [] then Some (ErrText ''operation type cannot be empty'')
          else if fo_Key op = [] then Some (ErrText ''operation key cannot be empty'')
          else if fo_HandlerType op = [] then Some (ErrText ''handler type cannot be empty'')
          else None)"

definition setOperationDefaults ::
    "instant \<Rightarrow> 'd DeadLetterQueue \<Rightarrow> 'd FailedOperation \<Rightarrow> 'd FailedOperation" where
  "setOperationDefaults now d o0 =
     (let o1 = (if fo_ID o0 = [] then o0\<lparr>fo_ID := fo_Key o0 @ ''-'' @ decimal (nat now)\<rparr> else o0);
          o2 = (if fo_CreatedAt o1 = None then o1\<lparr>fo_CreatedAt := Some now\<rparr> else o1);
          o3 = (if fo_MaxRetries o2 = 0 then o2\<lparr>fo_MaxRetries := dq_maxRetries d\<rparr> else o2);
          o4 = (if fo_NextRetry o3 = None then o3\<lparr>fo_NextRetry := Some (now + dq_retryDelay d)\<rparr> else o3)
      in if fo_Metadata o4 = None then o4\<lparr>fo_Metadata := Some []\<rparr> else o4)"

text \<open>\<open>AddFailedOperation\<close> up to its \<open>select\<close>, for a pointer that may be nil: the error, or go on.\<close>

definition add_enter ::
    "instant \<Rightarrow> nat option \<Rightarrow> 'd DeadLetterQueue \<Rightarrow> goerr + 'd DeadLetterQueue" where
  "add_enter now p d =
     (if dq_closed d then Inl (Sentinel (EDLQ ErrDLQClosed))
      else case validateFailedOperation (map_option (\<lambda>a. dq_heap d ! a) p) of
        Some err \<Rightarrow> Inl (wrapping (common ErrInvalidOperation))
      | None \<Rightarrow>
         (let a = the p; op = setOperationDefaults now d (dq_heap d ! a); d1 = set_op a op d in
          Inr (upd_dm (\<lambda>m. m\<lparr>dm_TotalFailed := dm_TotalFailed m + 1, dm_CurrentQueue := dm_CurrentQueue m + 1\<rparr>)
                (d1\<lparr>dq_queue := AList.update (fo_ID op) a (dq_queue d1)\<rparr>))))"

text \<open>The send to the workers: \<open>None\<close> while the channel is full.\<close>

definition send_op :: "nat \<Rightarrow> 'd DeadLetterQueue \<Rightarrow> 'd DeadLetterQueue outcome option" where
  "send_op a d =
     (case chan_send (dq_workerChan d) (Some a) of
        Sent c \<Rightarrow> Some (Returns (d\<lparr>dq_workerChan := c\<rparr>))
      | SendBlocks \<Rightarrow> None
      | SendPanics \<Rightarrow> Some (Panics SendOnClosedChannel))"

definition remove_op :: "nat \<Rightarrow> 'd DeadLetterQueue \<Rightarrow> 'd DeadLetterQueue" where
  "remove_op a d = d\<lparr>dq_queue := AList.delete (fo_ID (dq_heap d ! a)) (dq_queue d)\<rparr>"

definition add_timeout :: "nat \<Rightarrow> 'd DeadLetterQueue \<Rightarrow> 'd DeadLetterQueue" where
  "add_timeout a d = upd_dm (\<lambda>m. m\<lparr>dm_CurrentQueue := dm_CurrentQueue m - 1\<rparr>) (remove_op a d)"

definition send_patience :: duration where "send_patience = 100 * Millisecond"

text \<open>\<open>AddFailedOperation\<close> when no worker takes anything from the channel meanwhile.\<close>

definition DeadLetterQueue_AddFailedOperation ::
    "instant \<Rightarrow> nat option \<Rightarrow> 'd DeadLetterQueue \<Rightarrow> goerr option outcome \<times> 'd DeadLetterQueue" where
  "DeadLetterQueue_AddFailedOperation now p d =
     (case add_enter now p d of
        Inl err \<Rightarrow> (Returns (Some err), d)
      | Inr d1 \<Rightarrow>
         (case send_op (the p) d1 of
            Some (Returns d2) \<Rightarrow> (Returns None, d2)
          | Some (Panics x) \<Rightarrow> (Panics x, d1)
          | None \<Rightarrow> (Returns (Some (Sentinel (EPool ErrWorkerChannelFull))), add_timeout (the p) d1)))"

definition DeadLetterQueue_RegisterHandler ::
    "string \<Rightarrow> 'd RetryHandler option \<Rightarrow> 'd DeadLetterQueue \<Rightarrow> goerr option \<times> 'd DeadLetterQueue" where
  "DeadLetterQueue_RegisterHandler operationType handler d =
     (if operationType = [] then (Some (ErrText ''operation type cannot be empty''), d)
      else case handler of
        None \<Rightarrow> (Some (ErrText ''handler cannot be nil''), d)
      | Some h \<Rightarrow> (None, d\<lparr>dq_handlers := (dq_handlers d)(operationType \<mapsto> h)\<rparr>))"

section \<open>Processing\<close>

definition DeadLetterQueue_succeedOperation :: "nat \<Rightarrow> 'd DeadLetterQueue \<Rightarrow> 'd DeadLetterQueue" where
  "DeadLetterQueue_succeedOperation a d =
     upd_dm (\<lambda>m. m\<lparr>dm_TotalSucceeded := dm_TotalSucceeded m + 1, dm_CurrentQueue := dm_CurrentQueue m - 1\<rparr>)
       (remove_op a d)"

definition DeadLetterQueue_dropOperation :: "nat \<Rightarrow> 'd DeadLetterQueue \<Rightarrow> 'd DeadLetterQueue" where
  "DeadLetterQueue_dropOperation a d =
     upd_dm (\<lambda>m. m\<lparr>dm_TotalDropped := dm_TotalDropped m + 1, dm_CurrentQueue := dm_CurrentQueue m - 1\<rparr>)
       (remove_op a d)"

text \<open>The start of \<open>processOperation\<close>: the operation is dropped, or there is an instant to wait for.\<close>

definition process_begin :: "instant \<Rightarrow> nat \<Rightarrow> 'd DeadLetterQueue \<Rightarrow> 'd DeadLetterQueue + instant" where
  "process_begin now a d =
     (if dq_closed d then Inl (DeadLetterQueue_dropOperation a d)
      else Inr (case fo_NextRetry (dq_heap d ! a) of
                  None \<Rightarrow> now
                | Some t \<Rightarrow> if now < t then t else now))"

text \<open>
  From the end of the wait to the call of the handler: the operation is dropped, or the handler is
  called, with its context.
\<close>

definition process_check ::
    "instant \<Rightarrow> nat \<Rightarrow> 'd DeadLetterQueue
       \<Rightarrow> ('d DeadLetterQueue + 'd RetryHandler \<times> ctx \<times> 'd DeadLetterQueue) outcome" where
  "process_check now a d =
     (let op = dq_heap d ! a in
      if fo_MaxRetries op \<le> fo_RetryCount op then Returns (Inl (DeadLetterQueue_dropOperation a d))
      else case dq_handlers d (fo_HandlerType op) of
        None \<Rightarrow> Returns (Inl (DeadLetterQueue_dropOperation a d))
      | Some handler \<Rightarrow>
         (case rh_ShouldRetry handler op of
            Panics p \<Rightarrow> Panics p
          | Returns False \<Rightarrow> Returns (Inl (DeadLetterQueue_dropOperation a d))
          | Returns True \<Rightarrow>
              Returns (Inr (handler, WithTimeout now MaxOperationTimeoutDLQ (dq_ctx d),
                set_op a (op\<lparr>fo_RetryCount := fo_RetryCount op + 1, fo_LastRetry := Some now\<rparr>) d))))"

text \<open>
  The handler, called at \<open>start\<close>, has returned \<open>err\<close> at \<open>now\<close>: the operation is finished (\<open>Inl\<close>) or
  has to be queued again (\<open>Inr\<close>).
\<close>

definition process_done ::
    "instant \<Rightarrow> instant \<Rightarrow> goerr option \<Rightarrow> nat \<Rightarrow> 'd DeadLetterQueue
       \<Rightarrow> 'd DeadLetterQueue + 'd DeadLetterQueue" where
  "process_done start now err a d0 =
     (let d = upd_dm (\<lambda>m. m\<lparr>dm_TotalRetried := dm_TotalRetried m + 1, dm_LastRetryTime := Some now,
                         dm_RetryDurations := dm_RetryDurations m @ [time_sub now start]\<rparr>) d0;
          op = dq_heap d ! a
      in case err of
        None \<Rightarrow> Inl (DeadLetterQueue_succeedOperation a d)
      | Some e \<Rightarrow>
          Inr (set_op a (op\<lparr>fo_Error := Inr e,
            fo_NextRetry := Some (now + wrap64 (dq_retryDelay d * fo_RetryCount op))\<rparr>) d))"

text \<open>
  \<open>processOperation\<close> on its own: no other goroutine runs, the timer wakes it \<open>lag\<close> after it is due,
  and when the channel is full nobody empties it. The result is the queue and the time.
\<close>

definition DeadLetterQueue_processOperation ::
    "nat \<Rightarrow> instant \<Rightarrow> nat \<Rightarrow> 'd DeadLetterQueue \<Rightarrow> ('d DeadLetterQueue \<times> instant) outcome" where
  "DeadLetterQueue_processOperation lag now a d =
     (case process_begin now a d of
        Inl d1 \<Rightarrow> Returns (d1, now)
      | Inr due \<Rightarrow>
         (let t0 = (if now < due then due + int lag else now) in
          case process_check t0 a d of
            Panics p \<Rightarrow> Panics p
          | Returns (Inl d1) \<Rightarrow> Returns (d1, t0)
          | Returns (Inr (handler, c, d1)) \<Rightarrow>
             (case rh_Retry handler t0 c (dq_heap d1 ! a) of
                (t1, Panics p) \<Rightarrow> Panics p
              | (t1, Returns err) \<Rightarrow>
                 (case process_done t0 t1 err a d1 of
                    Inl d2 \<Rightarrow> Returns (d2, t1)
                  | Inr d2 \<Rightarrow>
                     (case send_op a d2 of
                        Some (Returns d3) \<Rightarrow> Returns (d3, t1)
                      | Some (Panics p) \<Rightarrow> Panics p
                      | None \<Rightarrow>
                          Returns (DeadLetterQueue_dropOperation a d2, t1 + send_patience))))))"

text \<open>
  The loop of a worker that is alone, for at most \<open>n\<close> elements of the channel; it returns when the
  channel is empty.
\<close>

fun DeadLetterQueue_worker ::
    "nat \<Rightarrow> nat \<Rightarrow> instant \<Rightarrow> 'd DeadLetterQueue \<Rightarrow> ('d DeadLetterQueue \<times> instant) outcome option" where
  "DeadLetterQueue_worker 0 lag now d = None"
| "DeadLetterQueue_worker (Suc n) lag now d =
     (case chan_recv (dq_workerChan d) of
        Received None c \<Rightarrow> DeadLetterQueue_worker n lag now (d\<lparr>dq_workerChan := c\<rparr>)
      | Received (Some a) c \<Rightarrow>
         (case DeadLetterQueue_processOperation lag now a (d\<lparr>dq_workerChan := c\<rparr>) of
            Panics p \<Rightarrow> Some (Panics p)
          | Returns (d1, t) \<Rightarrow> DeadLetterQueue_worker n lag t d1)
      | _ \<Rightarrow> Some (Returns (d, now)))"

section \<open>Metrics and health\<close>

definition DeadLetterQueue_GetMetrics :: "'d DeadLetterQueue \<Rightarrow> Metrics option" where
  "DeadLetterQueue_GetMetrics d =
     map_option (\<lambda>m.
       (let totalRetries = wrap64 (sum_list (map (\<lambda>(k, a). fo_RetryCount (dq_heap d ! a)) (dq_queue d)));
            currentQueue = sint (dm_CurrentQueue m)
        in m\<lparr>dm_AverageRetries :=
             (if 0 < currentQueue then f_div (f_of_int totalRetries) (f_of_int currentQueue) else Fin 0)\<rparr>))
       (dq_metrics d)"

text \<open>The operations in the queue, in an order the map does not define.\<close>

definition DeadLetterQueue_GetQueue :: "'d DeadLetterQueue \<Rightarrow> nat list" where
  "DeadLetterQueue_GetQueue d = map snd (dq_queue d)"

definition DeadLetterQueue_ClearQueue :: "'d DeadLetterQueue \<Rightarrow> 'd DeadLetterQueue" where
  "DeadLetterQueue_ClearQueue d = upd_dm (\<lambda>m. m\<lparr>dm_CurrentQueue := 0\<rparr>) (d\<lparr>dq_queue := []\<rparr>)"

definition DeadLetterQueue_IsHealthy :: "'d DeadLetterQueue \<Rightarrow> bool outcome \<times> 'd DeadLetterQueue" where
  "DeadLetterQueue_IsHealthy d =
     (if dq_closed d then (Returns False, d)
      else case chan_send (dq_workerChan d) None of
        Sent c \<Rightarrow>
          (Returns True,
           d\<lparr>dq_workerChan := (case chan_recv c of Received x c' \<Rightarrow> c' | _ \<Rightarrow> c)\<rparr>)
      | SendBlocks \<Rightarrow> (Returns False, d)
      | SendPanics \<Rightarrow> (Panics SendOnClosedChannel, d))"

record DLQHealth =
  dh_is_healthy :: bool
  dh_is_closed :: bool
  dh_worker_count :: int
  dh_queue_size :: int
  dh_metrics :: Metrics
  dh_max_retries :: int
  dh_retry_delay :: duration

definition DeadLetterQueue_GetHealthStatus :: "'d DeadLetterQueue \<Rightarrow> DLQHealth outcome \<times> 'd DeadLetterQueue" where
  "DeadLetterQueue_GetHealthStatus d =
     (let metrics = DeadLetterQueue_GetMetrics d in
      case DeadLetterQueue_IsHealthy d of
        (Panics p, d1) \<Rightarrow> (Panics p, d1)
      | (Returns healthy, d1) \<Rightarrow>
         (case metrics of
            None \<Rightarrow> (Panics NilDereference, d1)
          | Some m \<Rightarrow>
              (Returns \<lparr>dh_is_healthy = healthy, dh_is_closed = dq_closed d1,
                 dh_worker_count = dq_workerCount d1, dh_queue_size = dq_queueSize d1, dh_metrics = m,
                 dh_max_retries = dq_maxRetries d1, dh_retry_delay = dq_retryDelay d1\<rparr>, d1)))"

section \<open>Closing\<close>

definition DeadLetterQueue_Close_flag :: "instant \<Rightarrow> 'd DeadLetterQueue \<Rightarrow> goerr option \<times> 'd DeadLetterQueue" where
  "DeadLetterQueue_Close_flag now d =
     (if dq_closed d then (None, d)
      else (None, d\<lparr>dq_closed := True, dq_ctx := (dq_ctx d)\<lparr>cancelled_at := Some now\<rparr>\<rparr>))"

definition Close_channel :: "'d DeadLetterQueue \<Rightarrow> 'd DeadLetterQueue outcome" where
  "Close_channel d =
     (case chan_close (dq_workerChan d) of
        Some c \<Rightarrow> Returns (d\<lparr>dq_workerChan := c\<rparr>)
      | None \<Rightarrow> Panics CloseOfClosedChannel)"

text \<open>\<open>Close\<close> when the workers have stopped, or its patience is over, without changing the queue.\<close>

definition DeadLetterQueue_Close :: "instant \<Rightarrow> 'd DeadLetterQueue \<Rightarrow> (goerr option \<times> 'd DeadLetterQueue) outcome" where
  "DeadLetterQueue_Close now d =
     (if dq_closed d then Returns (None, d)
      else map_outcome (\<lambda>d2. (None, d2)) (Close_channel (snd (DeadLetterQueue_Close_flag now d))))"

section \<open>The write-behind handler\<close>

type_synonym 'd writer = "instant \<Rightarrow> ctx \<Rightarrow> string \<Rightarrow> 'd \<Rightarrow> instant \<times> goerr option outcome"

definition WriteBehindHandler_Retry ::
    "'d writer \<Rightarrow> instant \<Rightarrow> ctx \<Rightarrow> 'd FailedOperation \<Rightarrow> instant \<times> goerr option outcome" where
  "WriteBehindHandler_Retry writer now c operation = writer now c (fo_Key operation) (fo_Data operation)"

definition WriteBehindHandler_ShouldRetry :: "'d FailedOperation \<Rightarrow> bool outcome" where
  "WriteBehindHandler_ShouldRetry operation = Returns (fo_RetryCount operation < fo_MaxRetries operation)"

definition NewWriteBehindHandler :: "'d writer option \<Rightarrow> 'd RetryHandler outcome" where
  "NewWriteBehindHandler writer =
     (case writer of
        None \<Rightarrow> Panics NilWriter
      | Some w \<Rightarrow> Returns \<lparr>rh_Retry = WriteBehindHandler_Retry w, rh_ShouldRetry = WriteBehindHandler_ShouldRetry\<rparr>)"

section \<open>Laws\<close>

interpretation dqc: config_check "\<lambda>c. validateDLQConfig (Some c)" applyDLQDefaults
proof unfold_locales
  fix c
  assume v: "validateDLQConfig (Some c) = None"
  then show "validateDLQConfig (Some (applyDLQDefaults c)) = None"
    by (auto simp: validateDLQConfig_def applyDLQDefaults_def Let_def dlq_limits split: if_splits)
  show "applyDLQDefaults (applyDLQDefaults c) = applyDLQDefaults c"
    using v by (auto simp: applyDLQDefaults_def Let_def dlq_limits)
qed

interpretation dql: closable "DeadLetterQueue_Close_flag now" dq_closed for now
  by unfold_locales (auto simp: DeadLetterQueue_Close_flag_def)

definition add_failed_op ::
    "instant \<times> nat option \<Rightarrow> 'd DeadLetterQueue \<Rightarrow> goerr option outcome \<times> 'd DeadLetterQueue" where
  "add_failed_op a d = DeadLetterQueue_AddFailedOperation (fst a) (snd a) d"

interpretation dqg: guarded "DeadLetterQueue_Close_flag now" dq_closed add_failed_op
    "\<lambda>_. Returns (Some (Sentinel (EDLQ ErrDLQClosed)))" for now
  by unfold_locales (simp add: add_failed_op_def DeadLetterQueue_AddFailedOperation_def add_enter_def)

end
