(* ===== verification/Holding.thy ===== *)
theory Holding
  imports Prelude "HOL-Library.Multiset"
begin

text \<open>
  What a list of concurrent calls holds between them, as a multiset: an operation, a message, a
  sequence number. A step of one call is an update of the list at its index.
\<close>

definition held :: "('a \<Rightarrow> 'b option) \<Rightarrow> 'a list \<Rightarrow> 'b multiset" where
  "held f xs = mset (List.map_filter f xs)"

definition opt_mset :: "'b option \<Rightarrow> 'b multiset" where
  "opt_mset x = (case x of None \<Rightarrow> {#} | Some a \<Rightarrow> {#a#})"

lemma opt_mset_simps [simp]: "opt_mset None = {#}" "opt_mset (Some a) = {#a#}"
  by (simp_all add: opt_mset_def)

lemma held_simps [simp]:
  "held f [] = {#}" "held f (x # xs) = opt_mset (f x) + held f xs" "held f (xs @ ys) = held f xs + held f ys"
  by (auto simp: held_def List.map_filter_def opt_mset_def split: option.split)

lemma held_replicate [simp]: "f x = None \<Longrightarrow> held f (replicate n x) = {#}"
  by (induction n) auto

lemma held_update: "i < length xs \<Longrightarrow> held f (xs[i := v]) + opt_mset (f (xs ! i)) = held f xs + opt_mset (f v)"
proof (induction xs arbitrary: i)
  case (Cons x xs)
  then show ?case by (cases i) (auto simp: ac_simps)
qed simp

lemma held_nth: "i < length xs \<Longrightarrow> f (xs ! i) = Some a \<Longrightarrow> a \<in># held f xs"
  by (auto simp: held_def List.map_filter_def image_iff intro!: exI [of _ "xs ! i"])

lemma held_enter: "i < length xs \<Longrightarrow> f (xs ! i) = None \<Longrightarrow> f v = Some a \<Longrightarrow> held f (xs[i := v]) = add_mset a (held f xs)"
  using held_update [of i xs f v] by simp

lemma held_leave: "i < length xs \<Longrightarrow> f (xs ! i) = Some a \<Longrightarrow> f v = None \<Longrightarrow> held f xs = add_mset a (held f (xs[i := v]))"
  using held_update [of i xs f v] by simp

lemma held_same: "i < length xs \<Longrightarrow> f (xs ! i) = f v \<Longrightarrow> held f (xs[i := v]) = held f xs"
  using held_update [of i xs f v] by simp

lemma held_twice:
  assumes "i < length xs" "j < length xs" "i \<noteq> j" "f (xs ! i) = Some a" "f (xs ! j) = Some a" "f z = None"
  shows "2 \<le> count (held f xs) a"
proof -
  have "held f xs = add_mset a (held f (xs[i := z]))" using assms by (intro held_leave)
  moreover have "a \<in># held f (xs[i := z])" using assms by (intro held_nth [of j]) auto
  ultimately show ?thesis by (simp add: count_greater_zero_iff Suc_le_eq numeral_2_eq_2)
qed

end
