(* ===== verification/DeadLetterSystem.thy ===== *)
theory DeadLetterSystem
  imports DeadLetter Holding
begin

text \<open>
  The running dead letter queue: its workers, the calls of \<open>AddFailedOperation\<close> that wait for room in
  the channel, health checks, \<open>Close\<close> and the clock. One step is one channel operation, one section
  under the mutex with the counters after it, or one call of a handler. Every operation is added
  once: a call allocates it. After a panic the process would be gone; the model lets the others go
  on, which only adds runs.
\<close>

section \<open>Workers, calls, steps\<close>

datatype dl_pc =
    DwIdle
  | DwBegin nat
  | DwWaiting nat instant
  | DwCheck nat
  | DwRetrying nat instant instant "goerr option outcome"
  | DwRequeue nat instant
  | DwPanicked nat panic
  | DwExited

fun dw_addr :: "dl_pc \<Rightarrow> nat option" where
  "dw_addr DwIdle = None"
| "dw_addr (DwBegin a) = Some a"
| "dw_addr (DwWaiting a _) = Some a"
| "dw_addr (DwCheck a) = Some a"
| "dw_addr (DwRetrying a _ _ _) = Some a"
| "dw_addr (DwRequeue a _) = Some a"
| "dw_addr (DwPanicked a _) = Some a"
| "dw_addr DwExited = None"

datatype dl_call =
    DcSending nat instant
  | DcReturned "goerr option"
  | DcPanicked nat

fun dc_addr :: "dl_call \<Rightarrow> nat option" where
  "dc_addr (DcSending a _) = Some a"
| "dc_addr (DcReturned _) = None"
| "dc_addr (DcPanicked a) = Some a"

text \<open>
  The last five fields record what has happened: the operations as the callers gave them, the number
  of handler calls for each, the operations a health check took out of the channel, the adds that
  timed out, and whether the queue was ever cleared.
\<close>

record 'd dl_sys =
  dl_dlq :: "'d DeadLetterQueue"
  dl_pcs :: "dl_pc list"
  dl_calls :: "dl_call list"
  dl_now :: instant
  dl_close_at :: "instant option"
  dl_given :: "'d FailedOperation list"
  dl_tries :: "nat list"
  dl_lost :: nat
  dl_timeouts :: nat
  dl_cleared :: bool

text \<open>The operations in the channel.\<close>

definition queued :: "'d DeadLetterQueue \<Rightarrow> nat list" where
  "queued d = List.map_filter id (ch_buf (dq_workerChan d))"

definition new_op :: "'d FailedOperation \<Rightarrow> 'd DeadLetterQueue \<Rightarrow> 'd DeadLetterQueue" where
  "new_op op d = d\<lparr>dq_heap := dq_heap d @ [op]\<rparr>"

text \<open>
  A step of one worker, at its program point, on the queue; its label is the operation whose handler it
  calls in this step.
\<close>

inductive dw_step ::
    "instant \<Rightarrow> dl_pc \<times> 'd DeadLetterQueue \<Rightarrow> nat option \<Rightarrow> dl_pc \<times> 'd DeadLetterQueue \<Rightarrow> bool" for now where
  take: "chan_recv (dq_workerChan d) = Received x c
    \<Longrightarrow> dw_step now (DwIdle, d) None (case x of None \<Rightarrow> DwIdle | Some a \<Rightarrow> DwBegin a, d\<lparr>dq_workerChan := c\<rparr>)"
| exit: "ctx_done now (dq_ctx d) \<Longrightarrow> dw_step now (DwIdle, d) None (DwExited, d)"
| begin_drop: "process_begin now a d = Inl d' \<Longrightarrow> dw_step now (DwBegin a, d) None (DwIdle, d')"
| begin_wait: "process_begin now a d = Inr due
    \<Longrightarrow> dw_step now (DwBegin a, d) None (if now < due then DwWaiting a due else DwCheck a, d)"
| wake: "due \<le> now \<Longrightarrow> dw_step now (DwWaiting a due, d) None (DwCheck a, d)"
| wait_cancelled: "ctx_done now (dq_ctx d)
    \<Longrightarrow> dw_step now (DwWaiting a due, d) None (DwIdle, DeadLetterQueue_dropOperation a d)"
| check_drop: "process_check now a d = Returns (Inl d') \<Longrightarrow> dw_step now (DwCheck a, d) None (DwIdle, d')"
| check_panic: "process_check now a d = Panics p \<Longrightarrow> dw_step now (DwCheck a, d) None (DwPanicked a p, d)"
| call: "process_check now a d = Returns (Inr (h, c, d')) \<Longrightarrow> rh_Retry h now c (dq_heap d' ! a) = (t, r)
    \<Longrightarrow> dw_step now (DwCheck a, d) (Some a) (DwRetrying a now t r, d')"
| finished: "t \<le> now \<Longrightarrow> process_done t0 now err a d = Inl d'
    \<Longrightarrow> dw_step now (DwRetrying a t0 t (Returns err), d) None (DwIdle, d')"
| failed: "t \<le> now \<Longrightarrow> process_done t0 now err a d = Inr d'
    \<Longrightarrow> dw_step now (DwRetrying a t0 t (Returns err), d) None (DwRequeue a (now + send_patience), d')"
| panicked: "t \<le> now \<Longrightarrow> dw_step now (DwRetrying a t0 t (Panics p), d) None (DwPanicked a p, d)"
| requeue: "send_op a d = Some (Returns d') \<Longrightarrow> dw_step now (DwRequeue a t, d) None (DwIdle, d')"
| requeue_panic: "send_op a d = Some (Panics p) \<Longrightarrow> dw_step now (DwRequeue a t, d) None (DwPanicked a p, d)"
| requeue_times_out: "t \<le> now
    \<Longrightarrow> dw_step now (DwRequeue a t, d) None (DwIdle, DeadLetterQueue_dropOperation a d)"

abbreviation dw_set :: "nat \<Rightarrow> dl_pc \<Rightarrow> 'd DeadLetterQueue \<Rightarrow> 'd dl_sys \<Rightarrow> 'd dl_sys" where
  "dw_set i pc d s \<equiv> s\<lparr>dl_dlq := d, dl_pcs := (dl_pcs s)[i := pc]\<rparr>"

definition tried :: "nat option \<Rightarrow> nat list \<Rightarrow> nat list" where
  "tried called ns = (case called of None \<Rightarrow> ns | Some a \<Rightarrow> ns[a := Suc (ns ! a)])"

inductive dl_step :: "'d dl_sys \<Rightarrow> 'd dl_sys \<Rightarrow> bool" where
  add_refused: "add_enter (dl_now s) (Some (length (dq_heap (dl_dlq s)))) (new_op op (dl_dlq s)) = Inl e
    \<Longrightarrow> dl_step s (s\<lparr>dl_calls := dl_calls s @ [DcReturned (Some e)]\<rparr>)"
| add: "add_enter (dl_now s) (Some (length (dq_heap (dl_dlq s)))) (new_op op (dl_dlq s)) = Inr d
    \<Longrightarrow> dl_step s (s\<lparr>dl_dlq := d, dl_given := dl_given s @ [op], dl_tries := dl_tries s @ [0],
          dl_calls := dl_calls s @ [DcSending (length (dq_heap (dl_dlq s))) (dl_now s + send_patience)]\<rparr>)"
| add_send: "i < length (dl_calls s) \<Longrightarrow> dl_calls s ! i = DcSending a t
    \<Longrightarrow> send_op a (dl_dlq s) = Some (Returns d)
    \<Longrightarrow> dl_step s (s\<lparr>dl_dlq := d, dl_calls := (dl_calls s)[i := DcReturned None]\<rparr>)"
| add_panic: "i < length (dl_calls s) \<Longrightarrow> dl_calls s ! i = DcSending a t
    \<Longrightarrow> send_op a (dl_dlq s) = Some (Panics p)
    \<Longrightarrow> dl_step s (s\<lparr>dl_calls := (dl_calls s)[i := DcPanicked a]\<rparr>)"
| add_times_out: "i < length (dl_calls s) \<Longrightarrow> dl_calls s ! i = DcSending a t \<Longrightarrow> t \<le> dl_now s
    \<Longrightarrow> dl_step s (s\<lparr>dl_dlq := add_timeout a (dl_dlq s), dl_timeouts := dl_timeouts s + 1,
          dl_calls := (dl_calls s)[i := DcReturned (Some (Sentinel (EPool ErrWorkerChannelFull)))]\<rparr>)"
| health: "DeadLetterQueue_IsHealthy (dl_dlq s) = (r, d)
    \<Longrightarrow> dl_step s (s\<lparr>dl_dlq := d,
          dl_lost := dl_lost s + (length (queued (dl_dlq s)) - length (queued d))\<rparr>)"
| clear: "dl_step s (s\<lparr>dl_dlq := DeadLetterQueue_ClearQueue (dl_dlq s), dl_cleared := True\<rparr>)"
| register: "dl_step s (s\<lparr>dl_dlq := snd (DeadLetterQueue_RegisterHandler k h (dl_dlq s))\<rparr>)"
| worker: "i < length (dl_pcs s) \<Longrightarrow> dw_step (dl_now s) (dl_pcs s ! i, dl_dlq s) called (pc, d)
    \<Longrightarrow> dl_step s ((dw_set i pc d s)\<lparr>dl_tries := tried called (dl_tries s)\<rparr>)"
| close: "dl_step s (s\<lparr>dl_dlq := snd (DeadLetterQueue_Close_flag (dl_now s) (dl_dlq s)),
      dl_close_at := (if dq_closed (dl_dlq s) then dl_close_at s else Some (dl_now s))\<rparr>)"
| close_channel: "dl_close_at s = Some t \<Longrightarrow> list_all (\<lambda>pc. pc = DwExited) (dl_pcs s) \<or> t + GracefulShutdownWaitDLQ \<le> dl_now s
    \<Longrightarrow> Close_channel (dl_dlq s) = Returns d \<Longrightarrow> dl_step s (s\<lparr>dl_dlq := d\<rparr>)"
| tick: "dl_step s (s\<lparr>dl_now := dl_now s + int n\<rparr>)"

definition dl_start :: "instant \<Rightarrow> 'd DeadLetterQueue \<Rightarrow> 'd dl_sys" where
  "dl_start now d =
     \<lparr>dl_dlq = d, dl_pcs = replicate (nat (dq_workerCount d)) DwIdle, dl_calls = [], dl_now = now,
      dl_close_at = None, dl_given = [], dl_tries = [], dl_lost = 0, dl_timeouts = 0, dl_cleared = False\<rparr>"

inductive dl_reach :: "'d dl_sys \<Rightarrow> bool" where
  init: "NewDeadLetterQueue config = Inr d \<Longrightarrow> dl_reach (dl_start now d)"
| step: "dl_reach s \<Longrightarrow> dl_step s s' \<Longrightarrow> dl_reach s'"

inductive_cases dl_stepE: "dl_step s s'"
inductive_cases dw_stepE: "dw_step now (pc, d) called (pc', d')"

section \<open>Who holds an operation\<close>

definition in_channel :: "'d DeadLetterQueue \<Rightarrow> nat multiset" where
  "in_channel d = held id (ch_buf (dq_workerChan d))"

definition holders :: "'d dl_sys \<Rightarrow> nat multiset" where
  "holders s = in_channel (dl_dlq s) + held dw_addr (dl_pcs s) + held dc_addr (dl_calls s)"

lemma queued_size: "length (queued d) = size (in_channel d)"
  by (simp add: queued_def in_channel_def held_def)

section \<open>What the operations do to heap, channel and metrics\<close>

lemma upd_dm_simps [record_laws]:
  "dq_heap (upd_dm f d) = dq_heap d" "dq_workerChan (upd_dm f d) = dq_workerChan d"
  "dq_metrics (upd_dm f d) = map_option f (dq_metrics d)" "dq_ctx (upd_dm f d) = dq_ctx d"
  "dq_retryDelay (upd_dm f d) = dq_retryDelay d" "dq_closed (upd_dm f d) = dq_closed d"
  by (simp_all add: upd_dm_def)

lemma remove_op_simps [record_laws]:
  "dq_heap (remove_op a d) = dq_heap d" "dq_workerChan (remove_op a d) = dq_workerChan d"
  "dq_metrics (remove_op a d) = dq_metrics d" "dq_ctx (remove_op a d) = dq_ctx d"
  by (simp_all add: remove_op_def)

lemma set_op_simps [record_laws]:
  "dq_heap (set_op a op d) = (dq_heap d)[a := op]" "dq_workerChan (set_op a op d) = dq_workerChan d"
  "dq_metrics (set_op a op d) = dq_metrics d" "dq_ctx (set_op a op d) = dq_ctx d"
  by (simp_all add: set_op_def)

text \<open>An operation leaves the queue, with one more of the counter \<open>f\<close> increments.\<close>

lemma drop_op_simps [record_laws]:
  "dq_heap (DeadLetterQueue_dropOperation a d) = dq_heap d"
  "dq_workerChan (DeadLetterQueue_dropOperation a d) = dq_workerChan d"
  "dq_metrics (DeadLetterQueue_dropOperation a d) = map_option
     (\<lambda>m. m\<lparr>dm_TotalDropped := dm_TotalDropped m + 1, dm_CurrentQueue := dm_CurrentQueue m - 1\<rparr>) (dq_metrics d)"
  "dq_heap (DeadLetterQueue_succeedOperation a d) = dq_heap d"
  "dq_workerChan (DeadLetterQueue_succeedOperation a d) = dq_workerChan d"
  "dq_metrics (DeadLetterQueue_succeedOperation a d) = map_option
     (\<lambda>m. m\<lparr>dm_TotalSucceeded := dm_TotalSucceeded m + 1, dm_CurrentQueue := dm_CurrentQueue m - 1\<rparr>) (dq_metrics d)"
  "dq_heap (add_timeout a d) = dq_heap d" "dq_workerChan (add_timeout a d) = dq_workerChan d"
  "dq_metrics (add_timeout a d) = map_option (\<lambda>m. m\<lparr>dm_CurrentQueue := dm_CurrentQueue m - 1\<rparr>) (dq_metrics d)"
  by (simp_all add: DeadLetterQueue_dropOperation_def DeadLetterQueue_succeedOperation_def add_timeout_def
      upd_dm_simps remove_op_simps)

lemma send_op_cases:
  assumes "send_op a d = Some (Returns d')"
  shows "dq_heap d' = dq_heap d \<and> dq_metrics d' = dq_metrics d \<and> in_channel d' = add_mset a (in_channel d)"
  using assms by (auto simp: send_op_def chan_send_def in_channel_def split: if_splits)

lemma add_enter_cases:
  assumes "add_enter now (Some (length (dq_heap d))) (new_op op d) = Inr d'"
  shows "dq_heap d' = dq_heap d @ [setOperationDefaults now d op] \<and> in_channel d' = in_channel d
    \<and> dq_metrics d' = map_option (\<lambda>m. m\<lparr>dm_TotalFailed := dm_TotalFailed m + 1,
        dm_CurrentQueue := dm_CurrentQueue m + 1\<rparr>) (dq_metrics d)"
  using assms
  by (auto simp: add_enter_def new_op_def Let_def record_laws in_channel_def setOperationDefaults_def
      split: if_splits option.splits)

lemma process_begin_Inl:
  "process_begin now a d = Inl d' \<Longrightarrow> d' = DeadLetterQueue_dropOperation a d"
  by (auto simp: process_begin_def split: if_splits)

lemma process_begin_Inr:
  "process_begin now a d = Inr due \<Longrightarrow> now < due \<Longrightarrow> fo_NextRetry (dq_heap d ! a) = Some due"
  "process_begin now a d = Inr due \<Longrightarrow> \<not> now < due \<Longrightarrow> fo_NextRetry (dq_heap d ! a) = Some t \<Longrightarrow> t \<le> now"
  by (auto simp: process_begin_def split: if_splits option.splits)

lemma process_check_Inl:
  "process_check now a d = Returns (Inl d') \<Longrightarrow> d' = DeadLetterQueue_dropOperation a d"
  by (auto simp: process_check_def Let_def split: if_splits option.splits outcome.splits bool.splits)

lemma process_check_Inr:
  assumes "process_check now a d = Returns (Inr (h, c, d'))"
  shows "d' = set_op a ((dq_heap d ! a)\<lparr>fo_RetryCount := fo_RetryCount (dq_heap d ! a) + 1, fo_LastRetry := Some now\<rparr>) d
    \<and> fo_RetryCount (dq_heap d ! a) < fo_MaxRetries (dq_heap d ! a)"
  using assms
  by (auto simp: process_check_def Let_def split: if_splits option.splits outcome.splits bool.splits)

lemma process_done_cases:
  assumes "process_done t0 now err a d = r"
  obtains d1 where "r = Inl d1" "err = None" "dq_heap d1 = dq_heap d" "dq_workerChan d1 = dq_workerChan d"
      "dq_metrics d1 = map_option (\<lambda>m. m\<lparr>dm_TotalRetried := dm_TotalRetried m + 1, dm_LastRetryTime := Some now,
         dm_RetryDurations := dm_RetryDurations m @ [time_sub now t0],
         dm_TotalSucceeded := dm_TotalSucceeded m + 1, dm_CurrentQueue := dm_CurrentQueue m - 1\<rparr>) (dq_metrics d)"
  | e d1 where "r = Inr d1" "err = Some e"
      "dq_heap d1 = (dq_heap d)[a := (dq_heap d ! a)\<lparr>fo_Error := Inr e,
         fo_NextRetry := Some (now + wrap64 (dq_retryDelay d * fo_RetryCount (dq_heap d ! a)))\<rparr>]"
      "dq_workerChan d1 = dq_workerChan d"
      "dq_metrics d1 = map_option (\<lambda>m. m\<lparr>dm_TotalRetried := dm_TotalRetried m + 1, dm_LastRetryTime := Some now,
         dm_RetryDurations := dm_RetryDurations m @ [time_sub now t0]\<rparr>) (dq_metrics d)"
proof (cases err)
  case None
  show thesis
    by (rule that(1) [of "DeadLetterQueue_succeedOperation a (upd_dm (\<lambda>m. m\<lparr>dm_TotalRetried := dm_TotalRetried m + 1,
        dm_LastRetryTime := Some now, dm_RetryDurations := dm_RetryDurations m @ [time_sub now t0]\<rparr>) d)"])
      (use assms None in \<open>auto simp: process_done_def Let_def record_laws option.map_comp comp_def intro!: option.map_cong\<close>)
next
  case (Some e)
  let ?d = "upd_dm (\<lambda>m. m\<lparr>dm_TotalRetried := dm_TotalRetried m + 1,
        dm_LastRetryTime := Some now, dm_RetryDurations := dm_RetryDurations m @ [time_sub now t0]\<rparr>) d"
  show thesis
    by (rule that(2) [of "set_op a ((dq_heap ?d ! a)\<lparr>fo_Error := Inr e,
            fo_NextRetry := Some (now + wrap64 (dq_retryDelay ?d * fo_RetryCount (dq_heap ?d ! a)))\<rparr>) ?d" e])
      (use assms Some in \<open>auto simp: process_done_def Let_def record_laws\<close>)
qed

lemma IsHealthy_cases:
  assumes "DeadLetterQueue_IsHealthy d = (r, d')"
  shows "dq_heap d' = dq_heap d \<and> dq_metrics d' = dq_metrics d \<and> in_channel d' \<subseteq># in_channel d
    \<and> size (in_channel d) \<le> Suc (size (in_channel d'))"
proof (cases "ch_buf (dq_workerChan d)")
  case Nil
  then show ?thesis
    using assms by (auto simp: DeadLetterQueue_IsHealthy_def chan_send_def chan_recv_def in_channel_def split: if_splits)
next
  case (Cons x xs)
  then show ?thesis
    using assms by (cases x) (auto simp: DeadLetterQueue_IsHealthy_def chan_send_def chan_recv_def in_channel_def
      split: if_splits)
qed

lemma recv_in_channel:
  assumes "chan_recv (dq_workerChan d) = Received x c"
  shows "in_channel d = opt_mset x + in_channel (d\<lparr>dq_workerChan := c\<rparr>)"
  using assms by (auto simp: chan_recv_def in_channel_def split: list.splits if_splits)

lemma close_cases:
  "dq_heap (snd (DeadLetterQueue_Close_flag now d)) = dq_heap d"
  "dq_workerChan (snd (DeadLetterQueue_Close_flag now d)) = dq_workerChan d"
  "dq_metrics (snd (DeadLetterQueue_Close_flag now d)) = dq_metrics d"
  "dq_heap (snd (DeadLetterQueue_RegisterHandler k h d)) = dq_heap d"
  "dq_workerChan (snd (DeadLetterQueue_RegisterHandler k h d)) = dq_workerChan d"
  "dq_metrics (snd (DeadLetterQueue_RegisterHandler k h d)) = dq_metrics d"
  "dq_heap (DeadLetterQueue_ClearQueue d) = dq_heap d"
  "dq_workerChan (DeadLetterQueue_ClearQueue d) = dq_workerChan d"
  by (auto simp: DeadLetterQueue_Close_flag_def DeadLetterQueue_RegisterHandler_def DeadLetterQueue_ClearQueue_def
      upd_dm_def split: option.split)

lemma Close_channel_cases:
  assumes "Close_channel d = Returns d'"
  shows "dq_heap d' = dq_heap d" "in_channel d' = in_channel d" "dq_metrics d' = dq_metrics d"
  using assms by (auto simp: Close_channel_def chan_close_def in_channel_def split: if_splits)

section \<open>Where operations go in a step\<close>

lemmas holder_laws = holders_def record_laws held_enter held_leave held_same in_channel_def

text \<open>
  The three kinds of step: an operation is added, an operation leaves (it is finished, dropped, lost
  or its add times out), or all stay.
\<close>

definition stays :: "'d dl_sys \<Rightarrow> 'd dl_sys \<Rightarrow> bool" where
  "stays s s' \<longleftrightarrow> holders s' = holders s"

lemma holders_pcs:
  assumes "i < length (dl_pcs s)"
  shows "holders (dw_set i pc d s) + opt_mset (dw_addr (dl_pcs s ! i)) + in_channel (dl_dlq s)
    = holders s + opt_mset (dw_addr pc) + in_channel d"
  using held_update [OF assms, of dw_addr pc] by (simp add: holders_def ac_simps)

lemma holders_calls:
  assumes "i < length (dl_calls s)"
  shows "holders (s\<lparr>dl_dlq := d, dl_calls := (dl_calls s)[i := c]\<rparr>) + opt_mset (dc_addr (dl_calls s ! i))
      + in_channel (dl_dlq s)
    = holders s + opt_mset (dc_addr c) + in_channel d"
  using held_update [OF assms, of dc_addr c] by (simp add: holders_def ac_simps)

text \<open>The change of the counters that goes with it.\<close>

definition counted_as :: "nat \<Rightarrow> 'd dl_sys \<Rightarrow> 'd dl_sys \<Rightarrow> bool" where
  "counted_as n s s' \<longleftrightarrow> (dq_metrics (dl_dlq s) = None \<longrightarrow> dq_metrics (dl_dlq s') = None) \<and> (\<forall>m. dq_metrics (dl_dlq s) = Some m \<longrightarrow>
     (\<exists>m'. dq_metrics (dl_dlq s') = Some m'
        \<and> dm_CurrentQueue m' + of_nat n = dm_CurrentQueue m
        \<and> dm_TotalFailed m' - dm_TotalSucceeded m' - dm_TotalDropped m' - of_nat (dl_timeouts s') + of_nat n
          = dm_TotalFailed m - dm_TotalSucceeded m - dm_TotalDropped m - of_nat (dl_timeouts s)))"

text \<open>The same for a step of one worker: what it and the channel hold, and the counters.\<close>

definition counted_dm :: "nat \<Rightarrow> 'd DeadLetterQueue \<Rightarrow> 'd DeadLetterQueue \<Rightarrow> bool" where
  "counted_dm n d d' \<longleftrightarrow> (dq_metrics d = None \<longrightarrow> dq_metrics d' = None) \<and> (\<forall>m. dq_metrics d = Some m \<longrightarrow>
     (\<exists>m'. dq_metrics d' = Some m' \<and> dm_CurrentQueue m' + of_nat n = dm_CurrentQueue m
        \<and> dm_TotalFailed m' - dm_TotalSucceeded m' - dm_TotalDropped m' + of_nat n
          = dm_TotalFailed m - dm_TotalSucceeded m - dm_TotalDropped m))"

lemma counted_as_counted:
  "counted_dm n (dl_dlq s) (dl_dlq s') \<Longrightarrow> dl_timeouts s' = dl_timeouts s \<Longrightarrow> counted_as n s s'"
  unfolding counted_dm_def counted_as_def by (fastforce simp: algebra_simps)

lemma counted_same: "dq_metrics d' = dq_metrics d \<Longrightarrow> counted_dm 0 d d'"
  by (simp add: counted_dm_def)

lemma counted_dropped: "counted_dm 1 d (DeadLetterQueue_dropOperation a d)"
  by (auto simp: counted_dm_def record_laws)

lemma dw_step_effect:
  assumes "dw_step now (pc, d) called (pc', d')"
  obtains (stayed) "opt_mset (dw_addr pc') + in_channel d' = opt_mset (dw_addr pc) + in_channel d" "counted_dm 0 d d'"
  | (left) a where "dw_addr pc = Some a" "dw_addr pc' = None" "in_channel d' = in_channel d" "counted_dm 1 d d'"
  using assms
proof cases
  case (take x c)
  then show thesis using recv_in_channel [OF take(5)]
    by (intro stayed) (cases x; simp add: counted_same ac_simps)+
next
  case (begin_drop a)
  then show thesis using process_begin_Inl [OF begin_drop(4)] counted_dropped
    by (intro left [of a]) (auto simp: record_laws in_channel_def)
next
  case (wait_cancelled a due)
  then show thesis using counted_dropped by (intro left [of a]) (auto simp: record_laws in_channel_def)
next
  case (check_drop a)
  then show thesis using process_check_Inl [OF check_drop(4)] counted_dropped
    by (intro left [of a]) (auto simp: record_laws in_channel_def)
next
  case (call a h c t r)
  then show thesis using process_check_Inr [OF call(4)]
    by (intro stayed) (auto simp: record_laws in_channel_def counted_same)
next
  case (finished t t0 err a)
  from finished(5) show thesis
  proof (cases rule: process_done_cases)
    case (1 d1)
    then show thesis using finished by (intro left [of a]) (auto simp: counted_dm_def in_channel_def)
  qed auto
next
  case (failed t t0 err a)
  from failed(5) show thesis
  proof (cases rule: process_done_cases)
    case (2 e d1)
    then show thesis using failed by (intro stayed) (auto simp: counted_dm_def in_channel_def)
  qed auto
next
  case (requeue a t)
  then show thesis using send_op_cases [OF requeue(4)] by (intro stayed) (auto simp: counted_same)
next
  case (requeue_times_out t a)
  then show thesis using counted_dropped by (intro left [of a]) (auto simp: record_laws in_channel_def)
qed (rule stayed; simp add: counted_same)+

text \<open>What a step of a worker does to the operations themselves.\<close>

lemma dw_step_heap:
  assumes "dw_step now (pc, d) called (pc', d')"
  obtains (same) "called = None" "dq_heap d' = dq_heap d"
  | (called) a where "called = Some a" "dw_addr pc = Some a"
      "dq_heap d' = (dq_heap d)[a := (dq_heap d ! a)
         \<lparr>fo_RetryCount := fo_RetryCount (dq_heap d ! a) + 1, fo_LastRetry := Some now\<rparr>]"
      "fo_RetryCount (dq_heap d ! a) < fo_MaxRetries (dq_heap d ! a)"
  | (failed) a e t where "called = None" "dw_addr pc = Some a"
      "dq_heap d' = (dq_heap d)[a := (dq_heap d ! a)\<lparr>fo_Error := e, fo_NextRetry := t\<rparr>]"
  using assms
proof cases
  case (begin_drop a)
  then show thesis using process_begin_Inl [OF begin_drop(4)] by (intro same) (auto simp: record_laws)
next
  case (check_drop a)
  then show thesis using process_check_Inl [OF check_drop(4)] by (intro same) (auto simp: record_laws)
next
  case (call a h c t r)
  then show thesis using process_check_Inr [OF call(4)] by (intro called [of a]) (auto simp: record_laws)
next
  case (finished t t0 err a)
  from finished(5) show thesis
  proof (cases rule: process_done_cases)
    case (1 d1)
    then show thesis using finished by (intro same) auto
  qed auto
next
  case F: (failed t t0 err a)
  from F(5) show thesis
  proof (cases rule: process_done_cases)
    case (2 e d1)
    then show thesis using F(1-3) by (intro failed [of a]) auto
  qed auto
next
  case (requeue a t)
  then show thesis using send_op_cases [OF requeue(4)] by (intro same) auto
qed (rule same; simp add: record_laws)+

lemma dw_step_heap_length:
  assumes "dw_step now (pc, d) called (pc', d')"
  shows "length (dq_heap d') = length (dq_heap d)"
  using assms by (cases rule: dw_step_heap) simp_all

lemma dl_step_effect:
  assumes "dl_step s s'"
  obtains (added) "holders s' = add_mset (length (dq_heap (dl_dlq s))) (holders s)"
      "length (dq_heap (dl_dlq s')) = Suc (length (dq_heap (dl_dlq s)))" "dl_lost s' = dl_lost s"
      "dl_cleared s' = dl_cleared s" "counted_as 0 (s\<lparr>dl_dlq := upd_dm (\<lambda>m. m\<lparr>dm_TotalFailed := dm_TotalFailed m + 1,
        dm_CurrentQueue := dm_CurrentQueue m + 1\<rparr>) (dl_dlq s)\<rparr>) s'"
  | (left) a where "holders s = add_mset a (holders s')"
      "length (dq_heap (dl_dlq s')) = length (dq_heap (dl_dlq s))" "dl_lost s' = dl_lost s"
      "dl_cleared s' = dl_cleared s" "counted_as 1 s s'"
  | (lost) "holders s' \<subseteq># holders s" "size (holders s) = size (holders s') + (dl_lost s' - dl_lost s)" "dl_lost s \<le> dl_lost s'"
      "length (dq_heap (dl_dlq s')) = length (dq_heap (dl_dlq s))"
      "dl_cleared s' = dl_cleared s" "counted_as 0 s s'"
  | (cleared) "holders s' = holders s" "dl_cleared s'"
      "length (dq_heap (dl_dlq s')) = length (dq_heap (dl_dlq s))"
  using assms
proof cases
  case (add op d)
  from add_enter_cases [OF add(2)] show thesis
    by (intro added) (auto simp: add(1) holders_def counted_as_def record_laws ac_simps)
next
  case (add_refused op e)
  then show thesis by (intro lost) (auto simp: holders_def counted_as_def)
next
  case (add_send i a t d)
  from send_op_cases [OF add_send(4)] holders_calls [OF add_send(2), of "DcReturned None" d] add_send show thesis
    by (intro lost) (auto simp: counted_as_def)
next
  case (add_panic i a t p)
  then show thesis using holders_calls [OF add_panic(2), of "DcPanicked a" "dl_dlq s"]
    by (intro lost) (auto simp: counted_as_def)
next
  case (add_times_out i a t)
  then show thesis
    using holders_calls [OF add_times_out(2), of "DcReturned (Some (Sentinel (EPool ErrWorkerChannelFull)))"
        "add_timeout a (dl_dlq s)"]
    by (intro left [of a]) (auto simp: counted_as_def record_laws in_channel_def holders_def)
next
  case (health r d)
  from IsHealthy_cases [OF health(2)] have h: "in_channel d \<subseteq># in_channel (dl_dlq s)"
    "dq_heap d = dq_heap (dl_dlq s)" "dq_metrics d = dq_metrics (dl_dlq s)" by auto
  from h(1) have "size (in_channel (dl_dlq s)) = size (in_channel d)
      + (length (queued (dl_dlq s)) - length (queued d))"
    using size_mset_mono [OF h(1)] by (simp add: queued_size)
  then show thesis using h by (intro lost) (auto simp: health(1) holders_def counted_as_def)
next
  case clear
  then show thesis by (intro cleared) (auto simp: close_cases holders_def in_channel_def)
next
  case (register k h)
  then show thesis by (intro lost) (auto simp: close_cases holders_def in_channel_def counted_as_def)
next
  case (worker i called pc d)
  have w: "dw_step (dl_now s) (dl_pcs s ! i, dl_dlq s) called (pc, d)" using worker(3) .
  have same: "holders s' = holders (dw_set i pc d s)" "dl_dlq s' = d" "dl_lost s' = dl_lost s"
    "dl_timeouts s' = dl_timeouts s" "dl_cleared s' = dl_cleared s"
    "length (dq_heap (dl_dlq s')) = length (dq_heap (dl_dlq s))"
    using dw_step_heap_length [OF w] by (simp_all add: worker(1) holders_def)
  note h = holders_pcs [OF worker(2), of pc d]
  from w show thesis
  proof (cases rule: dw_step_effect)
    case stayed
    then have "holders s' = holders s" using h same(1) by (auto simp: ac_simps)
    with stayed(2) show thesis using same by (intro lost) (auto intro: counted_as_counted)
  next
    case (left a)
    then have "holders s = add_mset a (holders s')" using h same(1) by auto
    with left(4) show thesis using same by (intro that(2) [of a]) (auto intro: counted_as_counted)
  qed
next
  case close
  then show thesis by (intro lost) (auto simp: close_cases holders_def in_channel_def counted_as_def)
next
  case (close_channel t d)
  then show thesis using Close_channel_cases [OF close_channel(4)]
    by (intro lost) (auto simp: holders_def counted_as_def)
next
  case (tick n)
  then show thesis by (intro lost) (auto simp: holders_def counted_as_def)
qed

section \<open>Invariants\<close>

text \<open>Every operation is in at most one place.\<close>

definition dl_places :: "'d dl_sys \<Rightarrow> bool" where
  "dl_places s \<longleftrightarrow> (\<forall>a. count (holders s) a \<le> 1) \<and> (\<forall>a\<in>#holders s. a < length (dq_heap (dl_dlq s)))"

lemma dl_places_step:
  assumes "dl_step s s'" and inv: "dl_places s"
  shows "dl_places s'"
  using assms(1)
proof (cases rule: dl_step_effect)
  case added
  then have "count (holders s) (length (dq_heap (dl_dlq s))) = 0"
    using inv by (auto simp: dl_places_def count_eq_zero_iff)
  with added inv show ?thesis by (auto simp: dl_places_def less_Suc_eq)
next
  case (left a)
  then have "count (holders s') b \<le> count (holders s) b" for b by simp
  with left inv show ?thesis unfolding dl_places_def by (metis le_trans union_iff add_mset_add_single)
next
  case lost
  then have "count (holders s') b \<le> count (holders s) b" for b by (simp add: mset_subset_eq_count)
  with lost inv show ?thesis unfolding dl_places_def by (metis le_trans mset_subset_eqD)
next
  case cleared
  with inv show ?thesis by (simp add: dl_places_def)
qed

text \<open>
  The counters: \<open>CurrentQueue\<close> is the number of operations in some place and of lost ones, and every
  operation that failed is counted as succeeded, dropped, timed out or current.
\<close>

definition dl_counts :: "'d dl_sys \<Rightarrow> bool" where
  "dl_counts s \<longleftrightarrow> (\<not> dl_cleared s \<longrightarrow> (\<forall>m. dq_metrics (dl_dlq s) = Some m \<longrightarrow>
     dm_CurrentQueue m = of_nat (size (holders s) + dl_lost s)
     \<and> dm_TotalFailed m - dm_TotalSucceeded m - dm_TotalDropped m - of_nat (dl_timeouts s) = dm_CurrentQueue m))"

lemma counted_as_metrics:
  assumes "counted_as n s s'" and "dq_metrics (dl_dlq s') = Some m'"
  obtains m where "dq_metrics (dl_dlq s) = Some m"
    "dm_CurrentQueue m = dm_CurrentQueue m' + of_nat n"
    "dm_TotalFailed m - dm_TotalSucceeded m - dm_TotalDropped m - of_nat (dl_timeouts s)
       = dm_TotalFailed m' - dm_TotalSucceeded m' - dm_TotalDropped m' - of_nat (dl_timeouts s') + of_nat n"
  using assms unfolding counted_as_def by (cases "dq_metrics (dl_dlq s)") auto

lemma dl_counts_step:
  assumes "dl_step s s'" and inv: "dl_counts s"
  shows "dl_counts s'"
proof (cases "dl_cleared s' \<or> dq_metrics (dl_dlq s') = None")
  case True
  then show ?thesis by (auto simp: dl_counts_def)
next
  case False
  then obtain m' where m': "dq_metrics (dl_dlq s') = Some m'" and nc: "\<not> dl_cleared s'" by auto
  let ?out = "\<lambda>m t. dm_TotalFailed m - dm_TotalSucceeded m - dm_TotalDropped m - of_nat t :: counter"
  have goal: ?thesis if "dm_CurrentQueue m' = of_nat (size (holders s') + dl_lost s')"
      "?out m' (dl_timeouts s') = dm_CurrentQueue m'"
    using that m' by (simp add: dl_counts_def)
  from assms(1) show ?thesis
  proof (cases rule: dl_step_effect)
    case added
    obtain m1 where r: "dq_metrics (dl_dlq (s\<lparr>dl_dlq := upd_dm (\<lambda>m. m\<lparr>dm_TotalFailed := dm_TotalFailed m + 1,
        dm_CurrentQueue := dm_CurrentQueue m + 1\<rparr>) (dl_dlq s)\<rparr>)) = Some m1"
      "dm_CurrentQueue m1 = dm_CurrentQueue m' + of_nat 0"
      "?out m1 (dl_timeouts (s\<lparr>dl_dlq := upd_dm (\<lambda>m. m\<lparr>dm_TotalFailed := dm_TotalFailed m + 1,
        dm_CurrentQueue := dm_CurrentQueue m + 1\<rparr>) (dl_dlq s)\<rparr>)) = ?out m' (dl_timeouts s') + of_nat 0"
      by (rule counted_as_metrics [OF added(5) m'])
    then have m1: "map_option (\<lambda>m. m\<lparr>dm_TotalFailed := dm_TotalFailed m + 1, dm_CurrentQueue := dm_CurrentQueue m + 1\<rparr>)
         (dq_metrics (dl_dlq s)) = Some m1"
      "dm_CurrentQueue m1 = dm_CurrentQueue m'" "?out m1 (dl_timeouts s) = ?out m' (dl_timeouts s')"
      by (simp_all add: record_laws del: map_option_eq_Some)
    from m1(1) obtain m0 where m0: "dq_metrics (dl_dlq s) = Some m0"
      "m1 = m0\<lparr>dm_TotalFailed := dm_TotalFailed m0 + 1, dm_CurrentQueue := dm_CurrentQueue m0 + 1\<rparr>" by auto
    have i: "dm_CurrentQueue m0 = of_nat (size (holders s) + dl_lost s)" "?out m0 (dl_timeouts s) = dm_CurrentQueue m0"
      using inv m0(1) added(4) nc by (simp_all add: dl_counts_def)
    have "dm_CurrentQueue m' = dm_CurrentQueue m0 + 1" using m1(2) m0(2) by simp
    moreover have "?out m1 (dl_timeouts s) = ?out m0 (dl_timeouts s) + 1" using m0(2) by (simp add: diff_diff_eq)
    ultimately show ?thesis using i m1(3) added(1,3) by (intro goal) simp_all
  next
    case (left a)
    from counted_as_metrics [OF left(5) m'] obtain m0 where m0:
      "dq_metrics (dl_dlq s) = Some m0" "dm_CurrentQueue m0 = dm_CurrentQueue m' + 1"
      "?out m0 (dl_timeouts s) = ?out m' (dl_timeouts s') + 1" by auto
    then show ?thesis using inv left nc by (intro goal) (auto simp: dl_counts_def)
  next
    case lost
    from counted_as_metrics [OF lost(6) m'] obtain m0 where m0:
      "dq_metrics (dl_dlq s) = Some m0" "dm_CurrentQueue m0 = dm_CurrentQueue m'"
      "?out m0 (dl_timeouts s) = ?out m' (dl_timeouts s')" by auto
    have "size (holders s) + dl_lost s = size (holders s') + dl_lost s'" using lost(2,3) by simp
    with m0 show ?thesis using inv lost nc by (intro goal) (auto simp: dl_counts_def simp del: of_nat_add)
  next
    case cleared
    with nc show ?thesis by simp
  qed
qed

text \<open>No retry is early: a worker past the wait has waited for its operation.\<close>

definition due_by :: "instant \<Rightarrow> 'd FailedOperation \<Rightarrow> bool" where
  "due_by now op \<longleftrightarrow> (\<forall>t. fo_NextRetry op = Some t \<longrightarrow> t \<le> now)"

fun pc_ok :: "instant \<Rightarrow> 'd FailedOperation list \<Rightarrow> dl_pc \<Rightarrow> bool" where
  "pc_ok now heap (DwWaiting a due) = (fo_NextRetry (heap ! a) = Some due)"
| "pc_ok now heap (DwCheck a) = due_by now (heap ! a)"
| "pc_ok now heap (DwRetrying a t0 _ _) = due_by t0 (heap ! a)"
| "pc_ok now heap _ = True"

definition dl_due :: "'d dl_sys \<Rightarrow> bool" where
  "dl_due s \<longleftrightarrow> (\<forall>pc\<in>set (dl_pcs s). pc_ok (dl_now s) (dq_heap (dl_dlq s)) pc)"

text \<open>Every call of a handler is one of the retries the operation allows.\<close>

definition dl_retries :: "'d dl_sys \<Rightarrow> bool" where
  "dl_retries s \<longleftrightarrow> length (dl_given s) = length (dq_heap (dl_dlq s)) \<and> length (dl_tries s) = length (dq_heap (dl_dlq s))
     \<and> (\<forall>a<length (dq_heap (dl_dlq s)).
          fo_RetryCount (dq_heap (dl_dlq s) ! a) = fo_RetryCount (dl_given s ! a) + int (dl_tries s ! a)
          \<and> (dl_tries s ! a = 0 \<or> fo_RetryCount (dq_heap (dl_dlq s) ! a) \<le> fo_MaxRetries (dq_heap (dl_dlq s) ! a)))"

text \<open>The workers other than \<open>i\<close> do not hold the operation of worker \<open>i\<close>.\<close>

lemma sole_holder:
  assumes "dl_places s" "i < length (dl_pcs s)" "dw_addr (dl_pcs s ! i) = Some a"
    "j < length (dl_pcs s)" "j \<noteq> i"
  shows "dw_addr (dl_pcs s ! j) \<noteq> Some a"
proof
  assume "dw_addr (dl_pcs s ! j) = Some a"
  then have "2 \<le> count (held dw_addr (dl_pcs s)) a" using assms by (intro held_twice [of i _ j _ _ DwIdle]) auto
  moreover have "count (held dw_addr (dl_pcs s)) a \<le> count (holders s) a" by (simp add: holders_def)
  ultimately show False using assms(1) unfolding dl_places_def by (metis le_trans numeral_le_one_iff semiring_norm(69))
qed

lemma holder_lt:
  assumes "dl_places s" "i < length (dl_pcs s)" "dw_addr (dl_pcs s ! i) = Some a"
  shows "a < length (dq_heap (dl_dlq s))"
proof -
  have "a \<in># holders s" using held_nth [OF assms(2), of dw_addr a] assms(3) by (simp add: holders_def)
  with assms(1) show ?thesis by (simp add: dl_places_def)
qed

lemma pc_ok_later: "pc_ok now heap pc \<Longrightarrow> now \<le> now' \<Longrightarrow> pc_ok now' heap pc"
  by (cases "(now, heap, pc)" rule: pc_ok.cases) (auto simp: due_by_def)

lemma pc_ok_heap:
  "(\<And>a. dw_addr pc = Some a \<Longrightarrow> fo_NextRetry (heap' ! a) = fo_NextRetry (heap ! a))
     \<Longrightarrow> pc_ok now heap' pc = pc_ok now heap pc"
  by (cases pc) (auto simp: due_by_def)

lemma dl_due_update:
  assumes "dl_due s" "i < length (dl_pcs s)" "pc_ok (dl_now s) (dq_heap d) pc"
    "\<And>a j. j < length (dl_pcs s) \<Longrightarrow> j \<noteq> i \<Longrightarrow> dw_addr (dl_pcs s ! j) = Some a
       \<Longrightarrow> fo_NextRetry (dq_heap d ! a) = fo_NextRetry (dq_heap (dl_dlq s) ! a)"
  shows "dl_due (dw_set i pc d s)"
proof -
  have "pc_ok (dl_now s) (dq_heap d) ((dl_pcs s)[i := pc] ! j)" if "j < length (dl_pcs s)" for j
  proof (cases "j = i")
    case True
    then show ?thesis using assms(2,3) by simp
  next
    case False
    have "pc_ok (dl_now s) (dq_heap (dl_dlq s)) (dl_pcs s ! j)" using assms(1) that by (simp add: dl_due_def)
    then show ?thesis using False that assms(4) [OF that False] pc_ok_heap [of "dl_pcs s ! j" "dq_heap d" "dq_heap (dl_dlq s)"] by simp
  qed
  then show ?thesis by (auto simp: dl_due_def all_set_conv_all_nth)
qed

lemma dl_due_same: "dl_due s \<Longrightarrow> dq_heap d = dq_heap (dl_dlq s) \<Longrightarrow> dl_due (s\<lparr>dl_dlq := d\<rparr>)"
  by (simp add: dl_due_def)

lemma dw_step_due:
  assumes "dw_step now (pc, d) called (pc', d')" and "pc_ok now (dq_heap d) pc"
    and "\<And>a. dw_addr pc = Some a \<Longrightarrow> a < length (dq_heap d)"
  shows "pc_ok now (dq_heap d') pc'"
  using assms(1)
proof cases
  case (begin_wait a due)
  then show ?thesis
    by (auto simp: due_by_def dest: process_begin_Inr(1) [OF begin_wait(5)] process_begin_Inr(2) [OF begin_wait(5)])
next
  case (call a h c t r)
  then have "fo_NextRetry (dq_heap d' ! a) = fo_NextRetry (dq_heap d ! a)"
    using process_check_Inr [OF call(4)] assms(3) [of a] by (auto simp: record_laws)
  then show ?thesis using call assms(2) by (simp add: due_by_def)
qed (use assms(2) in \<open>auto simp: due_by_def split: option.split\<close>)

text \<open>The operations of the other workers keep the date of their next retry.\<close>

lemma dw_step_others:
  assumes w: "dw_step (dl_now s) (dl_pcs s ! i, dl_dlq s) called (pc, d)" and pl: "dl_places s"
    and i: "i < length (dl_pcs s)" and j: "j < length (dl_pcs s)" "j \<noteq> i" "dw_addr (dl_pcs s ! j) = Some b"
  shows "fo_NextRetry (dq_heap d ! b) = fo_NextRetry (dq_heap (dl_dlq s) ! b)"
  using w
proof (cases rule: dw_step_heap)
  case same
  then show ?thesis by simp
next
  case (called a)
  then show ?thesis using sole_holder [OF pl i, of a j] j by auto
next
  case (failed a e t)
  then show ?thesis using sole_holder [OF pl i, of a j] j by auto
qed

lemma dl_due_step:
  assumes "dl_step s s'" and inv: "dl_due s" and pl: "dl_places s"
  shows "dl_due s'"
  using assms(1)
proof cases
  case (add op d)
  have "pc_ok (dl_now s) (dq_heap d) pc" if pc: "pc \<in> set (dl_pcs s)" for pc
  proof -
    obtain i where i: "i < length (dl_pcs s)" "dl_pcs s ! i = pc" using pc by (metis in_set_conv_nth)
    have "fo_NextRetry (dq_heap d ! a) = fo_NextRetry (dq_heap (dl_dlq s) ! a)" if "dw_addr pc = Some a" for a
      using holder_lt [OF pl i(1), of a] that i(2) add_enter_cases [OF add(2)] by (simp add: nth_append)
    then show ?thesis using pc inv pc_ok_heap [of pc "dq_heap d" "dq_heap (dl_dlq s)" "dl_now s"] by (simp add: dl_due_def)
  qed
  then show ?thesis by (simp add: add(1) dl_due_def)
next
  case (worker i called pc d)
  have "pc_ok (dl_now s) (dq_heap (dl_dlq s)) (dl_pcs s ! i)" using inv worker(2) by (simp add: dl_due_def)
  from dw_step_due [OF worker(3) this] holder_lt [OF pl worker(2)]
  have "pc_ok (dl_now s) (dq_heap d) pc" by blast
  then have "dl_due (dw_set i pc d s)"
    using dw_step_others [OF worker(3) pl worker(2)] by (intro dl_due_update [OF inv worker(2)]) auto
  then show ?thesis by (simp add: worker(1) dl_due_def)
next
  case (add_send i a t d)
  then show ?thesis using inv send_op_cases [OF add_send(4)] by (simp add: dl_due_def)
next
  case (health r d)
  then show ?thesis using inv IsHealthy_cases [OF health(2)] by (simp add: dl_due_def)
next
  case (close_channel t d)
  then show ?thesis using inv Close_channel_cases [OF close_channel(4)] by (simp add: dl_due_def)
next
  case (tick n)
  then show ?thesis using inv by (auto simp: dl_due_def intro: pc_ok_later)
qed (use inv in \<open>simp_all add: dl_due_def record_laws close_cases\<close>)

text \<open>What a step does to the operations themselves.\<close>

lemma dl_step_heap:
  assumes "dl_step s s'" and pl: "dl_places s"
  obtains (same) "dq_heap (dl_dlq s') = dq_heap (dl_dlq s)" "dl_given s' = dl_given s" "dl_tries s' = dl_tries s"
  | (added) op where "dq_heap (dl_dlq s') = dq_heap (dl_dlq s) @ [setOperationDefaults (dl_now s) (dl_dlq s) op]"
      "dl_given s' = dl_given s @ [op]" "dl_tries s' = dl_tries s @ [0]"
  | (called) a where "a < length (dq_heap (dl_dlq s))" "dl_given s' = dl_given s"
      "dl_tries s' = (dl_tries s)[a := Suc (dl_tries s ! a)]"
      "dq_heap (dl_dlq s') = (dq_heap (dl_dlq s))[a := (dq_heap (dl_dlq s) ! a)
         \<lparr>fo_RetryCount := fo_RetryCount (dq_heap (dl_dlq s) ! a) + 1, fo_LastRetry := Some (dl_now s)\<rparr>]"
      "fo_RetryCount (dq_heap (dl_dlq s) ! a) < fo_MaxRetries (dq_heap (dl_dlq s) ! a)"
  | (failed) a e t where "a < length (dq_heap (dl_dlq s))" "dl_given s' = dl_given s" "dl_tries s' = dl_tries s"
      "dq_heap (dl_dlq s') = (dq_heap (dl_dlq s))[a := (dq_heap (dl_dlq s) ! a)
         \<lparr>fo_Error := e, fo_NextRetry := t\<rparr>]"
  using assms(1)
proof cases
  case (add op d)
  then show thesis using add_enter_cases [OF add(2)] by (intro added [of op]) auto
next
  case (add_send i a t d)
  then show thesis using send_op_cases [OF add_send(4)] by (intro same) auto
next
  case (health r d)
  then show thesis using IsHealthy_cases [OF health(2)] by (intro same) auto
next
  case (worker i called pc d)
  from worker(3) show thesis
  proof (cases rule: dw_step_heap)
    case same
    then show thesis using worker(1) by (intro that(1)) (auto simp: tried_def)
  next
    case (called a)
    then show thesis using worker(1) holder_lt [OF pl worker(2), of a] by (intro that(3) [of a]) (auto simp: tried_def)
  next
    case (failed a e t)
    then show thesis using worker(1) holder_lt [OF pl worker(2), of a] by (intro that(4) [of a]) (auto simp: tried_def)
  qed
next
  case (close_channel t d)
  then show thesis using Close_channel_cases [OF close_channel(4)] by (intro same) auto
qed (rule same; simp add: record_laws close_cases)+

lemma dl_retries_step:
  assumes "dl_step s s'" and inv: "dl_retries s" and pl: "dl_places s"
  shows "dl_retries s'"
  using assms(1) pl
proof (cases rule: dl_step_heap)
  case same
  show ?thesis using inv unfolding dl_retries_def same .
next
  case (added op)
  have "fo_RetryCount (setOperationDefaults (dl_now s) (dl_dlq s) op) = fo_RetryCount op"
    by (simp add: setOperationDefaults_def Let_def)
  then show ?thesis using inv added by (auto simp: dl_retries_def nth_append less_Suc_eq)
next
  case (called a)
  then show ?thesis using inv by (auto simp: dl_retries_def nth_list_update)
next
  case (failed a e t)
  then show ?thesis using inv by (auto simp: dl_retries_def nth_list_update)
qed

definition dl_inv :: "'d dl_sys \<Rightarrow> bool" where
  "dl_inv s \<longleftrightarrow> dl_places s \<and> dl_counts s \<and> dl_due s \<and> dl_retries s"

lemma dl_reach_inv: "dl_reach s \<Longrightarrow> dl_inv s"
proof (induction rule: dl_reach.induct)
  case (init config d now)
  then show ?case
    by (auto simp: NewDeadLetterQueue_def Let_def dl_inv_def dl_start_def dl_places_def dl_counts_def dl_due_def
        dl_retries_def holders_def in_channel_def make_chan_def zero_Metrics_def split: option.splits if_splits)
next
  case (step s s')
  then show ?case
    unfolding dl_inv_def using dl_places_step dl_counts_step dl_due_step dl_retries_step by blast
qed

end
