(* ===== verification/DeadLetterProps.thy ===== *)
theory DeadLetterProps
  imports DeadLetterSystem
begin

text \<open>
  The properties of the dead letter queue: how often and when an operation is retried, what one
  worker makes of one operation, what the counters say, and how an operation is lost.
\<close>

section \<open>A queue with one operation\<close>

definition plain_op :: "nat FailedOperation" where
  "plain_op =
     \<lparr>fo_ID = ''op'', fo_Operation = ''write'', fo_Key = ''k'', fo_Data = 0, fo_Error = Inl [],
      fo_RetryCount = 0, fo_MaxRetries = 2, fo_CreatedAt = Some 0, fo_LastRetry = None,
      fo_NextRetry = Some 0, fo_Metadata = Some [], fo_HandlerType = ''h''\<rparr>"


definition plain_dlq :: "bool \<Rightarrow> nat DeadLetterQueue" where
  "plain_dlq metrics =
     \<lparr>dq_maxRetries = 3, dq_retryDelay = 300 * Second, dq_workerCount = 2, dq_queueSize = 1000, dq_queue = [],
      dq_handlers = Map.empty, dq_closed = False, dq_ctx = Background, dq_workerChan = make_chan 1000,
      dq_metrics = (if metrics then Some zero_Metrics else None), dq_heap = []\<rparr>"

lemma plain_new: "NewDeadLetterQueue (Some (DefaultConfigDLQ\<lparr>dc_EnableMetrics := b\<rparr>)) = Inr (plain_dlq b)"
  by (simp add: NewDeadLetterQueue_def validateDLQConfig_def DefaultConfigDLQ_def applyDLQDefaults_def
      dlq_limits plain_dlq_def Let_def)

text \<open>The running queue after the operation was added and sent to the workers.\<close>

definition added_dlq :: "nat DeadLetterQueue" where
  "added_dlq = (plain_dlq True)\<lparr>dq_heap := [plain_op], dq_queue := [(''op'', 0)],
     dq_metrics := Some (zero_Metrics\<lparr>dm_TotalFailed := 1, dm_CurrentQueue := 1\<rparr>)\<rparr>"

definition sent_dlq :: "nat DeadLetterQueue" where
  "sent_dlq = added_dlq\<lparr>dq_workerChan := (make_chan 1000)\<lparr>ch_buf := [Some 0]\<rparr>\<rparr>"

definition sent_sys :: "nat dl_sys" where
  "sent_sys = (dl_start 0 (plain_dlq True))\<lparr>dl_given := [plain_op], dl_tries := [0], dl_dlq := sent_dlq,
     dl_calls := [DcReturned None]\<rparr>"

lemma sent_reach: "dl_reach sent_sys"
proof -
  let ?s0 = "dl_start 0 (plain_dlq True)"
  let ?s1 = "?s0\<lparr>dl_dlq := added_dlq, dl_given := [plain_op], dl_tries := [0], dl_calls := [DcSending 0 send_patience]\<rparr>"
  have "add_enter 0 (Some 0) (new_op plain_op (plain_dlq True)) = Inr added_dlq"
    by (simp add: add_enter_def new_op_def plain_dlq_def added_dlq_def plain_op_def validateFailedOperation_def
        setOperationDefaults_def Let_def set_op_def upd_dm_def zero_Metrics_def)
  then have "dl_step ?s0 ?s1"
    using dl_step.add [of ?s0 plain_op added_dlq] by (simp add: dl_start_def plain_dlq_def)
  moreover have "send_op 0 added_dlq = Some (Returns sent_dlq)"
    by (simp add: send_op_def chan_send_def added_dlq_def sent_dlq_def plain_dlq_def make_chan_def)
  then have "dl_step ?s1 sent_sys"
    using dl_step.add_send [of 0 ?s1 0 send_patience sent_dlq] by (simp add: sent_sys_def)
  ultimately show ?thesis
    using dl_reach.intros(1) [OF plain_new, of 0 True] dl_reach.step by blast
qed

section \<open>Counting\<close>

text \<open>Property C13: the counters account for every operation. Until ClearQueue is called, an operation is
  in at most one place (the channel, a worker, or a call that is adding it), CurrentQueue is the
  number of operations in some place plus those a health check has lost, and every operation that
  was added is counted exactly once as succeeded, dropped, timed out or current.\<close>

theorem dlq_accounting:
  assumes "dl_reach s" and "\<not> dl_cleared s" and "dq_metrics (dl_dlq s) = Some m"
  shows "(\<forall>a. count (holders s) a \<le> 1)
    \<and> dm_CurrentQueue m = of_nat (size (holders s) + dl_lost s)
    \<and> dm_TotalFailed m = dm_TotalSucceeded m + dm_TotalDropped m + of_nat (dl_timeouts s) + dm_CurrentQueue m"
proof -
  from dl_reach_inv [OF assms(1)] have p: "dl_places s" and c: "dl_counts s" by (auto simp: dl_inv_def)
  have "dm_CurrentQueue m = of_nat (size (holders s) + dl_lost s)"
    and x: "dm_TotalFailed m - dm_TotalSucceeded m - dm_TotalDropped m - of_nat (dl_timeouts s) = dm_CurrentQueue m"
    using c assms(2,3) by (simp_all add: dl_counts_def)
  moreover have "dm_TotalFailed m = dm_TotalSucceeded m + dm_TotalDropped m + of_nat (dl_timeouts s) + dm_CurrentQueue m"
    unfolding x [symmetric] by simp
  ultimately show ?thesis using p by (auto simp: dl_places_def)
qed

theorem dlq_accounting_witness:
  "count (holders sent_sys) 0 \<le> 1 \<and> (1::counter) = of_nat (size (holders sent_sys) + dl_lost sent_sys)"
  using dlq_accounting [OF sent_reach, of "zero_Metrics\<lparr>dm_TotalFailed := 1, dm_CurrentQueue := 1\<rparr>"]
  by (simp add: sent_sys_def sent_dlq_def added_dlq_def dl_start_def del: of_nat_add)

section \<open>Retrying\<close>

text \<open>Property C18: retries are bounded and never early. In every reachable state the handler has been
  called for an operation at most as often as the retries it had left when it was added, and an
  operation whose handler is running was due when the call began.\<close>

theorem dlq_retry_discipline:
  assumes "dl_reach s" and "a < length (dq_heap (dl_dlq s))"
  shows "int (dl_tries s ! a) \<le> max 0 (fo_MaxRetries (dq_heap (dl_dlq s) ! a) - fo_RetryCount (dl_given s ! a))
    \<and> (\<forall>t0 t r. DwRetrying a t0 t r \<in> set (dl_pcs s) \<longrightarrow> due_by t0 (dq_heap (dl_dlq s) ! a))"
proof -
  from dl_reach_inv [OF assms(1)] have d: "dl_due s" and r: "dl_retries s" by (auto simp: dl_inv_def)
  have "fo_RetryCount (dq_heap (dl_dlq s) ! a) = fo_RetryCount (dl_given s ! a) + int (dl_tries s ! a)"
    "dl_tries s ! a = 0 \<or> fo_RetryCount (dq_heap (dl_dlq s) ! a) \<le> fo_MaxRetries (dq_heap (dl_dlq s) ! a)"
    using r assms(2) by (auto simp: dl_retries_def)
  then have "int (dl_tries s ! a) \<le> max 0 (fo_MaxRetries (dq_heap (dl_dlq s) ! a) - fo_RetryCount (dl_given s ! a))"
    by linarith
  with d show ?thesis unfolding dl_due_def by (metis pc_ok.simps(3))
qed

theorem dlq_retry_discipline_witness:
  "int (dl_tries sent_sys ! 0) \<le> 2"
  using dlq_retry_discipline [OF sent_reach, of 0]
  by (simp add: sent_sys_def sent_dlq_def added_dlq_def plain_op_def)













section \<open>Losing operations\<close>

lemma gone_for_good:
  assumes "dl_step\<^sup>*\<^sup>* s s'" and "a \<notin># holders s" and "a < length (dq_heap (dl_dlq s))"
  shows "a \<notin># holders s' \<and> a < length (dq_heap (dl_dlq s'))"
  using assms
proof (induction rule: rtranclp_induct)
  case (step s1 s2)
  then have a: "a \<notin># holders s1" "a < length (dq_heap (dl_dlq s1))" by auto
  from step(2) show ?case
  proof (cases rule: dl_step_effect)
    case lost
    then show ?thesis using a by (metis mset_subset_eqD)
  qed (use a in auto)
qed simp

text \<open>A health check can lose an operation. IsHealthy sends nil and then takes the head
  of the channel, which is a waiting operation when there is one. That operation is in no place
  afterwards, no worker ever gets it again, and the entry in the queue map and CurrentQueue keep
  counting it.\<close>

theorem IsHealthy_loses_operation:
  assumes "dl_reach s" and "\<not> dq_closed (dl_dlq s)"
    and "ch_buf (dq_workerChan (dl_dlq s)) = Some a # rest" and "Suc (length rest) < ch_cap (dq_workerChan (dl_dlq s))"
    and "\<not> ch_closed (dq_workerChan (dl_dlq s))"
  shows "\<exists>s1. dl_step s s1 \<and> dl_dlq s1 = snd (DeadLetterQueue_IsHealthy (dl_dlq s))
    \<and> fst (DeadLetterQueue_IsHealthy (dl_dlq s)) = Returns True
    \<and> dl_lost s1 = Suc (dl_lost s) \<and> dq_queue (dl_dlq s1) = dq_queue (dl_dlq s)
    \<and> dq_metrics (dl_dlq s1) = dq_metrics (dl_dlq s)
    \<and> (\<forall>s2. dl_step\<^sup>*\<^sup>* s1 s2 \<longrightarrow> a \<notin># holders s2)"
proof -
  let ?d = "(dl_dlq s)\<lparr>dq_workerChan := (dq_workerChan (dl_dlq s))\<lparr>ch_buf := rest @ [None]\<rparr>\<rparr>"
  let ?s1 = "s\<lparr>dl_dlq := ?d, dl_lost := dl_lost s + (length (queued (dl_dlq s)) - length (queued ?d))\<rparr>"
  have h: "DeadLetterQueue_IsHealthy (dl_dlq s) = (Returns True, ?d)"
    using assms(2-5) by (simp add: DeadLetterQueue_IsHealthy_def chan_send_def chan_recv_def)
  then have step: "dl_step s ?s1" by (rule dl_step.health)
  have l: "length (queued (dl_dlq s)) = Suc (length (queued ?d))"
    using assms(3) by (simp add: queued_size in_channel_def)
  have hs: "holders s = add_mset a (holders ?s1)" using assms(3) by (simp add: holders_def in_channel_def)
  have "dl_places s" using dl_reach_inv [OF assms(1)] by (simp add: dl_inv_def)
  then have "a < length (dq_heap (dl_dlq s))" and once: "count (holders s) a \<le> 1"
    using hs unfolding dl_places_def by (metis union_single_eq_member, blast)
  moreover have "a \<notin># holders ?s1" using once unfolding hs not_in_iff by simp
  ultimately have "a \<notin># holders ?s1" "a < length (dq_heap (dl_dlq ?s1))" by simp_all
  then have "\<forall>s2. dl_step\<^sup>*\<^sup>* ?s1 s2 \<longrightarrow> a \<notin># holders s2" using gone_for_good by blast
  with step h l show ?thesis by (intro exI [of _ ?s1]) simp
qed

theorem IsHealthy_loses_operation_witness:
  "\<exists>s1. dl_step sent_sys s1 \<and> dl_lost s1 = 1 \<and> dq_queue (dl_dlq s1) = [(''op'', 0)]
    \<and> (\<forall>s2. dl_step\<^sup>*\<^sup>* s1 s2 \<longrightarrow> 0 \<notin># holders s2)"
  using IsHealthy_loses_operation [OF sent_reach, of 0 "[]"]
  by (auto simp: sent_sys_def sent_dlq_def added_dlq_def plain_dlq_def make_chan_def dl_start_def)

text \<open>Without metrics GetHealthStatus panics, and with metrics it never does unless the
  channel was closed under it.\<close>

theorem GetHealthStatus_panics:
  assumes "\<not> ch_closed (dq_workerChan d) \<or> dq_closed d"
  shows "(\<exists>p. fst (DeadLetterQueue_GetHealthStatus d) = Panics p) \<longleftrightarrow> dq_metrics d = None"
proof -
  have "\<exists>b. fst (DeadLetterQueue_IsHealthy d) = Returns b"
    using assms by (auto simp: DeadLetterQueue_IsHealthy_def chan_send_def)
  then obtain b where "fst (DeadLetterQueue_IsHealthy d) = Returns b" ..
  then show ?thesis
    by (cases "DeadLetterQueue_IsHealthy d")
      (auto simp: DeadLetterQueue_GetHealthStatus_def DeadLetterQueue_GetMetrics_def Let_def split: option.split)
qed

theorem GetHealthStatus_panics_witness:
  "\<exists>p. fst (DeadLetterQueue_GetHealthStatus (plain_dlq False)) = Panics p"
  using GetHealthStatus_panics [of "plain_dlq False"] by (simp add: plain_dlq_def make_chan_def)

end
