(* ===== verification/Redlock.thy ===== *)
theory Redlock
  imports GoFloat GoContext Lifecycle
begin

text \<open>
  \<open>src/redlock.go\<close>: the distributed lock. The servers are reached through \<open>LockClient\<close>s, which are
  the caller's code: functions from the time and the state \<open>'w\<close> of everything outside the program
  to a result, a later time and a new state. A client that panics is not modelled; nothing in the
  file recovers.

  The two Lua scripts are kept as syntax, since what they do is decided by the server.
\<close>

section \<open>Clients\<close>

datatype lua_exp = LuaKey nat | LuaArg nat | LuaNum int

datatype lua_stmt = RedisCall string "lua_exp list" | LuaValue lua_exp

text \<open>\<open>if s == e then return s1 else return s2 end\<close>\<close>

datatype script = IfEqual lua_stmt lua_exp lua_stmt lua_stmt

datatype arg = ArgString string | ArgInt int

text \<open>
  A value of type \<open>interface{}\<close>: nil, an \<open>int\<close>, an \<open>int64\<close> or something else. Go's \<open>==\<close> compares the
  types first: \<open>result == 1\<close> holds for the \<open>int\<close> 1 only.
\<close>

datatype reply = NilReply | IntReply int | Int64Reply int | OtherReply

type_synonym 'w net = "instant \<times> 'w"

record 'w LockClient =
  lc_Set :: "ctx \<Rightarrow> string \<Rightarrow> string \<Rightarrow> duration \<Rightarrow> 'w net \<Rightarrow> goerr option \<times> 'w net"
  lc_Del :: "ctx \<Rightarrow> string \<Rightarrow> 'w net \<Rightarrow> goerr option \<times> 'w net"
  lc_Get :: "ctx \<Rightarrow> string \<Rightarrow> 'w net \<Rightarrow> (goerr + string) \<times> 'w net"
  lc_Eval :: "ctx \<Rightarrow> script \<Rightarrow> string list \<Rightarrow> arg list \<Rightarrow> 'w net \<Rightarrow> (goerr + reply) \<times> 'w net"

section \<open>Configuration\<close>

definition MaxTTLLimitRedlock :: duration where "MaxTTLLimitRedlock = 24 * Hour"
definition MinTTLLimitRedlock :: duration where "MinTTLLimitRedlock = 1 * Millisecond"
definition MaxTimeoutLimitRedlock :: duration where "MaxTimeoutLimitRedlock = 60 * Second"
definition MinTimeoutLimitRedlock :: duration where "MinTimeoutLimitRedlock = 1 * Millisecond"
definition MaxRetryDelayLimitRedlock :: duration where "MaxRetryDelayLimitRedlock = 10 * Second"
definition MinRetryDelayLimitRedlock :: duration where "MinRetryDelayLimitRedlock = 1 * Millisecond"
definition MaxRetriesLimitRedlock :: int where "MaxRetriesLimitRedlock = 100"
definition MinRetriesLimitRedlock :: int where "MinRetriesLimitRedlock = 0"
definition MaxDriftFactorLimitRedlock :: float64 where "MaxDriftFactorLimitRedlock = fl (1 / 10)"
definition MinDriftFactorLimitRedlock :: float64 where "MinDriftFactorLimitRedlock = fl (1 / 1000)"
definition DefaultRetryDelayRedlock :: duration where "DefaultRetryDelayRedlock = 100 * Millisecond"
definition DefaultMaxRetriesRedlock :: int where "DefaultMaxRetriesRedlock = 3"
definition DefaultDriftFactorRedlock :: float64 where "DefaultDriftFactorRedlock = fl (1 / 100)"
definition MaxResourceNameLength :: int where "MaxResourceNameLength = 256"
definition MinResourceNameLength :: int where "MinResourceNameLength = 1"

lemmas redlock_limits = MaxTTLLimitRedlock_def MinTTLLimitRedlock_def MaxTimeoutLimitRedlock_def
  MinTimeoutLimitRedlock_def MaxRetryDelayLimitRedlock_def MinRetryDelayLimitRedlock_def
  MaxRetriesLimitRedlock_def MinRetriesLimitRedlock_def DefaultRetryDelayRedlock_def
  DefaultMaxRetriesRedlock_def MaxResourceNameLength_def MinResourceNameLength_def

record 'w Config =
  cf_Clients :: "'w LockClient option list"
  cf_Quorum :: int
  cf_RetryDelay :: duration
  cf_MaxRetries :: int
  cf_DriftFactor :: float64
  cf_EnableMetrics :: bool

definition DefaultConfig :: "'w LockClient option list \<Rightarrow> 'w Config" where
  "DefaultConfig clients =
     \<lparr>cf_Clients = clients, cf_Quorum = 0, cf_RetryDelay = DefaultRetryDelayRedlock,
      cf_MaxRetries = DefaultMaxRetriesRedlock, cf_DriftFactor = DefaultDriftFactorRedlock,
      cf_EnableMetrics = True\<rparr>"

definition ConservativeConfig :: "'w LockClient option list \<Rightarrow> 'w Config" where
  "ConservativeConfig clients =
     \<lparr>cf_Clients = clients, cf_Quorum = 0, cf_RetryDelay = 500 * Millisecond, cf_MaxRetries = 5,
      cf_DriftFactor = fl (5 / 1000), cf_EnableMetrics = True\<rparr>"

definition AggressiveConfig :: "'w LockClient option list \<Rightarrow> 'w Config" where
  "AggressiveConfig clients =
     \<lparr>cf_Clients = clients, cf_Quorum = 0, cf_RetryDelay = 50 * Millisecond, cf_MaxRetries = 10,
      cf_DriftFactor = fl (2 / 100), cf_EnableMetrics = True\<rparr>"

definition EnterpriseConfig :: "'w LockClient option list \<Rightarrow> 'w Config" where
  "EnterpriseConfig clients =
     \<lparr>cf_Clients = clients, cf_Quorum = 0, cf_RetryDelay = 200 * Millisecond, cf_MaxRetries = 15,
      cf_DriftFactor = fl (8 / 1000), cf_EnableMetrics = True\<rparr>"

definition validateRedlockConfig :: "'w Config option \<Rightarrow> goerr option" where
  "validateRedlockConfig config =
     (case config of
        None \<Rightarrow> Some (ErrText ''configuration cannot be nil'')
      | Some c \<Rightarrow>
          if cf_Clients c = [] then Some (ErrText ''at least one client is required'')
          else if list_ex (\<lambda>cl. case cl of None \<Rightarrow> True | Some _ \<Rightarrow> False) (cf_Clients c)
          then Some (ErrText ''client at index %d cannot be nil'')
          else if cf_Quorum c < 0 then Some (wrapping (Sentinel (ERedlockOp ErrRedlockInvalidQuorum)))
          else if cf_Quorum c > int (length (cf_Clients c))
          then Some (wrapping (Sentinel (ERedlockOp ErrRedlockInvalidQuorum)))
          else if cf_RetryDelay c < MinRetryDelayLimitRedlock \<or> cf_RetryDelay c > MaxRetryDelayLimitRedlock
          then Some (ErrText ''retry delay must be between %v and %v, got %v'')
          else if cf_MaxRetries c < MinRetriesLimitRedlock \<or> cf_MaxRetries c > MaxRetriesLimitRedlock
          then Some (ErrText ''max retries must be between %d and %d, got %d'')
          else if f_lt (cf_DriftFactor c) MinDriftFactorLimitRedlock
                 \<or> f_gt (cf_DriftFactor c) MaxDriftFactorLimitRedlock
          then Some (ErrText ''drift factor must be between %f and %f, got %f'')
          else None)"

definition applyRedlockDefaults :: "'w Config \<Rightarrow> 'w Config" where
  "applyRedlockDefaults c0 =
     (let c1 = (if cf_RetryDelay c0 \<le> 0 then c0\<lparr>cf_RetryDelay := DefaultRetryDelayRedlock\<rparr> else c0);
          c2 = (if cf_MaxRetries c1 \<le> 0 then c1\<lparr>cf_MaxRetries := DefaultMaxRetriesRedlock\<rparr> else c1)
      in if f_le (cf_DriftFactor c2) (Fin 0) then c2\<lparr>cf_DriftFactor := DefaultDriftFactorRedlock\<rparr> else c2)"

section \<open>Data\<close>

record RedlockMetrics =
  lm_TotalAcquisitions :: counter
  lm_SuccessfulAcquisitions :: counter
  lm_FailedAcquisitions :: counter
  lm_TotalReleases :: counter
  lm_SuccessfulReleases :: counter
  lm_FailedReleases :: counter
  lm_TotalExtensions :: counter
  lm_SuccessfulExtensions :: counter
  lm_FailedExtensions :: counter
  lm_AverageAcquisitionTime :: duration

definition zero_RedlockMetrics :: RedlockMetrics where
  "zero_RedlockMetrics =
     \<lparr>lm_TotalAcquisitions = 0, lm_SuccessfulAcquisitions = 0, lm_FailedAcquisitions = 0,
      lm_TotalReleases = 0, lm_SuccessfulReleases = 0, lm_FailedReleases = 0, lm_TotalExtensions = 0,
      lm_SuccessfulExtensions = 0, lm_FailedExtensions = 0, lm_AverageAcquisitionTime = 0\<rparr>"

record 'w Redlock =
  rl_clients :: "'w LockClient list"
  rl_quorum :: int
  rl_retryDelay :: duration
  rl_maxRetries :: int
  rl_driftFactor :: float64
  rl_closed :: bool
  rl_metrics :: "RedlockMetrics option"

text \<open>A lock; its pointer to the \<open>Redlock\<close> is an argument of the operations.\<close>

record Lock =
  lk_resource :: string
  lk_value :: string
  lk_ttl :: duration
  lk_acquired :: bool
  lk_created :: instant

definition NewRedlock :: "'w Config option \<Rightarrow> goerr + 'w Redlock" where
  "NewRedlock config =
     (case validateRedlockConfig config of
        Some err \<Rightarrow> Inl (wrapping (Sentinel (ERedlockOp ErrRedlockInvalidConfig)))
      | None \<Rightarrow>
         (let c = applyRedlockDefaults (the config) in
          Inr \<lparr>rl_clients = map the (cf_Clients c),
               rl_quorum = (if cf_Quorum c = 0 then int (length (cf_Clients c)) div 2 + 1 else cf_Quorum c),
               rl_retryDelay = cf_RetryDelay c, rl_maxRetries = cf_MaxRetries c,
               rl_driftFactor = cf_DriftFactor c, rl_closed = False,
               rl_metrics = (if cf_EnableMetrics c then Some zero_RedlockMetrics else None)\<rparr>))"

definition upd_lm :: "(RedlockMetrics \<Rightarrow> RedlockMetrics) \<Rightarrow> 'w Redlock \<Rightarrow> 'w Redlock" where
  "upd_lm f rl = rl\<lparr>rl_metrics := map_option f (rl_metrics rl)\<rparr>"

section \<open>Validation of inputs\<close>

definition validateResource :: "string \<Rightarrow> goerr option" where
  "validateResource resource =
     (if resource = [] then Some (wrapping (Sentinel (ERedlockOp ErrRedlockInvalidResource)))
      else if int (length resource) > MaxResourceNameLength
      then Some (wrapping (Sentinel (ERedlockOp ErrRedlockInvalidResource)))
      else if int (length resource) < MinResourceNameLength
      then Some (wrapping (Sentinel (ERedlockOp ErrRedlockInvalidResource)))
      else None)"

definition validateTTL :: "duration \<Rightarrow> goerr option" where
  "validateTTL ttl =
     (if ttl < MinTTLLimitRedlock \<or> ttl > MaxTTLLimitRedlock
      then Some (wrapping (Sentinel (ERedlockOp ErrRedlockInvalidTTL))) else None)"

definition validateTimeout :: "duration \<Rightarrow> goerr option" where
  "validateTimeout timeout =
     (if timeout < MinTimeoutLimitRedlock \<or> timeout > MaxTimeoutLimitRedlock
      then Some (wrapping (Sentinel (ERedlockOp ErrRedlockInvalidTimeout))) else None)"

definition validateLockInputs :: "ctx option \<Rightarrow> string \<Rightarrow> duration \<Rightarrow> duration \<Rightarrow> int \<Rightarrow> goerr option" where
  "validateLockInputs c resource ttl retryDelay maxRetries =
     (if c = None then Some (ErrText ''context cannot be nil'')
      else case validateResource resource of
        Some err \<Rightarrow> Some err
      | None \<Rightarrow>
         (case validateTTL ttl of
            Some err \<Rightarrow> Some err
          | None \<Rightarrow>
              if retryDelay < 0 then Some (wrapping (Sentinel (ERedlockOp ErrRedlockInvalidTimeout)))
              else if maxRetries < 0 then Some (ErrText ''max retries cannot be negative'')
              else None))"

text \<open>\<open>generateLockValue\<close>, given what \<open>rand.Read\<close> delivers: 16 bytes, or an error.\<close>

definition hex_digit :: "nat \<Rightarrow> char" where
  "hex_digit n = char_of (if n < 10 then 48 + n else 87 + n)"

definition hex_EncodeToString :: "8 word list \<Rightarrow> string" where
  "hex_EncodeToString bytes = concat (map (\<lambda>b. [hex_digit (unat b div 16), hex_digit (unat b mod 16)]) bytes)"

definition generateLockValue :: "8 word list option \<Rightarrow> instant \<Rightarrow> string" where
  "generateLockValue bytes now =
     (case bytes of None \<Rightarrow> decimal (nat now) | Some bs \<Rightarrow> hex_EncodeToString bs)"

section \<open>Releasing\<close>

definition release_script :: script where
  "release_script =
     IfEqual (RedisCall ''get'' [LuaKey 1]) (LuaArg 1)
       (RedisCall ''del'' [LuaKey 1]) (LuaValue (LuaNum 0))"

definition Redlock_releaseLockWithTimeout ::
    "ctx \<Rightarrow> 'w LockClient \<Rightarrow> string \<Rightarrow> string \<Rightarrow> 'w net \<Rightarrow> goerr option \<times> 'w net" where
  "Redlock_releaseLockWithTimeout c client resource value net =
     (case lc_Eval client c release_script [resource] [ArgString value] net of
        (Inl err, net1) \<Rightarrow> (Some (wrapping err), net1)
      | (Inr result, net1) \<Rightarrow>
          if result = NilReply \<or> result = IntReply 0
          then (Some (ErrText ''lock not found or value mismatch''), net1)
          else (None, net1))"

text \<open>One turn of the loops over the clients; the number counts the releases that succeeded.\<close>

definition release_one :: "ctx \<Rightarrow> string \<Rightarrow> string \<Rightarrow> 'w LockClient \<Rightarrow> nat \<times> 'w net \<Rightarrow> nat \<times> 'w net" where
  "release_one c resource value client a =
     (let (released, net) = a;
          (err, net1) = Redlock_releaseLockWithTimeout (WithTimeout (fst net) (2 * Second) c) client resource value net
      in (if err = None then released + 1 else released, net1))"

definition release_all :: "ctx \<Rightarrow> string \<Rightarrow> string \<Rightarrow> 'w LockClient list \<Rightarrow> 'w net \<Rightarrow> nat \<times> 'w net" where
  "release_all c resource value clients net = fold (release_one c resource value) clients (0, net)"

definition Redlock_releaseLocksWithTimeout :: "ctx \<Rightarrow> string \<Rightarrow> string \<Rightarrow> 'w Redlock \<Rightarrow> 'w net \<Rightarrow> 'w net" where
  "Redlock_releaseLocksWithTimeout c resource value rl net = snd (release_all c resource value (rl_clients rl) net)"

section \<open>Acquiring\<close>

definition set_one ::
    "ctx \<Rightarrow> string \<Rightarrow> string \<Rightarrow> duration \<Rightarrow> 'w LockClient
       \<Rightarrow> (nat \<times> goerr option) \<times> 'w net \<Rightarrow> (nat \<times> goerr option) \<times> 'w net" where
  "set_one c resource value ttl client a =
     (let ((successCount, lastError), net) = a;
          (err, net1) = lc_Set client (WithTimeout (fst net) (5 * Second) c) resource value ttl net
      in (if err = None then (successCount + 1, lastError) else (successCount, err), net1))"

definition set_all ::
    "ctx \<Rightarrow> string \<Rightarrow> string \<Rightarrow> duration \<Rightarrow> 'w LockClient list \<Rightarrow> 'w net
       \<Rightarrow> (nat \<times> goerr option) \<times> 'w net" where
  "set_all c resource value ttl clients net = fold (set_one c resource value ttl) clients ((0, None), net)"

definition drift_time :: "(float64 \<Rightarrow> int) \<Rightarrow> duration \<Rightarrow> 'w Redlock \<Rightarrow> duration" where
  "drift_time oor ttl rl = f_to_int64 oor (f_mul (f_of_int ttl) (rl_driftFactor rl))"

text \<open>
  The decision after the last client, at \<open>now\<close>, for an attempt that began at \<open>startTime\<close>: a lock, or
  the error to return after the locks have been released.
\<close>

definition acquire_decide ::
    "(float64 \<Rightarrow> int) \<Rightarrow> string \<Rightarrow> string \<Rightarrow> duration \<Rightarrow> 'w Redlock \<Rightarrow> instant \<Rightarrow> nat \<Rightarrow> goerr option \<Rightarrow> instant
       \<Rightarrow> goerr + Lock" where
  "acquire_decide oor resource value ttl rl startTime successCount lastError now =
     (if int successCount < rl_quorum rl
      then Inl (Errorf (Sentinel (ERedlockOp ErrRedlockQuorumNotReached)
                  # (case lastError of None \<Rightarrow> [] | Some e \<Rightarrow> [e])))
      else
        (let validityTime = wrap64 (wrap64 (ttl - time_sub now startTime) - drift_time oor ttl rl)
         in if validityTime \<le> 0 then Inl (wrapping (Sentinel (ERedlockOp ErrRedlockLockExpired)))
            else Inr \<lparr>lk_resource = resource, lk_value = value, lk_ttl = validityTime,
                      lk_acquired = True, lk_created = now\<rparr>))"

definition Redlock_tryAcquireLockWithTimeout ::
    "(float64 \<Rightarrow> int) \<Rightarrow> ctx \<Rightarrow> string \<Rightarrow> string \<Rightarrow> duration \<Rightarrow> 'w Redlock \<Rightarrow> 'w net \<Rightarrow> (goerr + Lock) \<times> 'w net" where
  "Redlock_tryAcquireLockWithTimeout oor c resource value ttl rl net =
     (let ((successCount, lastError), net1) = set_all c resource value ttl (rl_clients rl) net
      in case acquire_decide oor resource value ttl rl (fst net) successCount lastError (fst net1) of
           Inl err \<Rightarrow> (Inl err, Redlock_releaseLocksWithTimeout c resource value rl net1)
         | Inr lock \<Rightarrow> (Inr lock, net1))"

text \<open>What the surroundings decide in one call: the random bytes, the scheduler, odd conversions.\<close>

record lock_env =
  le_bytes :: "8 word list option"
  le_lag :: "int \<Rightarrow> nat"
  le_pick :: "int \<Rightarrow> bool"
  le_oor :: "float64 \<Rightarrow> int"

definition count_acquired :: "duration \<Rightarrow> 'w Redlock \<Rightarrow> 'w Redlock" where
  "count_acquired elapsed =
     upd_lm (\<lambda>m. m\<lparr>lm_TotalAcquisitions := lm_TotalAcquisitions m + 1,
                   lm_SuccessfulAcquisitions := lm_SuccessfulAcquisitions m + 1,
                   lm_AverageAcquisitionTime := elapsed\<rparr>)"

definition count_failed :: "'w Redlock \<Rightarrow> 'w Redlock" where
  "count_failed =
     upd_lm (\<lambda>m. m\<lparr>lm_TotalAcquisitions := lm_TotalAcquisitions m + 1,
                   lm_FailedAcquisitions := lm_FailedAcquisitions m + 1\<rparr>)"

function LockWithRetry_loop ::
    "lock_env \<Rightarrow> ctx \<Rightarrow> string \<Rightarrow> string \<Rightarrow> duration \<Rightarrow> duration \<Rightarrow> int \<Rightarrow> instant \<Rightarrow> int \<Rightarrow> 'w Redlock \<Rightarrow> 'w net
       \<Rightarrow> (goerr + Lock) \<times> 'w Redlock \<times> 'w net" where
  "LockWithRetry_loop env c resource value ttl retryDelay maxRetries startTime attempt rl net =
     (if maxRetries < attempt then (Inl (Sentinel (ERedlockOp ErrRedlockLockAcquisitionFailed)), rl, net)
      else case ctx_err (fst net) c of
        Some err \<Rightarrow> (Inl (wrapping (common ErrContextCancelled)), rl, net)
      | None \<Rightarrow>
         (case Redlock_tryAcquireLockWithTimeout (le_oor env) c resource value ttl rl net of
            (Inr lock, net1) \<Rightarrow> (Inr lock, count_acquired (time_sub (fst net1) startTime) rl, net1)
          | (Inl err, net1) \<Rightarrow>
              if attempt = maxRetries
              then (Inl (wrapping (Sentinel (ERedlockOp ErrRedlockLockAcquisitionFailed))), count_failed rl, net1)
              else if 0 < retryDelay
              then (case timer_wait (le_lag env attempt) (le_pick env attempt) retryDelay (fst net1) c of
                      (t, True) \<Rightarrow> (Inl (wrapping (common ErrContextCancelled)), count_failed rl, (t, snd net1))
                    | (t, False) \<Rightarrow>
                        LockWithRetry_loop env c resource value ttl retryDelay maxRetries startTime (attempt + 1)
                          (count_failed rl) (t, snd net1))
              else LockWithRetry_loop env c resource value ttl retryDelay maxRetries startTime (attempt + 1)
                     (count_failed rl) net1))"
  by pat_completeness auto
termination
  by (relation "measure (\<lambda>(env, c, resource, value, ttl, retryDelay, maxRetries, startTime, attempt, rl, net).
       nat (maxRetries + 1 - attempt))") auto

declare LockWithRetry_loop.simps [simp del]

definition Redlock_LockWithRetry ::
    "lock_env \<Rightarrow> ctx option \<Rightarrow> string \<Rightarrow> duration \<Rightarrow> duration \<Rightarrow> int \<Rightarrow> 'w Redlock \<Rightarrow> 'w net
       \<Rightarrow> (goerr + Lock) \<times> 'w Redlock \<times> 'w net" where
  "Redlock_LockWithRetry env c resource ttl retryDelay maxRetries rl net =
     (if rl_closed rl then (Inl (Sentinel (ERedlockOp ErrRedlockClosed)), rl, net)
      else case validateLockInputs c resource ttl retryDelay maxRetries of
        Some err \<Rightarrow> (Inl err, rl, net)
      | None \<Rightarrow>
          LockWithRetry_loop env (the c) resource (generateLockValue (le_bytes env) (fst net)) ttl
            retryDelay maxRetries (fst net) 0 rl net)"

definition Redlock_Lock ::
    "lock_env \<Rightarrow> ctx option \<Rightarrow> string \<Rightarrow> duration \<Rightarrow> 'w Redlock \<Rightarrow> 'w net \<Rightarrow> (goerr + Lock) \<times> 'w Redlock \<times> 'w net" where
  "Redlock_Lock env c resource ttl rl net =
     Redlock_LockWithRetry env c resource ttl (rl_retryDelay rl) (rl_maxRetries rl) rl net"

definition Redlock_TryLock ::
    "lock_env \<Rightarrow> ctx option \<Rightarrow> string \<Rightarrow> duration \<Rightarrow> 'w Redlock \<Rightarrow> 'w net \<Rightarrow> (goerr + Lock) \<times> 'w net" where
  "Redlock_TryLock env c resource ttl rl net =
     (if rl_closed rl then (Inl (Sentinel (ERedlockOp ErrRedlockClosed)), net)
      else case validateLockInputs c resource ttl 0 0 of
        Some err \<Rightarrow> (Inl err, net)
      | None \<Rightarrow>
          Redlock_tryAcquireLockWithTimeout (le_oor env) (the c) resource
            (generateLockValue (le_bytes env) (fst net)) ttl rl net)"

definition Redlock_LockWithTimeout ::
    "lock_env \<Rightarrow> ctx option \<Rightarrow> string \<Rightarrow> duration \<Rightarrow> duration \<Rightarrow> 'w Redlock \<Rightarrow> 'w net
       \<Rightarrow> (goerr + Lock) outcome \<times> 'w Redlock \<times> 'w net" where
  "Redlock_LockWithTimeout env c resource ttl timeout rl net =
     (case validateTimeout timeout of
        Some err \<Rightarrow> (Returns (Inl err), rl, net)
      | None \<Rightarrow>
         (case c of
            None \<Rightarrow> (Panics NilParentContext, rl, net)
          | Some c0 \<Rightarrow>
              apfst Returns (Redlock_Lock env (Some (WithTimeout (fst net) timeout c0)) resource ttl rl net)))"

section \<open>Operations of a lock\<close>

definition count_release :: "bool \<Rightarrow> 'w Redlock \<Rightarrow> 'w Redlock" where
  "count_release success =
     upd_lm (\<lambda>m. if success
       then m\<lparr>lm_TotalReleases := lm_TotalReleases m + 1, lm_SuccessfulReleases := lm_SuccessfulReleases m + 1\<rparr>
       else m\<lparr>lm_TotalReleases := lm_TotalReleases m + 1, lm_FailedReleases := lm_FailedReleases m + 1\<rparr>)"

text \<open>The end of \<open>Unlock\<close>, after the loop over the clients.\<close>

definition unlock_finish :: "nat \<Rightarrow> 'w Redlock \<Rightarrow> goerr option \<times> 'w Redlock" where
  "unlock_finish released rl =
     (if released = 0 then Some (wrapping (Sentinel (ERedlockOp ErrRedlockLockReleaseFailed))) else None,
      count_release (0 < released) rl)"

definition Lock_Unlock ::
    "ctx option \<Rightarrow> Lock \<Rightarrow> 'w Redlock \<Rightarrow> 'w net \<Rightarrow> goerr option outcome \<times> Lock \<times> 'w Redlock \<times> 'w net" where
  "Lock_Unlock c l rl net =
     (if \<not> lk_acquired l then (Returns (Some (Sentinel (ERedlockOp ErrRedlockLockNotAcquired))), l, rl, net)
      else if c = None \<and> rl_clients rl \<noteq> [] then (Panics NilParentContext, l\<lparr>lk_acquired := False\<rparr>, rl, net)
      else
        (let (released, net1) = release_all (the c) (lk_resource l) (lk_value l) (rl_clients rl) net;
             (err, rl1) = unlock_finish released rl
         in (Returns err, l\<lparr>lk_acquired := False\<rparr>, rl1, net1)))"

definition extend_script :: script where
  "extend_script =
     IfEqual (RedisCall ''get'' [LuaKey 1]) (LuaArg 1)
       (RedisCall ''expire'' [LuaKey 1, LuaArg 2]) (LuaValue (LuaNum 0))"

text \<open>\<open>int(ttl.Seconds())\<close>\<close>

definition whole_seconds :: "(float64 \<Rightarrow> int) \<Rightarrow> duration \<Rightarrow> int" where
  "whole_seconds oor ttl = f_to_int64 oor (seconds ttl)"

definition extend_one ::
    "ctx \<Rightarrow> string \<Rightarrow> string \<Rightarrow> int \<Rightarrow> 'w LockClient \<Rightarrow> nat \<times> 'w net \<Rightarrow> nat \<times> 'w net" where
  "extend_one c resource value secs client a =
     (let (successCount, net) = a;
          (r, net1) = lc_Eval client (WithTimeout (fst net) (5 * Second) c) extend_script [resource]
                        [ArgString value, ArgInt secs] net
      in (if r = Inr (IntReply 1) then successCount + 1 else successCount, net1))"

definition extend_all ::
    "ctx \<Rightarrow> string \<Rightarrow> string \<Rightarrow> int \<Rightarrow> 'w LockClient list \<Rightarrow> 'w net \<Rightarrow> nat \<times> 'w net" where
  "extend_all c resource value secs clients net = fold (extend_one c resource value secs) clients (0, net)"

definition count_extension :: "bool \<Rightarrow> 'w Redlock \<Rightarrow> 'w Redlock" where
  "count_extension success =
     upd_lm (\<lambda>m. if success
       then m\<lparr>lm_TotalExtensions := lm_TotalExtensions m + 1, lm_SuccessfulExtensions := lm_SuccessfulExtensions m + 1\<rparr>
       else m\<lparr>lm_TotalExtensions := lm_TotalExtensions m + 1, lm_FailedExtensions := lm_FailedExtensions m + 1\<rparr>)"

text \<open>The end of \<open>Extend\<close>, after the loop over the clients.\<close>

definition extend_finish :: "duration \<Rightarrow> nat \<Rightarrow> Lock \<Rightarrow> 'w Redlock \<Rightarrow> goerr option \<times> Lock \<times> 'w Redlock" where
  "extend_finish ttl successCount l rl =
     (if int successCount < rl_quorum rl
      then (Some (wrapping (Sentinel (ERedlockOp ErrRedlockLockExtensionFailed))), l, count_extension False rl)
      else (None, l\<lparr>lk_ttl := ttl\<rparr>, count_extension True rl))"

definition Lock_Extend ::
    "(float64 \<Rightarrow> int) \<Rightarrow> ctx option \<Rightarrow> duration \<Rightarrow> Lock \<Rightarrow> 'w Redlock \<Rightarrow> 'w net
       \<Rightarrow> goerr option outcome \<times> Lock \<times> 'w Redlock \<times> 'w net" where
  "Lock_Extend oor c ttl l rl net =
     (case validateTTL ttl of
        Some err \<Rightarrow> (Returns (Some err), l, rl, net)
      | None \<Rightarrow>
          if \<not> lk_acquired l then (Returns (Some (Sentinel (ERedlockOp ErrRedlockLockNotAcquired))), l, rl, net)
          else if c = None \<and> rl_clients rl \<noteq> [] then (Panics NilParentContext, l, rl, net)
          else
            (let (successCount, net1) =
                   extend_all (the c) (lk_resource l) (lk_value l) (whole_seconds oor ttl) (rl_clients rl) net;
                 (err, l1, rl1) = extend_finish ttl successCount l rl
             in (Returns err, l1, rl1, net1)))"

definition Lock_IsAcquired :: "Lock \<Rightarrow> bool" where
  "Lock_IsAcquired l = lk_acquired l"

definition Lock_GetResource :: "Lock \<Rightarrow> string" where
  "Lock_GetResource l = lk_resource l"

definition Lock_GetValue :: "Lock \<Rightarrow> string" where
  "Lock_GetValue l = lk_value l"

definition Lock_GetTTL :: "Lock \<Rightarrow> duration" where
  "Lock_GetTTL l = lk_ttl l"

definition Lock_GetCreatedTime :: "Lock \<Rightarrow> instant" where
  "Lock_GetCreatedTime l = lk_created l"

definition Lock_IsExpired :: "instant \<Rightarrow> Lock \<Rightarrow> bool" where
  "Lock_IsExpired now l \<longleftrightarrow> lk_ttl l < time_sub now (lk_created l)"

section \<open>Metrics and health\<close>

definition Redlock_GetMetrics :: "'w Redlock \<Rightarrow> RedlockMetrics option" where
  "Redlock_GetMetrics rl = rl_metrics rl"

definition health_one :: "'w LockClient \<Rightarrow> nat \<times> 'w net \<Rightarrow> nat \<times> 'w net" where
  "health_one client a =
     (let (healthyClients, net) = a;
          (r, net1) = lc_Get client (WithTimeout (fst net) (1 * Second) Background) ''__health_check__'' net
      in (case r of Inl _ \<Rightarrow> healthyClients | Inr _ \<Rightarrow> healthyClients + 1, net1))"

definition Redlock_IsHealthy :: "'w Redlock \<Rightarrow> 'w net \<Rightarrow> bool \<times> 'w net" where
  "Redlock_IsHealthy rl net =
     (if rl_closed rl then (False, net)
      else (let (healthyClients, net1) = fold health_one (rl_clients rl) (0, net)
            in (rl_quorum rl \<le> int healthyClients, net1)))"

record RedlockHealth =
  lh_is_healthy :: bool
  lh_is_closed :: bool
  lh_client_count :: nat
  lh_quorum :: int
  lh_retry_delay :: duration
  lh_max_retries :: int
  lh_drift_factor :: float64
  lh_metrics :: RedlockMetrics

definition Redlock_GetHealthStatus :: "'w Redlock \<Rightarrow> 'w net \<Rightarrow> RedlockHealth outcome \<times> 'w net" where
  "Redlock_GetHealthStatus rl net =
     (let (healthy, net1) = Redlock_IsHealthy rl net
      in case Redlock_GetMetrics rl of
           None \<Rightarrow> (Panics NilDereference, net1)
         | Some m \<Rightarrow>
             (Returns \<lparr>lh_is_healthy = healthy, lh_is_closed = rl_closed rl,
                lh_client_count = length (rl_clients rl), lh_quorum = rl_quorum rl,
                lh_retry_delay = rl_retryDelay rl, lh_max_retries = rl_maxRetries rl,
                lh_drift_factor = rl_driftFactor rl, lh_metrics = m\<rparr>, net1))"

definition Redlock_Close :: "'w Redlock \<Rightarrow> goerr option \<times> 'w Redlock" where
  "Redlock_Close rl = (if rl_closed rl then (None, rl) else (None, rl\<lparr>rl_closed := True\<rparr>))"

section \<open>Laws\<close>

lemma drift_limits:
  "f_lt (Fin 0) MinDriftFactorLimitRedlock" "f_le MinDriftFactorLimitRedlock DefaultDriftFactorRedlock"
  "f_le DefaultDriftFactorRedlock MaxDriftFactorLimitRedlock"
proof -
  have "representable (1 / 2 ^ 10)" using representable_dyadic [of 1 10] by simp
  then have "fl (1 / 2 ^ 10) = Fin (1 / 2 ^ 10)" by (rule fl_representable) simp
  moreover have "f_le (fl (1 / 2 ^ 10)) (fl (1 / 1000))" by (rule fl_mono) simp
  ultimately show "f_lt (Fin 0) MinDriftFactorLimitRedlock"
    unfolding MinDriftFactorLimitRedlock_def by (cases "fl (1 / 1000)") auto
  show "f_le MinDriftFactorLimitRedlock DefaultDriftFactorRedlock" "f_le DefaultDriftFactorRedlock MaxDriftFactorLimitRedlock"
    by (auto simp: MinDriftFactorLimitRedlock_def DefaultDriftFactorRedlock_def MaxDriftFactorLimitRedlock_def
        intro!: fl_mono)
qed

text \<open>A drift factor that passed the check is never replaced.\<close>

lemma drift_positive: "\<not> f_lt d MinDriftFactorLimitRedlock \<Longrightarrow> \<not> f_le d (Fin 0)"
proof -
  have "f_lt (Fin 0) m \<Longrightarrow> \<not> f_lt d m \<Longrightarrow> \<not> f_le d (Fin 0)" for m by (cases m; cases d) auto
  then show "\<not> f_lt d MinDriftFactorLimitRedlock \<Longrightarrow> \<not> f_le d (Fin 0)" using drift_limits(1) by blast
qed

interpretation rlc: config_check "\<lambda>c. validateRedlockConfig (Some c)" applyRedlockDefaults
proof unfold_locales
  fix c :: "'a Config"
  assume v: "validateRedlockConfig (Some c) = None"
  then have "\<not> f_le (cf_DriftFactor c) (Fin 0)"
    by (intro drift_positive) (auto simp: validateRedlockConfig_def split: if_splits)
  then have d: "applyRedlockDefaults c =
      (if cf_MaxRetries c \<le> 0 then c\<lparr>cf_MaxRetries := DefaultMaxRetriesRedlock\<rparr> else c)"
    using v by (auto simp: applyRedlockDefaults_def Let_def validateRedlockConfig_def redlock_limits split: if_splits)
  show "validateRedlockConfig (Some (applyRedlockDefaults c)) = None"
    unfolding d using v by (auto simp: validateRedlockConfig_def redlock_limits split: if_splits)
  show "applyRedlockDefaults (applyRedlockDefaults c) = applyRedlockDefaults c"
    unfolding d using v \<open>\<not> f_le (cf_DriftFactor c) (Fin 0)\<close>
    by (auto simp: applyRedlockDefaults_def Let_def validateRedlockConfig_def redlock_limits split: if_splits)
qed

interpretation rll: closable Redlock_Close rl_closed
  by unfold_locales (auto simp: Redlock_Close_def)

definition lock_op ::
    "lock_env \<times> ctx option \<times> string \<times> duration \<times> 'w net \<Rightarrow> 'w Redlock
       \<Rightarrow> ((goerr + Lock) \<times> 'w net) \<times> 'w Redlock" where
  "lock_op a rl =
     (let (env, c, resource, ttl, net) = a; (r, rl1, net1) = Redlock_Lock env c resource ttl rl net in ((r, net1), rl1))"

interpretation rlg: guarded Redlock_Close rl_closed lock_op
    "\<lambda>(env, c, resource, ttl, net). (Inl (Sentinel (ERedlockOp ErrRedlockClosed)), net)"
  by unfold_locales (auto simp: lock_op_def Redlock_Lock_def Redlock_LockWithRetry_def)

end
