(* ===== verification/RedlockServers.thy ===== *)
theory RedlockServers
  imports Redlock
begin

text \<open>
  What the distributed lock relies on outside the program. The servers are parameters; \<open>redis_like\<close>
  states what Redis documents about the commands the code sends: \<open>Set\<close> stores a key that is not
  there (\<open>SET key value NX PX ttl\<close>, which the algorithm needs and the interface \<open>LockClient\<close> does not
  say), a script runs as a whole at one moment, keys expire. A call that returns an error may have
  been carried out or not.
\<close>

section \<open>Quorums\<close>

text \<open>Any two quorums have a member in common, so two quorums cannot have voted differently.\<close>

locale quorum_system =
  fixes quorum :: "nat set \<Rightarrow> bool"
  assumes meet: "quorum A \<Longrightarrow> quorum B \<Longrightarrow> A \<inter> B \<noteq> {}"
begin

lemma not_empty: "quorum A \<Longrightarrow> A \<noteq> {}"
  using meet by blast

lemma one_vote:
  assumes "quorum A" and "quorum B" and "\<And>j. j \<in> A \<Longrightarrow> vote j = Some x" and "\<And>j. j \<in> B \<Longrightarrow> vote j = Some y"
  shows "x = y"
  using meet [OF assms(1,2)] assms(3,4) by fastforce

end

text \<open>The quorum \<open>NewRedlock\<close> computes when the configuration leaves it open: more than half.\<close>

definition majority :: "nat \<Rightarrow> nat set \<Rightarrow> bool" where
  "majority n A \<longleftrightarrow> A \<subseteq> {..<n} \<and> n div 2 + 1 \<le> card A"

interpretation maj: quorum_system "majority n" for n
proof
  fix A B
  assume a: "majority n A" and b: "majority n B"
  show "A \<inter> B \<noteq> {}"
  proof
    assume "A \<inter> B = {}"
    have f: "finite A" "finite B" using a b by (auto simp: majority_def intro: finite_subset)
    have "card (A \<union> B) \<le> card {..<n}" using a b by (intro card_mono) (auto simp: majority_def)
    moreover have "card (A \<union> B) = card A + card B" using f \<open>A \<inter> B = {}\<close> by (rule card_Un_disjoint)
    moreover have "n div 2 + 1 \<le> card A" "n div 2 + 1 \<le> card B" using a b by (auto simp: majority_def)
    ultimately show False by simp
  qed
qed

section \<open>Keys and scripts\<close>

text \<open>The keys of one server, with their values and the instants they expire at.\<close>

type_synonym store = "string \<rightharpoonup> string \<times> instant"

definition live :: "instant \<Rightarrow> store \<Rightarrow> string \<Rightarrow> string option" where
  "live now st k = (case st k of None \<Rightarrow> None | Some (v, e) \<Rightarrow> if now < e then Some v else None)"

datatype lua_val = LuaFalse | LuaStr string | LuaInt int

definition redis_call :: "instant \<Rightarrow> string \<Rightarrow> lua_val list \<Rightarrow> store \<Rightarrow> lua_val \<times> store" where
  "redis_call now cmd args st =
     (case args of
        [LuaStr k] \<Rightarrow>
          if cmd = ''get'' then (case live now st k of None \<Rightarrow> LuaFalse | Some v \<Rightarrow> LuaStr v, st)
          else if cmd = ''del'' then
            (if live now st k = None then (LuaInt 0, st) else (LuaInt 1, st(k := None)))
          else (LuaFalse, st)
      | [LuaStr k, LuaInt s] \<Rightarrow>
          if cmd = ''expire'' then
            (case live now st k of
               None \<Rightarrow> (LuaInt 0, st)
             | Some v \<Rightarrow> if s \<le> 0 then (LuaInt 1, st(k := None)) else (LuaInt 1, st(k \<mapsto> (v, now + s * Second))))
          else (LuaFalse, st)
      | _ \<Rightarrow> (LuaFalse, st))"

fun lua_exp_val :: "string list \<Rightarrow> arg list \<Rightarrow> lua_exp \<Rightarrow> lua_val" where
  "lua_exp_val ks as (LuaKey i) = (if 0 < i \<and> i \<le> length ks then LuaStr (ks ! (i - 1)) else LuaFalse)"
| "lua_exp_val ks as (LuaArg i) =
     (if 0 < i \<and> i \<le> length as
      then (case as ! (i - 1) of ArgString s \<Rightarrow> LuaStr s | ArgInt n \<Rightarrow> LuaInt n) else LuaFalse)"
| "lua_exp_val ks as (LuaNum n) = LuaInt n"

fun lua_stmt_run :: "instant \<Rightarrow> string list \<Rightarrow> arg list \<Rightarrow> lua_stmt \<Rightarrow> store \<Rightarrow> lua_val \<times> store" where
  "lua_stmt_run now ks as (RedisCall cmd es) st = redis_call now cmd (map (lua_exp_val ks as) es) st"
| "lua_stmt_run now ks as (LuaValue e) st = (lua_exp_val ks as e, st)"

fun run_script :: "instant \<Rightarrow> script \<Rightarrow> string list \<Rightarrow> arg list \<Rightarrow> store \<Rightarrow> lua_val \<times> store" where
  "run_script now (IfEqual s e s1 s2) ks as st =
     (let (v, st1) = lua_stmt_run now ks as s st
      in lua_stmt_run now ks as (if v = lua_exp_val ks as e then s1 else s2) st1)"

text \<open>The number a script returns is an \<open>int\<close> or an \<open>int64\<close>, as the client library likes.\<close>

fun reply_ok :: "lua_val \<Rightarrow> reply \<Rightarrow> bool" where
  "reply_ok LuaFalse r = (r = NilReply)"
| "reply_ok (LuaStr _) r = (r = OtherReply)"
| "reply_ok (LuaInt n) r = (r = IntReply n \<or> r = Int64Reply n)"

lemma run_release:
  "run_script now release_script [k] [ArgString v] st =
     (if live now st k = Some v then (LuaInt 1, st(k := None)) else (LuaInt 0, st))"
  by (auto simp: release_script_def redis_call_def split: option.split)

lemma run_extend:
  "run_script now extend_script [k] [ArgString v, ArgInt s] st =
     (if live now st k = Some v
      then (LuaInt 1, if s \<le> 0 then st(k := None) else st(k \<mapsto> (v, now + s * Second))) else (LuaInt 0, st))"
  by (auto simp: extend_script_def redis_call_def split: option.split)

section \<open>Documented behaviour of the servers\<close>

text \<open>Storing \<open>v\<close> under \<open>k\<close> on server \<open>j\<close>, between the two instants.\<close>

definition set_effect ::
    "('w \<Rightarrow> nat \<Rightarrow> store) \<Rightarrow> nat \<Rightarrow> string \<Rightarrow> string \<Rightarrow> duration \<Rightarrow> 'w net \<Rightarrow> goerr option \<Rightarrow> 'w net \<Rightarrow> bool" where
  "set_effect view j k v ttl net err net' \<longleftrightarrow>
     fst net \<le> fst net' \<and> (\<forall>i. i \<noteq> j \<longrightarrow> view (snd net') i = view (snd net) i)
     \<and> (err \<noteq> None \<and> view (snd net') j = view (snd net) j
        \<or> (\<exists>tm e. fst net \<le> tm \<and> tm \<le> fst net' \<and> live tm (view (snd net) j) k = None \<and> tm + ttl \<le> e
             \<and> view (snd net') j = (view (snd net) j)(k \<mapsto> (v, e))))"

definition eval_effect ::
    "('w \<Rightarrow> nat \<Rightarrow> store) \<Rightarrow> nat \<Rightarrow> script \<Rightarrow> string list \<Rightarrow> arg list \<Rightarrow> 'w net \<Rightarrow> goerr + reply \<Rightarrow> 'w net \<Rightarrow> bool" where
  "eval_effect view j s ks as net r net' \<longleftrightarrow>
     fst net \<le> fst net' \<and> (\<forall>i. i \<noteq> j \<longrightarrow> view (snd net') i = view (snd net) i)
     \<and> (Sum_Type.isl r \<and> view (snd net') j = view (snd net) j
        \<or> (\<exists>tm x. fst net \<le> tm \<and> tm \<le> fst net' \<and> run_script tm s ks as (view (snd net) j) = (x, view (snd net') j)
             \<and> (Sum_Type.isl r \<or> reply_ok x (projr r))))"

definition redis_like :: "'w LockClient list \<Rightarrow> ('w \<Rightarrow> nat \<Rightarrow> store) \<Rightarrow> bool" where
  "redis_like cs view \<longleftrightarrow>
     (\<forall>j<length cs.
        (\<forall>c k v ttl net err net'. lc_Set (cs ! j) c k v ttl net = (err, net') \<longrightarrow> set_effect view j k v ttl net err net')
        \<and> (\<forall>c s ks as net r net'. lc_Eval (cs ! j) c s ks as net = (r, net') \<longrightarrow> eval_effect view j s ks as net r net'))"

section \<open>Who a server backs\<close>

text \<open>
  Server \<open>j\<close> backs value \<open>v\<close> for key \<open>k\<close> until \<open>t\<close>: it holds the value that long, or \<open>t\<close> has passed.
\<close>

definition backs :: "('w \<Rightarrow> nat \<Rightarrow> store) \<Rightarrow> 'w net \<Rightarrow> nat \<Rightarrow> string \<Rightarrow> string \<Rightarrow> instant \<Rightarrow> bool" where
  "backs view net j k v t \<longleftrightarrow> t \<le> fst net \<or> (\<exists>e. view (snd net) j k = Some (v, e) \<and> t \<le> e)"

lemma backs_later: "backs view (now, w) j k v t \<Longrightarrow> now \<le> now' \<Longrightarrow> backs view (now', w) j k v t"
  by (auto simp: backs_def)

lemma backs_sooner: "backs view net j k v t \<Longrightarrow> t' \<le> t \<Longrightarrow> backs view net j k v t'"
  by (auto simp: backs_def)

text \<open>A call for value \<open>v\<close> leaves what the servers back for other values alone.\<close>

definition frame_for :: "('w \<Rightarrow> nat \<Rightarrow> store) \<Rightarrow> nat \<Rightarrow> string \<Rightarrow> 'w net \<Rightarrow> 'w net \<Rightarrow> bool" where
  "frame_for view j v net net' \<longleftrightarrow> fst net \<le> fst net'
     \<and> (\<forall>i k t v'. i \<noteq> j \<or> v' \<noteq> v \<longrightarrow> backs view net i k v' t \<longrightarrow> backs view net' i k v' t)"

lemma frame_intro:
  assumes "fst net \<le> fst net'" and "\<forall>i. i \<noteq> j \<longrightarrow> view (snd net') i = view (snd net) i"
    and "view (snd net') j = view (snd net) j
       \<or> (\<exists>tm x. fst net \<le> tm \<and> tm \<le> fst net' \<and> view (snd net') j = (view (snd net) j)(key := x)
            \<and> (live tm (view (snd net) j) key = None \<or> live tm (view (snd net) j) key = Some v))"
  shows "frame_for view j v net net'"
proof -
  have "backs view net' i k v' t" if b: "backs view net i k v' t" and ne: "i \<noteq> j \<or> v' \<noteq> v" for i k v' t
  proof (cases "i = j")
    case False
    then show ?thesis using b assms(1,2) by (auto simp: backs_def)
  next
    case True
    from assms(3) show ?thesis
    proof (elim disjE exE conjE)
      assume "view (snd net') j = view (snd net) j"
      then show ?thesis using b assms(1) True by (auto simp: backs_def)
    next
      fix tm x
      assume "fst net \<le> tm" "tm \<le> fst net'" "view (snd net') j = (view (snd net) j)(key := x)"
        "live tm (view (snd net) j) key = None"
      then show ?thesis
        using b assms(1) True by (cases "k = key") (auto simp: backs_def live_def split: if_splits)
    next
      fix tm x
      assume "fst net \<le> tm" "tm \<le> fst net'" "view (snd net') j = (view (snd net) j)(key := x)"
        "live tm (view (snd net) j) key = Some v"
      then show ?thesis using b assms(1) True ne
        by (cases "k = key") (auto simp: backs_def live_def split: if_splits option.splits)
    qed
  qed
  then show ?thesis using assms(1) by (auto simp: frame_for_def)
qed

lemma Set_effect:
  assumes "redis_like cs view" and "j < length cs" and "lc_Set (cs ! j) c k v ttl net = (err, net')"
  shows "frame_for view j v net net'"
    and "err = None \<Longrightarrow> \<exists>e. view (snd net') j k = Some (v, e) \<and> fst net + ttl \<le> e"
proof -
  have e: "set_effect view j k v ttl net err net'" using assms unfolding redis_like_def by blast
  show "frame_for view j v net net'"
    by (rule frame_intro [where key = k]) (use e in \<open>auto simp: set_effect_def\<close>)
  show "\<exists>e. view (snd net') j k = Some (v, e) \<and> fst net + ttl \<le> e" if "err = None"
    using e that by (fastforce simp: set_effect_def)
qed

lemma Eval_effect:
  assumes "redis_like cs view" and "j < length cs" and "lc_Eval (cs ! j) c s ks as net = (r, net')"
  shows "eval_effect view j s ks as net r net'"
  using assms unfolding redis_like_def by blast

lemma eval_effect_cases:
  assumes "eval_effect view j s ks as net r net'"
  obtains (nothing) "Sum_Type.isl r" "view (snd net') j = view (snd net) j"
  | (ran) tm x where "fst net \<le> tm" "tm \<le> fst net'" "run_script tm s ks as (view (snd net) j) = (x, view (snd net') j)"
      "Sum_Type.isl r \<or> reply_ok x (projr r)"
  using assms unfolding eval_effect_def by blast

lemma frame_change:
  assumes "fst net \<le> fst net'" and "\<forall>i. i \<noteq> j \<longrightarrow> view (snd net') i = view (snd net) i"
    and "view (snd net') j = view (snd net) j \<and> P
       \<or> (\<exists>tm. fst net \<le> tm \<and> tm \<le> fst net' \<and> live tm (view (snd net) j) key = Some v
            \<and> view (snd net') j = (view (snd net) j)(key := f tm))"
  shows "frame_for view j v net net'"
  by (rule frame_intro [where key = key]) (use assms in auto)

lemma release_effect:
  assumes "redis_like cs view" and "j < length cs"
    and "lc_Eval (cs ! j) c release_script [k] [ArgString v] net = (r, net')"
  shows "frame_for view j v net net'"
proof -
  have e: "eval_effect view j release_script [k] [ArgString v] net r net'" by (rule Eval_effect [OF assms])
  have u: "view (snd net') j = view (snd net) j \<and> True
    \<or> (\<exists>tm. fst net \<le> tm \<and> tm \<le> fst net' \<and> live tm (view (snd net) j) k = Some v
        \<and> view (snd net') j = (view (snd net) j)(k := None))"
    using e
  proof (cases rule: eval_effect_cases)
    case (ran tm x)
    then show ?thesis by (cases "live tm (view (snd net) j) k = Some v") (auto simp: run_release)
  qed simp
  show ?thesis by (rule frame_change [where key = k and P = True and f = "\<lambda>_. None"]) (use e in \<open>simp_all add: eval_effect_def\<close>, use u in simp)
qed

lemma extend_effect:
  assumes "redis_like cs view" and "j < length cs"
    and "lc_Eval (cs ! j) c extend_script [k] [ArgString v, ArgInt secs] net = (r, net')"
  shows "frame_for view j v net net'"
    and "0 < secs \<Longrightarrow> r = Inr (IntReply 1) \<Longrightarrow>
      \<exists>e. view (snd net') j k = Some (v, e) \<and> fst net + secs * Second \<le> e"
    and "0 < secs \<Longrightarrow> backs view net j k v t \<Longrightarrow> t \<le> fst net + secs * Second \<Longrightarrow> backs view net' j k v t"
proof -
  have e: "eval_effect view j extend_script [k] [ArgString v, ArgInt secs] net r net'" by (rule Eval_effect [OF assms])
  have u: "view (snd net') j = view (snd net) j \<and> r \<noteq> Inr (IntReply 1)
    \<or> (\<exists>tm. fst net \<le> tm \<and> tm \<le> fst net' \<and> live tm (view (snd net) j) k = Some v
        \<and> view (snd net') j = (view (snd net) j)(k := if secs \<le> 0 then None else Some (v, tm + secs * Second)))"
    using e
  proof (cases rule: eval_effect_cases)
    case (ran tm x)
    then show ?thesis by (cases "live tm (view (snd net) j) k = Some v") (auto simp: run_extend)
  qed auto
  have f: "fst net \<le> fst net'" "\<forall>i. i \<noteq> j \<longrightarrow> view (snd net') i = view (snd net) i"
    using e unfolding eval_effect_def by blast+
  show "frame_for view j v net net'"
    by (rule frame_change [where key = k and P = "r \<noteq> Inr (IntReply 1)"
          and f = "\<lambda>tm. if secs \<le> 0 then None else Some (v, tm + secs * Second)"]) (rule f u)+
  show "\<exists>e. view (snd net') j k = Some (v, e) \<and> fst net + secs * Second \<le> e"
    if "0 < secs" "r = Inr (IntReply 1)"
    using u that by fastforce
  show "backs view net' j k v t" if "0 < secs" "backs view net j k v t" "t \<le> fst net + secs * Second"
    using u that e by (auto simp: backs_def eval_effect_def)
qed

end
