(* ===== verification/RedlockSystem.thy ===== *)
theory RedlockSystem
  imports RedlockServers
begin

text \<open>
  Processes that share a \<open>Redlock\<close>, or have one each that is configured alike: every process takes
  locks, holds, extends and releases them, one client call per step, with the calls of the others
  and the clock in between. A lock is used by the process that took it. The lock values are fresh
  (16 random bytes); contexts are arbitrary; a wait between attempts may end at any time.
\<close>

section \<open>Processes and steps\<close>

text \<open>A call of \<open>TryLock\<close> (no retries) or \<open>LockWithRetry\<close>, after its checks.\<close>

record lock_call =
  cl_resource :: string
  cl_value :: string
  cl_ttl :: duration
  cl_retries :: "int option"
  cl_started :: instant

datatype rd_pc =
    RdIdle
  | RdSetting lock_call int instant nat nat "goerr option"
  | RdReleasing lock_call int nat
  | RdWaiting lock_call int
  | RdHolding Lock
  | RdExtending Lock duration nat nat
  | RdUnlocking Lock nat nat

text \<open>
  \<open>rd_used\<close> records the lock values drawn so far and \<open>rd_rough\<close> whether a lock was ever extended
  roughly, that is, not \<open>gently\<close> (below).
\<close>

record 'w rd_sys =
  rd_rl :: "'w Redlock"
  rd_pcs :: "rd_pc list"
  rd_net :: "'w net"
  rd_used :: "string set"
  rd_rough :: bool

abbreviation rd_now :: "'w rd_sys \<Rightarrow> instant" where "rd_now s \<equiv> fst (rd_net s)"

abbreviation rd_cl :: "'w rd_sys \<Rightarrow> nat \<Rightarrow> 'w LockClient" where "rd_cl s k \<equiv> rl_clients (rd_rl s) ! k"

abbreviation rd_n :: "'w rd_sys \<Rightarrow> nat" where "rd_n s \<equiv> length (rl_clients (rd_rl s))"

abbreviation at_pc :: "'w rd_sys \<Rightarrow> nat \<Rightarrow> rd_pc \<Rightarrow> bool" where
  "at_pc s i pc \<equiv> i < length (rd_pcs s) \<and> rd_pcs s ! i = pc"

abbreviation rd_move :: "nat \<Rightarrow> rd_pc \<Rightarrow> 'w Redlock \<Rightarrow> 'w net \<Rightarrow> 'w rd_sys \<Rightarrow> 'w rd_sys" where
  "rd_move i pc rl net s \<equiv> s\<lparr>rd_rl := rl, rd_pcs := (rd_pcs s)[i := pc], rd_net := net\<rparr>"

text \<open>
  An extension is gentle at a server if it is by whole seconds, does not end before the lock would
  have ended anyway, and is not made at the very instant the lock was created.
\<close>

definition gently :: "instant \<Rightarrow> Lock \<Rightarrow> duration \<Rightarrow> bool" where
  "gently now l ttl \<longleftrightarrow> ttl mod Second = 0 \<and> lk_created l + lk_ttl l < now + ttl \<and> lk_created l < now"

inductive rd_step :: "(float64 \<Rightarrow> int) \<Rightarrow> 'w rd_sys \<Rightarrow> 'w rd_sys \<Rightarrow> bool" for oor where
  start: "at_pc s i RdIdle \<Longrightarrow> \<not> rl_closed (rd_rl s)
    \<Longrightarrow> validateLockInputs (Some c) (cl_resource cl) (cl_ttl cl) 0 (case cl_retries cl of None \<Rightarrow> 0 | Some m \<Rightarrow> m) = None
    \<Longrightarrow> cl_value cl \<notin> rd_used s \<Longrightarrow> cl_started cl = rd_now s
    \<Longrightarrow> rd_step oor s ((rd_move i (RdSetting cl 0 (rd_now s) 0 0 None) (rd_rl s) (rd_net s) s)
          \<lparr>rd_used := insert (cl_value cl) (rd_used s)\<rparr>)"
| set: "at_pc s i (RdSetting cl a start k n e) \<Longrightarrow> k < rd_n s
    \<Longrightarrow> set_one c (cl_resource cl) (cl_value cl) (cl_ttl cl) (rd_cl s k) ((n, e), rd_net s) = ((n', e'), net)
    \<Longrightarrow> rd_step oor s (rd_move i (RdSetting cl a start (Suc k) n' e') (rd_rl s) net s)"
| acquired: "at_pc s i (RdSetting cl a start k n e) \<Longrightarrow> k = rd_n s
    \<Longrightarrow> acquire_decide oor (cl_resource cl) (cl_value cl) (cl_ttl cl) (rd_rl s) start n e (rd_now s) = Inr l
    \<Longrightarrow> rl = (if cl_retries cl = None then rd_rl s
              else count_acquired (time_sub (rd_now s) (cl_started cl)) (rd_rl s))
    \<Longrightarrow> rd_step oor s (rd_move i (RdHolding l) rl (rd_net s) s)"
| refused: "at_pc s i (RdSetting cl a start k n e) \<Longrightarrow> k = rd_n s
    \<Longrightarrow> acquire_decide oor (cl_resource cl) (cl_value cl) (cl_ttl cl) (rd_rl s) start n e (rd_now s) = Inl err
    \<Longrightarrow> rd_step oor s (rd_move i (RdReleasing cl a 0) (rd_rl s) (rd_net s) s)"
| release: "at_pc s i (RdReleasing cl a k) \<Longrightarrow> k < rd_n s
    \<Longrightarrow> release_one c (cl_resource cl) (cl_value cl) (rd_cl s k) (0, rd_net s) = (m, net)
    \<Longrightarrow> rd_step oor s (rd_move i (RdReleasing cl a (Suc k)) (rd_rl s) net s)"
| failed: "at_pc s i (RdReleasing cl a k) \<Longrightarrow> k = rd_n s
    \<Longrightarrow> rd_step oor s (rd_move i
          (if cl_retries cl = None \<or> cl_retries cl = Some a then RdIdle else RdWaiting cl a)
          (if cl_retries cl = None then rd_rl s else count_failed (rd_rl s)) (rd_net s) s)"
| retry: "at_pc s i (RdWaiting cl a)
    \<Longrightarrow> rd_step oor s (rd_move i (RdSetting cl (a + 1) (rd_now s) 0 0 None) (rd_rl s) (rd_net s) s)"
| cancelled: "at_pc s i (RdWaiting cl a) \<Longrightarrow> rd_step oor s (rd_move i RdIdle (rd_rl s) (rd_net s) s)"
| unlock: "at_pc s i (RdHolding l)
    \<Longrightarrow> rd_step oor s (rd_move i (RdUnlocking (l\<lparr>lk_acquired := False\<rparr>) 0 0) (rd_rl s) (rd_net s) s)"
| unlock_one: "at_pc s i (RdUnlocking l k n) \<Longrightarrow> k < rd_n s
    \<Longrightarrow> release_one c (lk_resource l) (lk_value l) (rd_cl s k) (n, rd_net s) = (n', net)
    \<Longrightarrow> rd_step oor s (rd_move i (RdUnlocking l (Suc k) n') (rd_rl s) net s)"
| unlocked: "at_pc s i (RdUnlocking l k n) \<Longrightarrow> k = rd_n s
    \<Longrightarrow> rd_step oor s (rd_move i RdIdle (snd (unlock_finish n (rd_rl s))) (rd_net s) s)"
| extend: "at_pc s i (RdHolding l) \<Longrightarrow> validateTTL ttl = None
    \<Longrightarrow> rd_step oor s (rd_move i (RdExtending l ttl 0 0) (rd_rl s) (rd_net s) s)"
| extend_one: "at_pc s i (RdExtending l ttl k n) \<Longrightarrow> k < rd_n s
    \<Longrightarrow> extend_one c (lk_resource l) (lk_value l) (whole_seconds oor ttl) (rd_cl s k) (n, rd_net s) = (n', net)
    \<Longrightarrow> rd_step oor s ((rd_move i (RdExtending l ttl (Suc k) n') (rd_rl s) net s)
          \<lparr>rd_rough := rd_rough s \<or> \<not> gently (rd_now s) l ttl\<rparr>)"
| extended: "at_pc s i (RdExtending l ttl k n) \<Longrightarrow> k = rd_n s
    \<Longrightarrow> extend_finish ttl n l (rd_rl s) = (err, l', rl)
    \<Longrightarrow> rd_step oor s (rd_move i (RdHolding l') rl (rd_net s) s)"
| close: "rd_step oor s (s\<lparr>rd_rl := snd (Redlock_Close (rd_rl s))\<rparr>)"
| tick: "rd_step oor s (s\<lparr>rd_net := (rd_now s + int n, snd (rd_net s))\<rparr>)"

definition rd_start :: "nat \<Rightarrow> 'w Redlock \<Rightarrow> 'w net \<Rightarrow> 'w rd_sys" where
  "rd_start procs rl net =
     \<lparr>rd_rl = rl, rd_pcs = replicate procs RdIdle, rd_net = net, rd_used = {}, rd_rough = False\<rparr>"

inductive rd_reach :: "(float64 \<Rightarrow> int) \<Rightarrow> 'w Config \<Rightarrow> 'w rd_sys \<Rightarrow> bool" for oor config where
  init: "NewRedlock (Some config) = Inr rl \<Longrightarrow> rd_reach oor config (rd_start procs rl net)"
| step: "rd_reach oor config s \<Longrightarrow> rd_step oor s s' \<Longrightarrow> rd_reach oor config s'"

text \<open>The lock a process has in its hands.\<close>

fun lock_of :: "rd_pc \<Rightarrow> Lock option" where
  "lock_of (RdHolding l) = Some l"
| "lock_of (RdExtending l _ _ _) = Some l"
| "lock_of _ = None"

text \<open>It holds the lock: it was acquired, not released, and the code does not call it expired.\<close>

definition holds :: "'w rd_sys \<Rightarrow> nat \<Rightarrow> Lock \<Rightarrow> bool" where
  "holds s i l \<longleftrightarrow> i < length (rd_pcs s) \<and> lock_of (rd_pcs s ! i) = Some l
     \<and> Lock_IsAcquired l \<and> \<not> Lock_IsExpired (rd_now s) l"

section \<open>The validity of a lock\<close>

text \<open>The configuration is fixed but for the flag and the counters.\<close>

lemma upd_lm_simps [record_laws]:
  "rl_clients (upd_lm f rl) = rl_clients rl" "rl_quorum (upd_lm f rl) = rl_quorum rl"
  "rl_driftFactor (upd_lm f rl) = rl_driftFactor rl" "rl_metrics (upd_lm f rl) = map_option f (rl_metrics rl)"
  "rl_closed (upd_lm f rl) = rl_closed rl" "rl_maxRetries (upd_lm f rl) = rl_maxRetries rl"
  by (simp_all add: upd_lm_def)

definition same_lock_core :: "'w Redlock \<Rightarrow> 'w Redlock \<Rightarrow> bool" where
  "same_lock_core rl rl' \<longleftrightarrow> rl_clients rl' = rl_clients rl \<and> rl_quorum rl' = rl_quorum rl
     \<and> rl_driftFactor rl' = rl_driftFactor rl"

lemma same_lock_core_intros [intro, simp]:
  "same_lock_core rl rl" "same_lock_core rl (count_acquired d rl)" "same_lock_core rl (count_failed rl)"
  "same_lock_core rl (snd (unlock_finish n rl))" "same_lock_core rl (snd (Redlock_Close rl))"
  by (auto simp: same_lock_core_def count_acquired_def count_failed_def unlock_finish_def count_release_def
      Redlock_Close_def record_laws)

lemma extend_finish_cases:
  assumes "extend_finish ttl n l rl = (err, l', rl')"
  shows "same_lock_core rl rl'"
    and "l' = l \<or> rl_quorum rl \<le> int n \<and> l' = l\<lparr>lk_ttl := ttl\<rparr>"
  using assms by (auto simp: extend_finish_def same_lock_core_def count_extension_def record_laws split: if_splits)

text \<open>A valid drift factor takes at least a nanosecond off, and no more than the time to live.\<close>

definition drift_ok :: "'w Redlock \<Rightarrow> bool" where
  "drift_ok rl \<longleftrightarrow> rl_driftFactor rl \<noteq> NaN \<and> f_le MinDriftFactorLimitRedlock (rl_driftFactor rl)
     \<and> f_le (rl_driftFactor rl) MaxDriftFactorLimitRedlock"

lemma drift_bounds:
  assumes "drift_ok rl" and "validateTTL ttl = None"
  shows "1 \<le> drift_time oor ttl rl \<and> drift_time oor ttl rl \<le> ttl"
proof -
  have t: "1000000 \<le> ttl" "ttl \<le> 86400000000000"
    using assms(2) by (auto simp: validateTTL_def redlock_limits split: if_splits)
  have fe: "fl (1 / 2 ^ 10) = Fin (1 / 2 ^ 10)" "fl (1 / 2 ^ 3) = Fin (1 / 2 ^ 3)"
    using representable_dyadic [of 1 10] representable_dyadic [of 1 3] by (auto intro!: fl_representable)
  have m: "f_le (Fin (1 / 2 ^ 10)) MinDriftFactorLimitRedlock" "f_le MaxDriftFactorLimitRedlock (Fin (1 / 2 ^ 3))"
    unfolding fe [symmetric] MinDriftFactorLimitRedlock_def MaxDriftFactorLimitRedlock_def by (auto intro!: fl_mono)
  have "f_le (Fin (1 / 2 ^ 10)) (rl_driftFactor rl)" "f_le (rl_driftFactor rl) (Fin (1 / 2 ^ 3))"
    using assms(1) f_le_Fin_trans [OF m(1)] f_le_Fin_trans [OF _ m(2)] by (auto simp: drift_ok_def)
  then obtain p where p: "rl_driftFactor rl = Fin p" "1 / 2 ^ 10 \<le> p" "p \<le> 1 / 2 ^ 3"
    by (cases "rl_driftFactor rl") auto
  let ?q = "of_int ttl * p"
  have t0: "(0::rat) \<le> of_int ttl" using t by simp
  have lo: "of_int 1 \<le> ?q"
  proof -
    have "of_int 1000000 \<le> (of_int ttl :: rat)" using t(1) by (intro of_int_le_iff [THEN iffD2])
    then have "of_int 1000000 * (1 / 2 ^ 10) \<le> ?q" using p(2) t0 by (intro mult_mono) auto
    then show ?thesis by simp
  qed
  have hi: "?q \<le> of_int ttl / 2 ^ 3" using mult_left_mono [OF p(3) t0] by simp
  have hi2: "?q \<le> of_int ttl" using hi t0 by simp
  have "(of_int ttl :: rat) \<le> 2 ^ 100" using t(2) order_trans [of "of_int ttl" "of_int 86400000000000" "2 ^ 100 :: rat"] by simp
  then have "fl ?q = Fin (flr ?q)" using lo hi2 by (intro fl_small small_powi_1023) auto
  moreover have "f_of_int ttl = Fin (of_int ttl)" using t by (intro f_of_int_exact) auto
  ultimately have d: "drift_time oor ttl rl = f_to_int64 oor (Fin (flr ?q))" by (simp add: drift_time_def p(1))
  have r: "of_int 1 \<le> flr ?q" "flr ?q \<le> of_int ttl"
    using lo hi2 t by (auto intro!: flr_ge_representable flr_le_representable representable_int simp del: of_int_1)
  then have "1 \<le> rat_trunc (flr ?q)" "rat_trunc (flr ?q) \<le> ttl"
    by (auto simp: rat_trunc_def le_floor_iff floor_le_iff)
  with t show ?thesis by (simp add: d Let_def min_int64_def max_int64_def)
qed

text \<open>A lock ends before the servers may forget it.\<close>

lemma decide_validity:
  assumes "acquire_decide oor res v ttl rl start n e now = Inr l" and "drift_ok rl" and "validateTTL ttl = None"
    and "start \<le> now"
  shows "lk_resource l = res" "lk_value l = v" "lk_created l = now" "lk_acquired l" "0 < lk_ttl l"
    "lk_created l + lk_ttl l + 1 \<le> start + ttl" "rl_quorum rl \<le> int n" "lk_ttl l \<le> MaxTTLLimitRedlock"
proof -
  let ?d = "drift_time oor ttl rl" and ?t = "time_sub now start"
  have t: "1000000 \<le> ttl" "ttl \<le> 86400000000000"
    using assms(3) by (auto simp: validateTTL_def redlock_limits split: if_splits)
  have d: "1 \<le> ?d" "?d \<le> ttl" using drift_bounds [OF assms(2,3)] by auto
  have el: "0 \<le> ?t" "?t \<le> max_int64" "?t \<le> now - start"
    using assms(4) by (auto simp: time_sub_def sat64_def max_int64_def min_int64_def)
  then have "wrap64 (ttl - ?t) = ttl - ?t" using t by (intro wrap64_id) (auto simp: min_int64_def max_int64_def)
  moreover have "wrap64 (ttl - ?t - ?d) = ttl - ?t - ?d"
    using t d el by (intro wrap64_id) (auto simp: min_int64_def max_int64_def)
  ultimately have w: "wrap64 (wrap64 (ttl - ?t) - ?d) = ttl - ?t - ?d" by simp
  have l: "0 < ttl - ?t - ?d" "l = \<lparr>lk_resource = res, lk_value = v, lk_ttl = ttl - ?t - ?d, lk_acquired = True, lk_created = now\<rparr>"
    "rl_quorum rl \<le> int n"
    using assms(1) by (auto simp: acquire_decide_def Let_def w split: if_splits)
  show "lk_resource l = res" "lk_value l = v" "lk_created l = now" "lk_acquired l" "0 < lk_ttl l"
    "rl_quorum rl \<le> int n" "lk_ttl l \<le> MaxTTLLimitRedlock"
    using l t el d by (auto simp: redlock_limits)
  have "?t = now - start"
    using l(1) t d assms(4) by (auto simp: time_sub_def sat64_def max_int64_def min_int64_def split: if_splits)
  then show "lk_created l + lk_ttl l + 1 \<le> start + ttl" using l d by simp
qed

section \<open>The invariant\<close>

fun pc_value :: "rd_pc \<Rightarrow> string option" where
  "pc_value RdIdle = None"
| "pc_value (RdSetting cl _ _ _ _ _) = Some (cl_value cl)"
| "pc_value (RdReleasing cl _ _) = Some (cl_value cl)"
| "pc_value (RdWaiting cl _) = Some (cl_value cl)"
| "pc_value (RdHolding l) = Some (lk_value l)"
| "pc_value (RdExtending l _ _ _) = Some (lk_value l)"
| "pc_value (RdUnlocking l _ _) = Some (lk_value l)"

text \<open>At least \<open>m\<close> of the servers \<open>K\<close> back the value until \<open>t\<close>.\<close>

definition backed ::
    "('w \<Rightarrow> nat \<Rightarrow> store) \<Rightarrow> 'w net \<Rightarrow> nat set \<Rightarrow> nat \<Rightarrow> string \<Rightarrow> string \<Rightarrow> instant \<Rightarrow> bool" where
  "backed view net K m k v t \<longleftrightarrow> (\<exists>A\<subseteq>K. m \<le> card A \<and> (\<forall>j\<in>A. backs view net j k v t))"

text \<open>What the servers owe a process: a quorum of them to a lock, those already set to an attempt.\<close>

definition lock_backed :: "('w \<Rightarrow> nat \<Rightarrow> store) \<Rightarrow> 'w Redlock \<Rightarrow> 'w net \<Rightarrow> Lock \<Rightarrow> bool" where
  "lock_backed view rl net l \<longleftrightarrow> lk_created l \<le> fst net \<and> lk_ttl l \<le> MaxTTLLimitRedlock
     \<and> backed view net {..<length (rl_clients rl)} (nat (rl_quorum rl)) (lk_resource l) (lk_value l) (lk_created l + lk_ttl l + 1)"

fun pc_inv :: "('w \<Rightarrow> nat \<Rightarrow> store) \<Rightarrow> 'w Redlock \<Rightarrow> 'w net \<Rightarrow> rd_pc \<Rightarrow> bool" where
  "pc_inv view rl net (RdSetting cl _ start k m _) \<longleftrightarrow>
     validateTTL (cl_ttl cl) = None \<and> k \<le> length (rl_clients rl) \<and> start \<le> fst net
     \<and> backed view net {..<k} m (cl_resource cl) (cl_value cl) (start + cl_ttl cl)"
| "pc_inv view rl net (RdReleasing cl _ _) \<longleftrightarrow> validateTTL (cl_ttl cl) = None"
| "pc_inv view rl net (RdWaiting cl _) \<longleftrightarrow> validateTTL (cl_ttl cl) = None"
| "pc_inv view rl net (RdHolding l) \<longleftrightarrow> lock_backed view rl net l"
| "pc_inv view rl net (RdExtending l ttl k m) \<longleftrightarrow>
     lock_backed view rl net l \<and> validateTTL ttl = None \<and> k \<le> length (rl_clients rl)
     \<and> backed view net {..<k} m (lk_resource l) (lk_value l) (lk_created l + ttl + 1)"
| "pc_inv view rl net _ \<longleftrightarrow> True"

definition rd_inv :: "('w \<Rightarrow> nat \<Rightarrow> store) \<Rightarrow> 'w rd_sys \<Rightarrow> bool" where
  "rd_inv view s \<longleftrightarrow> drift_ok (rd_rl s)
     \<and> (\<forall>i<length (rd_pcs s). \<forall>v. pc_value (rd_pcs s ! i) = Some v \<longrightarrow> v \<in> rd_used s
          \<and> (\<forall>j<length (rd_pcs s). pc_value (rd_pcs s ! j) = Some v \<longrightarrow> j = i))
     \<and> (rd_rough s \<or> (\<forall>i<length (rd_pcs s). pc_inv view (rd_rl s) (rd_net s) (rd_pcs s ! i)))"

lemma backed_0 [simp]: "backed view net K 0 k v t"
  by (auto simp: backed_def)

lemma backed_mono:
  assumes "backed view net K m k v t" and "\<And>j. j \<in> K \<Longrightarrow> backs view net j k v t \<Longrightarrow> backs view net' j k v t'"
  shows "backed view net' K m k v t'"
  using assms unfolding backed_def by (meson subsetD)

lemma backed_more: "backed view net K m k v t \<Longrightarrow> K \<subseteq> K' \<Longrightarrow> m' \<le> m \<Longrightarrow> backed view net K' m' k v t"
  unfolding backed_def by (meson le_trans order_trans)

text \<open>One more server answers.\<close>

lemma backed_Suc:
  assumes "backed view net {..<j} m k v t" and "backs view net j k v t"
  shows "backed view net {..<Suc j} (Suc m) k v t"
proof -
  from assms(1) obtain A where a: "A \<subseteq> {..<j}" "m \<le> card A" "\<forall>i\<in>A. backs view net i k v t" by (auto simp: backed_def)
  have "finite A" "j \<notin> A" using a(1) finite_subset by auto
  then have "Suc m \<le> card (insert j A)" using a(2) by simp
  with a assms(2) show ?thesis unfolding backed_def by (intro exI [of _ "insert j A"]) auto
qed

lemma pc_inv_mono:
  assumes "pc_inv view rl net pc" and "same_lock_core rl rl'" and "fst net \<le> fst net'"
    and "\<And>v j k t. pc_value pc = Some v \<Longrightarrow> backs view net j k v t \<Longrightarrow> backs view net' j k v t"
  shows "pc_inv view rl' net' pc"
proof -
  have b: "backed view net K m k v t \<Longrightarrow> pc_value pc = Some v \<Longrightarrow> backed view net' K m k v t" for K m k v t
    by (erule backed_mono) (rule assms(4))
  have c: "rl_clients rl' = rl_clients rl" "rl_quorum rl' = rl_quorum rl"
    using assms(2) by (auto simp: same_lock_core_def)
  show ?thesis
    using assms(1,3) by (cases pc) (auto simp: c lock_backed_def intro: b)
qed

text \<open>One process moves: the values stay apart, and the others keep what the servers owe them.\<close>

text \<open>A process keeps its value, drops it, or draws a fresh one: values stay used and distinct.\<close>

lemma values_move:
  assumes inv: "rd_inv view s" and i: "i < length (rd_pcs s)"
    and s': "rd_pcs s' = (rd_pcs s)[i := pc]" "rd_used s \<subseteq> rd_used s'"
    and v: "pc_value pc = None \<or> pc_value pc = pc_value (rd_pcs s ! i)
       \<or> (\<exists>v. pc_value pc = Some v \<and> v \<notin> rd_used s \<and> v \<in> rd_used s')"
    and m: "m < length (rd_pcs s')" "pc_value (rd_pcs s' ! m) = Some u"
  shows "u \<in> rd_used s'" and "\<forall>j<length (rd_pcs s'). pc_value (rd_pcs s' ! j) = Some u \<longrightarrow> j = m"
proof -
  have old: "pc_value (rd_pcs s ! j) = Some u \<Longrightarrow> j < length (rd_pcs s) \<Longrightarrow> u \<in> rd_used s"
    "pc_value (rd_pcs s ! j) = Some u \<Longrightarrow> pc_value (rd_pcs s ! j') = Some u \<Longrightarrow> j < length (rd_pcs s)
       \<Longrightarrow> j' < length (rd_pcs s) \<Longrightarrow> j = j'" for j j' u
    using inv unfolding rd_inv_def by blast+
  show "u \<in> rd_used s'" using m v old(1) s' i by (cases "m = i") auto
  have clash: False
    if q: "q \<noteq> i" "q < length (rd_pcs s)" "pc_value (rd_pcs s ! q) = Some u" "pc_value pc = Some u" for q
    using v
  proof (elim disjE exE conjE)
    assume "pc_value pc = pc_value (rd_pcs s ! i)"
    then show False using old(2) [of i u q] q i by auto
  next
    fix w
    assume "pc_value pc = Some w" "w \<notin> rd_used s"
    then show False using old(1) [of q u] q by auto
  qed (use q in simp)
  show "\<forall>j<length (rd_pcs s'). pc_value (rd_pcs s' ! j) = Some u \<longrightarrow> j = m"
  proof (intro allI impI, rule ccontr)
    fix j
    assume j: "j < length (rd_pcs s')" "pc_value (rd_pcs s' ! j) = Some u" "j \<noteq> m"
    consider "m = i" | "j = i" | "m \<noteq> i" "j \<noteq> i" by blast
    then show False
    proof cases
      case 1
      then show ?thesis using clash [of j] j m(2) s'(1) i by simp
    next
      case 2
      then show ?thesis using clash [of m] j m s'(1) i by simp
    next
      case 3
      then show ?thesis using old(2) [of j u m] j m s'(1) by simp
    qed
  qed
qed

lemma rd_inv_move:
  assumes inv: "rd_inv view s" and i: "i < length (rd_pcs s)"
    and s': "rd_pcs s' = (rd_pcs s)[i := pc]" "same_lock_core (rd_rl s) (rd_rl s')" "rd_used s \<subseteq> rd_used s'"
      "\<not> rd_rough s' \<Longrightarrow> \<not> rd_rough s"
    and v: "pc_value pc = None \<or> pc_value pc = pc_value (rd_pcs s ! i)
       \<or> (\<exists>v. pc_value pc = Some v \<and> v \<notin> rd_used s \<and> v \<in> rd_used s')"
    and f: "fst (rd_net s) \<le> fst (rd_net s')"
      "\<And>v j k t. pc_value (rd_pcs s ! i) \<noteq> Some v \<Longrightarrow> backs view (rd_net s) j k v t \<Longrightarrow> backs view (rd_net s') j k v t"
    and pc: "\<not> rd_rough s' \<Longrightarrow> pc_inv view (rd_rl s) (rd_net s) (rd_pcs s ! i) \<Longrightarrow> pc_inv view (rd_rl s) (rd_net s') pc"
  shows "rd_inv view s'"
proof -
  have d: "drift_ok (rd_rl s')" using inv s'(2) by (auto simp: rd_inv_def drift_ok_def same_lock_core_def)
  note vals = values_move [OF inv i s'(1,3) v]
  have "pc_inv view (rd_rl s') (rd_net s') (rd_pcs s' ! m)" if r: "\<not> rd_rough s'" and m: "m < length (rd_pcs s')" for m
  proof -
    have old: "pc_inv view (rd_rl s) (rd_net s) (rd_pcs s ! m)" "m < length (rd_pcs s)"
      using inv s'(4) [OF r] m s'(1) by (auto simp: rd_inv_def)
    show ?thesis
    proof (cases "m = i")
      case True
      have "pc_inv view (rd_rl s) (rd_net s') pc" using pc [OF r] old(1) True by simp
      then have "pc_inv view (rd_rl s') (rd_net s') pc" using s'(2) by (rule pc_inv_mono) auto
      then show ?thesis using True s'(1) i by simp
    next
      case False
      have "pc_inv view (rd_rl s') (rd_net s') (rd_pcs s ! m)"
        using old(1) s'(2) f(1)
      proof (rule pc_inv_mono)
        fix v j k t
        assume "pc_value (rd_pcs s ! m) = Some v" and b: "backs view (rd_net s) j k v t"
        then have "pc_value (rd_pcs s ! i) \<noteq> Some v" using False i old(2) inv unfolding rd_inv_def by blast
        then show "backs view (rd_net s') j k v t" using b by (rule f(2))
      qed
      then show ?thesis using False s'(1) by simp
    qed
  qed
  with d vals show ?thesis unfolding rd_inv_def by blast
qed

section \<open>Every step keeps it\<close>

lemma frame_later: "frame_for view j v net net' \<Longrightarrow> fst net \<le> fst net'"
  by (simp add: frame_for_def)

lemma frame_others: "frame_for view j v net net' \<Longrightarrow> u \<noteq> v \<Longrightarrow> backs view net i k u t \<Longrightarrow> backs view net' i k u t"
  by (auto simp: frame_for_def)

lemma frame_servers: "frame_for view j v net net' \<Longrightarrow> i \<noteq> j \<Longrightarrow> backs view net i k u t \<Longrightarrow> backs view net' i k u t"
  by (auto simp: frame_for_def)

lemma set_one_effect:
  assumes "redis_like cs view" and "j < length cs" and "set_one c k v ttl (cs ! j) ((n, e), net) = ((n', e'), net')"
  shows "frame_for view j v net net'" "n' = n \<or> n' = Suc n \<and> backs view net' j k v (fst net + ttl)"
proof -
  obtain err where s: "lc_Set (cs ! j) (WithTimeout (fst net) (5 * Second) c) k v ttl net = (err, net')"
    "n' = (if err = None then n + 1 else n)"
    using assms(3) by (auto simp: set_one_def Let_def split: prod.splits if_splits)
  show "frame_for view j v net net'" by (rule Set_effect(1) [OF assms(1,2) s(1)])
  show "n' = n \<or> n' = Suc n \<and> backs view net' j k v (fst net + ttl)"
    using Set_effect(2) [OF assms(1,2) s(1)] s(2) by (auto simp: backs_def)
qed

lemma release_one_effect:
  assumes "redis_like cs view" and "j < length cs" and "release_one c k v (cs ! j) (n, net) = (n', net')"
  shows "frame_for view j v net net'"
proof -
  obtain r where "lc_Eval (cs ! j) (WithTimeout (fst net) (2 * Second) c) release_script [k] [ArgString v] net = (r, net')"
    using assms(3) by (auto simp: release_one_def Redlock_releaseLockWithTimeout_def Let_def
        split: prod.splits sum.splits if_splits)
  then show ?thesis by (rule release_effect [OF assms(1,2)])
qed

lemma extend_one_effect:
  assumes "redis_like cs view" and "j < length cs" and "extend_one c k v secs (cs ! j) (n, net) = (n', net')"
  shows "frame_for view j v net net'"
    and "0 < secs \<Longrightarrow> n' = n \<or> n' = Suc n \<and> backs view net' j k v (fst net + secs * Second)"
    and "0 < secs \<Longrightarrow> t \<le> fst net + secs * Second \<Longrightarrow> backs view net i k v t \<Longrightarrow> backs view net' i k v t"
proof -
  obtain r where s: "lc_Eval (cs ! j) (WithTimeout (fst net) (5 * Second) c) extend_script [k]
      [ArgString v, ArgInt secs] net = (r, net')" "n' = (if r = Inr (IntReply 1) then n + 1 else n)"
    using assms(3) by (auto simp: extend_one_def Let_def split: prod.splits if_splits)
  note e = extend_effect [OF assms(1,2) s(1)]
  show "frame_for view j v net net'" by (rule e(1))
  show "n' = n \<or> n' = Suc n \<and> backs view net' j k v (fst net + secs * Second)" if "0 < secs"
    using e(2) [OF that] s(2) by (auto simp: backs_def)
  show "backs view net' i k v t" if "0 < secs" "t \<le> fst net + secs * Second" "backs view net i k v t"
    using e(3) [OF that(1) _ that(2)] frame_servers [OF e(1), of i k v t] that(3) by (cases "i = j") auto
qed

lemma whole_seconds_exact:
  assumes "validateTTL ttl = None" and "ttl mod Second = 0"
  shows "whole_seconds oor ttl * Second = ttl" "0 < whole_seconds oor ttl"
proof -
  have t: "1000000 \<le> ttl" "ttl \<le> 86400000000000"
    using assms(1) by (auto simp: validateTTL_def redlock_limits split: if_splits)
  obtain m where m: "ttl = m * Second" using assms(2) by (auto simp: mod_eq_0_iff_dvd mult.commute elim: dvdE)
  then have "0 < m" "m < 2 ^ 53" using t by auto
  then have "whole_seconds oor ttl = m"
    unfolding whole_seconds_def m using seconds_whole [of m] by (simp add: rat_trunc_def min_int64_def max_int64_def)
  with m \<open>0 < m\<close> show "whole_seconds oor ttl * Second = ttl" "0 < whole_seconds oor ttl" by auto
qed

lemma rd_inv_extend_one:
  assumes like: "redis_like (rl_clients rl) view" and k: "k < length (rl_clients rl)"
    and e: "extend_one c (lk_resource l) (lk_value l) (whole_seconds oor ttl) (rl_clients rl ! k) (n, net) = (n', net')"
    and g: "gently (fst net) l ttl" and inv: "pc_inv view rl net (RdExtending l ttl k n)"
  shows "pc_inv view rl net' (RdExtending l ttl (Suc k) n')"
proof -
  have v: "validateTTL ttl = None" using inv by simp
  have secs: "whole_seconds oor ttl * Second = ttl" "0 < whole_seconds oor ttl"
    using whole_seconds_exact [OF v] g by (auto simp: gently_def)
  note eff = extend_one_effect [OF like k e]
  have later: "fst net \<le> fst net'" by (rule frame_later [OF eff(1)])
  have ends: "lk_created l + lk_ttl l + 1 \<le> fst net + ttl" "lk_created l + ttl + 1 \<le> fst net + ttl"
    using g by (auto simp: gently_def)
  have lb: "lock_backed view rl net' l"
    using inv later eff(3) [OF secs(2), of "lk_created l + lk_ttl l + 1"] ends(1) secs(1)
    by (auto simp: lock_backed_def intro: backed_mono)
  have b: "backed view net' {..<k} n (lk_resource l) (lk_value l) (lk_created l + ttl + 1)"
    using inv frame_servers [OF eff(1)] by (auto intro: backed_mono)
  have "backed view net' {..<Suc k} n' (lk_resource l) (lk_value l) (lk_created l + ttl + 1)"
    using eff(2) [OF secs(2)]
  proof (elim disjE conjE)
    assume "n' = n"
    then show ?thesis using b by (auto elim: backed_more)
  next
    assume n: "n' = Suc n" and e: "backs view net' k (lk_resource l) (lk_value l) (fst net + whole_seconds oor ttl * Second)"
    from e have "backs view net' k (lk_resource l) (lk_value l) (lk_created l + ttl + 1)"
      unfolding secs(1) using ends(2) by (rule backs_sooner)
    with n b show ?thesis by (simp add: backed_Suc)
  qed
  with lb show ?thesis using inv k by simp
qed

text \<open>What the three steps that touch the counted servers do to the process that takes them.\<close>

lemma pc_inv_set:
  assumes p: "pc_inv view (rd_rl s) (rd_net s) (RdSetting cl a st k n e)"
    and like: "redis_like (rl_clients (rd_rl s)) view" and k: "k < rd_n s"
    and one: "set_one c (cl_resource cl) (cl_value cl) (cl_ttl cl) (rd_cl s k) ((n, e), rd_net s) = ((n', e'), net)"
  shows "pc_inv view (rd_rl s) net (RdSetting cl a st (Suc k) n' e')"
proof -
  note eff = set_one_effect [OF like k one]
  from p have p: "validateTTL (cl_ttl cl) = None" "st \<le> rd_now s"
    "backed view (rd_net s) {..<k} n (cl_resource cl) (cl_value cl) (st + cl_ttl cl)" by auto
  from p(3) have b: "backed view net {..<k} n (cl_resource cl) (cl_value cl) (st + cl_ttl cl)"
    by (rule backed_mono) (auto intro: frame_servers [OF eff(1)])
  have "backed view net {..<Suc k} n' (cl_resource cl) (cl_value cl) (st + cl_ttl cl)"
    using eff(2)
  proof (elim disjE conjE)
    assume n: "n' = Suc n" and "backs view net k (cl_resource cl) (cl_value cl) (rd_now s + cl_ttl cl)"
    then have "backs view net k (cl_resource cl) (cl_value cl) (st + cl_ttl cl)"
      using p(2) by (auto elim: backs_sooner)
    with b n show ?thesis by (simp add: backed_Suc)
  qed (use b in \<open>auto elim: backed_more\<close>)
  then show ?thesis using p frame_later [OF eff(1)] k by simp
qed

lemma pc_inv_acquired:
  assumes p: "pc_inv view (rd_rl s) (rd_net s) (RdSetting cl a st k n e)" and "drift_ok (rd_rl s)" and k: "k = rd_n s"
    and "acquire_decide oor (cl_resource cl) (cl_value cl) (cl_ttl cl) (rd_rl s) st n e (rd_now s) = Inr l"
  shows "lk_value l = cl_value cl \<and> pc_inv view (rd_rl s) (rd_net s) (RdHolding l)"
proof -
  from p have p: "validateTTL (cl_ttl cl) = None" "st \<le> rd_now s"
    "backed view (rd_net s) {..<k} n (cl_resource cl) (cl_value cl) (st + cl_ttl cl)" by auto
  note d = decide_validity [OF assms(4,2) p(1,2)]
  have "backed view (rd_net s) {..<k} n (cl_resource cl) (cl_value cl) (lk_created l + lk_ttl l + 1)"
    using p(3) d(6) by (auto elim: backed_mono intro: backs_sooner)
  then have "backed view (rd_net s) {..<k} (nat (rl_quorum (rd_rl s))) (cl_resource cl) (cl_value cl)
      (lk_created l + lk_ttl l + 1)"
    by (rule backed_more) (use d(7) in auto)
  with d k show ?thesis by (simp add: lock_backed_def)
qed

lemma pc_inv_extended:
  assumes p: "pc_inv view (rd_rl s) (rd_net s) (RdExtending l ttl k n)" and k: "k = rd_n s"
    and fin: "extend_finish ttl n l (rd_rl s) = (err, l', rl)"
  shows "pc_inv view (rd_rl s) (rd_net s) (RdHolding l')"
  using extend_finish_cases(2) [OF fin]
proof (elim disjE conjE)
  assume q: "rl_quorum (rd_rl s) \<le> int n" "l' = l\<lparr>lk_ttl := ttl\<rparr>"
  have "backed view (rd_net s) {..<k} n (lk_resource l) (lk_value l) (lk_created l + ttl + 1)" using p by simp
  then have "backed view (rd_net s) {..<k} (nat (rl_quorum (rd_rl s))) (lk_resource l) (lk_value l) (lk_created l + ttl + 1)"
    by (rule backed_more) (use q in auto)
  moreover have "ttl \<le> MaxTTLLimitRedlock" using p by (auto simp: validateTTL_def split: if_splits)
  ultimately show ?thesis using p q k by (simp add: lock_backed_def)
qed (use p in simp)

lemma rd_inv_step:
  assumes "rd_step oor s s'" and inv: "rd_inv view s" and like: "redis_like (rl_clients (rd_rl s)) view"
  shows "rd_inv view s'"
  using assms(1)
proof cases
  case (start i c cl)
  have "validateTTL (cl_ttl cl) = None"
    using start by (auto simp: validateLockInputs_def split: option.splits if_splits)
  then show ?thesis unfolding start(1)
    by (intro rd_inv_move [OF inv, where i = i]) (use start in auto)
next
  case (set i cl a st k n e c n' e' net)
  note eff = set_one_effect [OF like set(3,4)]
  have "pc_inv view (rd_rl s) net (RdSetting cl a st (Suc k) n' e')"
    if "pc_inv view (rd_rl s) (rd_net s) (RdSetting cl a st k n e)"
    by (rule pc_inv_set [OF that like set(3,4)])
  then show ?thesis unfolding set(1)
    by (intro rd_inv_move [OF inv, where i = i]) (use set frame_later [OF eff(1)] frame_others [OF eff(1)] in auto)
next
  case (acquired i cl a st k n e l rl)
  have "drift_ok (rd_rl s)" using inv by (simp add: rd_inv_def)
  then have "lk_value l = cl_value cl \<and> pc_inv view (rd_rl s) (rd_net s) (RdHolding l)"
    if "pc_inv view (rd_rl s) (rd_net s) (RdSetting cl a st k n e)"
    using pc_inv_acquired [OF that _ acquired(3,4)] by blast
  moreover have "lk_value l = cl_value cl"
    using acquired(4) by (auto simp: acquire_decide_def Let_def split: if_splits)
  ultimately show ?thesis unfolding acquired(1)
    by (intro rd_inv_move [OF inv, where i = i]) (use acquired in auto)
next
  case (release i cl a k c m net)
  note eff = release_one_effect [OF like release(3,4)]
  show ?thesis unfolding release(1)
    by (rule rd_inv_move [OF inv, where i = i]) (use release frame_later [OF eff] frame_others [OF eff] in auto)
next
  case (failed i cl a k)
  then show ?thesis by (intro rd_inv_move [OF inv, where i = i]) (auto split: if_splits)
next
  case (unlock_one i l k n c n' net)
  note eff = release_one_effect [OF like unlock_one(3,4)]
  show ?thesis unfolding unlock_one(1)
    by (rule rd_inv_move [OF inv, where i = i]) (use unlock_one frame_later [OF eff] frame_others [OF eff] in auto)
next
  case (extend_one i l ttl k n c n' net)
  note eff = extend_one_effect(1) [OF like extend_one(3,4)]
  show ?thesis unfolding extend_one(1)
    by (rule rd_inv_move [OF inv, where i = i])
      (use extend_one frame_later [OF eff] frame_others [OF eff] rd_inv_extend_one [OF like extend_one(3,4)] in auto)
next
  case (extended i l ttl k n err l' rl)
  note f = extend_finish_cases [OF extended(4)]
  have "pc_inv view (rd_rl s) (rd_net s) (RdHolding l')"
    if "pc_inv view (rd_rl s) (rd_net s) (RdExtending l ttl k n)"
    by (rule pc_inv_extended [OF that extended(3,4)])
  moreover have "lk_value l' = lk_value l" using f(2) by auto
  ultimately show ?thesis unfolding extended(1)
    by (intro rd_inv_move [OF inv, where i = i]) (use extended f(1) in auto)
next
  case (refused i cl a st k n e err)
  then show ?thesis by (intro rd_inv_move [OF inv, where i = i]) auto
next
  case (retry i cl a)
  then show ?thesis by (intro rd_inv_move [OF inv, where i = i]) auto
next
  case (cancelled i cl a)
  then show ?thesis by (intro rd_inv_move [OF inv, where i = i]) auto
next
  case (unlock i l)
  then show ?thesis by (intro rd_inv_move [OF inv, where i = i]) auto
next
  case (unlocked i l k n)
  then show ?thesis by (intro rd_inv_move [OF inv, where i = i]) auto
next
  case (extend i l ttl)
  then show ?thesis by (intro rd_inv_move [OF inv, where i = i]) auto
next
  case close
  have c: "same_lock_core (rd_rl s) (snd (Redlock_Close (rd_rl s)))" by simp
  then have "drift_ok (snd (Redlock_Close (rd_rl s))) = drift_ok (rd_rl s)" by (simp add: drift_ok_def same_lock_core_def)
  moreover have "pc_inv view (snd (Redlock_Close (rd_rl s))) (rd_net s) pc" if "pc_inv view (rd_rl s) (rd_net s) pc" for pc
    using that c by (rule pc_inv_mono) auto
  ultimately show ?thesis using inv unfolding rd_inv_def close by auto
next
  case (tick n)
  have "pc_inv view (rd_rl s) (rd_now s + int n, snd (rd_net s)) pc" if "pc_inv view (rd_rl s) (rd_net s) pc" for pc
    using that by (rule pc_inv_mono) (auto simp: backs_def)
  then show ?thesis using inv unfolding rd_inv_def tick by auto
qed

lemma rd_step_core: "rd_step oor s s' \<Longrightarrow> same_lock_core (rd_rl s) (rd_rl s')"
  by (induction rule: rd_step.induct) (auto dest: extend_finish_cases(1))

lemma rd_reach_inv:
  assumes "rd_reach oor config s" and "redis_like (map the (cf_Clients config)) view" and "cf_DriftFactor config \<noteq> NaN"
  shows "rd_inv view s \<and> rl_clients (rd_rl s) = map the (cf_Clients config)
    \<and> rl_quorum (rd_rl s) = (if cf_Quorum config = 0 then int (length (cf_Clients config)) div 2 + 1 else cf_Quorum config)"
  using assms(1)
proof (induction rule: rd_reach.induct)
  case (init rl procs net)
  have v: "validateRedlockConfig (Some config) = None"
    using init by (auto simp: NewRedlock_def split: option.splits)
  then have "validateRedlockConfig (Some (applyRedlockDefaults config)) = None" by (rule rlc.defaults_valid)
  moreover have "cf_Quorum (applyRedlockDefaults config) = cf_Quorum config"
    "cf_Clients (applyRedlockDefaults config) = cf_Clients config"
    by (auto simp: applyRedlockDefaults_def Let_def)
  moreover have "cf_DriftFactor (applyRedlockDefaults config) \<noteq> NaN"
    using assms(3) by (auto simp: applyRedlockDefaults_def Let_def DefaultDriftFactorRedlock_def fl_def)
  moreover have "MinDriftFactorLimitRedlock \<noteq> NaN" "MaxDriftFactorLimitRedlock \<noteq> NaN"
    by (auto simp: MinDriftFactorLimitRedlock_def MaxDriftFactorLimitRedlock_def fl_def Let_def)
  ultimately show ?case
    using init v by (auto simp: NewRedlock_def Let_def rd_inv_def rd_start_def drift_ok_def
        validateRedlockConfig_def intro!: f_not_lt_le split: if_splits)
next
  case (step s s')
  then show ?case using rd_inv_step [OF step(2)] rd_step_core [OF step(2)] assms(2) by (simp add: same_lock_core_def)
qed

end
