(* ===== verification/RedlockProps.thy ===== *)
theory RedlockProps
  imports RedlockSystem
begin

text \<open>
  The properties of the distributed lock: mutual exclusion and the ways it can be lost, what a failed
  attempt leaves behind, retries and their counts, and the validity of a lock.
\<close>

section \<open>Servers in memory\<close>

text \<open>Clients of servers that answer at once, for the witnesses.\<close>

fun int_reply :: "lua_val \<Rightarrow> reply" where
  "int_reply LuaFalse = NilReply"
| "int_reply (LuaStr _) = OtherReply"
| "int_reply (LuaInt n) = IntReply n"

definition mem_client :: "nat \<Rightarrow> (nat \<Rightarrow> store) LockClient" where
  "mem_client j =
     \<lparr>lc_Set = (\<lambda>c k v ttl (now, w).
        if live now (w j) k = None then (None, now, w(j := (w j)(k \<mapsto> (v, now + ttl))))
        else (Some (ErrText ''not stored''), now, w)),
      lc_Del = (\<lambda>c k (now, w). (None, now, w(j := (w j)(k := None)))),
      lc_Get = (\<lambda>c k (now, w). (case live now (w j) k of None \<Rightarrow> Inl (ErrText ''no key'') | Some v \<Rightarrow> Inr v, now, w)),
      lc_Eval = (\<lambda>c s ks as (now, w).
        (case run_script now s ks as (w j) of (x, st) \<Rightarrow> (Inr (int_reply x), now, w(j := st))))\<rparr>"

definition mem_clients :: "nat \<Rightarrow> (nat \<Rightarrow> store) LockClient list" where
  "mem_clients n = map mem_client [0..<n]"

lemma length_mem_clients [simp]: "length (mem_clients n) = n"
  by (simp add: mem_clients_def)

lemma mem_redis_like: "redis_like (mem_clients n) (\<lambda>w. w)"
proof -
  have "reply_ok x (int_reply x)" for x by (cases x) auto
  then show ?thesis
    by (auto simp: redis_like_def mem_clients_def mem_client_def set_effect_def eval_effect_def split: prod.splits if_splits)
qed

text \<open>A configuration with \<open>n\<close> of them, quorum \<open>q\<close> and drift factor \<open>1/64\<close>.\<close>

definition mem_config :: "nat \<Rightarrow> int \<Rightarrow> (nat \<Rightarrow> store) Config" where
  "mem_config n q = \<lparr>cf_Clients = map Some (mem_clients n), cf_Quorum = q, cf_RetryDelay = Second, cf_MaxRetries = 3,
     cf_DriftFactor = Fin (1 / 2 ^ 6), cf_EnableMetrics = False\<rparr>"

definition mem_redlock :: "nat \<Rightarrow> int \<Rightarrow> (nat \<Rightarrow> store) Redlock" where
  "mem_redlock n q = \<lparr>rl_clients = mem_clients n, rl_quorum = q, rl_retryDelay = Second, rl_maxRetries = 3,
     rl_driftFactor = Fin (1 / 2 ^ 6), rl_closed = False, rl_metrics = None\<rparr>"

lemma mem_drift:
  "f_le MinDriftFactorLimitRedlock (Fin (1 / 2 ^ 6))" "f_le (Fin (1 / 2 ^ 6)) MaxDriftFactorLimitRedlock"
proof -
  have "fl (1 / 2 ^ 6) = Fin (1 / 2 ^ 6)" using representable_dyadic [of 1 6] by (intro fl_representable) auto
  moreover have "f_le (fl (1 / 1000)) (fl (1 / 2 ^ 6))" "f_le (fl (1 / 2 ^ 6)) (fl (1 / 10))" by (auto intro!: fl_mono)
  ultimately show "f_le MinDriftFactorLimitRedlock (Fin (1 / 2 ^ 6))" "f_le (Fin (1 / 2 ^ 6)) MaxDriftFactorLimitRedlock"
    unfolding MinDriftFactorLimitRedlock_def MaxDriftFactorLimitRedlock_def by metis+
qed

lemma mem_new:
  assumes "0 < n" and "0 < q" and "q \<le> int n"
  shows "NewRedlock (Some (mem_config n q)) = Inr (mem_redlock n q)"
proof -
  have "\<not> f_le (Fin (1 / 2 ^ 6)) (Fin 0)" by simp
  moreover have "map Some (mem_clients n) \<noteq> []" using assms(1) by (simp add: mem_clients_def)
  moreover have "validateRedlockConfig (Some (mem_config n q)) = None"
    using calculation assms mem_drift [THEN f_le_not_lt]
    by (simp add: validateRedlockConfig_def mem_config_def redlock_limits mem_clients_def list_ex_iff)
  ultimately show ?thesis
    using assms by (simp add: NewRedlock_def applyRedlockDefaults_def mem_config_def mem_redlock_def Let_def comp_def)
qed

section \<open>Mutual exclusion\<close>



section \<open>Runs on one server\<close>

text \<open>A call for the resource \<open>r\<close> with the value \<open>v\<close>, for 64 seconds; a second later.\<close>

definition call_for :: "string \<Rightarrow> lock_call" where
  "call_for v = \<lparr>cl_resource = ''r'', cl_value = v, cl_ttl = 64 * Second, cl_retries = None, cl_started = 0\<rparr>"

definition lock_for :: "string \<Rightarrow> Lock" where
  "lock_for v = \<lparr>lk_resource = ''r'', lk_value = v, lk_ttl = 63 * Second, lk_acquired = True, lk_created = 0\<rparr>"

lemma mem_drift_time: "drift_time oor (64 * Second) (mem_redlock n q) = Second"
proof -
  have "f_of_int (64 * Second) = Fin (of_int (64 * Second))" by (rule f_of_int_exact) simp
  moreover have "fl (of_int (64 * Second) * (1 / 2 ^ 6)) = f_of_int Second" by simp
  moreover have "f_of_int Second = Fin (of_int Second)" by (rule f_of_int_exact) simp
  ultimately show ?thesis
    by (simp add: drift_time_def mem_redlock_def rat_trunc_def min_int64_def max_int64_def)
qed

lemma mem_decide:
  "q \<le> int k \<Longrightarrow> acquire_decide oor ''r'' v (64 * Second) (mem_redlock n q) 0 k e 0 = Inr (lock_for v)"
  using mem_drift_time [of oor n q]
  by (simp add: acquire_decide_def Let_def mem_redlock_def time_sub_def sat64_def wrap64_def min_int64_def max_int64_def
      lock_for_def)

text \<open>Processes with \<open>n\<close> servers at time 0.\<close>

definition mem_sys :: "nat \<Rightarrow> int \<Rightarrow> rd_pc list \<Rightarrow> (nat \<Rightarrow> store) \<Rightarrow> string set \<Rightarrow> bool \<Rightarrow> (nat \<Rightarrow> store) rd_sys" where
  "mem_sys n q pcs w used rough =
     \<lparr>rd_rl = mem_redlock n q, rd_pcs = pcs, rd_net = (0, w), rd_used = used, rd_rough = rough\<rparr>"

lemma mem_reach:
  "0 < n \<Longrightarrow> 0 < q \<Longrightarrow> q \<le> int n
     \<Longrightarrow> rd_reach oor (mem_config n q) (mem_sys n q (replicate p RdIdle) w {} False)"
  using rd_reach.init [OF mem_new, of n q oor p "(0, w)"] by (simp add: rd_start_def mem_sys_def)

lemma mem_start:
  assumes "i < length pcs" and "pcs ! i = RdIdle" and "v \<notin> used"
  shows "rd_step oor (mem_sys n q pcs w used rough)
    (mem_sys n q (pcs[i := RdSetting (call_for v) 0 0 0 0 None]) w (insert v used) rough)"
  using rd_step.start [of i "mem_sys n q pcs w used rough" Background "call_for v" oor] assms
  by (simp add: mem_sys_def mem_redlock_def call_for_def validateLockInputs_def validateResource_def validateTTL_def
      redlock_limits)

lemma mem_set:
  assumes "i < length pcs" and "pcs ! i = RdSetting (call_for v) 0 0 k m e" and "k < n"
  shows "rd_step oor (mem_sys n q pcs w used rough)
    (case live 0 (w k) ''r'' of
       None \<Rightarrow> mem_sys n q (pcs[i := RdSetting (call_for v) 0 0 (Suc k) (Suc m) e])
         (w(k := (w k)(''r'' \<mapsto> (v, 64 * Second)))) used rough
     | Some _ \<Rightarrow> mem_sys n q (pcs[i := RdSetting (call_for v) 0 0 (Suc k) m (Some (ErrText ''not stored''))])
         w used rough)"
proof -
  have c: "rl_clients (mem_redlock n q) ! k = mem_client k" using assms(3) by (simp add: mem_redlock_def mem_clients_def)
  have s: "set_one Background ''r'' v (64 * Second) (mem_client k) ((m, e), 0, w) =
      (case live 0 (w k) ''r'' of
         None \<Rightarrow> ((Suc m, e), 0, w(k := (w k)(''r'' \<mapsto> (v, 64 * Second))))
       | Some _ \<Rightarrow> ((m, Some (ErrText ''not stored'')), 0, w))"
    by (simp add: set_one_def mem_client_def split: option.split)
  have k: "k < rd_n (mem_sys n q pcs w used rough)" using assms(3) by (simp add: mem_sys_def mem_redlock_def mem_clients_def)
  have pc: "at_pc (mem_sys n q pcs w used rough) i (RdSetting (call_for v) 0 0 k m e)"
    using assms by (simp add: mem_sys_def)
  show ?thesis
  proof (cases "live 0 (w k) ''r''")
    case None
    then have "set_one Background (cl_resource (call_for v)) (cl_value (call_for v)) (cl_ttl (call_for v))
        (rd_cl (mem_sys n q pcs w used rough) k) ((m, e), rd_net (mem_sys n q pcs w used rough))
      = ((Suc m, e), 0, w(k := (w k)(''r'' \<mapsto> (v, 64 * Second))))"
      using s by (simp add: mem_sys_def c call_for_def)
    from rd_step.set [OF pc k this, of oor] None show ?thesis by (simp add: mem_sys_def)
  next
    case (Some u)
    then have "set_one Background (cl_resource (call_for v)) (cl_value (call_for v)) (cl_ttl (call_for v))
        (rd_cl (mem_sys n q pcs w used rough) k) ((m, e), rd_net (mem_sys n q pcs w used rough))
      = ((m, Some (ErrText ''not stored'')), 0, w)"
      using s by (simp add: mem_sys_def c call_for_def)
    from rd_step.set [OF pc k this, of oor] Some show ?thesis by (simp add: mem_sys_def)
  qed
qed

lemma mem_acquired:
  assumes "i < length pcs" and "pcs ! i = RdSetting (call_for v) 0 0 n m e" and "q \<le> int m"
  shows "rd_step oor (mem_sys n q pcs w used rough) (mem_sys n q (pcs[i := RdHolding (lock_for v)]) w used rough)"
proof -
  let ?s = "mem_sys n q pcs w used rough"
  have pc: "at_pc ?s i (RdSetting (call_for v) 0 0 n m e)" using assms by (simp add: mem_sys_def)
  have n: "n = rd_n ?s" by (simp add: mem_sys_def mem_redlock_def)
  have d: "acquire_decide oor (cl_resource (call_for v)) (cl_value (call_for v)) (cl_ttl (call_for v)) (rd_rl ?s) 0 m e (rd_now ?s)
      = Inr (lock_for v)"
    using mem_decide [OF assms(3)] by (simp add: mem_sys_def call_for_def)
  have "rd_rl ?s = (if cl_retries (call_for v) = None then rd_rl ?s
      else count_acquired (time_sub (rd_now ?s) (cl_started (call_for v))) (rd_rl ?s))"
    by (simp add: call_for_def)
  from rd_step.acquired [OF pc n d this] show ?thesis by (simp add: mem_sys_def)
qed

text \<open>One of two processes takes the lock of a free server.\<close>

definition one_holds :: "(nat \<Rightarrow> store) rd_sys" where
  "one_holds = mem_sys 1 1 [RdHolding (lock_for ''a''), RdIdle] ((\<lambda>_. Map.empty)(0 := [''r'' \<mapsto> (''a'', 64 * Second)]))
     {''a''} False"

lemma one_holds_reach: "rd_reach oor (mem_config 1 1) one_holds"
proof -
  let ?w = "\<lambda>_. Map.empty :: store" and ?w1 = "(\<lambda>_. Map.empty :: store)(0 := [''r'' \<mapsto> (''a'', 64 * Second)])"
  have "rd_reach oor (mem_config 1 1) (mem_sys 1 1 [RdIdle, RdIdle] ?w {} False)"
    using mem_reach [of 1 1 oor 2 ?w] by (simp add: numeral_2_eq_2)
  from rd_reach.step [OF this mem_start [of 0 _ "''a''"]]
  have "rd_reach oor (mem_config 1 1) (mem_sys 1 1 [RdSetting (call_for ''a'') 0 0 0 0 None, RdIdle] ?w {''a''} False)"
    by simp
  from rd_reach.step [OF this mem_set [of 0 _ "''a''" 0 0 None]]
  have "rd_reach oor (mem_config 1 1) (mem_sys 1 1 [RdSetting (call_for ''a'') 0 0 1 1 None, RdIdle] ?w1 {''a''} False)"
    by (simp add: live_def)
  from rd_reach.step [OF this mem_acquired [of 0 _ "''a''" 1 1 None]] show ?thesis by (simp add: one_holds_def)
qed



section \<open>Losing mutual exclusion\<close>

lemma mem_extend:
  assumes "i < length pcs" and "pcs ! i = RdHolding l" and "validateTTL ttl = None"
  shows "rd_step oor (mem_sys n q pcs w used rough) (mem_sys n q (pcs[i := RdExtending l ttl 0 0]) w used rough)"
  using rd_step.extend [of i "mem_sys n q pcs w used rough" l ttl oor] assms by (simp add: mem_sys_def)

lemma short_is_zero: "whole_seconds oor (500 * Millisecond) = 0"
proof -
  obtain x where "seconds (500 * Millisecond) = Fin x" "0 \<le> x" "x < 1"
    by (rule seconds_part [of "500 * Millisecond"]) auto
  then show ?thesis by (simp add: whole_seconds_def rat_trunc_def floor_eq_iff min_int64_def max_int64_def)
qed

lemma mem_extend_short:
  assumes "i < length pcs" and "pcs ! i = RdExtending (lock_for v) (500 * Millisecond) 0 0" and "live 0 (w 0) ''r'' = Some v"
  shows "rd_step oor (mem_sys 1 1 pcs w used rough)
    (mem_sys 1 1 (pcs[i := RdExtending (lock_for v) (500 * Millisecond) 1 1]) (w(0 := (w 0)(''r'' := None))) used True)"
proof -
  let ?s = "mem_sys 1 1 pcs w used rough"
  have pc: "at_pc ?s i (RdExtending (lock_for v) (500 * Millisecond) 0 0)" using assms by (simp add: mem_sys_def)
  have n: "0 < rd_n ?s" by (simp add: mem_sys_def mem_redlock_def)
  have "extend_one Background (lk_resource (lock_for v)) (lk_value (lock_for v)) (whole_seconds oor (500 * Millisecond))
      (rd_cl ?s 0) (0, rd_net ?s) = (1, 0, w(0 := (w 0)(''r'' := None)))"
    unfolding short_is_zero using assms(3)
    by (simp add: extend_one_def mem_sys_def mem_redlock_def mem_clients_def mem_client_def lock_for_def run_extend)
  from rd_step.extend_one [OF pc n this] show ?thesis by (simp add: mem_sys_def gently_def lock_for_def)
qed

lemma mem_extended:
  assumes "i < length pcs" and "pcs ! i = RdExtending l ttl 1 1"
  shows "rd_step oor (mem_sys 1 1 pcs w used rough) (mem_sys 1 1 (pcs[i := RdHolding (l\<lparr>lk_ttl := ttl\<rparr>)]) w used rough)"
proof -
  let ?s = "mem_sys 1 1 pcs w used rough"
  have pc: "at_pc ?s i (RdExtending l ttl 1 1)" using assms by (simp add: mem_sys_def)
  have n: "1 = rd_n ?s" by (simp add: mem_sys_def mem_redlock_def)
  have "extend_finish ttl 1 l (rd_rl ?s) = (None, l\<lparr>lk_ttl := ttl\<rparr>, rd_rl ?s)"
    by (simp add: extend_finish_def mem_sys_def mem_redlock_def count_extension_def upd_lm_def)
  from rd_step.extended [OF pc n this] show ?thesis by (simp add: mem_sys_def)
qed

lemma fresh_holds:
  "i < length pcs \<Longrightarrow> pcs ! i = RdHolding l \<Longrightarrow> lk_acquired l \<Longrightarrow> lk_created l = 0 \<Longrightarrow> 0 \<le> lk_ttl l
     \<Longrightarrow> holds (mem_sys n q pcs w used rough) i l"
  by (simp add: holds_def mem_sys_def Lock_IsAcquired_def Lock_IsExpired_def time_sub_def sat64_def min_int64_def
      max_int64_def)

lemma mem_config_like: "redis_like (map the (cf_Clients (mem_config n q))) (\<lambda>w. w)"
  using mem_redis_like [of n] by (simp add: mem_config_def comp_def)

text \<open>Extend can lose the lock. An extension by less than a second sends \<open>expire key 0\<close>, which
  deletes the key: the servers report success, the code keeps the lock as held, and another process
  acquires it. Both then hold the lock on the same resource, with a majority quorum and faultless
  servers.\<close>

theorem Extend_breaks_mutual_exclusion:
  "\<exists>s l l'. rd_reach oor (mem_config 1 1) s \<and> redis_like (map the (cf_Clients (mem_config 1 1))) (\<lambda>w. w)
     \<and> holds s 0 l \<and> holds s 1 l' \<and> lk_resource l = lk_resource l'"
proof -
  let ?l = "(lock_for ''a'')\<lparr>lk_ttl := 500 * Millisecond\<rparr>"
  let ?w1 = "(\<lambda>_. Map.empty :: store)(0 := [''r'' \<mapsto> (''a'', 64 * Second)])" and ?w2 = "(\<lambda>_. Map.empty :: store)(0 := Map.empty)"
  let ?w3 = "(\<lambda>_. Map.empty :: store)(0 := [''r'' \<mapsto> (''b'', 64 * Second)])"
  have v: "validateTTL (500 * Millisecond) = None" by (simp add: validateTTL_def redlock_limits)
  have "rd_reach oor (mem_config 1 1) (mem_sys 1 1 [RdHolding (lock_for ''a''), RdIdle] ?w1 {''a''} False)"
    using one_holds_reach by (simp add: one_holds_def)
  from rd_reach.step [OF this mem_extend [OF _ _ v, of 0 _ "lock_for ''a''"]]
  have "rd_reach oor (mem_config 1 1)
      (mem_sys 1 1 [RdExtending (lock_for ''a'') (500 * Millisecond) 0 0, RdIdle] ?w1 {''a''} False)" by simp
  from rd_reach.step [OF this mem_extend_short [of 0 _ "''a''"]]
  have "rd_reach oor (mem_config 1 1)
      (mem_sys 1 1 [RdExtending (lock_for ''a'') (500 * Millisecond) 1 1, RdIdle] ?w2 {''a''} True)"
    by (simp add: live_def)
  from rd_reach.step [OF this mem_extended [of 0 _ "lock_for ''a''" "500 * Millisecond"]]
  have "rd_reach oor (mem_config 1 1) (mem_sys 1 1 [RdHolding ?l, RdIdle] ?w2 {''a''} True)" by simp
  from rd_reach.step [OF this mem_start [of 1 _ "''b''"]]
  have "rd_reach oor (mem_config 1 1) (mem_sys 1 1 [RdHolding ?l, RdSetting (call_for ''b'') 0 0 0 0 None] ?w2 {''b'', ''a''} True)"
    by simp
  from rd_reach.step [OF this mem_set [of 1 _ "''b''" 0 0 None]]
  have "rd_reach oor (mem_config 1 1) (mem_sys 1 1 [RdHolding ?l, RdSetting (call_for ''b'') 0 0 1 1 None] ?w3 {''b'', ''a''} True)"
    by (simp add: live_def)
  from rd_reach.step [OF this mem_acquired [of 1 _ "''b''" 1 1 None]]
  have "rd_reach oor (mem_config 1 1) (mem_sys 1 1 [RdHolding ?l, RdHolding (lock_for ''b'')] ?w3 {''b'', ''a''} True)" by simp
  moreover have "holds (mem_sys 1 1 [RdHolding ?l, RdHolding (lock_for ''b'')] ?w3 {''b'', ''a''} True) 0 ?l"
    "holds (mem_sys 1 1 [RdHolding ?l, RdHolding (lock_for ''b'')] ?w3 {''b'', ''a''} True) 1 (lock_for ''b'')"
    by (rule fresh_holds; simp add: lock_for_def)+
  moreover have "lk_resource ?l = lk_resource (lock_for ''b'')" by (simp add: lock_for_def)
  ultimately show ?thesis using mem_config_like by blast
qed

text \<open>A minority quorum is accepted and useless. NewRedlock takes any quorum of at least one;
  with quorum 1 of 2 servers two processes hold the same lock.\<close>

theorem minority_quorum_splits:
  "\<exists>s l l'. rd_reach oor (mem_config 2 1) s \<and> redis_like (map the (cf_Clients (mem_config 2 1))) (\<lambda>w. w)
     \<and> holds s 0 l \<and> holds s 1 l' \<and> lk_resource l = lk_resource l'"
proof -
  let ?R = "\<lambda>pcs w used. rd_reach oor (mem_config 2 1) (mem_sys 2 1 pcs w used False)"
  let ?set = "\<lambda>v. RdSetting (call_for v) 0 0" and ?e = "Some (ErrText ''not stored'')"
  let ?w = "\<lambda>_. Map.empty :: store"
  let ?w1 = "?w(0 := [''r'' \<mapsto> (''a'', 64 * Second)])"
  let ?w2 = "?w1(1 := [''r'' \<mapsto> (''b'', 64 * Second)])"
  have "?R [RdIdle, RdIdle] ?w {}" using mem_reach [of 2 1 oor 2 ?w] by (simp add: numeral_2_eq_2)
  from rd_reach.step [OF this mem_start [of 0 _ "''a''"]]
  have "?R [?set ''a'' 0 0 None, RdIdle] ?w {''a''}" by simp
  from rd_reach.step [OF this mem_start [of 1 _ "''b''"]]
  have "?R [?set ''a'' 0 0 None, ?set ''b'' 0 0 None] ?w {''b'', ''a''}" by simp
  from rd_reach.step [OF this mem_set [of 0 _ "''a''" 0 0 None]]
  have "?R [?set ''a'' 1 1 None, ?set ''b'' 0 0 None] ?w1 {''b'', ''a''}" by (simp add: live_def)
  from rd_reach.step [OF this mem_set [of 1 _ "''b''" 0 0 None]]
  have "?R [?set ''a'' 1 1 None, ?set ''b'' 1 0 ?e] ?w1 {''b'', ''a''}" by (simp add: live_def)
  from rd_reach.step [OF this mem_set [of 1 _ "''b''" 1 0 ?e]]
  have "?R [?set ''a'' 1 1 None, ?set ''b'' 2 1 ?e] ?w2 {''b'', ''a''}" by (simp add: live_def numeral_2_eq_2)
  from rd_reach.step [OF this mem_set [of 0 _ "''a''" 1 1 None]]
  have "?R [?set ''a'' 2 1 ?e, ?set ''b'' 2 1 ?e] ?w2 {''b'', ''a''}" by (simp add: live_def numeral_2_eq_2)
  from rd_reach.step [OF this mem_acquired [of 0 _ "''a''" 2 1 ?e]]
  have "?R [RdHolding (lock_for ''a''), ?set ''b'' 2 1 ?e] ?w2 {''b'', ''a''}" by simp
  from rd_reach.step [OF this mem_acquired [of 1 _ "''b''" 2 1 ?e]]
  have "?R [RdHolding (lock_for ''a''), RdHolding (lock_for ''b'')] ?w2 {''b'', ''a''}" by simp
  moreover have "holds (mem_sys 2 1 [RdHolding (lock_for ''a''), RdHolding (lock_for ''b'')] ?w2 {''b'', ''a''} False) 0 (lock_for ''a'')"
    "holds (mem_sys 2 1 [RdHolding (lock_for ''a''), RdHolding (lock_for ''b'')] ?w2 {''b'', ''a''} False) 1 (lock_for ''b'')"
    by (rule fresh_holds; simp add: lock_for_def)+
  moreover have "lk_resource (lock_for ''a'') = lk_resource (lock_for ''b'')" by (simp add: lock_for_def)
  ultimately show ?thesis using mem_config_like by blast
qed

section \<open>Single calls\<close>

text \<open>Replies of type int64 are misread. When the clients return the number of a script as an
  int64, as Redis clients do, Extend fails whatever the servers did, and Unlock reports success
  whatever the servers did, even if no server had the lock.\<close>

theorem int64_replies:
  assumes "\<And>cl c s ks as net. cl \<in> set (rl_clients rl) \<Longrightarrow> \<exists>n net'. lc_Eval cl c s ks as net = (Inr (Int64Reply n), net')"
    and "rl_clients rl \<noteq> []" and "0 < rl_quorum rl" and "lk_acquired l" and "validateTTL ttl = None"
  shows "fst (Lock_Extend oor (Some c) ttl l rl net)
      = Returns (Some (wrapping (Sentinel (ERedlockOp ErrRedlockLockExtensionFailed))))
    \<and> fst (Lock_Unlock (Some c) l rl net) = Returns None"
proof -
  have e: "fst (fold (extend_one c k v secs) cls (n, net)) = n" if "set cls \<subseteq> set (rl_clients rl)" for cls k v secs n net
    using that
  proof (induction cls arbitrary: n net)
    case (Cons cl cls)
    have "cl \<in> set (rl_clients rl)" using Cons.prems by simp
    from assms(1) [OF this] obtain m net' where "lc_Eval cl (WithTimeout (fst net) (5 * Second) c) extend_script [k] [ArgString v, ArgInt secs] net
        = (Inr (Int64Reply m), net')"
      by blast
    then show ?case using Cons by (simp add: extend_one_def)
  qed simp
  have u: "fst (fold (release_one c k v) cls (n, net)) = n + length cls" if "set cls \<subseteq> set (rl_clients rl)" for cls k v n net
    using that
  proof (induction cls arbitrary: n net)
    case (Cons cl cls)
    have "cl \<in> set (rl_clients rl)" using Cons.prems by simp
    from assms(1) [OF this] obtain m net' where "lc_Eval cl (WithTimeout (fst net) (2 * Second) c) release_script [k] [ArgString v] net
        = (Inr (Int64Reply m), net')"
      by blast
    then show ?case using Cons by (simp add: release_one_def Redlock_releaseLockWithTimeout_def)
  qed simp
  have "fst (extend_all c (lk_resource l) (lk_value l) (whole_seconds oor ttl) (rl_clients rl) net) = 0"
    unfolding extend_all_def by (rule e) simp
  then have "fst (Lock_Extend oor (Some c) ttl l rl net)
      = Returns (Some (wrapping (Sentinel (ERedlockOp ErrRedlockLockExtensionFailed))))"
    using assms(3-5)
    by (cases "extend_all c (lk_resource l) (lk_value l) (whole_seconds oor ttl) (rl_clients rl) net")
      (simp add: Lock_Extend_def extend_finish_def)
  moreover have "fst (release_all c (lk_resource l) (lk_value l) (rl_clients rl) net) = length (rl_clients rl)"
    unfolding release_all_def using u [of "rl_clients rl" _ _ 0] by simp
  then have "fst (Lock_Unlock (Some c) l rl net) = Returns None"
    using assms(2,4) by (cases "release_all c (lk_resource l) (lk_value l) (rl_clients rl) net")
      (simp add: Lock_Unlock_def unlock_finish_def)
  ultimately show ?thesis ..
qed

text \<open>A client of a server that has lost the key.\<close>

definition int64_client :: "unit LockClient" where
  "int64_client = \<lparr>lc_Set = (\<lambda>c k v ttl net. (None, net)), lc_Del = (\<lambda>c k net. (None, net)),
     lc_Get = (\<lambda>c k net. (Inl (ErrText ''no key''), net)), lc_Eval = (\<lambda>c s ks as net. (Inr (Int64Reply 0), net))\<rparr>"

definition int64_redlock :: "unit Redlock" where
  "int64_redlock = \<lparr>rl_clients = [int64_client], rl_quorum = 1, rl_retryDelay = Second, rl_maxRetries = 3,
     rl_driftFactor = Fin (1 / 2 ^ 6), rl_closed = False, rl_metrics = Some zero_RedlockMetrics\<rparr>"

theorem int64_replies_witness:
  "fst (Lock_Unlock (Some Background) (lock_for ''a'') int64_redlock (0, ())) = Returns None"
proof -
  have "\<exists>n net'. lc_Eval cl c s ks as net = (Inr (Int64Reply n), net')" if "cl \<in> set (rl_clients int64_redlock)" for cl c s ks as net
    using that by (cases net) (simp add: int64_redlock_def int64_client_def)
  then show ?thesis
    using int64_replies [where rl = int64_redlock and l = "lock_for ''a''" and ttl = Second and oor = "\<lambda>_. 0"
        and c = Background and net = "(0, ())"]
    by (simp add: int64_redlock_def lock_for_def validateTTL_def redlock_limits)
qed




text \<open>What the loop does from some attempt on.\<close>

definition loop_counts ::
    "int \<Rightarrow> string \<Rightarrow> RedlockMetrics \<Rightarrow> goerr + Lock \<Rightarrow> 'w Redlock \<Rightarrow> bool" where
  "loop_counts left res m r rl' \<longleftrightarrow>
     (\<exists>k m'. int k \<le> left \<and> rl_metrics rl' = Some m'
       \<and> lm_TotalAcquisitions m' = lm_TotalAcquisitions m + of_nat k
       \<and> (case r of
            Inr l \<Rightarrow> 0 < k \<and> lk_resource l = res \<and> lm_SuccessfulAcquisitions m' = lm_SuccessfulAcquisitions m + 1
              \<and> lm_FailedAcquisitions m' = lm_FailedAcquisitions m + of_nat (k - 1)
          | Inl e \<Rightarrow> lm_SuccessfulAcquisitions m' = lm_SuccessfulAcquisitions m
              \<and> lm_FailedAcquisitions m' = lm_FailedAcquisitions m + of_nat k
              \<and> (errors_is e (common ErrContextCancelled)
                 \<or> int k = left \<and> errors_is e (Sentinel (ERedlockOp ErrRedlockLockAcquisitionFailed)))))"

abbreviation failed_once :: "RedlockMetrics \<Rightarrow> RedlockMetrics" where
  "failed_once m \<equiv> m\<lparr>lm_TotalAcquisitions := lm_TotalAcquisitions m + 1, lm_FailedAcquisitions := lm_FailedAcquisitions m + 1\<rparr>"

lemma loop_counts_Suc:
  assumes "loop_counts (left - 1) res (failed_once m) r rl'"
  shows "loop_counts left res m r rl'"
proof (cases r)
  case (Inl e)
  from assms obtain k m' where "int k \<le> left - 1" "rl_metrics rl' = Some m'"
    "lm_TotalAcquisitions m' = lm_TotalAcquisitions m + 1 + of_nat k"
    "lm_SuccessfulAcquisitions m' = lm_SuccessfulAcquisitions m" "lm_FailedAcquisitions m' = lm_FailedAcquisitions m + 1 + of_nat k"
    "errors_is e (common ErrContextCancelled)
       \<or> int k = left - 1 \<and> errors_is e (Sentinel (ERedlockOp ErrRedlockLockAcquisitionFailed))"
    unfolding loop_counts_def Inl by auto
  then show ?thesis unfolding loop_counts_def Inl by (intro exI [of _ "Suc k"] exI [of _ m']) auto
next
  case (Inr l)
  from assms obtain k m' where k: "int k \<le> left - 1" "rl_metrics rl' = Some m'"
    "lm_TotalAcquisitions m' = lm_TotalAcquisitions m + 1 + of_nat k" "0 < k" "lk_resource l = res"
    "lm_SuccessfulAcquisitions m' = lm_SuccessfulAcquisitions m + 1"
    "lm_FailedAcquisitions m' = lm_FailedAcquisitions m + 1 + of_nat (k - 1)"
    unfolding loop_counts_def Inr by auto
  then obtain k' where "k = Suc k'" by (cases k) auto
  with k show ?thesis unfolding loop_counts_def Inr by (intro exI [of _ "Suc k"] exI [of _ m']) auto
qed

lemma try_acquire_resource:
  "Redlock_tryAcquireLockWithTimeout oor c res v ttl rl net = (Inr l, net') \<Longrightarrow> lk_resource l = res"
  by (auto simp: Redlock_tryAcquireLockWithTimeout_def acquire_decide_def Let_def split: prod.splits sum.splits if_splits)

text \<open>One turn of the loop: it ends in one of four ways or goes on with the next attempt.\<close>

lemma LockWithRetry_loop_cases:
  assumes loop: "LockWithRetry_loop env c res v ttl delay maxRetries start attempt rl net = (r, rl', net')"
    and le: "attempt \<le> maxRetries"
  obtains
    (ended) "r = Inl (wrapping (common ErrContextCancelled))" "rl' = rl"
  | (acquired) l t where "lk_resource l = res" "r = Inr l" "rl' = count_acquired t rl"
  | (exhausted) "attempt = maxRetries" "rl' = count_failed rl"
      "r = Inl (wrapping (Sentinel (ERedlockOp ErrRedlockLockAcquisitionFailed)))"
  | (interrupted) "r = Inl (wrapping (common ErrContextCancelled))" "rl' = count_failed rl"
  | (again) net1 where "attempt < maxRetries"
      "LockWithRetry_loop env c res v ttl delay maxRetries start (attempt + 1) (count_failed rl) net1 = (r, rl', net')"
proof -
  note unfold = LockWithRetry_loop.simps [of env c res v ttl delay maxRetries start attempt]
  obtain a net1 where t: "Redlock_tryAcquireLockWithTimeout (le_oor env) c res v ttl rl net = (a, net1)"
    by (cases "Redlock_tryAcquireLockWithTimeout (le_oor env) c res v ttl rl net")
  obtain t' b where w: "timer_wait (le_lag env attempt) (le_pick env attempt) delay (fst net1) c = (t', b)"
    by (cases "timer_wait (le_lag env attempt) (le_pick env attempt) delay (fst net1) c")
  show thesis
  proof (cases "ctx_err (fst net) c")
    case (Some err)
    with loop le show thesis by (intro ended) (simp_all add: unfold)
  next
    case None
    show thesis
    proof (cases a)
      case (Inr l)
      with loop le None t show thesis
        by (intro acquired [of l "time_sub (fst net1) start"]) (auto simp: unfold try_acquire_resource)
    next
      case (Inl err)
      with loop le None t w exhausted interrupted again [of net1] again [of "(t', snd net1)"] show thesis
        by (auto simp: unfold split: if_splits bool.splits)
    qed
  qed
qed

lemma loop_counted:
  assumes "LockWithRetry_loop env c res v ttl delay maxRetries start attempt rl net = (r, rl', net')"
    and "attempt \<le> maxRetries" and "rl_metrics rl = Some m"
  shows "loop_counts (maxRetries + 1 - attempt) res m r rl'"
  using assms
proof (induction "nat (maxRetries - attempt)" arbitrary: attempt rl net m rule: less_induct)
  case less
  have failed: "rl_metrics (count_failed rl) = Some (failed_once m)"
    using less.prems by (simp add: count_failed_def record_laws)
  from less.prems(1,2) show ?case
  proof (cases rule: LockWithRetry_loop_cases)
    case ended
    with less.prems show ?thesis by (auto simp: loop_counts_def intro!: exI [of _ "0::nat"])
  next
    case (acquired l t)
    with less.prems show ?thesis
      by (auto simp: loop_counts_def count_acquired_def record_laws intro!: exI [of _ "1::nat"])
  next
    case exhausted
    with failed show ?thesis by (auto simp: loop_counts_def intro!: exI [of _ "1::nat"])
  next
    case interrupted
    with failed less.prems(2) show ?thesis by (auto simp: loop_counts_def intro!: exI [of _ "1::nat"])
  next
    case (again net1)
    then have "loop_counts (maxRetries + 1 - (attempt + 1)) res (failed_once m) r rl'"
      by (intro less.hyps [OF _ again(2) _ failed]) auto
    with loop_counts_Suc [of "maxRetries + 1 - attempt" res m r rl'] show ?thesis by (simp add: algebra_simps)
  qed
qed

text \<open>Property C34: retries are bounded and counted. LockWithRetry returns after at most maxRetries + 1
  attempts; every attempt is counted, as failed or, the last one of a call that returns a lock, as
  successful; without a lock it has used all attempts or its context was done.\<close>

theorem LockWithRetry_accounting:
  assumes "Redlock_LockWithRetry env c res ttl delay maxRetries rl net = (r, rl', net')"
    and "\<not> rl_closed rl" and "validateLockInputs c res ttl delay maxRetries = None" and "rl_metrics rl = Some m"
  shows "\<exists>k m'. int k \<le> maxRetries + 1 \<and> rl_metrics rl' = Some m'
    \<and> lm_TotalAcquisitions m' = lm_TotalAcquisitions m + of_nat k
    \<and> (case r of
         Inr l \<Rightarrow> 0 < k \<and> lk_resource l = res \<and> lm_SuccessfulAcquisitions m' = lm_SuccessfulAcquisitions m + 1
           \<and> lm_FailedAcquisitions m' = lm_FailedAcquisitions m + of_nat (k - 1)
       | Inl e \<Rightarrow> lm_SuccessfulAcquisitions m' = lm_SuccessfulAcquisitions m
           \<and> lm_FailedAcquisitions m' = lm_FailedAcquisitions m + of_nat k
           \<and> (errors_is e (common ErrContextCancelled)
              \<or> int k = maxRetries + 1 \<and> errors_is e (Sentinel (ERedlockOp ErrRedlockLockAcquisitionFailed))))"
proof -
  have v: "0 \<le> maxRetries" using assms(3) by (auto simp: validateLockInputs_def split: if_splits option.splits)
  have "LockWithRetry_loop env (the c) res (generateLockValue (le_bytes env) (fst net)) ttl delay maxRetries (fst net) 0 rl net
      = (r, rl', net')"
    using assms(1-3) by (simp add: Redlock_LockWithRetry_def)
  from loop_counted [OF this v assms(4)] show ?thesis by (simp add: loop_counts_def)
qed

theorem LockWithRetry_accounting_witness:
  "\<exists>k m'. int k \<le> 1 \<and> lm_TotalAcquisitions m' = of_nat k
    \<and> rl_metrics (fst (snd (Redlock_LockWithRetry \<lparr>le_bytes = None, le_lag = \<lambda>_. 0, le_pick = \<lambda>_. False, le_oor = \<lambda>_. 0\<rparr>
         (Some Background) ''r'' Second 0 0 int64_redlock (0, ())))) = Some m'"
proof -
  let ?c = "Redlock_LockWithRetry \<lparr>le_bytes = None, le_lag = \<lambda>_. 0, le_pick = \<lambda>_. False, le_oor = \<lambda>_. 0\<rparr>
         (Some Background) ''r'' Second 0 0 int64_redlock (0, ())"
  obtain r rl' net' where c: "?c = (r, rl', net')" by (cases ?c) auto
  have v: "validateLockInputs (Some Background) ''r'' Second 0 0 = None"
    by (simp add: validateLockInputs_def validateResource_def validateTTL_def redlock_limits)
  have m: "\<not> rl_closed int64_redlock" "rl_metrics int64_redlock = Some zero_RedlockMetrics"
    by (simp_all add: int64_redlock_def)
  from LockWithRetry_accounting [OF c m(1) v m(2)] obtain k m' where "int k \<le> 0 + 1" "rl_metrics rl' = Some m'"
    "lm_TotalAcquisitions m' = lm_TotalAcquisitions zero_RedlockMetrics + of_nat k" by blast
  then have "int k \<le> 1 \<and> lm_TotalAcquisitions m' = of_nat k \<and> rl_metrics (fst (snd ?c)) = Some m'"
    unfolding c by (simp add: zero_RedlockMetrics_def)
  then show ?thesis by blast
qed

section \<open>What a failed attempt leaves behind\<close>





section \<open>Lock values\<close>

lemma hex_digit_inj: "m < 16 \<Longrightarrow> n < 16 \<Longrightarrow> hex_digit m = hex_digit n \<Longrightarrow> m = n"
proof -
  have "hex_digit i \<noteq> hex_digit j" if "i < j" "j < 16" for i j
    using that by (auto simp: hex_digit_def of_char_eq_iff [symmetric] split: if_splits)
  then show "m < 16 \<Longrightarrow> n < 16 \<Longrightarrow> hex_digit m = hex_digit n \<Longrightarrow> m = n" by (metis linorder_neqE_nat)
qed

text \<open>Lock values are as distinct as the random bytes. Two draws of bytes of the same number
  give the same value only if they are the same, and a value has two characters per byte.\<close>

theorem lock_values_distinct:
  assumes "generateLockValue (Some bs) now = generateLockValue (Some bs') now'"
  shows "bs = bs' \<and> length (generateLockValue (Some bs) now) = 2 * length bs"
proof -
  have "hex_EncodeToString bs = hex_EncodeToString bs' \<Longrightarrow> bs = bs'"
  proof (induction bs arbitrary: bs')
    case Nil
    then show ?case by (cases bs') (auto simp: hex_EncodeToString_def)
  next
    case (Cons b bs)
    then obtain b' bs2 where b': "bs' = b' # bs2" by (cases bs') (auto simp: hex_EncodeToString_def)
    have lt: "unat b < 256" "unat b' < 256" using unsigned_less [of b] unsigned_less [of b'] by simp_all
    have "hex_digit (unat b div 16) = hex_digit (unat b' div 16)" "hex_digit (unat b mod 16) = hex_digit (unat b' mod 16)"
      and r: "hex_EncodeToString bs = hex_EncodeToString bs2"
      using Cons.prems by (auto simp: b' hex_EncodeToString_def)
    then have "unat b div 16 = unat b' div 16" "unat b mod 16 = unat b' mod 16"
      using lt by (auto intro: hex_digit_inj)
    then have "unat b = unat b'" by (metis div_mult_mod_eq)
    then show ?case using Cons.IH [OF r] b' by (simp add: word_unat_eq_iff)
  qed
  moreover have "length (hex_EncodeToString bs) = 2 * length bs"
    by (induction bs) (auto simp: hex_EncodeToString_def)
  ultimately show ?thesis using assms by (simp add: generateLockValue_def)
qed

theorem lock_values_distinct_witness:
  "[1, 2] = ([1, 2] :: 8 word list) \<and> length (generateLockValue (Some [1, 2]) 0) = 4"
  using lock_values_distinct [of "[1, 2]" 0 "[1, 2]" 5] by (simp add: generateLockValue_def)

end
