(* ===== verification/PubSub.thy ===== *)
theory PubSub
  imports GoChannel GoContext Lifecycle "HOL-Library.AList"
begin

text \<open>
  \<open>src/pubsub.go\<close>: topics, subscriptions, publishing and delivery. Message handlers, dead letter
  handlers and the store are the caller's code: functions from the time and their arguments to the
  time they return and their result. A message handler may never return (\<open>None\<close>).

  A message is a value here: every delivery has its own retry count, where the code has all
  deliveries of a message write to one shared field. \<open>json.Marshal\<close> of a message is taken not to
  fail; what the store keeps is never read back. Contexts are not nil.
\<close>

section \<open>Constants\<close>

definition MaxMessageSizePubSub :: int where "MaxMessageSizePubSub = 10 * 1024 * 1024"
definition MaxTopicNameLengthPubSub :: int where "MaxTopicNameLengthPubSub = 255"
definition MaxSubscriberCountPubSub :: int where "MaxSubscriberCountPubSub = 10000"
definition MaxConcurrentOperationsPubSub :: int where "MaxConcurrentOperationsPubSub = 1000"
definition MaxBatchSizePubSub :: int where "MaxBatchSizePubSub = 1000"
definition DefaultBufferSizePubSub :: int where "DefaultBufferSizePubSub = 10000"
definition DefaultTTLPubSub :: duration where "DefaultTTLPubSub = 24 * Hour"
definition DefaultKeyPrefixPubSub :: string where "DefaultKeyPrefixPubSub = ''pubsub''"
definition MaxRetryAttemptsPubSub :: int where "MaxRetryAttemptsPubSub = 3"
definition RetryDelayPubSub :: duration where "RetryDelayPubSub = 100 * Millisecond"
definition DefaultOperationTimeoutPubSub :: duration where "DefaultOperationTimeoutPubSub = 30 * Second"
definition DefaultCircuitBreakerThresholdPubSub :: int where "DefaultCircuitBreakerThresholdPubSub = 5"
definition DefaultCircuitBreakerTimeoutPubSub :: duration where "DefaultCircuitBreakerTimeoutPubSub = 60 * Second"
definition MaxHeaderKeyLengthPubSub :: int where "MaxHeaderKeyLengthPubSub = 100"
definition MaxHeaderValueLengthPubSub :: int where "MaxHeaderValueLengthPubSub = 1000"
definition MaxHeadersCountPubSub :: int where "MaxHeadersCountPubSub = 50"

lemmas pubsub_limits = MaxMessageSizePubSub_def MaxTopicNameLengthPubSub_def MaxSubscriberCountPubSub_def
  MaxConcurrentOperationsPubSub_def MaxBatchSizePubSub_def DefaultBufferSizePubSub_def DefaultTTLPubSub_def
  DefaultKeyPrefixPubSub_def MaxRetryAttemptsPubSub_def RetryDelayPubSub_def DefaultOperationTimeoutPubSub_def
  DefaultCircuitBreakerThresholdPubSub_def DefaultCircuitBreakerTimeoutPubSub_def MaxHeaderKeyLengthPubSub_def
  MaxHeaderValueLengthPubSub_def MaxHeadersCountPubSub_def

abbreviation pubsub_sentinel :: "pubsub_op_err \<Rightarrow> goerr" where "pubsub_sentinel e \<equiv> Sentinel (EPubSubOp e)"

section \<open>The circuit breaker\<close>

text \<open>The state is 0 (closed), 1 (open) or 2 (half-open).\<close>

record CircuitBreakerPubSub =
  pb_failureCount :: counter
  pb_lastFailure :: "instant option"
  pb_state :: int
  pb_threshold :: int
  pb_timeout :: duration

definition NewCircuitBreakerPubSub :: "int \<Rightarrow> duration \<Rightarrow> CircuitBreakerPubSub" where
  "NewCircuitBreakerPubSub threshold timeout =
     \<lparr>pb_failureCount = 0, pb_lastFailure = None, pb_state = 0, pb_threshold = threshold, pb_timeout = timeout\<rparr>"

definition CircuitBreakerPubSub_getState :: "CircuitBreakerPubSub \<Rightarrow> int" where
  "CircuitBreakerPubSub_getState cb = pb_state cb"

definition CircuitBreakerPubSub_setState :: "int \<Rightarrow> CircuitBreakerPubSub \<Rightarrow> CircuitBreakerPubSub" where
  "CircuitBreakerPubSub_setState state cb = cb\<lparr>pb_state := state\<rparr>"

definition CircuitBreakerPubSub_shouldAttemptReset :: "instant \<Rightarrow> CircuitBreakerPubSub \<Rightarrow> bool" where
  "CircuitBreakerPubSub_shouldAttemptReset now cb =
     (case pb_lastFailure cb of None \<Rightarrow> True | Some t \<Rightarrow> pb_timeout cb < time_sub now t)"

definition CircuitBreakerPubSub_recordFailure :: "instant \<Rightarrow> CircuitBreakerPubSub \<Rightarrow> CircuitBreakerPubSub" where
  "CircuitBreakerPubSub_recordFailure now cb0 =
     (let cb = cb0\<lparr>pb_failureCount := pb_failureCount cb0 + 1, pb_lastFailure := Some now\<rparr>
      in if pb_threshold cb \<le> sint (pb_failureCount cb) then CircuitBreakerPubSub_setState 1 cb else cb)"

definition CircuitBreakerPubSub_recordSuccess :: "CircuitBreakerPubSub \<Rightarrow> CircuitBreakerPubSub" where
  "CircuitBreakerPubSub_recordSuccess cb = CircuitBreakerPubSub_setState 0 (cb\<lparr>pb_failureCount := 0\<rparr>)"

text \<open>\<open>Execute\<close> up to the call of the operation: whether it is called.\<close>

definition pb_enter :: "instant \<Rightarrow> CircuitBreakerPubSub \<Rightarrow> bool \<times> CircuitBreakerPubSub" where
  "pb_enter now cb =
     (if CircuitBreakerPubSub_getState cb = 1
      then if CircuitBreakerPubSub_shouldAttemptReset now cb then (True, CircuitBreakerPubSub_setState 2 cb)
           else (False, cb)
      else (True, cb))"

definition pb_leave :: "instant \<Rightarrow> goerr option \<Rightarrow> CircuitBreakerPubSub \<Rightarrow> CircuitBreakerPubSub" where
  "pb_leave now err cb =
     (if err \<noteq> None then CircuitBreakerPubSub_recordFailure now cb else CircuitBreakerPubSub_recordSuccess cb)"

abbreviation breaker_open :: goerr where "breaker_open \<equiv> Sentinel (EBreaker ErrCircuitBreakerOpen)"

text \<open>
  \<open>Execute\<close> on a breaker that is part of a larger state, which the operation changes as well: \<open>get\<close>
  reads the breaker, \<open>upd\<close> updates it. A panic of the operation is not recovered and not recorded.
\<close>

definition CircuitBreakerPubSub_Execute ::
    "('s \<Rightarrow> CircuitBreakerPubSub) \<Rightarrow> ((CircuitBreakerPubSub \<Rightarrow> CircuitBreakerPubSub) \<Rightarrow> 's \<Rightarrow> 's)
       \<Rightarrow> (instant \<Rightarrow> 's \<Rightarrow> goerr option outcome \<times> instant \<times> 's) \<Rightarrow> instant \<Rightarrow> 's
       \<Rightarrow> goerr option outcome \<times> instant \<times> 's" where
  "CircuitBreakerPubSub_Execute get upd operation now s =
     (let (allowed, cb) = pb_enter now (get s); s1 = upd (\<lambda>_. cb) s
      in if \<not> allowed then (Returns (Some breaker_open), now, s1)
         else (case operation now s1 of
                 (Panics p, t, s2) \<Rightarrow> (Panics p, t, s2)
               | (Returns err, t, s2) \<Rightarrow> (Returns err, t, upd (pb_leave t err) s2)))"

section \<open>Data\<close>

record MessagePubSub =
  mg_ID :: string
  mg_Topic :: string
  mg_Data :: "8 word list"
  mg_Headers :: "(string \<times> string) list option"
  mg_Timestamp :: instant
  mg_RetryCount :: int
  mg_Priority :: int
  mg_TTL :: duration
  mg_Correlation :: string
  mg_TraceID :: string
  mg_Sequence :: counter

type_synonym MessageHandlerPubSub = "instant \<Rightarrow> ctx \<Rightarrow> MessagePubSub \<Rightarrow> (instant \<times> goerr option outcome) option"

type_synonym DeadLetterHandlerPubSub = "instant \<Rightarrow> ctx \<Rightarrow> MessagePubSub \<Rightarrow> goerr \<Rightarrow> instant \<times> goerr option outcome"

text \<open>Of the store only \<open>Set\<close> is used.\<close>

type_synonym PubSubStore = "instant \<Rightarrow> ctx \<Rightarrow> string \<Rightarrow> MessagePubSub \<Rightarrow> duration \<Rightarrow> instant \<times> goerr option"

record MessageFilter =
  fl_Headers :: "(string \<times> string) list option"
  fl_Priority :: int
  fl_MaxRetryCount :: int
  fl_RegexPatterns :: "(string \<times> string) list option"

record SubscriptionMetrics =
  sm_MessagesReceived :: counter
  sm_MessagesProcessed :: counter
  sm_MessagesFailed :: counter
  sm_MessagesRetried :: counter
  sm_MessagesDLQ :: counter
  sm_AverageLatency :: duration
  sm_LastMessageTime :: "instant option"
  sm_CircuitBreakerTrips :: counter
  sm_PanicRecoveries :: counter
  sm_TimeoutErrors :: counter

definition zero_SubscriptionMetrics :: SubscriptionMetrics where
  "zero_SubscriptionMetrics =
     \<lparr>sm_MessagesReceived = 0, sm_MessagesProcessed = 0, sm_MessagesFailed = 0, sm_MessagesRetried = 0,
      sm_MessagesDLQ = 0, sm_AverageLatency = 0, sm_LastMessageTime = None, sm_CircuitBreakerTrips = 0,
      sm_PanicRecoveries = 0, sm_TimeoutErrors = 0\<rparr>"

record SubscriptionPubSub =
  sb_ID :: string
  sb_Topic :: string
  sb_Handler :: MessageHandlerPubSub
  sb_DeadLetterHandler :: "DeadLetterHandlerPubSub option"
  sb_Filter :: MessageFilter
  sb_BatchSize :: int
  sb_BufferSize :: int
  sb_MaxRetries :: int
  sb_RetryDelay :: duration
  sb_CircuitBreaker :: CircuitBreakerPubSub
  sb_closed :: bool
  sb_metrics :: SubscriptionMetrics
  sb_workerPool :: "unit chan"

record TopicMetrics =
  tm_MessagesPublished :: counter
  tm_MessagesDelivered :: counter
  tm_SubscriberCount :: counter
  tm_QueueSize :: counter
  tm_QueueFullCount :: counter

record TopicPubSub =
  tp_Name :: string
  tp_Subscribers :: "(string \<times> SubscriptionPubSub) list"
  tp_MessageQueue :: "MessagePubSub chan"
  tp_closed :: bool
  tp_metrics :: TopicMetrics
  tp_sequence :: counter

record PublisherMetrics =
  um_MessagesPublished :: counter
  um_MessagesFailed :: counter
  um_TopicsCreated :: counter
  um_AverageLatency :: duration
  um_LastPublishTime :: "instant option"
  um_BatchOperations :: counter
  um_CircuitBreakerTrips :: counter

record PublisherPubSub =
  pu_topics :: "(string \<times> TopicPubSub) list"
  pu_maxRetries :: int
  pu_retryDelay :: duration
  pu_metrics :: PublisherMetrics
  pu_circuitBreaker :: CircuitBreakerPubSub
  pu_workerPool :: "unit chan"

record ConfigPubSub =
  cp_Store :: "PubSubStore option"
  cp_KeyPrefix :: string
  cp_TTL :: duration
  cp_BufferSize :: int
  cp_MaxRetryAttempts :: int
  cp_RetryDelay :: duration
  cp_EnableMetrics :: bool
  cp_MaxConcurrentOperations :: int
  cp_OperationTimeout :: duration
  cp_CircuitBreakerThreshold :: int
  cp_CircuitBreakerTimeout :: duration
  cp_EnableDeadLetterQueue :: bool
  cp_DeadLetterHandler :: "DeadLetterHandlerPubSub option"

record PubSubMetricsPubSub =
  pm_TotalMessages :: counter
  pm_TotalTopics :: counter
  pm_TotalSubscriptions :: counter
  pm_ActiveConnections :: counter
  pm_Errors :: counter
  pm_PanicRecoveries :: counter

text \<open>\<open>ps_counter\<close> is the package variable \<open>messageCounter\<close>.\<close>

record PubSub =
  ps_publisher :: PublisherPubSub
  ps_config :: ConfigPubSub
  ps_closed :: bool
  ps_metrics :: PubSubMetricsPubSub
  ps_ctx :: ctx
  ps_counter :: counter

section \<open>Configuration\<close>

definition DefaultConfigPubSub :: "PubSubStore option \<Rightarrow> ConfigPubSub" where
  "DefaultConfigPubSub store =
     \<lparr>cp_Store = store, cp_KeyPrefix = DefaultKeyPrefixPubSub, cp_TTL = DefaultTTLPubSub,
      cp_BufferSize = DefaultBufferSizePubSub, cp_MaxRetryAttempts = MaxRetryAttemptsPubSub,
      cp_RetryDelay = RetryDelayPubSub, cp_EnableMetrics = True,
      cp_MaxConcurrentOperations = MaxConcurrentOperationsPubSub,
      cp_OperationTimeout = DefaultOperationTimeoutPubSub,
      cp_CircuitBreakerThreshold = DefaultCircuitBreakerThresholdPubSub,
      cp_CircuitBreakerTimeout = DefaultCircuitBreakerTimeoutPubSub,
      cp_EnableDeadLetterQueue = False, cp_DeadLetterHandler = None\<rparr>"

definition HighReliabilityConfigPubSub :: "PubSubStore option \<Rightarrow> ConfigPubSub" where
  "HighReliabilityConfigPubSub store =
     (DefaultConfigPubSub store)
       \<lparr>cp_BufferSize := 50000, cp_MaxRetryAttempts := 5, cp_RetryDelay := 200 * Millisecond,
        cp_MaxConcurrentOperations := 500, cp_OperationTimeout := 60 * Second,
        cp_CircuitBreakerThreshold := 3, cp_CircuitBreakerTimeout := 120 * Second,
        cp_EnableDeadLetterQueue := True\<rparr>"

definition validateConfigPubSub :: "ConfigPubSub option \<Rightarrow> goerr option" where
  "validateConfigPubSub config =
     (case config of
        None \<Rightarrow> Some (ErrText ''config cannot be nil'')
      | Some c \<Rightarrow>
          if cp_BufferSize c \<le> 0 then Some (ErrText ''buffer size must be positive'')
          else if cp_MaxRetryAttempts c < 0 then Some (ErrText ''max retry attempts cannot be negative'')
          else if cp_MaxConcurrentOperations c \<le> 0 then Some (ErrText ''max concurrent operations must be positive'')
          else if cp_OperationTimeout c \<le> 0 then Some (ErrText ''operation timeout must be positive'')
          else if cp_CircuitBreakerThreshold c \<le> 0 then Some (ErrText ''circuit breaker threshold must be positive'')
          else if cp_CircuitBreakerTimeout c \<le> 0 then Some (ErrText ''circuit breaker timeout must be positive'')
          else None)"

definition applyDefaultsPubSub :: "ConfigPubSub \<Rightarrow> ConfigPubSub" where
  "applyDefaultsPubSub c0 =
     (let c1 = (if cp_KeyPrefix c0 = [] then c0\<lparr>cp_KeyPrefix := DefaultKeyPrefixPubSub\<rparr> else c0);
          c2 = (if cp_TTL c1 = 0 then c1\<lparr>cp_TTL := DefaultTTLPubSub\<rparr> else c1);
          c3 = (if cp_BufferSize c2 = 0 then c2\<lparr>cp_BufferSize := DefaultBufferSizePubSub\<rparr> else c2);
          c4 = (if cp_MaxRetryAttempts c3 = 0 then c3\<lparr>cp_MaxRetryAttempts := MaxRetryAttemptsPubSub\<rparr> else c3);
          c5 = (if cp_RetryDelay c4 = 0 then c4\<lparr>cp_RetryDelay := RetryDelayPubSub\<rparr> else c4);
          c6 = (if cp_MaxConcurrentOperations c5 = 0
                then c5\<lparr>cp_MaxConcurrentOperations := MaxConcurrentOperationsPubSub\<rparr> else c5);
          c7 = (if cp_OperationTimeout c6 = 0 then c6\<lparr>cp_OperationTimeout := DefaultOperationTimeoutPubSub\<rparr> else c6);
          c8 = (if cp_CircuitBreakerThreshold c7 = 0
                then c7\<lparr>cp_CircuitBreakerThreshold := DefaultCircuitBreakerThresholdPubSub\<rparr> else c7)
      in if cp_CircuitBreakerTimeout c8 = 0
         then c8\<lparr>cp_CircuitBreakerTimeout := DefaultCircuitBreakerTimeoutPubSub\<rparr> else c8)"

definition zero_PublisherMetrics :: PublisherMetrics where
  "zero_PublisherMetrics =
     \<lparr>um_MessagesPublished = 0, um_MessagesFailed = 0, um_TopicsCreated = 0, um_AverageLatency = 0,
      um_LastPublishTime = None, um_BatchOperations = 0, um_CircuitBreakerTrips = 0\<rparr>"

definition zero_PubSubMetrics :: PubSubMetricsPubSub where
  "zero_PubSubMetrics =
     \<lparr>pm_TotalMessages = 0, pm_TotalTopics = 0, pm_TotalSubscriptions = 0, pm_ActiveConnections = 0,
      pm_Errors = 0, pm_PanicRecoveries = 0\<rparr>"

text \<open>\<open>NewPubSub\<close>, in a process where \<open>counter\<close> messages were made before.\<close>

definition NewPubSub :: "counter \<Rightarrow> ConfigPubSub option \<Rightarrow> goerr + PubSub" where
  "NewPubSub counter config =
     (case validateConfigPubSub config of
        Some err \<Rightarrow> Inl (wrapping (pubsub_sentinel ErrInvalidConfigPubSub))
      | None \<Rightarrow>
         (let c = applyDefaultsPubSub (the config) in
          Inr \<lparr>ps_publisher =
                 \<lparr>pu_topics = [], pu_maxRetries = cp_MaxRetryAttempts c, pu_retryDelay = cp_RetryDelay c,
                  pu_metrics = zero_PublisherMetrics,
                  pu_circuitBreaker =
                    NewCircuitBreakerPubSub (cp_CircuitBreakerThreshold c) (cp_CircuitBreakerTimeout c),
                  pu_workerPool = make_chan (nat (cp_MaxConcurrentOperations c))\<rparr>,
               ps_config = c, ps_closed = False, ps_metrics = zero_PubSubMetrics, ps_ctx = Background,
               ps_counter = counter\<rparr>))"

section \<open>Validation\<close>

text \<open>
  \<open>for _, char := range s\<close>: the code points of a string; every byte that does not start or continue
  a well-formed UTF-8 sequence counts as U+FFFD.
\<close>

definition cont_byte :: "nat \<Rightarrow> bool" where "cont_byte b \<longleftrightarrow> 128 \<le> b \<and> b < 192"

fun code_points :: "nat list \<Rightarrow> nat list" where
  "code_points [] = []"
| "code_points (b # bs) =
     (if b < 128 then b # code_points bs
      else case bs of
        b1 # r1 \<Rightarrow>
          if 194 \<le> b \<and> b < 224 \<and> cont_byte b1 then ((b - 192) * 64 + (b1 - 128)) # code_points r1
          else (case r1 of
            b2 # r2 \<Rightarrow>
              if 224 \<le> b \<and> b < 240 \<and> cont_byte b1 \<and> cont_byte b2
                 \<and> (b = 224 \<longrightarrow> 160 \<le> b1) \<and> (b = 237 \<longrightarrow> b1 < 160)
              then ((b - 224) * 4096 + (b1 - 128) * 64 + (b2 - 128)) # code_points r2
              else (case r2 of
                b3 # r3 \<Rightarrow>
                  if 240 \<le> b \<and> b < 245 \<and> cont_byte b1 \<and> cont_byte b2 \<and> cont_byte b3
                     \<and> (b = 240 \<longrightarrow> 144 \<le> b1) \<and> (b = 244 \<longrightarrow> b1 < 144)
                  then ((b - 240) * 262144 + (b1 - 128) * 4096 + (b2 - 128) * 64 + (b3 - 128)) # code_points r3
                  else 65533 # code_points bs
              | [] \<Rightarrow> 65533 # code_points bs)
          | [] \<Rightarrow> 65533 # code_points bs)
      | [] \<Rightarrow> [65533])"

definition runes :: "string \<Rightarrow> nat list" where
  "runes s = code_points (map of_char s)"

text \<open>
  \<open>unicode.IsLetter(c) || unicode.IsDigit(c)\<close>: written out below 128, the parameter \<open>uni\<close> above.
\<close>

definition alnum :: "(nat \<Rightarrow> bool) \<Rightarrow> nat \<Rightarrow> bool" where
  "alnum uni c \<longleftrightarrow>
     (if c < 128 then 48 \<le> c \<and> c \<le> 57 \<or> 65 \<le> c \<and> c \<le> 90 \<or> 97 \<le> c \<and> c \<le> 122 else uni c)"

definition name_char :: "(nat \<Rightarrow> bool) \<Rightarrow> nat \<Rightarrow> bool" where
  "name_char uni c \<longleftrightarrow> alnum uni c \<or> c = of_char CHR ''-'' \<or> c = of_char CHR ''_'' \<or> c = of_char CHR ''.''"

definition validateTopicName :: "(nat \<Rightarrow> bool) \<Rightarrow> string \<Rightarrow> goerr option" where
  "validateTopicName uni name =
     (if name = [] then Some (ErrText ''topic name cannot be empty'')
      else if int (length name) > MaxTopicNameLengthPubSub
      then Some (ErrText ''topic name length %d exceeds maximum %d'')
      else if \<not> list_all (name_char uni) (runes name)
      then Some (ErrText ''topic name contains invalid character: %c'')
      else None)"

definition validateSubscriptionID :: "(nat \<Rightarrow> bool) \<Rightarrow> string \<Rightarrow> goerr option" where
  "validateSubscriptionID uni sid =
     (if sid = [] then Some (ErrText ''subscription ID cannot be empty'')
      else if int (length sid) > MaxTopicNameLengthPubSub
      then Some (ErrText ''subscription ID length %d exceeds maximum %d'')
      else if \<not> list_all (name_char uni) (runes sid)
      then Some (ErrText ''subscription ID contains invalid character: %c'')
      else None)"

definition validateMessage :: "8 word list \<Rightarrow> goerr option" where
  "validateMessage data =
     (if data = [] then Some (ErrText ''message data cannot be empty'')
      else if int (length data) > MaxMessageSizePubSub then Some (ErrText ''message size %d exceeds maximum %d'')
      else None)"

text \<open>The loop over the headers, in the order the map is walked through.\<close>

fun first_bad_header :: "(nat \<Rightarrow> bool) \<Rightarrow> (string \<times> string) list \<Rightarrow> goerr option" where
  "first_bad_header uni [] = None"
| "first_bad_header uni ((key, val) # hs) =
     (if int (length key) > MaxHeaderKeyLengthPubSub then Some (ErrText ''header key length %d exceeds maximum %d'')
      else if int (length val) > MaxHeaderValueLengthPubSub
      then Some (ErrText ''header value length %d exceeds maximum %d'')
      else if \<not> list_all (\<lambda>c. alnum uni c \<or> c = of_char CHR ''-'' \<or> c = of_char CHR ''_'') (runes key)
      then Some (ErrText ''header key contains invalid character: %c'')
      else first_bad_header uni hs)"

definition validateHeaders :: "(nat \<Rightarrow> bool) \<Rightarrow> (string \<times> string) list option \<Rightarrow> goerr option" where
  "validateHeaders uni headers =
     (case headers of
        None \<Rightarrow> None
      | Some hs \<Rightarrow>
          if int (length hs) > MaxHeadersCountPubSub then Some (ErrText ''headers count %d exceeds maximum %d'')
          else first_bad_header uni hs)"

section \<open>Topics and subscriptions\<close>

definition topic_of :: "PubSub \<Rightarrow> string \<Rightarrow> TopicPubSub option" where
  "topic_of ps name = map_of (pu_topics (ps_publisher ps)) name"

definition upd_publisher :: "(PublisherPubSub \<Rightarrow> PublisherPubSub) \<Rightarrow> PubSub \<Rightarrow> PubSub" where
  "upd_publisher f ps = ps\<lparr>ps_publisher := f (ps_publisher ps)\<rparr>"

definition upd_topic :: "string \<Rightarrow> (TopicPubSub \<Rightarrow> TopicPubSub) \<Rightarrow> PubSub \<Rightarrow> PubSub" where
  "upd_topic name f = upd_publisher (\<lambda>p. p\<lparr>pu_topics := AList.map_entry name f (pu_topics p)\<rparr>)"

definition upd_um :: "(PublisherMetrics \<Rightarrow> PublisherMetrics) \<Rightarrow> PubSub \<Rightarrow> PubSub" where
  "upd_um f = upd_publisher (\<lambda>p. p\<lparr>pu_metrics := f (pu_metrics p)\<rparr>)"

definition upd_pm :: "(PubSubMetricsPubSub \<Rightarrow> PubSubMetricsPubSub) \<Rightarrow> PubSub \<Rightarrow> PubSub" where
  "upd_pm f ps = ps\<lparr>ps_metrics := f (ps_metrics ps)\<rparr>"

definition NewTopic :: "string \<Rightarrow> PubSub \<Rightarrow> TopicPubSub" where
  "NewTopic name ps =
     \<lparr>tp_Name = name, tp_Subscribers = [], tp_MessageQueue = make_chan (nat (cp_BufferSize (ps_config ps))),
      tp_closed = False,
      tp_metrics = \<lparr>tm_MessagesPublished = 0, tm_MessagesDelivered = 0, tm_SubscriberCount = 0,
        tm_QueueSize = 0, tm_QueueFullCount = 0\<rparr>,
      tp_sequence = 0\<rparr>"

definition PubSub_CreateTopic ::
    "(nat \<Rightarrow> bool) \<Rightarrow> instant \<Rightarrow> ctx \<Rightarrow> string \<Rightarrow> PubSub \<Rightarrow> goerr option \<times> PubSub" where
  "PubSub_CreateTopic uni now c name ps =
     (if ps_closed ps then (Some (ErrText ''pub/sub system is closed''), ps)
      else case validateTopicName uni name of
        Some err \<Rightarrow> (Some (wrapping err), ps)
      | None \<Rightarrow>
          if ctx_done now c then (Some (wrapping (common ErrContextCancelled)), ps)
          else if topic_of ps name \<noteq> None then (Some (ErrText ''topic %s already exists''), ps)
          else (None,
            upd_pm (\<lambda>m. m\<lparr>pm_TotalTopics := pm_TotalTopics m + 1\<rparr>)
              (upd_um (\<lambda>m. m\<lparr>um_TopicsCreated := um_TopicsCreated m + 1\<rparr>)
                (upd_publisher (\<lambda>p. p\<lparr>pu_topics := pu_topics p @ [(name, NewTopic name ps)]\<rparr>) ps))))"

definition NewSubscription ::
    "string \<Rightarrow> string \<Rightarrow> MessageHandlerPubSub \<Rightarrow> MessageFilter \<Rightarrow> ConfigPubSub \<Rightarrow> SubscriptionPubSub" where
  "NewSubscription topicName subscriptionID handler flt c =
     \<lparr>sb_ID = subscriptionID, sb_Topic = topicName, sb_Handler = handler,
      sb_DeadLetterHandler = cp_DeadLetterHandler c, sb_Filter = flt, sb_BatchSize = 1,
      sb_BufferSize = cp_BufferSize c, sb_MaxRetries = cp_MaxRetryAttempts c, sb_RetryDelay = cp_RetryDelay c,
      sb_CircuitBreaker = NewCircuitBreakerPubSub (cp_CircuitBreakerThreshold c) (cp_CircuitBreakerTimeout c),
      sb_closed = False, sb_metrics = zero_SubscriptionMetrics, sb_workerPool = make_chan 10\<rparr>"

text \<open>A nil filter is dereferenced after the checks of the topic.\<close>

definition PubSub_Subscribe ::
    "(nat \<Rightarrow> bool) \<Rightarrow> instant \<Rightarrow> ctx \<Rightarrow> string \<Rightarrow> string \<Rightarrow> MessageHandlerPubSub option \<Rightarrow> MessageFilter option
       \<Rightarrow> PubSub \<Rightarrow> (goerr + SubscriptionPubSub) outcome \<times> PubSub" where
  "PubSub_Subscribe uni now c topicName subscriptionID handler flt ps =
     (if ps_closed ps then (Returns (Inl (ErrText ''pub/sub system is closed'')), ps)
      else case validateSubscriptionID uni subscriptionID of
        Some err \<Rightarrow> (Returns (Inl (wrapping err)), ps)
      | None \<Rightarrow>
         (case handler of
            None \<Rightarrow> (Returns (Inl (ErrText ''message handler cannot be nil'')), ps)
          | Some h \<Rightarrow>
              if ctx_done now c then (Returns (Inl (wrapping (common ErrContextCancelled))), ps)
              else case topic_of ps topicName of
                None \<Rightarrow> (Returns (Inl (wrapping (pubsub_sentinel ErrTopicNotFoundPubSub))), ps)
              | Some topic \<Rightarrow>
                  if int (length (tp_Subscribers topic)) \<ge> MaxSubscriberCountPubSub
                  then (Returns (Inl (wrapping (pubsub_sentinel ErrSubscriptionLimitPubSub))), ps)
                  else (case flt of
                    None \<Rightarrow> (Panics NilDereference, ps)
                  | Some f \<Rightarrow>
                      if map_of (tp_Subscribers topic) subscriptionID \<noteq> None
                      then (Returns (Inl (ErrText ''subscription %s already exists for topic %s'')), ps)
                      else (let sub = NewSubscription topicName subscriptionID h f (ps_config ps) in
                        (Returns (Inr sub),
                         upd_pm (\<lambda>m. m\<lparr>pm_TotalSubscriptions := pm_TotalSubscriptions m + 1\<rparr>)
                           (upd_topic topicName (\<lambda>tp. tp\<lparr>tp_Subscribers := tp_Subscribers tp @ [(subscriptionID, sub)],
                              tp_metrics := (tp_metrics tp)\<lparr>tm_SubscriberCount := tm_SubscriberCount (tp_metrics tp) + 1\<rparr>\<rparr>)
                             ps))))))"

section \<open>Publishing\<close>

definition generateMessageID :: "instant \<Rightarrow> counter \<Rightarrow> string" where
  "generateMessageID now counter = ''msg_'' @ decimal (nat now) @ ''_'' @ decimal (unat counter)"

definition message_key :: "ConfigPubSub \<Rightarrow> MessagePubSub \<Rightarrow> string" where
  "message_key c message = cp_KeyPrefix c @ '':msg:'' @ mg_Topic message @ '':'' @ mg_ID message"

definition PubSub_storeMessagePubSub :: "instant \<Rightarrow> ctx \<Rightarrow> MessagePubSub \<Rightarrow> PubSub \<Rightarrow> instant \<times> goerr option" where
  "PubSub_storeMessagePubSub now c message ps =
     (case cp_Store (ps_config ps) of
        None \<Rightarrow> (now, Some (Sentinel (EBloom ErrStoreUnavailable)))
      | Some store \<Rightarrow> store now c (message_key (ps_config ps) message) message (mg_TTL message))"

text \<open>
  \<open>publishMessage\<close> between the two \<open>select\<close>s: the message is made, with the next sequence number of its
  topic, and stored; an error of the store is only logged.
\<close>

definition publish_prepare ::
    "instant \<Rightarrow> ctx \<Rightarrow> string \<Rightarrow> 8 word list \<Rightarrow> (string \<times> string) list option \<Rightarrow> PubSub
       \<Rightarrow> (goerr + MessagePubSub) \<times> instant \<times> PubSub" where
  "publish_prepare now c topicName data headers ps =
     (case topic_of ps topicName of
        None \<Rightarrow> (Inl (wrapping (pubsub_sentinel ErrTopicNotFoundPubSub)), now, ps)
      | Some topic \<Rightarrow>
          if tp_closed topic then (Inl (wrapping (pubsub_sentinel ErrTopicClosedPubSub)), now, ps)
          else
            (let counter = ps_counter ps + 1; sequence = tp_sequence topic + 1;
                 ps1 = upd_topic topicName (\<lambda>tp. tp\<lparr>tp_sequence := sequence\<rparr>) (ps\<lparr>ps_counter := counter\<rparr>);
                 message = \<lparr>mg_ID = generateMessageID now counter, mg_Topic = topicName, mg_Data = data,
                   mg_Headers = headers, mg_Timestamp = now, mg_RetryCount = 0, mg_Priority = 0,
                   mg_TTL = cp_TTL (ps_config ps), mg_Correlation = [], mg_TraceID = [], mg_Sequence = sequence\<rparr>
             in (Inr message,
                 if cp_Store (ps_config ps) = None then now else fst (PubSub_storeMessagePubSub now c message ps1),
                 ps1)))"

definition queue_of :: "PubSub \<Rightarrow> string \<Rightarrow> MessagePubSub chan" where
  "queue_of ps name = tp_MessageQueue (the (topic_of ps name))"

definition publish_send :: "bool \<Rightarrow> instant \<Rightarrow> ctx \<Rightarrow> MessagePubSub \<Rightarrow> PubSub \<Rightarrow> goerr option outcome \<times> PubSub" where
  "publish_send pick now c message ps =
     (case select_send pick (ctx_done now c) (queue_of ps (mg_Topic message)) message of
        SelSent q \<Rightarrow>
          (Returns None,
           upd_pm (\<lambda>m. m\<lparr>pm_TotalMessages := pm_TotalMessages m + 1\<rparr>)
             (upd_um (\<lambda>m. m\<lparr>um_MessagesPublished := um_MessagesPublished m + 1\<rparr>)
               (upd_topic (mg_Topic message) (\<lambda>tp. tp\<lparr>tp_MessageQueue := q,
                  tp_metrics := (tp_metrics tp)\<lparr>tm_MessagesPublished := tm_MessagesPublished (tp_metrics tp) + 1\<rparr>\<rparr>) ps)))
      | SelDone \<Rightarrow> (Returns (Some (wrapping (pubsub_sentinel ErrContextCancelledPubSub))), ps)
      | SelPanic \<Rightarrow> (Panics SendOnClosedChannel, ps)
      | SelDefault \<Rightarrow>
          (Returns (Some (ErrText ''topic %s message queue is full'')),
           upd_topic (mg_Topic message) (\<lambda>tp. tp\<lparr>
             tp_metrics := (tp_metrics tp)\<lparr>tm_QueueFullCount := tm_QueueFullCount (tp_metrics tp) + 1\<rparr>\<rparr>) ps))"

text \<open>A slot of the semaphore \<open>workerPool\<close>: taken without waiting, given back by the deferred receive.\<close>

definition take_slot :: "bool \<Rightarrow> instant \<Rightarrow> ctx \<Rightarrow> PubSub \<Rightarrow> goerr + PubSub" where
  "take_slot pick now c ps =
     (case select_send pick (ctx_done now c) (pu_workerPool (ps_publisher ps)) () of
        SelSent wp \<Rightarrow> Inr (upd_publisher (\<lambda>p. p\<lparr>pu_workerPool := wp\<rparr>) ps)
      | SelDone \<Rightarrow> Inl (wrapping (pubsub_sentinel ErrContextCancelledPubSub))
      | _ \<Rightarrow> Inl (wrapping (pubsub_sentinel ErrConcurrencyLimitPubSub)))"

definition give_slot :: "PubSub \<Rightarrow> PubSub" where
  "give_slot = upd_publisher (\<lambda>p. p\<lparr>pu_workerPool :=
     (case chan_recv (pu_workerPool p) of Received x c \<Rightarrow> c | _ \<Rightarrow> pu_workerPool p)\<rparr>)"

text \<open>The choices of the scheduler, by attempt: the two \<open>select\<close>s and the wait before the next attempt.\<close>

record publish_env =
  pe_slot :: "nat \<Rightarrow> bool"
  pe_send :: "nat \<Rightarrow> bool"
  pe_lag :: "nat \<Rightarrow> nat"
  pe_pick :: "nat \<Rightarrow> bool"

definition PubSub_publishMessage ::
    "publish_env \<Rightarrow> nat \<Rightarrow> instant \<Rightarrow> ctx \<Rightarrow> string \<Rightarrow> 8 word list \<Rightarrow> (string \<times> string) list option \<Rightarrow> PubSub
       \<Rightarrow> goerr option outcome \<times> instant \<times> PubSub" where
  "PubSub_publishMessage env a now c topicName data headers ps =
     (case take_slot (pe_slot env a) now c ps of
        Inl err \<Rightarrow> (Returns (Some err), now, ps)
      | Inr ps1 \<Rightarrow>
         (case publish_prepare now c topicName data headers ps1 of
            (Inl err, t, ps2) \<Rightarrow> (Returns (Some err), t, give_slot ps2)
          | (Inr message, t, ps2) \<Rightarrow>
             (case publish_send (pe_send env a) t c message ps2 of (r, ps3) \<Rightarrow> (r, t, give_slot ps3))))"

definition publish_failed :: "PubSub \<Rightarrow> PubSub" where
  "publish_failed ps =
     upd_pm (\<lambda>m. m\<lparr>pm_Errors := pm_Errors m + 1\<rparr>)
       (upd_um (\<lambda>m. m\<lparr>um_MessagesFailed := um_MessagesFailed m + 1\<rparr>) ps)"

text \<open>The loop of \<open>publishWithRetry\<close> from an attempt on; \<open>left\<close> is how many attempts are left.\<close>

fun publish_attempts ::
    "publish_env \<Rightarrow> nat \<Rightarrow> nat \<Rightarrow> instant \<Rightarrow> ctx \<Rightarrow> string \<Rightarrow> 8 word list \<Rightarrow> (string \<times> string) list option
       \<Rightarrow> goerr list \<Rightarrow> PubSub \<Rightarrow> goerr option outcome \<times> instant \<times> PubSub" where
  "publish_attempts env a 0 now c topicName data headers lastErr ps =
     (Returns (Some (Errorf lastErr)), now, publish_failed ps)"
| "publish_attempts env a (Suc left) now c topicName data headers lastErr ps =
     (case ctx_err now c of
        Some err \<Rightarrow> (Returns (Some (wrapping (pubsub_sentinel ErrContextCancelledPubSub))), now, ps)
      | None \<Rightarrow>
         (case PubSub_publishMessage env a now c topicName data headers ps of
            (Panics p, t, ps1) \<Rightarrow> (Panics p, t, ps1)
          | (Returns None, t, ps1) \<Rightarrow> (Returns None, t, ps1)
          | (Returns (Some err), t, ps1) \<Rightarrow>
              if 0 < left
              then (case timer_wait (pe_lag env a) (pe_pick env a)
                           (wrap64 (pu_retryDelay (ps_publisher ps1) * (int a + 1))) t c of
                      (t2, True) \<Rightarrow> (Returns (Some (wrapping (pubsub_sentinel ErrContextCancelledPubSub))), t2, ps1)
                    | (t2, False) \<Rightarrow> publish_attempts env (Suc a) left t2 c topicName data headers [err] ps1)
              else publish_attempts env (Suc a) left t c topicName data headers [err] ps1))"

definition PubSub_publishWithRetry ::
    "publish_env \<Rightarrow> instant \<Rightarrow> ctx \<Rightarrow> string \<Rightarrow> 8 word list \<Rightarrow> (string \<times> string) list option \<Rightarrow> PubSub
       \<Rightarrow> goerr option outcome \<times> instant \<times> PubSub" where
  "PubSub_publishWithRetry env now c topicName data headers ps =
     publish_attempts env 0 (nat (pu_maxRetries (ps_publisher ps) + 1)) now c topicName data headers [] ps"

definition upd_pcb :: "(CircuitBreakerPubSub \<Rightarrow> CircuitBreakerPubSub) \<Rightarrow> PubSub \<Rightarrow> PubSub" where
  "upd_pcb f = upd_publisher (\<lambda>p. p\<lparr>pu_circuitBreaker := f (pu_circuitBreaker p)\<rparr>)"

abbreviation ps_breaker :: "PubSub \<Rightarrow> CircuitBreakerPubSub" where
  "ps_breaker ps \<equiv> pu_circuitBreaker (ps_publisher ps)"

text \<open>The deferred function of \<open>Publish\<close> and \<open>PublishBatch\<close>.\<close>

definition publish_ended :: "bool \<Rightarrow> instant \<Rightarrow> instant \<Rightarrow> PubSub \<Rightarrow> PubSub" where
  "publish_ended batch start now =
     upd_um (\<lambda>m. m\<lparr>um_AverageLatency := time_sub now start, um_LastPublishTime := Some now,
                   um_BatchOperations := um_BatchOperations m + (if batch then 1 else 0)\<rparr>)"

text \<open>The checks of \<open>Publish\<close> before the breaker.\<close>

definition publish_check ::
    "(nat \<Rightarrow> bool) \<Rightarrow> instant \<Rightarrow> ctx \<Rightarrow> 8 word list \<Rightarrow> (string \<times> string) list option \<Rightarrow> PubSub \<Rightarrow> goerr option" where
  "publish_check uni now c data headers ps =
     (if ps_closed ps then Some (pubsub_sentinel ErrPublisherClosedPubSub)
      else case validateMessage data of
        Some err \<Rightarrow> Some (wrapping err)
      | None \<Rightarrow>
         (case validateHeaders uni headers of
            Some err \<Rightarrow> Some (wrapping err)
          | None \<Rightarrow> if ctx_done now c then Some (wrapping (common ErrContextCancelled)) else None))"

definition PubSub_Publish ::
    "(nat \<Rightarrow> bool) \<Rightarrow> publish_env \<Rightarrow> instant \<Rightarrow> ctx \<Rightarrow> string \<Rightarrow> 8 word list \<Rightarrow> (string \<times> string) list option \<Rightarrow> PubSub
       \<Rightarrow> goerr option outcome \<times> instant \<times> PubSub" where
  "PubSub_Publish uni env now c topicName data headers ps =
     (case publish_check uni now c data headers ps of
        Some err \<Rightarrow> (Returns (Some err), now, ps)
      | None \<Rightarrow>
         (let opCtx = WithTimeout now (cp_OperationTimeout (ps_config ps)) c;
              (r, t, ps1) = CircuitBreakerPubSub_Execute ps_breaker upd_pcb
                (\<lambda>t0. PubSub_publishWithRetry env t0 opCtx topicName data headers) now ps
          in (r, t, publish_ended False now t ps1)))"

text \<open>The first invalid message of a batch.\<close>

fun first_bad_message :: "(nat \<Rightarrow> bool) \<Rightarrow> MessagePubSub list \<Rightarrow> goerr option" where
  "first_bad_message uni [] = None"
| "first_bad_message uni (m # ms) =
     (case validateMessage (mg_Data m) of
        Some err \<Rightarrow> Some (wrapping err)
      | None \<Rightarrow>
         (case validateHeaders uni (mg_Headers m) of
            Some err \<Rightarrow> Some (wrapping err)
          | None \<Rightarrow> first_bad_message uni ms))"

fun publish_all ::
    "publish_env \<Rightarrow> nat \<Rightarrow> ctx \<Rightarrow> string \<Rightarrow> MessagePubSub list \<Rightarrow> instant \<Rightarrow> PubSub
       \<Rightarrow> goerr option outcome \<times> instant \<times> PubSub" where
  "publish_all env i c topicName [] now ps = (Returns None, now, ps)"
| "publish_all env i c topicName (m # ms) now ps =
     (case PubSub_publishMessage env i now c topicName (mg_Data m) (mg_Headers m) ps of
        (Returns None, t, ps1) \<Rightarrow> publish_all env (Suc i) c topicName ms t ps1
      | (Returns (Some err), t, ps1) \<Rightarrow> (Returns (Some (wrapping err)), t, ps1)
      | (Panics p, t, ps1) \<Rightarrow> (Panics p, t, ps1))"

definition batch_check :: "instant \<Rightarrow> ctx \<Rightarrow> MessagePubSub list \<Rightarrow> PubSub \<Rightarrow> goerr option" where
  "batch_check now c messages ps =
     (if ps_closed ps then Some (pubsub_sentinel ErrPublisherClosedPubSub)
      else if messages = [] then Some (ErrText ''batch cannot be empty'')
      else if int (length messages) > MaxBatchSizePubSub then Some (wrapping (pubsub_sentinel ErrBatchTooLargePubSub))
      else if ctx_done now c then Some (wrapping (common ErrContextCancelled))
      else None)"

definition PubSub_PublishBatch ::
    "(nat \<Rightarrow> bool) \<Rightarrow> publish_env \<Rightarrow> instant \<Rightarrow> ctx \<Rightarrow> string \<Rightarrow> MessagePubSub list \<Rightarrow> PubSub
       \<Rightarrow> goerr option outcome \<times> instant \<times> PubSub" where
  "PubSub_PublishBatch uni env now c topicName messages ps =
     (case batch_check now c messages ps of
        Some err \<Rightarrow> (Returns (Some err), now, ps)
      | None \<Rightarrow>
         (let opCtx = WithTimeout now (cp_OperationTimeout (ps_config ps)) c in
          case first_bad_message uni messages of
            Some err \<Rightarrow> (Returns (Some err), now, publish_ended True now now ps)
          | None \<Rightarrow>
             (let (r, t, ps1) = CircuitBreakerPubSub_Execute ps_breaker upd_pcb
                    (\<lambda>t0. publish_all env 0 opCtx topicName messages t0) now ps
              in (r, t, publish_ended True now t ps1))))"

end
