(* ===== verification/PubSubDelivery.thy ===== *)
theory PubSubDelivery
  imports PubSub
begin

text \<open>
  The second half of \<open>src/pubsub.go\<close>: filters, delivery with retries, the dead letter handler, closing
  and statistics. A message handler runs in a goroutine of its own, so its panic is recovered there
  and reaches the delivery as an error, and its not returning ends with the timeout.
\<close>

section \<open>Filters\<close>

definition SubscriptionPubSub_matchesFilter :: "SubscriptionPubSub \<Rightarrow> MessagePubSub \<Rightarrow> bool" where
  "SubscriptionPubSub_matchesFilter s message =
     (let f = sb_Filter s in
      (case fl_Headers f of
         None \<Rightarrow> True
       | Some hs \<Rightarrow> list_all (\<lambda>(key, val).
           case mg_Headers message of None \<Rightarrow> False | Some mh \<Rightarrow> map_of mh key = Some val) hs)
      \<and> \<not> (0 < fl_Priority f \<and> mg_Priority message < fl_Priority f)
      \<and> \<not> (0 < fl_MaxRetryCount f \<and> fl_MaxRetryCount f \<le> mg_RetryCount message))"

section \<open>One delivery\<close>

definition upd_sm :: "(SubscriptionMetrics \<Rightarrow> SubscriptionMetrics) \<Rightarrow> SubscriptionPubSub \<Rightarrow> SubscriptionPubSub" where
  "upd_sm f s = s\<lparr>sb_metrics := f (sb_metrics s)\<rparr>"

definition upd_scb :: "(CircuitBreakerPubSub \<Rightarrow> CircuitBreakerPubSub) \<Rightarrow> SubscriptionPubSub \<Rightarrow> SubscriptionPubSub" where
  "upd_scb f s = s\<lparr>sb_CircuitBreaker := f (sb_CircuitBreaker s)\<rparr>"

text \<open>
  One call of the handler, at \<open>now\<close>: when the delivery goes on, and with what error. When the handler
  has returned and its context is done by the time the delivery runs, \<open>pick\<close> decides.
\<close>

definition call_handler ::
    "bool \<Rightarrow> duration \<Rightarrow> instant \<Rightarrow> ctx \<Rightarrow> MessageHandlerPubSub \<Rightarrow> MessagePubSub \<Rightarrow> (instant \<times> goerr option) option" where
  "call_handler pick timeout now c handler message =
     (let hc = WithTimeout now timeout c;
          late = (case done_at hc of None \<Rightarrow> None
                  | Some d \<Rightarrow> Some (max now d, Some (wrapping (pubsub_sentinel ErrTimeoutPubSub))))
      in case handler now hc message of
           None \<Rightarrow> late
         | Some (t, r) \<Rightarrow>
             (let err = (case r of Returns e \<Rightarrow> e | Panics p \<Rightarrow> Some (wrapping (pubsub_sentinel ErrPanicRecoveredPubSub)))
              in case late of
                   None \<Rightarrow> Some (t, err)
                 | Some (d, e) \<Rightarrow> if d < t \<or> d = t \<and> pick then Some (d, e) else Some (t, err)))"

definition is_timeout :: "goerr \<Rightarrow> bool" where
  "is_timeout err \<longleftrightarrow> errors_is err (pubsub_sentinel ErrTimeoutPubSub) \<or> errors_is err CtxDeadlineExceeded
     \<or> errors_is err CtxCanceled"

record deliver_picks =
  dv_result :: "nat \<Rightarrow> bool"
  dv_lag :: "nat \<Rightarrow> nat"
  dv_wait :: "nat \<Rightarrow> bool"

text \<open>
  The loop of \<open>deliverWithRetry\<close> from an attempt on, with \<open>left\<close> attempts left. The context of the handler
  always has a deadline, so a call always comes back (\<open>call_handler\<close> is never \<open>None\<close>).
\<close>

fun deliver_attempts ::
    "deliver_picks \<Rightarrow> duration \<Rightarrow> nat \<Rightarrow> nat \<Rightarrow> ctx \<Rightarrow> goerr list \<Rightarrow> instant \<Rightarrow> MessagePubSub \<times> SubscriptionPubSub
       \<Rightarrow> goerr option \<times> instant \<times> MessagePubSub \<times> SubscriptionPubSub" where
  "deliver_attempts dv timeout a 0 c lastErr now (m, s) = (Some (Errorf lastErr), now, m, s)"
| "deliver_attempts dv timeout a (Suc left) c lastErr now (m0, s) =
     (let m = m0\<lparr>mg_RetryCount := int a\<rparr> in
      case ctx_err now c of
        Some err \<Rightarrow> (Some (wrapping (pubsub_sentinel ErrContextCancelledPubSub)), now, m, s)
      | None \<Rightarrow>
         (case the (call_handler (dv_result dv a) timeout now c (sb_Handler s) m) of
            (t, None) \<Rightarrow> (None, t, m, s)
          | (t, Some err) \<Rightarrow>
              if is_timeout err then (Some err, t, m, s)
              else
                (let s1 = upd_sm (\<lambda>x. x\<lparr>sm_MessagesRetried := sm_MessagesRetried x + 1\<rparr>) s in
                 if 0 < left
                 then (case timer_wait (dv_lag dv a) (dv_wait dv a) (wrap64 (sb_RetryDelay s1 * (int a + 1))) t c of
                         (t2, True) \<Rightarrow> (Some (wrapping (pubsub_sentinel ErrContextCancelledPubSub)), t2, m, s1)
                       | (t2, False) \<Rightarrow> deliver_attempts dv timeout (Suc a) left c [err] t2 (m, s1))
                 else deliver_attempts dv timeout (Suc a) left c [err] t (m, s1))))"

definition PubSub_deliverWithRetry ::
    "deliver_picks \<Rightarrow> ConfigPubSub \<Rightarrow> ctx \<Rightarrow> instant \<Rightarrow> MessagePubSub \<times> SubscriptionPubSub
       \<Rightarrow> goerr option \<times> instant \<times> MessagePubSub \<times> SubscriptionPubSub" where
  "PubSub_deliverWithRetry dv cfg c now ms =
     deliver_attempts dv (cp_OperationTimeout cfg) 0 (nat (sb_MaxRetries (snd ms) + 1)) c [] now ms"

text \<open>The choices in one delivery: the slot, the attempts under the breaker, those without it.\<close>

record deliver_env =
  de_slot :: bool
  de_first :: deliver_picks
  de_direct :: deliver_picks

text \<open>The circuit breaker around \<open>deliverWithRetry\<close>, and the direct delivery when it refuses.\<close>

definition deliver_guarded ::
    "deliver_env \<Rightarrow> ConfigPubSub \<Rightarrow> ctx \<Rightarrow> instant \<Rightarrow> MessagePubSub \<times> SubscriptionPubSub
       \<Rightarrow> goerr option \<times> instant \<times> MessagePubSub \<times> SubscriptionPubSub" where
  "deliver_guarded env cfg c now ms =
     (case CircuitBreakerPubSub_Execute (\<lambda>(m, s). sb_CircuitBreaker s) (\<lambda>f (m, s). (m, upd_scb f s))
             (\<lambda>t st. case PubSub_deliverWithRetry (de_first env) cfg c t st of (err, t', st') \<Rightarrow> (Returns err, t', st'))
             now ms of
        (Returns err, t, ms1) \<Rightarrow>
          if err \<noteq> None \<and> errors_is (the err) breaker_open
          then PubSub_deliverWithRetry (de_direct env) cfg c t ms1
          else (err, t, ms1)
      | (Panics p, t, ms1) \<Rightarrow> (None, t, ms1))"

text \<open>The counters of a failed delivery, by the kind of its error.\<close>

definition count_delivery_error :: "goerr \<Rightarrow> SubscriptionPubSub \<Rightarrow> SubscriptionPubSub" where
  "count_delivery_error err s0 =
     (let s = upd_sm (\<lambda>x. x\<lparr>sm_MessagesFailed := sm_MessagesFailed x + 1\<rparr>) s0
      in if errors_is err breaker_open
         then upd_sm (\<lambda>x. x\<lparr>sm_CircuitBreakerTrips := sm_CircuitBreakerTrips x + 1\<rparr>) s
         else if is_timeout err then upd_sm (\<lambda>x. x\<lparr>sm_TimeoutErrors := sm_TimeoutErrors x + 1\<rparr>) s
         else s)"

definition deliver_count :: "goerr option \<Rightarrow> SubscriptionPubSub \<Rightarrow> SubscriptionPubSub" where
  "deliver_count err s =
     (case err of
        None \<Rightarrow> upd_sm (\<lambda>x. x\<lparr>sm_MessagesProcessed := sm_MessagesProcessed x + 1\<rparr>) s
      | Some e \<Rightarrow> count_delivery_error e s)"

text \<open>
  The call of the dead letter handler, when there is one and the delivery failed. It is called where
  the delivery runs, so its panic is not recovered.
\<close>

definition dlq_call ::
    "ConfigPubSub \<Rightarrow> instant \<Rightarrow> ctx \<Rightarrow> MessagePubSub \<Rightarrow> goerr option \<Rightarrow> (instant \<times> goerr option outcome) option" where
  "dlq_call cfg now c m err =
     (case err of
        None \<Rightarrow> None
      | Some e \<Rightarrow>
         (if cp_EnableDeadLetterQueue cfg then map_option (\<lambda>dlh. dlh now c m e) (cp_DeadLetterHandler cfg) else None))"

definition count_dlq :: "goerr option \<Rightarrow> SubscriptionPubSub \<Rightarrow> SubscriptionPubSub" where
  "count_dlq dlqErr s = (if dlqErr \<noteq> None then s else upd_sm (\<lambda>x. x\<lparr>sm_MessagesDLQ := sm_MessagesDLQ x + 1\<rparr>) s)"

text \<open>The end of a delivery; the result says whether the delivery failed.\<close>

definition deliver_finish ::
    "ConfigPubSub \<Rightarrow> ctx \<Rightarrow> goerr option \<Rightarrow> instant \<Rightarrow> MessagePubSub \<Rightarrow> SubscriptionPubSub
       \<Rightarrow> bool outcome \<times> instant \<times> SubscriptionPubSub" where
  "deliver_finish cfg c err now m s =
     (let s1 = deliver_count err s in
      case dlq_call cfg now c m err of
        None \<Rightarrow> (Returns (err \<noteq> None), now, s1)
      | Some (t, Panics p) \<Rightarrow> (Panics p, t, s1)
      | Some (t, Returns dlqErr) \<Rightarrow> (Returns True, t, count_dlq dlqErr s1))"

text \<open>
  The start of \<open>deliverMessageToSubscriber\<close>: \<open>None\<close> when it gives up because its context is done,
  otherwise whether it holds a slot of the subscription. A full semaphore does not stop it.
\<close>

definition deliver_begin :: "bool \<Rightarrow> instant \<Rightarrow> ctx \<Rightarrow> SubscriptionPubSub \<Rightarrow> (bool \<times> SubscriptionPubSub) option" where
  "deliver_begin pick now c s =
     (let received = upd_sm (\<lambda>x. x\<lparr>sm_MessagesReceived := sm_MessagesReceived x + 1\<rparr>) in
      case select_send pick (ctx_done now c) (sb_workerPool s) () of
        SelDone \<Rightarrow> None
      | SelSent wp \<Rightarrow> Some (True, received (s\<lparr>sb_workerPool := wp\<rparr>))
      | _ \<Rightarrow> Some (False, received s))"

text \<open>The deferred functions: the latency, then the slot.\<close>

definition deliver_end :: "bool \<Rightarrow> instant \<Rightarrow> instant \<Rightarrow> SubscriptionPubSub \<Rightarrow> SubscriptionPubSub" where
  "deliver_end slot start now s0 =
     (let s = upd_sm (\<lambda>x. x\<lparr>sm_AverageLatency := time_sub now start, sm_LastMessageTime := Some now\<rparr>) s0 in
      if slot then s\<lparr>sb_workerPool := (case chan_recv (sb_workerPool s) of Received x c \<Rightarrow> c | _ \<Rightarrow> sb_workerPool s)\<rparr>
      else s)"

definition PubSub_deliverMessageToSubscriber ::
    "deliver_env \<Rightarrow> ConfigPubSub \<Rightarrow> ctx \<Rightarrow> instant \<Rightarrow> MessagePubSub \<Rightarrow> SubscriptionPubSub
       \<Rightarrow> bool outcome option \<times> instant \<times> SubscriptionPubSub" where
  "PubSub_deliverMessageToSubscriber env cfg c start m s =
     (case deliver_begin (de_slot env) start c s of
        None \<Rightarrow> (None, start, s)
      | Some (slot, s1) \<Rightarrow>
         (let (err, t, m2, s2) = deliver_guarded env cfg c start (m, s1);
              (r, t3, s3) = deliver_finish cfg c err t m2 s2
          in (Some r, t3, deliver_end slot start t3 s3)))"

section \<open>Delivery to all subscribers\<close>

text \<open>
  The deliveries of a message run side by side; they share nothing but counters that are only added
  to, so each is computed on its own from the instant they start.
\<close>

definition deliver_to ::
    "(string \<Rightarrow> deliver_env) \<Rightarrow> ConfigPubSub \<Rightarrow> ctx \<Rightarrow> instant \<Rightarrow> MessagePubSub \<Rightarrow> string \<times> SubscriptionPubSub
       \<Rightarrow> string \<times> bool outcome option \<times> instant \<times> SubscriptionPubSub" where
  "deliver_to envs cfg c now m x =
     (let (sid, s) = x in
      if sb_closed s \<or> \<not> SubscriptionPubSub_matchesFilter s m then (sid, None, now, s)
      else (sid, PubSub_deliverMessageToSubscriber (envs sid) cfg c now m s))"

text \<open>
  \<open>deliverMessageToSubscribers\<close>: it waits for the last delivery, for its context or for the timeout,
  and then the caller goes on; the changes of the subscriptions are those of the complete deliveries.
\<close>

definition PubSub_deliverMessageToSubscribers ::
    "(string \<Rightarrow> deliver_env) \<Rightarrow> ctx \<Rightarrow> instant \<Rightarrow> string \<Rightarrow> MessagePubSub \<Rightarrow> PubSub \<Rightarrow> unit outcome \<times> instant \<times> PubSub" where
  "PubSub_deliverMessageToSubscribers envs c now name m ps =
     (let topic = the (topic_of ps name);
          rs = map (deliver_to envs (ps_config ps) c now m) (tp_Subscribers topic);
          failures = length (filter (\<lambda>(sid, r, t, s). r = Some (Returns True)) rs);
          end = fold (\<lambda>(sid, r, t, s). max t) rs now;
          timeout = now + cp_OperationTimeout (ps_config ps);
          due = (case done_at c of None \<Rightarrow> timeout | Some d \<Rightarrow> min timeout (max now d));
          ps1 = upd_pm (\<lambda>x. x\<lparr>pm_Errors := pm_Errors x + of_nat failures\<rparr>)
                  (upd_topic name (\<lambda>tp. tp\<lparr>tp_Subscribers := map (\<lambda>(sid, r, t, s). (sid, s)) rs\<rparr>) ps)
      in case List.find (\<lambda>(sid, r, t, s). case r of Some (Panics p) \<Rightarrow> True | _ \<Rightarrow> False) rs of
           Some (sid, Some (Panics p), t, s) \<Rightarrow> (Panics p, t, ps1)
         | _ \<Rightarrow>
             if end \<le> due
             then (Returns (), end, upd_topic name (\<lambda>tp. tp\<lparr>tp_metrics := (tp_metrics tp)
                    \<lparr>tm_MessagesDelivered := tm_MessagesDelivered (tp_metrics tp) + 1\<rparr>\<rparr>) ps1)
             else (Returns (), due, ps1))"

text \<open>
  The loop of a topic's processor, alone, for at most \<open>n\<close> messages; it stops when the queue is empty.
\<close>

fun PubSub_processTopicMessages ::
    "nat \<Rightarrow> (nat \<Rightarrow> string \<Rightarrow> deliver_env) \<Rightarrow> ctx \<Rightarrow> string \<Rightarrow> instant \<Rightarrow> PubSub \<Rightarrow> (unit outcome \<times> instant \<times> PubSub) option" where
  "PubSub_processTopicMessages 0 envs c name now ps = None"
| "PubSub_processTopicMessages (Suc n) envs c name now ps =
     (case chan_recv (queue_of ps name) of
        Received m q \<Rightarrow>
          (case PubSub_deliverMessageToSubscribers (envs n) c now name m
                  (upd_topic name (\<lambda>tp. tp\<lparr>tp_MessageQueue := q\<rparr>) ps) of
             (Panics p, t, ps1) \<Rightarrow> Some (Panics p, t, ps1)
           | (Returns _, t, ps1) \<Rightarrow> PubSub_processTopicMessages n envs c name t ps1)
      | _ \<Rightarrow> Some (Returns (), now, ps))"

section \<open>Closing\<close>

text \<open>The flag and the context; then the topics; then the subscriptions.\<close>

definition PubSub_Close_flag :: "instant \<Rightarrow> PubSub \<Rightarrow> goerr option \<times> PubSub" where
  "PubSub_Close_flag now ps =
     (if ps_closed ps then (Some (ErrText ''pub/sub system already closed''), ps)
      else (None, ps\<lparr>ps_closed := True, ps_ctx := (ps_ctx ps)\<lparr>cancelled_at := Some now\<rparr>\<rparr>))"

definition close_topic :: "TopicPubSub \<Rightarrow> TopicPubSub outcome" where
  "close_topic tp =
     (case chan_close (tp_MessageQueue tp) of
        Some q \<Rightarrow> Returns (tp\<lparr>tp_closed := True, tp_MessageQueue := q\<rparr>)
      | None \<Rightarrow> Panics CloseOfClosedChannel)"

fun close_topics :: "(string \<times> TopicPubSub) list \<Rightarrow> (string \<times> TopicPubSub) list outcome" where
  "close_topics [] = Returns []"
| "close_topics ((name, tp) # tps) =
     (case close_topic tp of
        Panics p \<Rightarrow> Panics p
      | Returns tp1 \<Rightarrow> (case close_topics tps of Panics p \<Rightarrow> Panics p | Returns rest \<Rightarrow> Returns ((name, tp1) # rest)))"

definition close_subscriptions :: "(string \<times> TopicPubSub) list \<Rightarrow> (string \<times> TopicPubSub) list" where
  "close_subscriptions =
     map (\<lambda>(name, tp). (name, tp\<lparr>tp_Subscribers := map (\<lambda>(sid, s). (sid, s\<lparr>sb_closed := True\<rparr>)) (tp_Subscribers tp)\<rparr>))"

text \<open>\<open>Close\<close> up to its wait for the goroutines.\<close>

definition PubSub_Close :: "instant \<Rightarrow> PubSub \<Rightarrow> goerr option outcome \<times> PubSub" where
  "PubSub_Close now ps =
     (case PubSub_Close_flag now ps of
        (Some err, ps1) \<Rightarrow> (Returns (Some err), ps1)
      | (None, ps1) \<Rightarrow>
         (case close_topics (pu_topics (ps_publisher ps1)) of
            Panics p \<Rightarrow> (Panics p, ps1)
          | Returns tps \<Rightarrow> (Returns None, upd_publisher (\<lambda>p. p\<lparr>pu_topics := close_subscriptions tps\<rparr>) ps1)))"

section \<open>Statistics\<close>

record PubSubStats =
  st_metrics :: PubSubMetricsPubSub
  st_publisher :: PublisherMetrics
  st_topics :: "(string \<times> TopicMetrics) list"
  st_subscriptions :: "(string \<rightharpoonup> SubscriptionMetrics)"

text \<open>The statistics of the subscriptions are keyed by ID alone: of two with one ID, the last one stays.\<close>

definition PubSub_GetStats :: "PubSub \<Rightarrow> PubSubStats" where
  "PubSub_GetStats ps =
     \<lparr>st_metrics = ps_metrics ps, st_publisher = pu_metrics (ps_publisher ps),
      st_topics = map (\<lambda>(name, tp). (name, tp_metrics tp)) (pu_topics (ps_publisher ps)),
      st_subscriptions =
        map_of (rev (concat (map (\<lambda>(name, tp). map (\<lambda>(sid, s). (sid, sb_metrics s)) (tp_Subscribers tp))
          (pu_topics (ps_publisher ps)))))\<rparr>"

section \<open>Laws\<close>

text \<open>On a valid configuration only four of the defaults can apply.\<close>

definition some_defaults :: "ConfigPubSub \<Rightarrow> ConfigPubSub" where
  "some_defaults c =
     c\<lparr>cp_KeyPrefix := (if cp_KeyPrefix c = [] then DefaultKeyPrefixPubSub else cp_KeyPrefix c),
       cp_TTL := (if cp_TTL c = 0 then DefaultTTLPubSub else cp_TTL c),
       cp_MaxRetryAttempts := (if cp_MaxRetryAttempts c = 0 then MaxRetryAttemptsPubSub else cp_MaxRetryAttempts c),
       cp_RetryDelay := (if cp_RetryDelay c = 0 then RetryDelayPubSub else cp_RetryDelay c)\<rparr>"

lemma validateConfigPubSub_iff:
  "validateConfigPubSub (Some c) = None \<longleftrightarrow>
     0 < cp_BufferSize c \<and> 0 \<le> cp_MaxRetryAttempts c \<and> 0 < cp_MaxConcurrentOperations c
     \<and> 0 < cp_OperationTimeout c \<and> 0 < cp_CircuitBreakerThreshold c \<and> 0 < cp_CircuitBreakerTimeout c"
  by (simp add: validateConfigPubSub_def not_le not_less)

lemma applyDefaults_valid:
  assumes "validateConfigPubSub (Some c) = None"
  shows "applyDefaultsPubSub c = some_defaults c"
proof -
  obtain st kp ttl bs mr rd em mo ot th ct ed dl where c: "c = \<lparr>cp_Store = st, cp_KeyPrefix = kp, cp_TTL = ttl,
      cp_BufferSize = bs, cp_MaxRetryAttempts = mr, cp_RetryDelay = rd, cp_EnableMetrics = em,
      cp_MaxConcurrentOperations = mo, cp_OperationTimeout = ot, cp_CircuitBreakerThreshold = th,
      cp_CircuitBreakerTimeout = ct, cp_EnableDeadLetterQueue = ed, cp_DeadLetterHandler = dl\<rparr>"
    by (cases c)
  have nz: "bs \<noteq> 0" "mo \<noteq> 0" "ot \<noteq> 0" "th \<noteq> 0" "ct \<noteq> 0"
    using assms unfolding validateConfigPubSub_iff c by simp_all
  show ?thesis
    unfolding applyDefaultsPubSub_def some_defaults_def c
    by (cases "kp = []"; cases "ttl = 0"; cases "mr = 0"; cases "rd = 0") (simp_all add: nz)
qed

interpretation psc: config_check "\<lambda>c. validateConfigPubSub (Some c)" applyDefaultsPubSub
proof unfold_locales
  fix c
  assume v: "validateConfigPubSub (Some c) = None"
  show v': "validateConfigPubSub (Some (applyDefaultsPubSub c)) = None"
    using v unfolding applyDefaults_valid [OF v] validateConfigPubSub_iff
    by (simp add: some_defaults_def pubsub_limits)
  show "applyDefaultsPubSub (applyDefaultsPubSub c) = applyDefaultsPubSub c"
    unfolding applyDefaults_valid [OF v'] unfolding applyDefaults_valid [OF v]
    by (simp add: some_defaults_def pubsub_limits)
qed

interpretation psl: closable "PubSub_Close_flag now" ps_closed for now
  by unfold_locales (auto simp: PubSub_Close_flag_def)

definition publish_op ::
    "(nat \<Rightarrow> bool) \<times> publish_env \<times> instant \<times> ctx \<times> string \<times> 8 word list \<times> (string \<times> string) list option \<Rightarrow> PubSub
       \<Rightarrow> (goerr option outcome \<times> instant) \<times> PubSub" where
  "publish_op a ps =
     (let (uni, env, now, c, name, data, headers) = a; (r, t, ps1) = PubSub_Publish uni env now c name data headers ps
      in ((r, t), ps1))"

interpretation psg: guarded "PubSub_Close_flag now" ps_closed publish_op
    "\<lambda>(uni, env, t, c, name, data, headers). (Returns (Some (pubsub_sentinel ErrPublisherClosedPubSub)), t)" for now
  by unfold_locales (auto simp: publish_op_def PubSub_Publish_def publish_check_def)

end
