(* ===== verification/PubSubSystem.thy ===== *)
theory PubSubSystem
  imports PubSubDelivery Holding
begin

text \<open>
  The running system of \<open>src/pubsub.go\<close>: calls of \<open>Publish\<close> and \<open>PublishBatch\<close>, a processor per topic,
  the deliveries it starts, \<open>CreateTopic\<close>, \<open>Subscribe\<close>, \<open>Close\<close> and the clock. One step is one channel
  operation, one section under a mutex, one atomic section of a circuit breaker or one call of a
  handler, with the counters next to it. \<open>pb_step\<close> is a step of one call, \<open>dv_step\<close> a step of one
  delivery on its subscription; \<open>ps_step\<close> puts them together. After a panic the process would be gone;
  the model lets the others go on, which only adds runs.
\<close>

section \<open>Calls\<close>

datatype pub_pc =
    PbEnter
  | PbTop nat
  | PbMake nat
  | PbSend nat instant MessagePubSub
  | PbWait nat instant
  | PbLeave "goerr option"
  | PbEnd "goerr option"
  | PbReturned "goerr option"
  | PbPanicked panic

text \<open>\<open>pc_todo\<close> holds the messages still to be sent: one for \<open>Publish\<close>, the rest of the batch for \<open>PublishBatch\<close>.\<close>

record pub_call =
  pc_topic :: string
  pc_ctx :: ctx
  pc_start :: instant
  pc_batch :: bool
  pc_todo :: "(8 word list \<times> (string \<times> string) list option) list"
  pc_at :: pub_pc

text \<open>
  After a failed \<open>publishMessage\<close>: a batch fails, a single message waits for its next attempt or,
  after the last one, is counted as failed.
\<close>

definition attempt_failed :: "instant \<Rightarrow> nat \<Rightarrow> goerr \<Rightarrow> pub_call \<Rightarrow> PubSub \<Rightarrow> pub_call \<times> PubSub" where
  "attempt_failed now a err call ps =
     (if pc_batch call then (call\<lparr>pc_at := PbLeave (Some (wrapping err))\<rparr>, ps)
      else if int a < pu_maxRetries (ps_publisher ps)
      then (call\<lparr>pc_at := PbWait (Suc a) (now + max 0 (wrap64 (pu_retryDelay (ps_publisher ps) * (int a + 1))))\<rparr>, ps)
      else (call\<lparr>pc_at := PbLeave (Some (Errorf [err]))\<rparr>, publish_failed ps))"

definition message_sent :: "nat \<Rightarrow> pub_call \<Rightarrow> pub_call" where
  "message_sent a call =
     (if pc_batch call \<and> tl (pc_todo call) \<noteq> [] then call\<lparr>pc_todo := tl (pc_todo call), pc_at := PbTop (Suc a)\<rparr>
      else call\<lparr>pc_todo := tl (pc_todo call), pc_at := PbLeave None\<rparr>)"

text \<open>The message in the middle is the one the step puts into a queue.\<close>

inductive pb_step :: "instant \<Rightarrow> pub_call \<times> PubSub \<Rightarrow> MessagePubSub option \<Rightarrow> pub_call \<times> PubSub \<Rightarrow> bool" for now where
  enter: "pc_at call = PbEnter \<Longrightarrow> pb_enter now (ps_breaker ps) = (allowed, cb)
    \<Longrightarrow> pb_step now (call, ps) None
          (call\<lparr>pc_at := (if allowed then PbTop 0 else PbEnd (Some breaker_open))\<rparr>, upd_pcb (\<lambda>_. cb) ps)"
| cancelled: "pc_at call = PbTop a \<Longrightarrow> \<not> pc_batch call \<Longrightarrow> ctx_err now (pc_ctx call) = Some e
    \<Longrightarrow> pb_step now (call, ps) None
          (call\<lparr>pc_at := PbLeave (Some (wrapping (pubsub_sentinel ErrContextCancelledPubSub)))\<rparr>, ps)"
| slot: "pc_at call = PbTop a \<Longrightarrow> pc_batch call \<or> ctx_err now (pc_ctx call) = None
    \<Longrightarrow> take_slot pick now (pc_ctx call) ps = Inr ps'
    \<Longrightarrow> pb_step now (call, ps) None (call\<lparr>pc_at := PbMake a\<rparr>, ps')"
| no_slot: "pc_at call = PbTop a \<Longrightarrow> pc_batch call \<or> ctx_err now (pc_ctx call) = None
    \<Longrightarrow> take_slot pick now (pc_ctx call) ps = Inl err
    \<Longrightarrow> pb_step now (call, ps) None (attempt_failed now a err call ps)"
| make: "pc_at call = PbMake a \<Longrightarrow> pc_todo call = (data, headers) # todo
    \<Longrightarrow> publish_prepare now (pc_ctx call) (pc_topic call) data headers ps = (Inr m, t, ps')
    \<Longrightarrow> pb_step now (call, ps) None (call\<lparr>pc_at := PbSend a t m\<rparr>, ps')"
| make_fails: "pc_at call = PbMake a \<Longrightarrow> pc_todo call = (data, headers) # todo
    \<Longrightarrow> publish_prepare now (pc_ctx call) (pc_topic call) data headers ps = (Inl err, t, ps')
    \<Longrightarrow> pb_step now (call, ps) None (attempt_failed now a err call (give_slot ps'))"
| send: "pc_at call = PbSend a t m \<Longrightarrow> t \<le> now
    \<Longrightarrow> publish_send pick now (pc_ctx call) m ps = (Returns None, ps')
    \<Longrightarrow> pb_step now (call, ps) (Some m) (message_sent a call, give_slot ps')"
| send_fails: "pc_at call = PbSend a t m \<Longrightarrow> t \<le> now
    \<Longrightarrow> publish_send pick now (pc_ctx call) m ps = (Returns (Some err), ps')
    \<Longrightarrow> pb_step now (call, ps) None (attempt_failed now a err call (give_slot ps'))"
| send_panics: "pc_at call = PbSend a t m \<Longrightarrow> t \<le> now
    \<Longrightarrow> publish_send pick now (pc_ctx call) m ps = (Panics p, ps')
    \<Longrightarrow> pb_step now (call, ps) None (call\<lparr>pc_at := PbPanicked p\<rparr>, give_slot ps')"
| wake: "pc_at call = PbWait a due \<Longrightarrow> due \<le> now \<Longrightarrow> pb_step now (call, ps) None (call\<lparr>pc_at := PbTop a\<rparr>, ps)"
| wait_cancelled: "pc_at call = PbWait a due \<Longrightarrow> ctx_done now (pc_ctx call)
    \<Longrightarrow> pb_step now (call, ps) None
          (call\<lparr>pc_at := PbLeave (Some (wrapping (pubsub_sentinel ErrContextCancelledPubSub)))\<rparr>, ps)"
| leave: "pc_at call = PbLeave err
    \<Longrightarrow> pb_step now (call, ps) None (call\<lparr>pc_at := PbEnd err\<rparr>, upd_pcb (pb_leave now err) ps)"
| ended: "pc_at call = PbEnd err
    \<Longrightarrow> pb_step now (call, ps) None
          (call\<lparr>pc_at := PbReturned err\<rparr>, publish_ended (pc_batch call) (pc_start call) now ps)"

section \<open>Deliveries\<close>

datatype del_pc =
    DvSpawned
  | DvEnter
  | DvTop bool nat "goerr list"
  | DvHandling bool nat ctx "(instant \<times> goerr option outcome) option"
  | DvWait bool nat goerr instant
  | DvOver bool "goerr option"
  | DvCount "goerr option"
  | DvDlq instant "goerr option outcome"
  | DvEnding
  | DvFinished
  | DvGaveUp
  | DvPanicked panic

text \<open>\<open>dv_msg\<close> is the message as it was queued, \<open>dv_cur\<close> the one the handler sees.\<close>

record delivery =
  dv_topic :: string
  dv_sid :: string
  dv_msg :: MessagePubSub
  dv_cur :: MessagePubSub
  dv_begin :: instant
  dv_slot :: bool
  dv_at :: del_pc

definition spawn :: "string \<Rightarrow> MessagePubSub \<Rightarrow> string \<Rightarrow> delivery" where
  "spawn name m sid =
     \<lparr>dv_topic = name, dv_sid = sid, dv_msg = m, dv_cur = m, dv_begin = 0, dv_slot = False, dv_at = DvSpawned\<rparr>"

text \<open>Where a delivery goes after an attempt; whether the breaker guards it is \<open>g\<close>.\<close>

definition after_handler ::
    "instant \<Rightarrow> bool \<Rightarrow> nat \<Rightarrow> goerr option \<Rightarrow> delivery \<times> SubscriptionPubSub \<Rightarrow> delivery \<times> SubscriptionPubSub" where
  "after_handler now g a err ds =
     (let (d, sb) = ds in
      case err of
        None \<Rightarrow> (d\<lparr>dv_at := DvOver g None\<rparr>, sb)
      | Some e \<Rightarrow>
          if is_timeout e then (d\<lparr>dv_at := DvOver g (Some e)\<rparr>, sb)
          else (d\<lparr>dv_at := (if int a < sb_MaxRetries sb
                            then DvWait g (Suc a) e (now + max 0 (wrap64 (sb_RetryDelay sb * (int a + 1))))
                            else DvTop g (Suc a) [e])\<rparr>,
                upd_sm (\<lambda>x. x\<lparr>sm_MessagesRetried := sm_MessagesRetried x + 1\<rparr>) sb))"

definition handler_error :: "goerr option outcome \<Rightarrow> goerr option" where
  "handler_error r =
     (case r of Returns e \<Rightarrow> e | Panics p \<Rightarrow> Some (wrapping (pubsub_sentinel ErrPanicRecoveredPubSub)))"

text \<open>The flag says whether the step counts an error of the whole system.\<close>

inductive dv_step ::
    "instant \<Rightarrow> ConfigPubSub \<Rightarrow> ctx \<Rightarrow> delivery \<times> SubscriptionPubSub \<Rightarrow> bool \<Rightarrow> delivery \<times> SubscriptionPubSub \<Rightarrow> bool"
  for now cfg c where
  begin_it: "dv_at d = DvSpawned \<Longrightarrow> deliver_begin pick now c sb = Some (slot, sb')
    \<Longrightarrow> dv_step now cfg c (d, sb) False (d\<lparr>dv_begin := now, dv_slot := slot, dv_at := DvEnter\<rparr>, sb')"
| give_up: "dv_at d = DvSpawned \<Longrightarrow> deliver_begin pick now c sb = None
    \<Longrightarrow> dv_step now cfg c (d, sb) False (d\<lparr>dv_at := DvGaveUp\<rparr>, sb)"
| enter: "dv_at d = DvEnter \<Longrightarrow> pb_enter now (sb_CircuitBreaker sb) = (allowed, cb)
    \<Longrightarrow> dv_step now cfg c (d, sb) False (d\<lparr>dv_at := DvTop allowed 0 []\<rparr>, upd_scb (\<lambda>_. cb) sb)"
| cancelled: "dv_at d = DvTop g a errs \<Longrightarrow> int a \<le> sb_MaxRetries sb \<Longrightarrow> ctx_done now c
    \<Longrightarrow> dv_step now cfg c (d, sb) False
          (d\<lparr>dv_cur := (dv_cur d)\<lparr>mg_RetryCount := int a\<rparr>,
             dv_at := DvOver g (Some (wrapping (pubsub_sentinel ErrContextCancelledPubSub)))\<rparr>, sb)"
| exhausted: "dv_at d = DvTop g a errs \<Longrightarrow> \<not> int a \<le> sb_MaxRetries sb
    \<Longrightarrow> dv_step now cfg c (d, sb) False (d\<lparr>dv_at := DvOver g (Some (Errorf errs))\<rparr>, sb)"
| call: "dv_at d = DvTop g a errs \<Longrightarrow> int a \<le> sb_MaxRetries sb \<Longrightarrow> \<not> ctx_done now c
    \<Longrightarrow> m = (dv_cur d)\<lparr>mg_RetryCount := int a\<rparr> \<Longrightarrow> hc = WithTimeout now (cp_OperationTimeout cfg) c
    \<Longrightarrow> dv_step now cfg c (d, sb) False
          (d\<lparr>dv_cur := m, dv_at := DvHandling g a hc (sb_Handler sb now hc m)\<rparr>, sb)"
| handled: "dv_at d = DvHandling g a hc (Some (t, r)) \<Longrightarrow> t \<le> now
    \<Longrightarrow> dv_step now cfg c (d, sb) False (after_handler now g a (handler_error r) (d, sb))"
| timed_out: "dv_at d = DvHandling g a hc x \<Longrightarrow> ctx_done now hc \<or> ctx_done now c
    \<Longrightarrow> dv_step now cfg c (d, sb) False
          (after_handler now g a (Some (wrapping (pubsub_sentinel ErrTimeoutPubSub))) (d, sb))"
| wake: "dv_at d = DvWait g a e due \<Longrightarrow> due \<le> now
    \<Longrightarrow> dv_step now cfg c (d, sb) False (d\<lparr>dv_at := DvTop g a [e]\<rparr>, sb)"
| wait_cancelled: "dv_at d = DvWait g a e due \<Longrightarrow> ctx_done now c
    \<Longrightarrow> dv_step now cfg c (d, sb) False
          (d\<lparr>dv_at := DvOver g (Some (wrapping (pubsub_sentinel ErrContextCancelledPubSub)))\<rparr>, sb)"
| over_guarded: "dv_at d = DvOver True err
    \<Longrightarrow> dv_step now cfg c (d, sb) False
          (d\<lparr>dv_at := (if err \<noteq> None \<and> errors_is (the err) breaker_open then DvTop False 0 [] else DvCount err)\<rparr>,
           upd_scb (pb_leave now err) sb)"
| over_direct: "dv_at d = DvOver False err \<Longrightarrow> dv_step now cfg c (d, sb) False (d\<lparr>dv_at := DvCount err\<rparr>, sb)"
| count: "dv_at d = DvCount err \<Longrightarrow> dlq_call cfg now c (dv_cur d) err = None
    \<Longrightarrow> dv_step now cfg c (d, sb) (err \<noteq> None) (d\<lparr>dv_at := DvEnding\<rparr>, deliver_count err sb)"
| count_call: "dv_at d = DvCount err \<Longrightarrow> dlq_call cfg now c (dv_cur d) err = Some (t, r)
    \<Longrightarrow> dv_step now cfg c (d, sb) True (d\<lparr>dv_at := DvDlq t r\<rparr>, deliver_count err sb)"
| dlq_done: "dv_at d = DvDlq t (Returns dlqErr) \<Longrightarrow> t \<le> now
    \<Longrightarrow> dv_step now cfg c (d, sb) False (d\<lparr>dv_at := DvEnding\<rparr>, count_dlq dlqErr sb)"
| dlq_panics: "dv_at d = DvDlq t (Panics p) \<Longrightarrow> t \<le> now
    \<Longrightarrow> dv_step now cfg c (d, sb) False (d\<lparr>dv_at := DvPanicked p\<rparr>, sb)"
| ending: "dv_at d = DvEnding
    \<Longrightarrow> dv_step now cfg c (d, sb) False (d\<lparr>dv_at := DvFinished\<rparr>, deliver_end (dv_slot d) (dv_begin d) now sb)"

section \<open>The system\<close>

text \<open>A processor waits for the deliveries with the numbers from \<open>k\<close> up to \<open>n\<close>, until \<open>due\<close> at most.\<close>

datatype proc_pc = PrIdle | PrDelivering instant nat nat | PrExited

text \<open>
  The last four fields record what has happened: the messages queued on a topic, those its processor
  took, how many were made, and how many had been taken when a subscription was made.
\<close>

record ps_sys =
  sy_ps :: PubSub
  sy_now :: instant
  sy_calls :: "pub_call list"
  sy_procs :: "string \<Rightarrow> proc_pc"
  sy_dels :: "delivery list"
  sy_closing :: "string list option"
  sy_sent :: "string \<Rightarrow> MessagePubSub list"
  sy_taken :: "string \<Rightarrow> MessagePubSub list"
  sy_made :: "string \<Rightarrow> nat"
  sy_since :: "string \<times> string \<Rightarrow> nat"

definition subs_of :: "PubSub \<Rightarrow> string \<Rightarrow> (string \<times> SubscriptionPubSub) list" where
  "subs_of ps name = (case topic_of ps name of None \<Rightarrow> [] | Some tp \<Rightarrow> tp_Subscribers tp)"

definition sub_of :: "PubSub \<Rightarrow> string \<Rightarrow> string \<Rightarrow> SubscriptionPubSub option" where
  "sub_of ps name sid = map_of (subs_of ps name) sid"

definition upd_subs ::
    "string \<Rightarrow> ((string \<times> SubscriptionPubSub) list \<Rightarrow> (string \<times> SubscriptionPubSub) list) \<Rightarrow> PubSub \<Rightarrow> PubSub" where
  "upd_subs name f = upd_topic name (\<lambda>tp. tp\<lparr>tp_Subscribers := f (tp_Subscribers tp)\<rparr>)"

definition set_sub :: "string \<Rightarrow> string \<Rightarrow> SubscriptionPubSub \<Rightarrow> PubSub \<Rightarrow> PubSub" where
  "set_sub name sid sb = upd_subs name (AList.map_entry sid (\<lambda>_. sb))"

definition count_error :: "bool \<Rightarrow> PubSub \<Rightarrow> PubSub" where
  "count_error e = upd_pm (\<lambda>m. m\<lparr>pm_Errors := pm_Errors m + of_bool e\<rparr>)"

text \<open>The subscribers of a message.\<close>

definition receivers :: "MessagePubSub \<Rightarrow> (string \<times> SubscriptionPubSub) list \<Rightarrow> string list" where
  "receivers m subs = map fst (filter (\<lambda>(sid, sb). \<not> sb_closed sb \<and> SubscriptionPubSub_matchesFilter sb m) subs)"

fun dv_finished :: "delivery \<Rightarrow> bool" where
  "dv_finished d = (case dv_at d of DvFinished \<Rightarrow> True | DvGaveUp \<Rightarrow> True | _ \<Rightarrow> False)"

definition add_call :: "pub_call \<Rightarrow> ps_sys \<Rightarrow> ps_sys" where
  "add_call call s = s\<lparr>sy_calls := sy_calls s @ [call]\<rparr>"

definition made_now :: "pub_call \<Rightarrow> pub_call \<Rightarrow> bool" where
  "made_now call call' \<longleftrightarrow> (case (pc_at call, pc_at call') of (PbMake _, PbSend _ _ _) \<Rightarrow> True | _ \<Rightarrow> False)"

definition do_call :: "nat \<Rightarrow> pub_call \<Rightarrow> MessagePubSub option \<Rightarrow> PubSub \<Rightarrow> ps_sys \<Rightarrow> ps_sys" where
  "do_call i call' sent ps' s =
     (let call = sy_calls s ! i; name = pc_topic call in
      s\<lparr>sy_ps := ps', sy_calls := (sy_calls s)[i := call'],
        sy_sent := (sy_sent s)(name := sy_sent s name @ (case sent of None \<Rightarrow> [] | Some m \<Rightarrow> [m])),
        sy_made := (sy_made s)(name := sy_made s name + of_bool (made_now call call'))\<rparr>)"

definition do_deliver :: "nat \<Rightarrow> delivery \<Rightarrow> bool \<Rightarrow> SubscriptionPubSub \<Rightarrow> ps_sys \<Rightarrow> ps_sys" where
  "do_deliver i d e sb s =
     s\<lparr>sy_ps := count_error e (set_sub (dv_topic d) (dv_sid d) sb (sy_ps s)), sy_dels := (sy_dels s)[i := d]\<rparr>"

definition do_take :: "string \<Rightarrow> MessagePubSub \<Rightarrow> MessagePubSub chan \<Rightarrow> ps_sys \<Rightarrow> ps_sys" where
  "do_take name m q s =
     (let sids = receivers m (subs_of (sy_ps s) name); k = length (sy_dels s) in
      s\<lparr>sy_ps := upd_topic name (\<lambda>tp. tp\<lparr>tp_MessageQueue := q\<rparr>) (sy_ps s),
        sy_procs := (sy_procs s)(name :=
          PrDelivering (sy_now s + cp_OperationTimeout (ps_config (sy_ps s))) k (k + length sids)),
        sy_dels := sy_dels s @ map (spawn name m) sids,
        sy_taken := (sy_taken s)(name := sy_taken s name @ [m])\<rparr>)"

definition publish_call :: "instant \<Rightarrow> ctx \<Rightarrow> string \<Rightarrow> bool \<Rightarrow> (8 word list \<times> (string \<times> string) list option) list
    \<Rightarrow> pub_pc \<Rightarrow> PubSub \<Rightarrow> pub_call" where
  "publish_call now c name batch todo pc ps =
     \<lparr>pc_topic = name, pc_ctx = WithTimeout now (cp_OperationTimeout (ps_config ps)) c, pc_start = now,
      pc_batch = batch, pc_todo = todo, pc_at = pc\<rparr>"

inductive ps_step :: "ps_sys \<Rightarrow> ps_sys \<Rightarrow> bool" where
  create: "PubSub_CreateTopic uni (sy_now s) c name (sy_ps s) = (None, ps') \<Longrightarrow> ps_step s (s\<lparr>sy_ps := ps'\<rparr>)"
| subscribe: "PubSub_Subscribe uni (sy_now s) c name sid h f (sy_ps s) = (Returns (Inr sb), ps')
    \<Longrightarrow> ps_step s (s\<lparr>sy_ps := ps', sy_since := (sy_since s)((name, sid) := length (sy_taken s name))\<rparr>)"
| publish: "publish_check uni (sy_now s) c data headers (sy_ps s) = None
    \<Longrightarrow> ps_step s (add_call (publish_call (sy_now s) c name False [(data, headers)] PbEnter (sy_ps s)) s)"
| batch: "batch_check (sy_now s) c ms (sy_ps s) = None \<Longrightarrow> first_bad_message uni ms = None
    \<Longrightarrow> ps_step s (add_call (publish_call (sy_now s) c name True (map (\<lambda>m. (mg_Data m, mg_Headers m)) ms) PbEnter
          (sy_ps s)) s)"
| batch_invalid: "batch_check (sy_now s) c ms (sy_ps s) = None \<Longrightarrow> first_bad_message uni ms = Some err
    \<Longrightarrow> ps_step s (add_call (publish_call (sy_now s) c name True [] (PbEnd (Some err)) (sy_ps s)) s)"
| call: "i < length (sy_calls s) \<Longrightarrow> pb_step (sy_now s) (sy_calls s ! i, sy_ps s) sent (call', ps')
    \<Longrightarrow> ps_step s (do_call i call' sent ps' s)"
| take: "topic_of (sy_ps s) name = Some tp \<Longrightarrow> sy_procs s name = PrIdle
    \<Longrightarrow> chan_recv (tp_MessageQueue tp) = Received m q \<Longrightarrow> ps_step s (do_take name m q s)"
| delivered: "sy_procs s name = PrDelivering due k n \<Longrightarrow> list_all (\<lambda>i. dv_finished (sy_dels s ! i)) [k..<n]
    \<Longrightarrow> ps_step s (s\<lparr>sy_procs := (sy_procs s)(name := PrIdle),
          sy_ps := upd_topic name (\<lambda>tp. tp\<lparr>tp_metrics := (tp_metrics tp)
            \<lparr>tm_MessagesDelivered := tm_MessagesDelivered (tp_metrics tp) + 1\<rparr>\<rparr>) (sy_ps s)\<rparr>)"
| moves_on: "sy_procs s name = PrDelivering due k n \<Longrightarrow> due \<le> sy_now s \<or> ctx_done (sy_now s) (ps_ctx (sy_ps s))
    \<Longrightarrow> ps_step s (s\<lparr>sy_procs := (sy_procs s)(name := PrIdle)\<rparr>)"
| exit: "sy_procs s name = PrIdle \<Longrightarrow> ctx_done (sy_now s) (ps_ctx (sy_ps s))
    \<Longrightarrow> ps_step s (s\<lparr>sy_procs := (sy_procs s)(name := PrExited)\<rparr>)"
| deliver: "i < length (sy_dels s) \<Longrightarrow> sub_of (sy_ps s) (dv_topic (sy_dels s ! i)) (dv_sid (sy_dels s ! i)) = Some sb
    \<Longrightarrow> dv_step (sy_now s) (ps_config (sy_ps s)) (ps_ctx (sy_ps s)) (sy_dels s ! i, sb) e (d', sb')
    \<Longrightarrow> ps_step s (do_deliver i d' e sb' s)"
| close: "PubSub_Close_flag (sy_now s) (sy_ps s) = (None, ps')
    \<Longrightarrow> ps_step s (s\<lparr>sy_ps := ps', sy_closing := Some (map fst (pu_topics (ps_publisher ps')))\<rparr>)"
| close_queue: "sy_closing s = Some (name # names) \<Longrightarrow> topic_of (sy_ps s) name = Some tp \<Longrightarrow> close_topic tp = Returns tp'
    \<Longrightarrow> ps_step s (s\<lparr>sy_ps := upd_topic name (\<lambda>_. tp') (sy_ps s), sy_closing := Some names\<rparr>)"
| close_subs: "sy_closing s = Some []
    \<Longrightarrow> ps_step s (s\<lparr>sy_ps := upd_publisher (\<lambda>p. p\<lparr>pu_topics := close_subscriptions (pu_topics p)\<rparr>) (sy_ps s)\<rparr>)"
| tick: "ps_step s (s\<lparr>sy_now := sy_now s + int n\<rparr>)"

definition ps_start :: "instant \<Rightarrow> PubSub \<Rightarrow> ps_sys" where
  "ps_start now ps =
     \<lparr>sy_ps = ps, sy_now = now, sy_calls = [], sy_procs = (\<lambda>_. PrIdle), sy_dels = [], sy_closing = None,
      sy_sent = (\<lambda>_. []), sy_taken = (\<lambda>_. []), sy_made = (\<lambda>_. 0), sy_since = (\<lambda>_. 0)\<rparr>"

inductive ps_reach :: "ps_sys \<Rightarrow> bool" where
  init: "NewPubSub counter config = Inr ps \<Longrightarrow> ps_reach (ps_start now ps)"
| step: "ps_reach s \<Longrightarrow> ps_step s s' \<Longrightarrow> ps_reach s'"

inductive_cases pb_stepE [consumes 1, case_names enter cancelled slot no_slot make make_fails send send_fails
    send_panics wake wait_cancelled leave ended]:
  "pb_step now (call, ps) l (call', ps')"

inductive_cases dv_stepE [consumes 1, case_names begin_it give_up enter cancelled exhausted call handled timed_out
    wake wait_cancelled over_guarded over_direct count count_call dlq_done dlq_panics ending]:
  "dv_step now cfg c (d, sb) e (d', sb')"

inductive_cases ps_stepE [consumes 1, case_names create subscribe publish batch batch_invalid call take delivered
    moves_on exit deliver close close_queue close_subs tick]:
  "ps_step s s'"

end
