(* ===== verification/PubSubCalls.thy ===== *)
theory PubSubCalls
  imports PubSubSystem
begin

text \<open>
  The publishing side of the running system: what every reachable state says of the queues, the
  sequence numbers and the semaphore of the publisher.
\<close>

section \<open>What the operations change\<close>

declare not_None_eq [simp del]

abbreviation slots_of :: "PubSub \<Rightarrow> unit chan" where
  "slots_of ps \<equiv> pu_workerPool (ps_publisher ps)"

lemma topic_of_upd_topic [record_laws]:
  "topic_of (upd_topic n f ps) n' = (if n' = n then map_option f (topic_of ps n) else topic_of ps n')"
  by (auto simp: topic_of_def upd_topic_def upd_publisher_def AList.map_of_map_entry split: option.split)

lemma upd_topic_frame [record_laws]:
  "ps_config (upd_topic n f ps) = ps_config ps" "ps_ctx (upd_topic n f ps) = ps_ctx ps"
  "ps_closed (upd_topic n f ps) = ps_closed ps" "slots_of (upd_topic n f ps) = slots_of ps"
  "pu_maxRetries (ps_publisher (upd_topic n f ps)) = pu_maxRetries (ps_publisher ps)"
  by (simp_all add: upd_topic_def upd_publisher_def)

lemma upd_um_frame [record_laws]:
  "topic_of (upd_um f ps) = topic_of ps"
  "ps_config (upd_um f ps) = ps_config ps" "ps_ctx (upd_um f ps) = ps_ctx ps" "slots_of (upd_um f ps) = slots_of ps"
  "topic_of (upd_pm g ps) = topic_of ps"
  "ps_config (upd_pm g ps) = ps_config ps" "ps_ctx (upd_pm g ps) = ps_ctx ps" "slots_of (upd_pm g ps) = slots_of ps"
  "topic_of (upd_pcb h ps) = topic_of ps"
  "ps_config (upd_pcb h ps) = ps_config ps" "ps_ctx (upd_pcb h ps) = ps_ctx ps" "slots_of (upd_pcb h ps) = slots_of ps"
  "topic_of (ps\<lparr>ps_counter := k\<rparr>) = topic_of ps"
  by (simp_all add: upd_um_def upd_pm_def upd_pcb_def upd_publisher_def topic_of_def fun_eq_iff)

lemma give_slot_frame [record_laws]:
  "topic_of (give_slot ps) = topic_of ps" "ps_config (give_slot ps) = ps_config ps" "ps_ctx (give_slot ps) = ps_ctx ps"
  by (simp_all add: give_slot_def upd_publisher_def topic_of_def fun_eq_iff)

lemma publish_ended_frame [record_laws]:
  "topic_of (publish_ended b t0 t ps) = topic_of ps" "ps_config (publish_ended b t0 t ps) = ps_config ps"
  "ps_ctx (publish_ended b t0 t ps) = ps_ctx ps" "slots_of (publish_ended b t0 t ps) = slots_of ps"
  "topic_of (publish_failed ps) = topic_of ps" "ps_config (publish_failed ps) = ps_config ps"
  "ps_ctx (publish_failed ps) = ps_ctx ps" "slots_of (publish_failed ps) = slots_of ps"
  by (simp_all add: publish_ended_def publish_failed_def record_laws)

lemma take_slot_cases:
  assumes "take_slot pick now c ps = Inr ps'"
  shows "topic_of ps' = topic_of ps" "ps_config ps' = ps_config ps" "ps_ctx ps' = ps_ctx ps"
    "ch_buf (slots_of ps') = ch_buf (slots_of ps) @ [()]" "ch_cap (slots_of ps') = ch_cap (slots_of ps)"
    "ch_closed (slots_of ps') = ch_closed (slots_of ps)" "length (ch_buf (slots_of ps)) < ch_cap (slots_of ps)"
  using assms
  by (auto simp: take_slot_def upd_publisher_def topic_of_def fun_eq_iff select_send_iffs split: select_result.splits)

lemma attempt_failed_frame:
  assumes "attempt_failed now a err call ps = (call', ps')"
  shows "topic_of ps' = topic_of ps" "ps_config ps' = ps_config ps" "ps_ctx ps' = ps_ctx ps" "slots_of ps' = slots_of ps"
    "pc_topic call' = pc_topic call"
    "pc_at call' = PbLeave (Some (wrapping err)) \<or> pc_at call' = PbLeave (Some (Errorf [err])) \<or> (\<exists>n t. pc_at call' = PbWait n t)"
  using assms by (auto simp: attempt_failed_def record_laws split: if_splits)

lemma publish_prepare_cases:
  assumes "publish_prepare now c name data headers ps = (r, t, ps')"
  obtains err where "r = Inl err" "ps' = ps"
  | m tp where "r = Inr m" "topic_of ps name = Some tp" "mg_Topic m = name" "mg_Data m = data" "mg_Headers m = headers"
      "mg_RetryCount m = 0" "mg_Priority m = 0" "mg_Sequence m = tp_sequence tp + 1"
      "ps' = upd_topic name (\<lambda>tp1. tp1\<lparr>tp_sequence := tp_sequence tp + 1\<rparr>) (ps\<lparr>ps_counter := ps_counter ps + 1\<rparr>)"
  using assms by (auto simp: publish_prepare_def Let_def split: option.splits if_splits)

text \<open>What a sent message does to its topic.\<close>

definition enqueue :: "MessagePubSub \<Rightarrow> TopicPubSub \<Rightarrow> TopicPubSub" where
  "enqueue m tp = tp\<lparr>tp_MessageQueue := (tp_MessageQueue tp)\<lparr>ch_buf := ch_buf (tp_MessageQueue tp) @ [m]\<rparr>,
     tp_metrics := (tp_metrics tp)\<lparr>tm_MessagesPublished := tm_MessagesPublished (tp_metrics tp) + 1\<rparr>\<rparr>"

lemma publish_send_ok:
  assumes "publish_send pick now c m ps = (Returns None, ps')" and t: "topic_of ps (mg_Topic m) = Some tp"
  shows "topic_of ps' = (topic_of ps)(mg_Topic m \<mapsto> enqueue m tp)"
    "length (ch_buf (tp_MessageQueue tp)) < ch_cap (tp_MessageQueue tp)" "\<not> ch_closed (tp_MessageQueue tp)"
    "ps_config ps' = ps_config ps" "ps_ctx ps' = ps_ctx ps" "slots_of ps' = slots_of ps"
  using assms
  by (auto simp: publish_send_def queue_of_def record_laws fun_eq_iff enqueue_def select_send_iffs split: select_result.splits)

lemma publish_send_not_ok:
  assumes "publish_send pick now c m ps = (r, ps')" and "r \<noteq> Returns None"
  shows "topic_of ps' n = topic_of ps n \<or> (\<exists>f. topic_of ps' n = map_option (\<lambda>tp. tp\<lparr>tp_metrics := (tp_metrics tp)
            \<lparr>tm_QueueFullCount := f\<rparr>\<rparr>) (topic_of ps n))"
    "ps_config ps' = ps_config ps" "ps_ctx ps' = ps_ctx ps" "slots_of ps' = slots_of ps"
  using assms
  by (cases "topic_of ps (mg_Topic m)";
      auto simp: publish_send_def queue_of_def record_laws split: select_result.splits if_splits)+


section \<open>A step of a call\<close>

definition call_ok :: "PubSub \<Rightarrow> pub_call \<Rightarrow> bool" where
  "call_ok ps call \<longleftrightarrow>
     (case pc_at call of PbSend a t m \<Rightarrow> mg_Topic m = pc_topic call \<and> topic_of ps (pc_topic call) \<noteq> None | _ \<Rightarrow> True)"

definition sent_to :: "string \<Rightarrow> pub_call \<Rightarrow> MessagePubSub option \<Rightarrow> MessagePubSub list" where
  "sent_to n call l = (if n = pc_topic call then case l of None \<Rightarrow> [] | Some m \<Rightarrow> [m] else [])"

text \<open>What a step of a call does to a topic.\<close>

definition topic_moved :: "MessagePubSub list \<Rightarrow> bool \<Rightarrow> TopicPubSub \<Rightarrow> TopicPubSub \<Rightarrow> bool" where
  "topic_moved new made tp tp' \<longleftrightarrow>
     tp_MessageQueue tp' = (tp_MessageQueue tp)\<lparr>ch_buf := ch_buf (tp_MessageQueue tp) @ new\<rparr>
     \<and> tm_MessagesPublished (tp_metrics tp') = tm_MessagesPublished (tp_metrics tp) + of_nat (length new)
     \<and> tp_sequence tp' = tp_sequence tp + of_bool made
     \<and> (new \<noteq> [] \<longrightarrow> length (ch_buf (tp_MessageQueue tp)) + length new \<le> ch_cap (tp_MessageQueue tp)
          \<and> \<not> ch_closed (tp_MessageQueue tp))"

lemma topic_moved_refl [simp]: "topic_moved [] False tp tp"
  by (simp add: topic_moved_def)

lemma topic_moved_full: "topic_moved [] False tp (tp\<lparr>tp_metrics := (tp_metrics tp)\<lparr>tm_QueueFullCount := f\<rparr>\<rparr>)"
  by (simp add: topic_moved_def)

definition keeps_rest :: "PubSub \<Rightarrow> PubSub \<Rightarrow> bool" where
  "keeps_rest ps ps' \<longleftrightarrow> ps_config ps' = ps_config ps \<and> ps_ctx ps' = ps_ctx ps"

lemma made_now_simps [simp]:
  "pc_at call' = PbMake a \<Longrightarrow> \<not> made_now call call'"
  "pc_at call' = PbLeave e \<Longrightarrow> \<not> made_now call call'"
  "pc_at call' = PbWait a t \<Longrightarrow> \<not> made_now call call'"
  "pc_at call = PbTop a \<Longrightarrow> \<not> made_now call call'"
  "pc_at call = PbSend a t m \<Longrightarrow> \<not> made_now call call'"
  by (auto simp: made_now_def split: pub_pc.splits)

lemma attempt_failed_not_made:
  "attempt_failed now a err call ps = (call', ps') \<Longrightarrow> \<not> made_now call0 call'"
  using attempt_failed_frame(6) by fastforce

lemma pb_step_topics:
  assumes st: "pb_step now (call, ps) l (call', ps')" and ok: "call_ok ps call"
  shows "(topic_of ps n = None \<longrightarrow> topic_of ps' n = None)
    \<and> (\<forall>tp. topic_of ps n = Some tp \<longrightarrow> (\<exists>tp'. topic_of ps' n = Some tp'
        \<and> tp_Subscribers tp' = tp_Subscribers tp
        \<and> topic_moved (sent_to n call l) (made_now call call' \<and> n = pc_topic call) tp tp'))
    \<and> keeps_rest ps ps' \<and> pc_topic call' = pc_topic call"
  using st
proof (cases rule: pb_stepE)
  case (slot a pick)
  then show ?thesis using take_slot_cases by (simp add: sent_to_def keeps_rest_def)
next
  case (no_slot a pick err)
  then show ?thesis
    using attempt_failed_frame [OF no_slot(2) [symmetric]] attempt_failed_not_made [OF no_slot(2) [symmetric]]
    by (auto simp: sent_to_def keeps_rest_def)
next
  case (make a data headers todo m t)
  from make(5) show ?thesis
  proof (cases rule: publish_prepare_cases)
    case (1 err)
    then show ?thesis by simp
  next
    case (2 m tp)
    then show ?thesis using make
      by (auto simp: record_laws sent_to_def keeps_rest_def topic_moved_def made_now_def)
  qed
next
  case (make_fails a data headers todo err t ps1)
  from make_fails(5) show ?thesis
  proof (cases rule: publish_prepare_cases)
    case (1 err)
    then show ?thesis
      using make_fails attempt_failed_frame [OF make_fails(2) [symmetric]] attempt_failed_not_made [OF make_fails(2) [symmetric]]
      by (simp add: sent_to_def keeps_rest_def record_laws)
  next
    case (2 m tp)
    then show ?thesis by simp
  qed
next
  case (send a t m pick ps1)
  then obtain tp where tp: "topic_of ps (mg_Topic m) = Some tp" "mg_Topic m = pc_topic call"
    using ok by (auto simp: call_ok_def not_None_eq)
  note * = publish_send_ok [OF send(4) tp(1)]
  show ?thesis using send * tp
    by (auto simp: sent_to_def keeps_rest_def record_laws topic_moved_def enqueue_def message_sent_def)
next
  case (send_fails a t m pick err ps1)
  note * = publish_send_not_ok(1) [OF send_fails(5), where n = n, simplified] publish_send_not_ok(2-4) [OF send_fails(5), simplified]
    and f = attempt_failed_frame [OF send_fails(2) [symmetric]] attempt_failed_not_made [OF send_fails(2) [symmetric]]
  show ?thesis using send_fails * f
    by (auto simp: sent_to_def keeps_rest_def record_laws intro: topic_moved_full)
next
  case (send_panics a t m pick p ps1)
  note * = publish_send_not_ok(1) [OF send_panics(4), where n = n, simplified] publish_send_not_ok(2-4) [OF send_panics(4), simplified]
  show ?thesis using send_panics *
    by (auto simp: sent_to_def keeps_rest_def record_laws intro: topic_moved_full)
qed (auto simp: sent_to_def keeps_rest_def record_laws made_now_def)


lemma pb_step_no_topic:
  assumes st: "pb_step now (call, ps) l (call', ps')" and ok: "call_ok ps call" and none: "topic_of ps n = None"
  shows "\<not> (made_now call call' \<and> n = pc_topic call) \<and> sent_to n call l = []"
  using st
proof (cases rule: pb_stepE)
  case (make a data headers todo m t)
  from make(5) show ?thesis
    by (cases rule: publish_prepare_cases) (use none make in \<open>auto simp: sent_to_def\<close>)
next
  case (no_slot a pick err)
  then show ?thesis by (simp add: sent_to_def)
next
  case (make_fails a data headers todo err t ps1)
  then show ?thesis using attempt_failed_not_made [OF make_fails(2) [symmetric]] by (simp add: sent_to_def)
next
  case (send a t m pick ps1)
  then show ?thesis using ok none by (auto simp: call_ok_def sent_to_def)
next
  case (send_fails a t m pick err ps1)
  then show ?thesis by (simp add: sent_to_def)
qed (simp_all add: sent_to_def made_now_def)

definition holds_slot :: "pub_call \<Rightarrow> bool" where
  "holds_slot call \<longleftrightarrow> (case pc_at call of PbMake _ \<Rightarrow> True | PbSend _ _ _ \<Rightarrow> True | _ \<Rightarrow> False)"

lemma holds_slot_simps [simp]:
  "pc_at call = PbMake a \<Longrightarrow> holds_slot call" "pc_at call = PbSend a t m \<Longrightarrow> holds_slot call"
  "pc_at call = PbTop a \<Longrightarrow> \<not> holds_slot call" "pc_at call = PbLeave e \<Longrightarrow> \<not> holds_slot call"
  "pc_at call = PbWait a t \<Longrightarrow> \<not> holds_slot call" "pc_at call = PbEnter \<Longrightarrow> \<not> holds_slot call"
  "pc_at call = PbEnd e \<Longrightarrow> \<not> holds_slot call" "pc_at call = PbReturned e \<Longrightarrow> \<not> holds_slot call"
  "pc_at call = PbPanicked p \<Longrightarrow> \<not> holds_slot call"
  by (simp_all add: holds_slot_def)

lemma give_slot_slots:
  "ch_buf (slots_of ps) \<noteq> [] \<Longrightarrow> slots_of (give_slot ps) = (slots_of ps)\<lparr>ch_buf := tl (ch_buf (slots_of ps))\<rparr>"
  by (auto simp: give_slot_def upd_publisher_def chan_recv_def neq_Nil_conv)

text \<open>The semaphore moves with the calls that hold a slot.\<close>

definition slots_moved :: "bool \<Rightarrow> bool \<Rightarrow> unit chan \<Rightarrow> unit chan \<Rightarrow> bool" where
  "slots_moved before after q q' \<longleftrightarrow>
     length (ch_buf q') + of_bool before = length (ch_buf q) + of_bool after \<and> ch_cap q' = ch_cap q
     \<and> (length (ch_buf q) \<le> ch_cap q \<longrightarrow> length (ch_buf q') \<le> ch_cap q') \<and> ch_closed q' = ch_closed q"

lemma slots_moved_same [simp]: "slots_moved b b q q"
  by (simp add: slots_moved_def)

lemma slots_moved_give:
  "ch_buf (slots_of ps) \<noteq> [] \<Longrightarrow> slots_moved True False (slots_of ps) (slots_of (give_slot ps))"
  by (auto simp: slots_moved_def give_slot_slots)

lemma upd_topic_slots: "slots_of ps1 = slots_of ps \<Longrightarrow> slots_of (give_slot ps1) = slots_of (give_slot ps)"
  by (cases "chan_recv (slots_of ps)") (simp_all add: give_slot_def upd_publisher_def)

lemma slots_released:
  assumes "holds_slot call" "\<not> holds_slot call'" "holds_slot call \<Longrightarrow> ch_buf (slots_of ps) \<noteq> []"
    and "slots_of ps' = slots_of (give_slot ps)"
  shows "slots_moved (holds_slot call) (holds_slot call') (slots_of ps) (slots_of ps')"
  using assms slots_moved_give [of ps] by simp

lemma attempt_failed_holds: "attempt_failed now a err call ps = (call', ps') \<Longrightarrow> \<not> holds_slot call'"
  using attempt_failed_frame(6) by fastforce

lemma pb_step_slots:
  assumes st: "pb_step now (call, ps) l (call', ps')" and ok: "call_ok ps call"
    and held: "holds_slot call \<Longrightarrow> ch_buf (slots_of ps) \<noteq> []"
  shows "slots_moved (holds_slot call) (holds_slot call') (slots_of ps) (slots_of ps')"
  using st
proof (cases rule: pb_stepE)
  case (slot a pick)
  then show ?thesis using take_slot_cases [OF slot(5)] by (simp add: slots_moved_def)
next
  case (no_slot a pick err)
  then show ?thesis using attempt_failed_frame [OF no_slot(2) [symmetric]] by auto
next
  case (make a data headers todo m t)
  from make(5) have "slots_of ps' = slots_of ps" by (cases rule: publish_prepare_cases) (auto simp: record_laws upd_publisher_def)
  with make show ?thesis by simp
next
  case (make_fails a data headers todo err t ps1)
  from make_fails(5) have ps1: "ps1 = ps" by (cases rule: publish_prepare_cases) auto
  show ?thesis
    by (rule slots_released [OF _ attempt_failed_holds [OF make_fails(2) [symmetric]] held])
      (simp_all add: make_fails(3) attempt_failed_frame(4) [OF make_fails(2) [symmetric]] ps1)
next
  case (send a t m pick ps1)
  then obtain tp where tp: "topic_of ps (mg_Topic m) = Some tp"
    using ok by (auto simp: call_ok_def not_None_eq)
  have f: "\<not> holds_slot call'" using send by (auto simp: message_sent_def)
  show ?thesis
    by (rule slots_released [OF _ f held])
      (simp_all add: send(2,6) upd_topic_slots [OF publish_send_ok(6) [OF send(4) tp]])
next
  case (send_fails a t m pick err ps1)
  have g: "slots_of (give_slot ps1) = slots_of (give_slot ps)"
    using publish_send_not_ok(4) [OF send_fails(5)] by (intro upd_topic_slots) simp
  show ?thesis
    by (intro slots_released [OF _ attempt_failed_holds [OF send_fails(2) [symmetric]] held])
      (simp_all add: send_fails(3) attempt_failed_frame(4) [OF send_fails(2) [symmetric]] g)
next
  case (send_panics a t m pick p ps1)
  have g: "slots_of (give_slot ps1) = slots_of (give_slot ps)"
    using publish_send_not_ok(4) [OF send_panics(4)] by (intro upd_topic_slots) simp
  show ?thesis
    by (intro slots_released [OF _ _ held]) (simp_all add: send_panics(2,5,6) g)
qed (auto simp: record_laws)

text \<open>A call that has made a message carries the sequence number it was given.\<close>

definition flight :: "string \<Rightarrow> pub_call \<Rightarrow> counter option" where
  "flight n call = (case pc_at call of PbSend a t m \<Rightarrow> if pc_topic call = n then Some (mg_Sequence m) else None | _ \<Rightarrow> None)"

lemma attempt_failed_flight: "attempt_failed now a err call ps = (call', ps') \<Longrightarrow> flight n call' = None"
  using attempt_failed_frame(6) by (fastforce simp: flight_def)

lemma pb_step_flight:
  assumes st: "pb_step now (call, ps) l (call', ps')" and ok: "call_ok ps call"
    and seq: "topic_of ps n \<noteq> None \<Longrightarrow> tp_sequence (the (topic_of ps n)) = of_nat k"
  shows "call_ok ps' call' \<and>
    opt_mset (flight n call') + mset (map mg_Sequence (sent_to n call l))
      \<subseteq># opt_mset (flight n call) + (if made_now call call' \<and> n = pc_topic call then {#of_nat (Suc k)#} else {#})"
  using st
proof (cases rule: pb_stepE)
  case (no_slot a pick err)
  then show ?thesis using attempt_failed_frame(6) [OF no_slot(2) [symmetric]] attempt_failed_flight [OF no_slot(2) [symmetric]]
    by (auto simp: call_ok_def sent_to_def)
next
  case (make a data headers todo m t)
  from make(5) show ?thesis
  proof (cases rule: publish_prepare_cases)
    case (1 err)
    then show ?thesis by simp
  next
    case (2 m tp)
    then show ?thesis using make seq
      by (auto simp: call_ok_def record_laws sent_to_def flight_def made_now_def)
  qed
next
  case (make_fails a data headers todo err t ps1)
  then show ?thesis
    using attempt_failed_frame(6) [OF make_fails(2) [symmetric]] attempt_failed_flight [OF make_fails(2) [symmetric]]
    by (auto simp: call_ok_def sent_to_def)
next
  case (send a t m pick ps1)
  then show ?thesis using ok by (auto simp: call_ok_def sent_to_def flight_def message_sent_def)
next
  case (send_fails a t m pick err ps1)
  then show ?thesis
    using attempt_failed_frame(6) [OF send_fails(2) [symmetric]] attempt_failed_flight [OF send_fails(2) [symmetric]]
    by (auto simp: call_ok_def sent_to_def)
qed (auto simp: call_ok_def sent_to_def flight_def)


section \<open>Queues\<close>

text \<open>What a topic has sent is what its processor took and what is still queued.\<close>

definition queue_ok :: "ps_sys \<Rightarrow> string \<Rightarrow> bool" where
  "queue_ok s n \<longleftrightarrow>
     (case topic_of (sy_ps s) n of
        None \<Rightarrow> sy_sent s n = [] \<and> sy_taken s n = [] \<and> sy_made s n = 0
      | Some tp \<Rightarrow>
          sy_sent s n = sy_taken s n @ ch_buf (tp_MessageQueue tp)
          \<and> ch_cap (tp_MessageQueue tp) = nat (cp_BufferSize (ps_config (sy_ps s)))
          \<and> length (ch_buf (tp_MessageQueue tp)) \<le> ch_cap (tp_MessageQueue tp)
          \<and> tm_MessagesPublished (tp_metrics tp) = of_nat (length (sy_sent s n))
          \<and> tp_sequence tp = of_nat (sy_made s n))"

definition seqs :: "ps_sys \<Rightarrow> string \<Rightarrow> counter multiset" where
  "seqs s n = mset (map mg_Sequence (sy_sent s n)) + held (flight n) (sy_calls s)"

definition calls_inv :: "ps_sys \<Rightarrow> bool" where
  "calls_inv s \<longleftrightarrow>
     (\<forall>n. queue_ok s n)
     \<and> list_all (call_ok (sy_ps s)) (sy_calls s)
     \<and> (\<forall>n. seqs s n \<subseteq># mset (map of_nat [1..<Suc (sy_made s n)]))
     \<and> length (ch_buf (slots_of (sy_ps s))) = countp holds_slot (sy_calls s)
     \<and> length (ch_buf (slots_of (sy_ps s))) \<le> ch_cap (slots_of (sy_ps s))
     \<and> ch_cap (slots_of (sy_ps s)) = nat (cp_MaxConcurrentOperations (ps_config (sy_ps s)))
     \<and> \<not> ch_closed (slots_of (sy_ps s))"

text \<open>What the queue invariant reads of a topic.\<close>

definition queue_view :: "TopicPubSub \<Rightarrow> MessagePubSub list \<times> nat \<times> counter \<times> counter" where
  "queue_view tp = (ch_buf (tp_MessageQueue tp), ch_cap (tp_MessageQueue tp),
     tm_MessagesPublished (tp_metrics tp), tp_sequence tp)"

lemma queue_view_map:
  "(\<And>tp. queue_view (f tp) = queue_view tp) \<Longrightarrow> map_option queue_view (map_option f x) = map_option queue_view x"
  by (cases x) simp_all

lemma queue_view_same [simp]:
  "queue_view (tp\<lparr>tp_Subscribers := x\<rparr>) = queue_view tp"
  "queue_view (tp\<lparr>tp_metrics := (tp_metrics tp)\<lparr>tm_MessagesDelivered := k\<rparr>\<rparr>) = queue_view tp"
  by (simp_all add: queue_view_def)

lemma queue_ok_kept:
  assumes "queue_ok s n" and "map_option queue_view (topic_of (sy_ps s') n) = map_option queue_view (topic_of (sy_ps s) n)"
    and "sy_sent s' n = sy_sent s n" "sy_taken s' n = sy_taken s n" "sy_made s' n = sy_made s n"
    and "ps_config (sy_ps s') = ps_config (sy_ps s)"
  shows "queue_ok s' n"
  using assms by (cases "topic_of (sy_ps s) n"; cases "topic_of (sy_ps s') n") (auto simp: queue_ok_def queue_view_def)

text \<open>A step that leaves calls, queues and the semaphore alone.\<close>

lemma calls_inv_kept:
  assumes inv: "calls_inv s"
    and q: "\<And>n. map_option queue_view (topic_of (sy_ps s') n) = map_option queue_view (topic_of (sy_ps s) n)"
    and h: "sy_sent s' = sy_sent s" "sy_taken s' = sy_taken s" "sy_made s' = sy_made s" "sy_calls s' = sy_calls s"
    and c: "ps_config (sy_ps s') = ps_config (sy_ps s)" and sl: "slots_of (sy_ps s') = slots_of (sy_ps s)"
  shows "calls_inv s'"
proof -
  have "queue_ok s' n" for n
    using inv by (intro queue_ok_kept [OF _ q]) (simp_all add: calls_inv_def h c)
  moreover have "list_all (call_ok (sy_ps s')) (sy_calls s')"
  proof -
    have "call_ok (sy_ps s') call" if "call_ok (sy_ps s) call" for call
    proof -
      have "topic_of (sy_ps s') n = None \<longleftrightarrow> topic_of (sy_ps s) n = None" for n
        using q [of n] by (metis map_option_is_None)
      with that show ?thesis by (auto simp: call_ok_def split: pub_pc.splits)
    qed
    with inv show ?thesis by (auto simp: calls_inv_def h list_all_iff)
  qed
  ultimately show ?thesis using inv by (simp add: calls_inv_def seqs_def h c sl)
qed

lemma topic_moved_queue:
  assumes "topic_of (sy_ps s) n = Some tp" "topic_moved new made tp tp'" "queue_ok s n"
    and "topic_of (sy_ps s') n = Some tp'" "sy_sent s' n = sy_sent s n @ new" "sy_taken s' n = sy_taken s n"
    and "sy_made s' n = sy_made s n + of_bool made" "ps_config (sy_ps s') = ps_config (sy_ps s)"
  shows "queue_ok s' n"
  using assms by (auto simp: queue_ok_def topic_moved_def)

lemma do_call_simps [simp]:
  "sy_ps (do_call i call' l ps' s) = ps'" "sy_calls (do_call i call' l ps' s) = (sy_calls s)[i := call']"
  "sy_taken (do_call i call' l ps' s) = sy_taken s" "sy_dels (do_call i call' l ps' s) = sy_dels s"
  "sy_now (do_call i call' l ps' s) = sy_now s" "sy_since (do_call i call' l ps' s) = sy_since s"
  "sy_sent (do_call i call' l ps' s) n = sy_sent s n @ sent_to n (sy_calls s ! i) l"
  "sy_made (do_call i call' l ps' s) n
     = sy_made s n + of_bool (made_now (sy_calls s ! i) call' \<and> n = pc_topic (sy_calls s ! i))"
  by (auto simp: do_call_def Let_def sent_to_def split: option.split)

text \<open>A step of one call: topics, sequence numbers and the other calls.\<close>

lemma call_step_topic:
  assumes inv: "calls_inv s" and i: "i < length (sy_calls s)"
    and st: "pb_step (sy_now s) (sy_calls s ! i, sy_ps s) l (call', ps')"
  shows "call_ok (sy_ps s) (sy_calls s ! i)"
    and "keeps_rest (sy_ps s) ps'"
    and "topic_of (sy_ps s) n = None \<longleftrightarrow> topic_of ps' n = None"
    and "queue_ok (do_call i call' l ps' s) n"
proof -
  let ?call = "sy_calls s ! i"
  show ok: "call_ok (sy_ps s) ?call" using inv i by (simp add: calls_inv_def list_all_length)
  have topics: "(topic_of (sy_ps s) n = None \<longrightarrow> topic_of ps' n = None)
      \<and> (\<forall>tp. topic_of (sy_ps s) n = Some tp \<longrightarrow> (\<exists>tp'. topic_of ps' n = Some tp'
        \<and> topic_moved (sent_to n ?call l) (made_now ?call call' \<and> n = pc_topic ?call) tp tp'))
      \<and> keeps_rest (sy_ps s) ps' \<and> pc_topic call' = pc_topic ?call" for n
    using pb_step_topics [OF st ok, of n] by blast
  then show rest: "keeps_rest (sy_ps s) ps'" by blast
  show "topic_of (sy_ps s) n = None \<longleftrightarrow> topic_of ps' n = None"
    using topics [of n] by (cases "topic_of (sy_ps s) n") fastforce+
  have qn: "queue_ok s n" using inv by (simp add: calls_inv_def)
  show "queue_ok (do_call i call' l ps' s) n"
  proof (cases "topic_of (sy_ps s) n")
    case None
    have "\<not> (made_now ?call call' \<and> n = pc_topic ?call)" "sent_to n ?call l = []"
      using pb_step_no_topic [OF st ok None] by blast+
    moreover have "topic_of ps' n = None" using topics [of n] None by blast
    ultimately show ?thesis using None qn by (simp add: queue_ok_def)
  next
    case (Some tp)
    with topics [of n] obtain tp' where tp': "topic_of ps' n = Some tp'"
      "topic_moved (sent_to n ?call l) (made_now ?call call' \<and> n = pc_topic ?call) tp tp'" by blast
    from topic_moved_queue [OF Some tp'(2) qn] rest show ?thesis by (simp add: tp'(1) keeps_rest_def)
  qed
qed

lemma call_step_flight:
  assumes inv: "calls_inv s" and i: "i < length (sy_calls s)"
    and st: "pb_step (sy_now s) (sy_calls s ! i, sy_ps s) l (call', ps')"
  shows "call_ok ps' call'"
    and "seqs (do_call i call' l ps' s) n
      \<subseteq># mset (map of_nat [1..<Suc (sy_made (do_call i call' l ps' s) n)])"
proof -
  let ?call = "sy_calls s ! i" and ?s' = "do_call i call' l ps' s"
  let ?new = "if made_now ?call call' \<and> n = pc_topic ?call then {#of_nat (Suc (sy_made s n))#} else {#}"
  have ok: "call_ok (sy_ps s) ?call" by (rule call_step_topic [OF assms])
  have seq: "tp_sequence (the (topic_of (sy_ps s) n)) = of_nat (sy_made s n)" if "topic_of (sy_ps s) n \<noteq> None" for n
    using inv that by (auto simp: calls_inv_def queue_ok_def not_None_eq dest: spec [of _ n])
  note fl = pb_step_flight [OF st ok seq]
  show "call_ok ps' call'" using fl by blast
  have u: "held (flight n) ((sy_calls s)[i := call']) + opt_mset (flight n ?call)
      = held (flight n) (sy_calls s) + opt_mset (flight n call')" by (rule held_update [OF i])
  have "opt_mset (flight n call') + mset (map mg_Sequence (sent_to n ?call l)) \<subseteq># opt_mset (flight n ?call) + ?new"
    using fl [of n] by blast
  then have "held (flight n) (sy_calls s) + opt_mset (flight n call') + mset (map mg_Sequence (sent_to n ?call l))
      \<subseteq># held (flight n) (sy_calls s) + opt_mset (flight n ?call) + ?new"
    by (simp add: ac_simps)
  then have "held (flight n) ((sy_calls s)[i := call']) + mset (map mg_Sequence (sent_to n ?call l))
      \<subseteq># held (flight n) (sy_calls s) + ?new"
    unfolding u [symmetric] by (simp add: ac_simps)
  then have "seqs ?s' n \<subseteq># seqs s n + ?new" by (simp add: seqs_def ac_simps)
  also have "\<dots> \<subseteq># mset (map of_nat [1..<Suc (sy_made s n)]) + ?new"
    using inv by (simp add: calls_inv_def)
  also have "\<dots> = mset (map of_nat [1..<Suc (sy_made ?s' n)])" by auto
  finally show "seqs ?s' n \<subseteq># mset (map of_nat [1..<Suc (sy_made ?s' n)])" .
qed

lemma call_step_inv:
  assumes inv: "calls_inv s" and i: "i < length (sy_calls s)"
    and st: "pb_step (sy_now s) (sy_calls s ! i, sy_ps s) l (call', ps')"
  shows "calls_inv (do_call i call' l ps' s)"
proof -
  let ?call = "sy_calls s ! i"
  note tp = call_step_topic [OF assms] and fl = call_step_flight [OF assms]
  have "call_ok ps' call" if "call_ok (sy_ps s) call" for call
    using that tp(3) unfolding call_ok_def by (cases "pc_at call") auto
  with fl(1) have calls: "list_all (call_ok ps') ((sy_calls s)[i := call'])"
    using inv i by (simp add: calls_inv_def list_all_length nth_list_update)
  have held: "ch_buf (slots_of (sy_ps s)) \<noteq> []" if "holds_slot ?call"
    using countp_pos [OF i, of holds_slot] inv that by (auto simp: calls_inv_def)
  have "slots_moved (holds_slot ?call) (holds_slot call') (slots_of (sy_ps s)) (slots_of ps')"
    by (rule pb_step_slots [OF st tp(1) held])
  with inv tp(2) countp_update [OF i, of holds_slot call'] show ?thesis
    unfolding calls_inv_def using tp(4) calls fl(2) by (auto simp: slots_moved_def keeps_rest_def)
qed


section \<open>The other steps\<close>

lemma subs_of_simps [record_laws]:
  "subs_of (upd_pm g ps) = subs_of ps"
  "subs_of (upd_topic n f ps) n' = (if n' = n then (case topic_of ps n of None \<Rightarrow> [] | Some tp \<Rightarrow> tp_Subscribers (f tp)) else subs_of ps n')"
  by (auto simp: subs_of_def record_laws fun_eq_iff split: option.split)

lemma topic_of_add:
  "topic_of (upd_publisher (\<lambda>p. p\<lparr>pu_topics := pu_topics p @ [(n, tp)]\<rparr>) ps) n'
     = (case topic_of ps n' of None \<Rightarrow> (if n' = n then Some tp else None) | Some t \<Rightarrow> Some t)"
  by (auto simp: topic_of_def upd_publisher_def map_add_def split: option.splits)

lemma CreateTopic_cases:
  assumes "PubSub_CreateTopic uni now c name ps = (None, ps')"
  shows "topic_of ps name = None" "topic_of ps' = (topic_of ps)(name \<mapsto> NewTopic name ps)"
    "ps_config ps' = ps_config ps" "ps_ctx ps' = ps_ctx ps" "slots_of ps' = slots_of ps"
proof -
  have none: "topic_of ps name = None" and ps': "ps' = upd_pm (\<lambda>m. m\<lparr>pm_TotalTopics := pm_TotalTopics m + 1\<rparr>)
      (upd_um (\<lambda>m. m\<lparr>um_TopicsCreated := um_TopicsCreated m + 1\<rparr>)
        (upd_publisher (\<lambda>p. p\<lparr>pu_topics := pu_topics p @ [(name, NewTopic name ps)]\<rparr>) ps))"
    using assms unfolding PubSub_CreateTopic_def by (auto split: option.splits if_splits)
  show "topic_of ps' = (topic_of ps)(name \<mapsto> NewTopic name ps)"
    using none by (auto simp: ps' record_laws topic_of_add fun_eq_iff split: option.split)
  show "topic_of ps name = None" by (rule none)
  show "ps_config ps' = ps_config ps" "ps_ctx ps' = ps_ctx ps" "slots_of ps' = slots_of ps"
    by (simp_all add: ps' upd_um_frame) (simp_all add: upd_publisher_def)
qed

lemma Subscribe_cases:
  assumes "PubSub_Subscribe uni now c name sid h f ps = (Returns (Inr sb), ps')"
  obtains tp tm where "topic_of ps name = Some tp" "map_of (tp_Subscribers tp) sid = None"
    "topic_of ps' = (topic_of ps)(name \<mapsto> tp\<lparr>tp_Subscribers := tp_Subscribers tp @ [(sid, sb)],
       tp_metrics := (tp_metrics tp)\<lparr>tm_SubscriberCount := tm\<rparr>\<rparr>)"
    "ps_config ps' = ps_config ps" "ps_ctx ps' = ps_ctx ps" "slots_of ps' = slots_of ps"
    "sb = NewSubscription name sid (the h) (the f) (ps_config ps)"
proof -
  from assms obtain tp where tp: "topic_of ps name = Some tp" "map_of (tp_Subscribers tp) sid = None"
    and sb: "sb = NewSubscription name sid (the h) (the f) (ps_config ps)"
    and ps': "ps' = upd_pm (\<lambda>m. m\<lparr>pm_TotalSubscriptions := pm_TotalSubscriptions m + 1\<rparr>)
        (upd_topic name (\<lambda>tp. tp\<lparr>tp_Subscribers := tp_Subscribers tp @ [(sid, sb)],
           tp_metrics := (tp_metrics tp)\<lparr>tm_SubscriberCount := tm_SubscriberCount (tp_metrics tp) + 1\<rparr>\<rparr>) ps)"
    unfolding PubSub_Subscribe_def by (auto simp: Let_def split: option.splits if_splits)
  show thesis
    by (rule that [OF tp, of "tm_SubscriberCount (tp_metrics tp) + 1"]) (simp_all add: ps' record_laws tp fun_eq_iff sb)
qed

lemma Close_flag_cases:
  assumes "PubSub_Close_flag now ps = (r, ps')"
  shows "topic_of ps' = topic_of ps" "ps_config ps' = ps_config ps" "slots_of ps' = slots_of ps"
  using assms by (auto simp: PubSub_Close_flag_def topic_of_def fun_eq_iff split: if_splits)

lemma topic_of_close_subscriptions [record_laws]:
  "topic_of (upd_publisher (\<lambda>p. p\<lparr>pu_topics := close_subscriptions (pu_topics p)\<rparr>) ps) n
     = map_option (\<lambda>tp. tp\<lparr>tp_Subscribers := map (\<lambda>(sid, s). (sid, s\<lparr>sb_closed := True\<rparr>)) (tp_Subscribers tp)\<rparr>) (topic_of ps n)"
  "ps_config (upd_publisher f ps) = ps_config ps"
  "slots_of (upd_publisher (\<lambda>p. p\<lparr>pu_topics := tps p\<rparr>) ps) = slots_of ps"
  by (simp_all add: topic_of_def upd_publisher_def close_subscriptions_def map_of_map)

lemma close_topic_cases:
  assumes "close_topic tp = Returns tp'"
  shows "queue_view tp' = queue_view tp" "tp_Subscribers tp' = tp_Subscribers tp"
  using assms by (auto simp: close_topic_def queue_view_def chan_close_def split: if_splits)

lemma set_sub_simps [record_laws]:
  "topic_of (set_sub n sid sb ps) n' = (if n' = n
     then map_option (\<lambda>tp. tp\<lparr>tp_Subscribers := AList.map_entry sid (\<lambda>_. sb) (tp_Subscribers tp)\<rparr>) (topic_of ps n)
     else topic_of ps n')"
  "ps_config (set_sub n sid sb ps) = ps_config ps" "slots_of (set_sub n sid sb ps) = slots_of ps"
  "ps_ctx (set_sub n sid sb ps) = ps_ctx ps"
  "topic_of (count_error e ps) = topic_of ps" "ps_config (count_error e ps) = ps_config ps"
  "slots_of (count_error e ps) = slots_of ps" "ps_ctx (count_error e ps) = ps_ctx ps"
  by (simp_all add: set_sub_def upd_subs_def record_laws count_error_def)

lemma do_deliver_simps [simp]:
  "sy_ps (do_deliver i d e sb s) = count_error e (set_sub (dv_topic d) (dv_sid d) sb (sy_ps s))"
  "sy_dels (do_deliver i d e sb s) = (sy_dels s)[i := d]" "sy_calls (do_deliver i d e sb s) = sy_calls s"
  "sy_sent (do_deliver i d e sb s) = sy_sent s" "sy_taken (do_deliver i d e sb s) = sy_taken s"
  "sy_made (do_deliver i d e sb s) = sy_made s" "sy_since (do_deliver i d e sb s) = sy_since s"
  "sy_now (do_deliver i d e sb s) = sy_now s"
  by (simp_all add: do_deliver_def)

lemma do_take_simps [simp]:
  "sy_ps (do_take n m q s) = upd_topic n (\<lambda>tp. tp\<lparr>tp_MessageQueue := q\<rparr>) (sy_ps s)"
  "sy_dels (do_take n m q s) = sy_dels s @ map (spawn n m) (receivers m (subs_of (sy_ps s) n))"
  "sy_calls (do_take n m q s) = sy_calls s" "sy_sent (do_take n m q s) = sy_sent s"
  "sy_taken (do_take n m q s) = (sy_taken s)(n := sy_taken s n @ [m])"
  "sy_made (do_take n m q s) = sy_made s" "sy_since (do_take n m q s) = sy_since s"
  "sy_now (do_take n m q s) = sy_now s"
  by (simp_all add: do_take_def Let_def)

lemma add_call_simps [simp]:
  "sy_ps (add_call call s) = sy_ps s" "sy_calls (add_call call s) = sy_calls s @ [call]"
  "sy_sent (add_call call s) = sy_sent s" "sy_taken (add_call call s) = sy_taken s"
  "sy_made (add_call call s) = sy_made s" "sy_dels (add_call call s) = sy_dels s" "sy_since (add_call call s) = sy_since s"
  "sy_now (add_call call s) = sy_now s"
  by (simp_all add: add_call_def)

lemma add_call_inv:
  assumes "calls_inv s" and "pc_at call = PbEnter \<or> pc_at call = PbEnd e"
  shows "calls_inv (add_call call s)"
proof -
  have "call_ok (sy_ps s) call" "\<not> holds_slot call" "flight n call = None" for n
    using assms(2) by (auto simp: call_ok_def flight_def)
  moreover have "queue_ok (add_call call s) n \<longleftrightarrow> queue_ok s n" for n
    by (cases "topic_of (sy_ps s) n") (simp_all add: queue_ok_def)
  ultimately show ?thesis using assms(1) by (simp add: calls_inv_def seqs_def)
qed

lemma ps_step_calls_inv:
  assumes "ps_step s s'" "calls_inv s"
  shows "calls_inv s'"
  using assms(1)
proof (cases rule: ps_stepE)
  case (create uni c name ps')
  note t = CreateTopic_cases [OF create(2)]
  have q: "queue_ok s' n" for n
  proof -
    have "queue_ok s n" using assms(2) by (simp add: calls_inv_def)
    then show ?thesis
      by (cases "n = name"; cases "topic_of (sy_ps s) n") (simp_all add: queue_ok_def create(1) t NewTopic_def)
  qed
  have ok: "call_ok ps' call" if "call_ok (sy_ps s) call" for call
    using that t(2) unfolding call_ok_def by (cases "pc_at call") auto
  with assms(2) q create(1) t show ?thesis by (auto simp: calls_inv_def list_all_iff seqs_def)
next
  case (subscribe uni c name sid h f sb ps')
  from subscribe(2) obtain tp tm where t: "topic_of (sy_ps s) name = Some tp"
    "topic_of ps' = (topic_of (sy_ps s))(name \<mapsto> tp\<lparr>tp_Subscribers := tp_Subscribers tp @ [(sid, sb)],
       tp_metrics := (tp_metrics tp)\<lparr>tm_SubscriberCount := tm\<rparr>\<rparr>)"
    "ps_config ps' = ps_config (sy_ps s)" "slots_of ps' = slots_of (sy_ps s)" by (rule Subscribe_cases)
  show ?thesis
    by (rule calls_inv_kept [OF assms(2)]) (simp_all add: subscribe(1) t queue_view_def)
next
  case (call i l call' ps')
  then show ?thesis using call_step_inv [OF assms(2)] by simp
next
  case (take name tp m q)
  have q: "queue_ok s' n" for n
  proof (cases "n = name")
    case True
    have "queue_ok s name" using assms(2) by (simp add: calls_inv_def)
    with True take show ?thesis by (auto simp: queue_ok_def record_laws chan_recv_iffs)
  next
    case False
    have "queue_ok s n" using assms(2) by (simp add: calls_inv_def)
    from queue_ok_kept [OF this, of s'] False show ?thesis by (simp add: record_laws take(1))
  qed
  have ok: "call_ok (sy_ps s') call" if "call_ok (sy_ps s) call" for call
    using that unfolding call_ok_def take(1) by (cases "pc_at call") (auto simp: record_laws)
  with assms(2) q take(1) show ?thesis by (auto simp: calls_inv_def list_all_iff seqs_def record_laws)
next
  case (delivered name due k n)
  show ?thesis
    by (rule calls_inv_kept [OF assms(2)]) (simp_all add: delivered(1) record_laws queue_view_map)
next
  case (deliver i sb e d' sb')
  show ?thesis
    by (rule calls_inv_kept [OF assms(2)]) (simp_all add: deliver(1) record_laws queue_view_map)
next
  case (close ps')
  show ?thesis
    by (rule calls_inv_kept [OF assms(2)]) (simp_all add: close(1) Close_flag_cases [OF close(2)])
next
  case (close_queue name names tp tp')
  show ?thesis
    by (rule calls_inv_kept [OF assms(2)])
      (simp_all add: close_queue(1,3) record_laws close_topic_cases [OF close_queue(4)])
next
  case close_subs
  show ?thesis
    by (rule calls_inv_kept [OF assms(2)]) (simp_all add: close_subs(1) record_laws queue_view_map)
next
  case (moves_on name due k n)
  show ?thesis by (rule calls_inv_kept [OF assms(2)]) (simp_all add: moves_on(1))
next
  case (exit name)
  show ?thesis by (rule calls_inv_kept [OF assms(2)]) (simp_all add: exit(1))
next
  case (tick n)
  show ?thesis by (rule calls_inv_kept [OF assms(2)]) (simp_all add: tick(1))
qed (use assms(2) in \<open>auto intro!: add_call_inv simp: publish_call_def\<close>)

lemma NewPubSub_cases:
  assumes "NewPubSub counter config = Inr ps"
  obtains c where "topic_of ps n = None" "ps_config ps = c" "slots_of ps = make_chan (nat (cp_MaxConcurrentOperations c))"
    "validateConfigPubSub (Some c) = None" "ps_closed ps = False" "ps_ctx ps = Background"
    "ps_breaker ps = NewCircuitBreakerPubSub (cp_CircuitBreakerThreshold c) (cp_CircuitBreakerTimeout c)"
    "pu_topics (ps_publisher ps) = []"
proof -
  from assms obtain c where c: "config = Some c" "validateConfigPubSub (Some c) = None"
    by (cases config) (auto simp: NewPubSub_def validateConfigPubSub_def split: option.splits)
  show thesis
    by (rule that [of "applyDefaultsPubSub c"])
      (use assms c psc.defaults_valid [OF c(2)] in \<open>auto simp: NewPubSub_def Let_def topic_of_def\<close>)
qed

lemma reach_calls_inv: "ps_reach s \<Longrightarrow> calls_inv s"
proof (induction rule: ps_reach.induct)
  case (init counter config ps now)
  have "topic_of ps n = None" for n by (rule NewPubSub_cases [OF init])
  moreover have "slots_of ps = make_chan (nat (cp_MaxConcurrentOperations (ps_config ps)))"
    by (rule NewPubSub_cases [OF init]) simp
  ultimately show ?case by (simp add: calls_inv_def queue_ok_def seqs_def ps_start_def)
next
  case (step s s')
  then show ?case by (blast intro: ps_step_calls_inv)
qed

end
