(* ===== verification/PubSubSubs.thy ===== *)
theory PubSubSubs
  imports PubSubCalls
begin

text \<open>
  The delivering side of the running system: what every reachable state says of a subscription, its
  counters, its semaphore and the messages it was given.
\<close>

section \<open>A step of a delivery\<close>

definition dv_active :: "delivery \<Rightarrow> bool" where
  "dv_active d \<longleftrightarrow> (case dv_at d of
     DvEnter \<Rightarrow> True | DvTop _ _ _ \<Rightarrow> True | DvHandling _ _ _ _ \<Rightarrow> True | DvWait _ _ _ _ \<Rightarrow> True
   | DvOver _ _ \<Rightarrow> True | DvCount _ \<Rightarrow> True | _ \<Rightarrow> False)"

definition dv_in_slot :: "delivery \<Rightarrow> bool" where
  "dv_in_slot d \<longleftrightarrow> dv_slot d \<and> dv_at d \<notin> {DvSpawned, DvFinished, DvGaveUp}"

definition balance :: "SubscriptionPubSub \<Rightarrow> counter" where
  "balance sb = sm_MessagesReceived (sb_metrics sb) - sm_MessagesProcessed (sb_metrics sb) - sm_MessagesFailed (sb_metrics sb)"

definition same_sub :: "SubscriptionPubSub \<Rightarrow> SubscriptionPubSub \<Rightarrow> bool" where
  "same_sub sb sb' \<longleftrightarrow> sb_Filter sb' = sb_Filter sb \<and> sb_closed sb' = sb_closed sb \<and> sb_Handler sb' = sb_Handler sb
     \<and> sb_MaxRetries sb' = sb_MaxRetries sb"

lemma same_sub_refl [simp]: "same_sub sb sb"
  by (simp add: same_sub_def)

lemma same_sub_matches: "same_sub sb sb' \<Longrightarrow> SubscriptionPubSub_matchesFilter sb' = SubscriptionPubSub_matchesFilter sb"
  by (simp add: same_sub_def SubscriptionPubSub_matchesFilter_def fun_eq_iff)

text \<open>Balance, semaphore and settings of a subscription under the updates of a delivery.\<close>

definition sub_moved :: "bool \<Rightarrow> bool \<Rightarrow> bool \<Rightarrow> bool \<Rightarrow> SubscriptionPubSub \<Rightarrow> SubscriptionPubSub \<Rightarrow> bool" where
  "sub_moved act act' slot slot' sb sb' \<longleftrightarrow>
     same_sub sb sb' \<and> balance sb' - of_bool act' = balance sb - of_bool act
     \<and> slots_moved slot slot' (sb_workerPool sb) (sb_workerPool sb')"

lemma sub_moved_same [simp]: "sub_moved a a b b sb sb"
  by (simp add: sub_moved_def)

lemma upd_scb_moved [simp]: "sub_moved a a b b sb (upd_scb f sb)"
  by (simp add: sub_moved_def same_sub_def balance_def upd_scb_def)

lemma retried_moved [simp]:
  "sub_moved a a b b sb (upd_sm (\<lambda>x. x\<lparr>sm_MessagesRetried := sm_MessagesRetried x + 1\<rparr>) sb)"
  by (simp add: sub_moved_def same_sub_def balance_def upd_sm_def)

lemma count_dlq_moved [simp]: "sub_moved a a b b sb (count_dlq err sb)"
  by (simp add: sub_moved_def same_sub_def balance_def upd_sm_def count_dlq_def)

lemma deliver_count_moved [simp]: "sub_moved True False b b sb (deliver_count err sb)"
  by (auto simp: sub_moved_def same_sub_def balance_def upd_sm_def deliver_count_def count_delivery_error_def Let_def
      split: option.split)

lemma deliver_begin_moved: "deliver_begin pick now c sb = Some (slot, sb') \<Longrightarrow> sub_moved False True False slot sb sb'"
  by (auto simp: sub_moved_def same_sub_def balance_def upd_sm_def deliver_begin_def Let_def slots_moved_def select_send_iffs
      split: select_result.splits)

lemma deliver_end_moved:
  assumes "slot \<Longrightarrow> ch_buf (sb_workerPool sb) \<noteq> []"
  shows "sub_moved False False slot False sb (deliver_end slot t0 t sb)"
proof (cases slot)
  case True
  with assms obtain x xs where "ch_buf (sb_workerPool sb) = x # xs" by (meson neq_Nil_conv)
  with True show ?thesis
    by (auto simp: sub_moved_def same_sub_def balance_def upd_sm_def deliver_end_def Let_def slots_moved_def chan_recv_def)
next
  case False
  then show ?thesis
    by (simp add: sub_moved_def same_sub_def balance_def upd_sm_def deliver_end_def)
qed

lemma dv_pc_simps [simp]:
  "dv_at d = DvSpawned \<Longrightarrow> \<not> dv_active d" "dv_at d = DvEnter \<Longrightarrow> dv_active d" "dv_at d = DvTop g a es \<Longrightarrow> dv_active d"
  "dv_at d = DvHandling g a hc x \<Longrightarrow> dv_active d" "dv_at d = DvWait g a e t \<Longrightarrow> dv_active d"
  "dv_at d = DvOver g err \<Longrightarrow> dv_active d" "dv_at d = DvCount err \<Longrightarrow> dv_active d" "dv_at d = DvDlq t r \<Longrightarrow> \<not> dv_active d"
  "dv_at d = DvEnding \<Longrightarrow> \<not> dv_active d" "dv_at d = DvFinished \<Longrightarrow> \<not> dv_active d" "dv_at d = DvGaveUp \<Longrightarrow> \<not> dv_active d"
  "dv_at d = DvPanicked p \<Longrightarrow> \<not> dv_active d"
  "dv_at d = DvSpawned \<Longrightarrow> \<not> dv_in_slot d" "dv_at d = DvEnter \<Longrightarrow> dv_in_slot d = dv_slot d"
  "dv_at d = DvTop g a es \<Longrightarrow> dv_in_slot d = dv_slot d"
  "dv_at d = DvHandling g a hc x \<Longrightarrow> dv_in_slot d = dv_slot d" "dv_at d = DvWait g a e t \<Longrightarrow> dv_in_slot d = dv_slot d"
  "dv_at d = DvOver g err \<Longrightarrow> dv_in_slot d = dv_slot d" "dv_at d = DvCount err \<Longrightarrow> dv_in_slot d = dv_slot d"
  "dv_at d = DvDlq t r \<Longrightarrow> dv_in_slot d = dv_slot d" "dv_at d = DvPanicked p \<Longrightarrow> dv_in_slot d = dv_slot d"
  "dv_at d = DvEnding \<Longrightarrow> dv_in_slot d = dv_slot d" "dv_at d = DvFinished \<Longrightarrow> \<not> dv_in_slot d" "dv_at d = DvGaveUp \<Longrightarrow> \<not> dv_in_slot d"
  by (simp_all add: dv_active_def dv_in_slot_def)

definition same_delivery :: "delivery \<Rightarrow> delivery \<Rightarrow> bool" where
  "same_delivery d d' \<longleftrightarrow> dv_topic d' = dv_topic d \<and> dv_sid d' = dv_sid d \<and> dv_msg d' = dv_msg d"

lemma after_handler_moved:
  assumes "(d', sb') = after_handler now g a err (d, sb)" "dv_active d" "dv_in_slot d = dv_slot d"
  shows "same_delivery d d' \<and> sub_moved (dv_active d) (dv_active d') (dv_in_slot d) (dv_in_slot d') sb sb'"
  using assms by (auto simp: after_handler_def same_delivery_def split: option.splits if_splits)

lemma dv_step_moved:
  assumes st: "dv_step now cfg c (d, sb) e (d', sb')"
    and held: "dv_in_slot d \<Longrightarrow> ch_buf (sb_workerPool sb) \<noteq> []"
  shows "same_delivery d d' \<and> sub_moved (dv_active d) (dv_active d') (dv_in_slot d) (dv_in_slot d') sb sb'"
  using st
proof (cases rule: dv_stepE)
  case (begin_it pick slot)
  then show ?thesis by (auto simp: same_delivery_def dest: deliver_begin_moved)
next
  case (handled g a hc t r)
  then show ?thesis by (intro after_handler_moved) auto
next
  case (timed_out g a hc x)
  then show ?thesis by (intro after_handler_moved) auto
next
  case ending
  then show ?thesis using deliver_end_moved [of "dv_slot d" sb] held by (simp add: same_delivery_def)
qed (auto simp: same_delivery_def)


section \<open>Subscriptions\<close>

definition dv_of :: "string \<Rightarrow> string \<Rightarrow> delivery \<Rightarrow> bool" where
  "dv_of n sid d \<longleftrightarrow> dv_topic d = n \<and> dv_sid d = sid"

text \<open>
  The counters of a subscription balance with its deliveries under way, its semaphore with the
  deliveries in a slot; while it is open it has been given every message it matches, once, in order.
\<close>

definition sub_ok :: "ps_sys \<Rightarrow> string \<Rightarrow> string \<Rightarrow> SubscriptionPubSub \<Rightarrow> bool" where
  "sub_ok s n sid sb \<longleftrightarrow>
     balance sb = of_nat (countp (\<lambda>d. dv_of n sid d \<and> dv_active d) (sy_dels s))
     \<and> length (ch_buf (sb_workerPool sb)) = countp (\<lambda>d. dv_of n sid d \<and> dv_in_slot d) (sy_dels s)
     \<and> length (ch_buf (sb_workerPool sb)) \<le> ch_cap (sb_workerPool sb)
     \<and> ch_cap (sb_workerPool sb) = 10 \<and> \<not> ch_closed (sb_workerPool sb)
     \<and> sy_since s (n, sid) \<le> length (sy_taken s n)
     \<and> (\<not> sb_closed sb \<longrightarrow> map dv_msg (filter (dv_of n sid) (sy_dels s))
          = filter (SubscriptionPubSub_matchesFilter sb) (drop (sy_since s (n, sid)) (sy_taken s n)))"

definition subs_inv :: "ps_sys \<Rightarrow> bool" where
  "subs_inv s \<longleftrightarrow>
     (\<forall>n. distinct (map fst (subs_of (sy_ps s) n)))
     \<and> (\<forall>n sid. case sub_of (sy_ps s) n sid of
          None \<Rightarrow> filter (dv_of n sid) (sy_dels s) = []
        | Some sb \<Rightarrow> sub_ok s n sid sb)"

lemma subs_invI:
  assumes "\<And>n. distinct (map fst (subs_of (sy_ps s) n))"
    and "\<And>n sid. sub_of (sy_ps s) n sid = None \<Longrightarrow> filter (dv_of n sid) (sy_dels s) = []"
    and "\<And>n sid sb. sub_of (sy_ps s) n sid = Some sb \<Longrightarrow> sub_ok s n sid sb"
  shows "subs_inv s"
  using assms by (simp add: subs_inv_def split: option.split)

lemma subs_invD:
  assumes "subs_inv s"
  shows "distinct (map fst (subs_of (sy_ps s) n))"
    "sub_of (sy_ps s) n sid = None \<Longrightarrow> filter (dv_of n sid) (sy_dels s) = []"
    "sub_of (sy_ps s) n sid = Some sb \<Longrightarrow> sub_ok s n sid sb"
proof -
  have "case sub_of (sy_ps s) n sid of None \<Rightarrow> filter (dv_of n sid) (sy_dels s) = [] | Some sb \<Rightarrow> sub_ok s n sid sb"
    using assms unfolding subs_inv_def by blast
  then show "sub_of (sy_ps s) n sid = None \<Longrightarrow> filter (dv_of n sid) (sy_dels s) = []"
    "sub_of (sy_ps s) n sid = Some sb \<Longrightarrow> sub_ok s n sid sb" by simp_all
  show "distinct (map fst (subs_of (sy_ps s) n))" using assms by (simp add: subs_inv_def)
qed

lemma sub_ok_cong:
  "sy_dels s' = sy_dels s \<Longrightarrow> sy_taken s' n = sy_taken s n \<Longrightarrow> sy_since s' (n, sid) = sy_since s (n, sid)
     \<Longrightarrow> sub_ok s' n sid sb = sub_ok s n sid sb"
  by (simp add: sub_ok_def)

lemma subs_inv_kept:
  assumes "subs_inv s" "subs_of (sy_ps s') = subs_of (sy_ps s)" "sy_dels s' = sy_dels s" "sy_taken s' = sy_taken s"
    "sy_since s' = sy_since s"
  shows "subs_inv s'"
proof (rule subs_invI)
  fix n sid sb
  show "distinct (map fst (subs_of (sy_ps s') n))" using subs_invD(1) [OF assms(1)] by (simp add: assms(2))
  show "sub_of (sy_ps s') n sid = None \<Longrightarrow> filter (dv_of n sid) (sy_dels s') = []"
    using subs_invD(2) [OF assms(1), of n sid] by (simp add: assms sub_of_def)
  show "sub_of (sy_ps s') n sid = Some sb \<Longrightarrow> sub_ok s' n sid sb"
    using subs_invD(3) [OF assms(1), of n sid sb] sub_ok_cong [OF assms(3), of n sid sb] by (simp add: assms sub_of_def)
qed

lemma subs_of_eqI: "topic_of ps' = topic_of ps \<Longrightarrow> subs_of ps' = subs_of ps"
  by (simp add: subs_of_def fun_eq_iff)

lemma subs_of_mapI:
  "(\<And>n. topic_of ps' n = map_option (f n) (topic_of ps n)) \<Longrightarrow> (\<And>n tp. tp_Subscribers (f n tp) = tp_Subscribers tp)
     \<Longrightarrow> subs_of ps' = subs_of ps"
  by (auto simp: subs_of_def fun_eq_iff split: option.split)

lemma pb_step_subs:
  assumes st: "pb_step now (call, ps) l (call', ps')" and ok: "call_ok ps call"
  shows "subs_of ps' = subs_of ps"
proof
  fix n
  show "subs_of ps' n = subs_of ps n"
    using pb_step_topics [OF st ok, of n] by (cases "topic_of ps n") (auto simp: subs_of_def)
qed

lemma fst_map_entry [simp]: "map fst (AList.map_entry k f xs) = map fst xs"
  by (induction xs) auto

lemma subs_of_set_sub:
  "subs_of (set_sub n sid sb ps) n' = (if n' = n then AList.map_entry sid (\<lambda>_. sb) (subs_of ps n) else subs_of ps n')"
  by (cases "topic_of ps n") (simp_all add: set_sub_def upd_subs_def subs_of_def topic_of_upd_topic)

lemma sub_of_set_sub:
  "sub_of (set_sub n sid sb ps) n' sid' = (if n' = n \<and> sid' = sid then map_option (\<lambda>_. sb) (sub_of ps n sid) else sub_of ps n' sid')"
  by (auto simp: sub_of_def subs_of_set_sub AList.map_of_map_entry split: option.split)

lemma sub_of_count_error [simp]: "sub_of (count_error e ps) = sub_of ps" "subs_of (count_error e ps) = subs_of ps"
  by (simp_all add: count_error_def sub_of_def subs_of_simps fun_eq_iff)

text \<open>How a balance follows the number of calls under way.\<close>

lemma balance_follows:
  assumes "b = of_nat k" "b' - of_bool a' = b - of_bool a" "k' + of_bool a = k + of_bool a'"
  shows "b' = (of_nat k' :: counter)"
proof -
  have "of_nat (k' + of_bool a) = (of_nat (k + of_bool a') :: counter)" using assms(3) by simp
  then have "of_nat k' + of_bool a = of_nat k + (of_bool a' :: counter)" by simp
  with assms(1,2) have "b' + of_bool a = of_nat k' + of_bool a" by (simp add: algebra_simps)
  then show ?thesis by simp
qed

lemma map_filter_update:
  "i < length xs \<Longrightarrow> P v = P (xs ! i) \<Longrightarrow> f v = f (xs ! i) \<Longrightarrow> map f (filter P (xs[i := v])) = map f (filter P xs)"
proof (induction xs arbitrary: i)
  case (Cons x xs)
  then show ?case by (cases i) auto
qed simp

text \<open>The subscription whose delivery has made a step.\<close>

lemma sub_ok_delivered:
  assumes ok: "sub_ok s n sid sb" and i: "i < length (sy_dels s)"
    and own: "dv_of n sid (sy_dels s ! i)" "dv_of n sid d'" and msg: "dv_msg d' = dv_msg (sy_dels s ! i)"
    and mv: "sub_moved (dv_active (sy_dels s ! i)) (dv_active d') (dv_in_slot (sy_dels s ! i)) (dv_in_slot d') sb sb'"
  shows "sub_ok (do_deliver i d' e sb' s) n sid sb'"
proof -
  let ?d = "sy_dels s ! i"
  have msgs: "map dv_msg (filter (dv_of n sid) ((sy_dels s)[i := d'])) = map dv_msg (filter (dv_of n sid) (sy_dels s))"
    by (rule map_filter_update [OF i]) (simp_all add: own msg)
  have count: "countp (\<lambda>d. dv_of n sid d \<and> P d) ((sy_dels s)[i := d']) + of_bool (P ?d)
      = countp (\<lambda>d. dv_of n sid d \<and> P d) (sy_dels s) + of_bool (P d')" for P
    using countp_update [OF i, of "\<lambda>d. dv_of n sid d \<and> P d" d'] own by simp
  have mv': "balance sb' - of_bool (dv_active d') = balance sb - of_bool (dv_active ?d)"
    and sl: "slots_moved (dv_in_slot ?d) (dv_in_slot d') (sb_workerPool sb) (sb_workerPool sb')"
    and same: "same_sub sb sb'"
    using mv by (simp_all add: sub_moved_def)
  have "balance sb' = of_nat (countp (\<lambda>d. dv_of n sid d \<and> dv_active d) ((sy_dels s)[i := d']))"
    by (rule balance_follows [OF _ mv' count]) (use ok in \<open>simp add: sub_ok_def\<close>)
  moreover have "SubscriptionPubSub_matchesFilter sb' = SubscriptionPubSub_matchesFilter sb"
    by (rule same_sub_matches [OF same])
  moreover have "sb_closed sb' = sb_closed sb" using same by (simp add: same_sub_def)
  moreover note okd = ok [unfolded sub_ok_def] and sld = sl [unfolded slots_moved_def]
  have "length (ch_buf (sb_workerPool sb'))
      = countp (\<lambda>d. dv_of n sid d \<and> dv_in_slot d) ((sy_dels s)[i := d'])"
    using conjunct1 [OF conjunct2 [OF okd]] conjunct1 [OF sld] count [of dv_in_slot] by linarith
  moreover have "ch_cap (sb_workerPool sb') = 10" "\<not> ch_closed (sb_workerPool sb')"
    using okd sld by simp_all
  moreover have "length (ch_buf (sb_workerPool sb')) \<le> ch_cap (sb_workerPool sb')"
    using okd sld by blast
  ultimately show ?thesis using ok unfolding sub_ok_def do_deliver_simps msgs by simp
qed

lemma deliver_subs_inv:
  assumes inv: "subs_inv s" and i: "i < length (sy_dels s)"
    and sb: "sub_of (sy_ps s) (dv_topic (sy_dels s ! i)) (dv_sid (sy_dels s ! i)) = Some sb"
    and st: "dv_step now cfg c (sy_dels s ! i, sb) e (d', sb')"
  shows "subs_inv (do_deliver i d' e sb' s)"
proof -
  let ?d = "sy_dels s ! i" and ?s' = "do_deliver i d' e sb' s"
  let ?n = "dv_topic ?d" and ?sid = "dv_sid ?d"
  note ok = subs_invD(3) [OF inv sb]
  have own: "dv_of ?n ?sid ?d" by (simp add: dv_of_def)
  have "ch_buf (sb_workerPool sb) \<noteq> []" if "dv_in_slot ?d"
    using countp_pos [OF i, of "\<lambda>d. dv_of ?n ?sid d \<and> dv_in_slot d"] ok own that by (auto simp: sub_ok_def)
  note mv = dv_step_moved [OF st this]
  then have key: "dv_topic d' = ?n" "dv_sid d' = ?sid" "dv_msg d' = dv_msg ?d" by (simp_all add: same_delivery_def)
  have dv: "dv_of n sid d' = dv_of n sid ?d" for n sid by (simp add: dv_of_def key)
  have msgs: "map dv_msg (filter (dv_of n sid) ((sy_dels s)[i := d'])) = map dv_msg (filter (dv_of n sid) (sy_dels s))" for n sid
    by (rule map_filter_update [OF i]) (simp_all add: dv key)
  show ?thesis
  proof (rule subs_invI)
    fix n sid
    show "distinct (map fst (subs_of (sy_ps ?s') n))"
      using subs_invD(1) [OF inv] by (simp add: subs_of_set_sub)
  next
    fix n sid
    assume "sub_of (sy_ps ?s') n sid = None"
    then have "sub_of (sy_ps s) n sid = None"
      by (simp add: sub_of_set_sub key split: if_splits)
    from subs_invD(2) [OF inv this] msgs [of n sid] show "filter (dv_of n sid) (sy_dels ?s') = []" by simp
  next
    fix n sid sb1
    assume "sub_of (sy_ps ?s') n sid = Some sb1"
    then have s1: "sub_of (set_sub ?n ?sid sb' (sy_ps s)) n sid = Some sb1"
      by (simp add: key)
    show "sub_ok ?s' n sid sb1"
    proof (cases "n = ?n \<and> sid = ?sid")
      case True
      with s1 sb have "sb1 = sb'" by (simp add: sub_of_set_sub)
      have "sub_ok ?s' ?n ?sid sb'"
        by (rule sub_ok_delivered [OF ok i]) (use own dv key mv in simp_all)
      with True \<open>sb1 = sb'\<close> show ?thesis by simp
    next
      case False
      then have no: "\<not> dv_of n sid ?d" by (auto simp: dv_of_def)
      from s1 have "sub_of (sy_ps s) n sid = Some sb1" unfolding sub_of_set_sub if_not_P [OF False] .
      from subs_invD(3) [OF inv this] show ?thesis
        using no dv [of n sid] msgs [of n sid] by (simp add: sub_ok_def countp_update_same [OF i])
    qed
  qed
qed


section \<open>The other steps\<close>

lemma spawn_simps [simp]:
  "dv_topic (spawn n m sid) = n" "dv_sid (spawn n m sid) = sid" "dv_msg (spawn n m sid) = m"
  "dv_at (spawn n m sid) = DvSpawned"
  by (simp_all add: spawn_def)

lemma spawned_for:
  "distinct sids \<Longrightarrow> map dv_msg (filter (dv_of n sid) (map (spawn name m) sids)) = (if n = name \<and> sid \<in> set sids then [m] else [])"
  by (induction sids) (auto simp: dv_of_def)

lemma spawned_idle:
  "countp (\<lambda>d. P d \<and> dv_active d) (map (spawn name m) sids) = 0"
  "countp (\<lambda>d. P d \<and> dv_in_slot d) (map (spawn name m) sids) = 0"
  by (induction sids) auto

lemma receivers_iff:
  "distinct (map fst subs) \<Longrightarrow> sid \<in> set (receivers m subs) \<longleftrightarrow>
     (\<exists>sb. map_of subs sid = Some sb \<and> \<not> sb_closed sb \<and> SubscriptionPubSub_matchesFilter sb m)"
  by (auto simp: receivers_def image_iff split: prod.splits)

lemma receivers_distinct: "distinct (map fst subs) \<Longrightarrow> distinct (receivers m subs)"
  by (simp add: receivers_def distinct_map_filter)

lemma take_subs_inv:
  assumes inv: "subs_inv s" and tp: "topic_of (sy_ps s) name = Some tp"
  shows "subs_inv (do_take name m q s)"
proof (rule subs_invI)
  let ?s' = "do_take name m q s" and ?rs = "receivers m (subs_of (sy_ps s) name)"
  have subs: "subs_of (sy_ps ?s') = subs_of (sy_ps s)"
    by (rule subs_of_mapI [where f = "\<lambda>n. if n = name then \<lambda>tp. tp\<lparr>tp_MessageQueue := q\<rparr> else (\<lambda>tp. tp)"])
      (simp_all add: topic_of_upd_topic option.map_ident)
  then have sub: "sub_of (sy_ps ?s') = sub_of (sy_ps s)" by (simp add: sub_of_def fun_eq_iff)
  have dist: "distinct (map fst (subs_of (sy_ps s) n))" for n by (rule subs_invD(1) [OF inv])
  have rs: "distinct ?rs" by (rule receivers_distinct [OF dist])
  have inrs: "sid \<in> set ?rs \<longleftrightarrow> (\<exists>sb. sub_of (sy_ps s) name sid = Some sb \<and> \<not> sb_closed sb
      \<and> SubscriptionPubSub_matchesFilter sb m)" for sid
    unfolding sub_of_def by (rule receivers_iff [OF dist])
  fix n sid sb
  show "distinct (map fst (subs_of (sy_ps ?s') n))" unfolding subs by (rule dist)
  show "filter (dv_of n sid) (sy_dels ?s') = []" if "sub_of (sy_ps ?s') n sid = None"
  proof -
    have none: "sub_of (sy_ps s) n sid = None" using that unfolding sub .
    have "map dv_msg (filter (dv_of n sid) (map (spawn name m) ?rs)) = []"
      unfolding spawned_for [OF rs] using none inrs [of sid] by auto
    with subs_invD(2) [OF inv none] show ?thesis by simp
  qed
  show "sub_ok ?s' n sid sb" if "sub_of (sy_ps ?s') n sid = Some sb"
  proof -
    have some: "sub_of (sy_ps s) n sid = Some sb" using that unfolding sub .
    note ok = subs_invD(3) [OF inv some, unfolded sub_ok_def]
    have "map dv_msg (filter (dv_of n sid) (map (spawn name m) ?rs))
        = (if n = name then filter (SubscriptionPubSub_matchesFilter sb) [m] else [])" if "\<not> sb_closed sb"
      unfolding spawned_for [OF rs] using some inrs [of sid] that by auto
    then show ?thesis using ok by (auto simp: sub_ok_def spawned_idle)
  qed
qed

lemma new_sub_ok:
  assumes none: "filter (dv_of n sid) (sy_dels s') = []" and since: "sy_since s' (n, sid) = length (sy_taken s' n)"
  shows "sub_ok s' n sid (NewSubscription n sid h f cfg)"
proof -
  have "countp (\<lambda>d. dv_of n sid d \<and> P d) (sy_dels s') = 0" for P
    using none by (auto simp: countp_def filter_empty_conv)
  with none since show ?thesis
    by (simp add: sub_ok_def NewSubscription_def balance_def zero_SubscriptionMetrics_def)
qed

lemma map_of_snoc: "map_of (xs @ [(k, v)]) k' = (case map_of xs k' of None \<Rightarrow> if k' = k then Some v else None | Some w \<Rightarrow> Some w)"
  by (auto simp: map_add_def split: option.split)

lemma subscribe_subs_inv:
  assumes inv: "subs_inv s"
    and st: "PubSub_Subscribe uni now c name sid h f (sy_ps s) = (Returns (Inr sb), ps')"
    and s': "s' = s\<lparr>sy_ps := ps', sy_since := (sy_since s)((name, sid) := length (sy_taken s name))\<rparr>"
  shows "subs_inv s'"
proof -
  from st obtain tp tm where t: "topic_of (sy_ps s) name = Some tp" "map_of (tp_Subscribers tp) sid = None"
    "topic_of ps' = (topic_of (sy_ps s))(name \<mapsto> tp\<lparr>tp_Subscribers := tp_Subscribers tp @ [(sid, sb)],
       tp_metrics := (tp_metrics tp)\<lparr>tm_SubscriberCount := tm\<rparr>\<rparr>)"
    "sb = NewSubscription name sid (the h) (the f) (ps_config (sy_ps s))" by (rule Subscribe_cases)
  have subs: "subs_of ps' n = (if n = name then subs_of (sy_ps s) n @ [(sid, sb)] else subs_of (sy_ps s) n)" for n
    by (simp add: subs_of_def t)
  have fresh: "sub_of (sy_ps s) name sid = None" using t by (simp add: sub_of_def subs_of_def)
  have sub: "sub_of ps' n k = (if n = name \<and> k = sid then Some sb else sub_of (sy_ps s) n k)" for n k
    using fresh by (auto simp: sub_of_def subs map_of_snoc simp del: map_of_append split: option.split)
  note none = subs_invD(2) [OF inv fresh]
  show ?thesis
  proof (rule subs_invI)
    fix n k sb1
    have "sid \<notin> fst ` set (subs_of (sy_ps s) name)" using fresh by (simp add: sub_of_def map_of_eq_None_iff)
    then show "distinct (map fst (subs_of (sy_ps s') n))"
      using subs_invD(1) [OF inv, of n] by (cases "n = name") (simp_all add: s' subs)
    show "sub_of (sy_ps s') n k = None \<Longrightarrow> filter (dv_of n k) (sy_dels s') = []"
      using subs_invD(2) [OF inv, of n k] by (simp add: s' sub split: if_splits)
    assume some: "sub_of (sy_ps s') n k = Some sb1"
    show "sub_ok s' n k sb1"
    proof (cases "n = name \<and> k = sid")
      case True
      with some have "sb1 = sb" by (simp add: s' sub)
      with True t(4) none show ?thesis by (simp add: new_sub_ok s')
    next
      case False
      with some have "sub_of (sy_ps s) n k = Some sb1" by (auto simp: s' sub)
      from subs_invD(3) [OF inv this] False show ?thesis
        by (subst sub_ok_cong [of s' s]) (auto simp: s')
    qed
  qed
qed

lemma closed_sub_ok: "sub_ok s n sid sb \<Longrightarrow> sub_ok s n sid (sb\<lparr>sb_closed := True\<rparr>)"
  by (simp add: sub_ok_def balance_def)

lemma ps_step_subs_inv:
  assumes "ps_step s s'" "calls_inv s" and inv: "subs_inv s"
  shows "subs_inv s'"
  using assms(1)
proof (cases rule: ps_stepE)
  case (create uni c name ps')
  note t = CreateTopic_cases [OF create(2)]
  have "subs_of ps' n = subs_of (sy_ps s) n" for n
    using t(1) by (simp add: subs_of_def t(2) NewTopic_def)
  then show ?thesis by (intro subs_inv_kept [OF inv]) (auto simp: create(1))
next
  case (subscribe uni c name sid h f sb ps')
  then show ?thesis using subscribe_subs_inv [OF inv] by blast
next
  case (call i l call' ps')
  have "call_ok (sy_ps s) (sy_calls s ! i)" using assms(2) call by (simp add: calls_inv_def list_all_length)
  from pb_step_subs [OF call(3) this] show ?thesis
    by (intro subs_inv_kept [OF inv]) (simp_all add: call(1))
next
  case (take name tp m q)
  then show ?thesis using take_subs_inv [OF inv] by simp
next
  case (delivered name due k n)
  have "subs_of (sy_ps s') = subs_of (sy_ps s)"
    by (rule subs_of_mapI [where f = "\<lambda>n. if n = name then \<lambda>tp. tp\<lparr>tp_metrics := (tp_metrics tp)
            \<lparr>tm_MessagesDelivered := tm_MessagesDelivered (tp_metrics tp) + 1\<rparr>\<rparr> else (\<lambda>tp. tp)"])
      (simp_all add: delivered(1) topic_of_upd_topic option.map_ident)
  then show ?thesis by (intro subs_inv_kept [OF inv]) (simp_all add: delivered(1))
next
  case (deliver i sb e d' sb')
  then show ?thesis using deliver_subs_inv [OF inv] by simp
next
  case (close ps')
  have "subs_of ps' = subs_of (sy_ps s)" by (rule subs_of_eqI) (rule Close_flag_cases(1) [OF close(2)])
  then show ?thesis by (intro subs_inv_kept [OF inv]) (simp_all add: close(1))
next
  case (close_queue name names tp tp')
  have "subs_of (upd_topic name (\<lambda>_. tp') (sy_ps s)) n = subs_of (sy_ps s) n" for n
    using close_queue(3) close_topic_cases(2) [OF close_queue(4)] by (simp add: subs_of_def topic_of_upd_topic)
  then show ?thesis by (intro subs_inv_kept [OF inv]) (auto simp: close_queue(1))
next
  case close_subs
  let ?ps' = "upd_publisher (\<lambda>p. p\<lparr>pu_topics := close_subscriptions (pu_topics p)\<rparr>) (sy_ps s)"
  have subs: "subs_of ?ps' n = map (\<lambda>(sid, sb). (sid, sb\<lparr>sb_closed := True\<rparr>)) (subs_of (sy_ps s) n)" for n
    by (cases "topic_of (sy_ps s) n") (simp_all add: subs_of_def topic_of_close_subscriptions)
  then have sub: "sub_of ?ps' n sid = map_option (\<lambda>sb. sb\<lparr>sb_closed := True\<rparr>) (sub_of (sy_ps s) n sid)" for n sid
    by (simp add: sub_of_def map_of_map)
  show ?thesis
  proof (rule subs_invI)
    fix n sid sb
    have "map fst (subs_of ?ps' n) = map fst (subs_of (sy_ps s) n)" by (simp add: subs case_prod_beta comp_def)
    then show "distinct (map fst (subs_of (sy_ps s') n))" using subs_invD(1) [OF inv] by (simp add: close_subs(1))
    show "sub_of (sy_ps s') n sid = None \<Longrightarrow> filter (dv_of n sid) (sy_dels s') = []"
      using subs_invD(2) [OF inv, of n sid] by (simp add: close_subs(1) sub)
    assume "sub_of (sy_ps s') n sid = Some sb"
    then obtain sb0 where "sub_of (sy_ps s) n sid = Some sb0" "sb = sb0\<lparr>sb_closed := True\<rparr>"
      by (auto simp: close_subs(1) sub)
    with closed_sub_ok [OF subs_invD(3) [OF inv]] show "sub_ok s' n sid sb"
      by (subst sub_ok_cong [of s' s]) (auto simp: close_subs(1))
  qed
qed (intro subs_inv_kept [OF inv]; simp)+

lemma reach_subs_inv: "ps_reach s \<Longrightarrow> subs_inv s"
proof (induction rule: ps_reach.induct)
  case (init counter config ps now)
  have "topic_of ps n = None" for n by (rule NewPubSub_cases [OF init])
  then have "subs_of ps n = []" for n by (simp add: subs_of_def)
  then show ?case by (intro subs_invI) (simp_all add: ps_start_def sub_of_def)
next
  case (step s s')
  then show ?case using ps_step_subs_inv reach_calls_inv by blast
qed

end
