(* ===== verification/PubSubDemo.thy ===== *)
theory PubSubDemo
  imports PubSubSubs
begin

text \<open>
  One run of the publish/subscribe system, step by step: a topic is created and subscribed to, one
  message is published, taken and delivered. The theorems about reachable states are applied to it.
\<close>

definition ascii_only :: "nat \<Rightarrow> bool" where "ascii_only c \<longleftrightarrow> False"

definition demo_handler :: MessageHandlerPubSub where
  "demo_handler t c m = Some (t, Returns None)"

definition no_filter :: MessageFilter where
  "no_filter = \<lparr>fl_Headers = None, fl_Priority = 0, fl_MaxRetryCount = 0, fl_RegexPatterns = None\<rparr>"

definition demo_config :: ConfigPubSub where
  "demo_config = DefaultConfigPubSub None"

definition demo_ps ::
    "(string \<times> TopicPubSub) list \<Rightarrow> unit list \<Rightarrow> PublisherMetrics \<Rightarrow> PubSubMetricsPubSub \<Rightarrow> counter \<Rightarrow> PubSub" where
  "demo_ps tps sl um pm k =
     \<lparr>ps_publisher = \<lparr>pu_topics = tps, pu_maxRetries = 3, pu_retryDelay = 100000000, pu_metrics = um,
        pu_circuitBreaker = NewCircuitBreakerPubSub 5 (60000000000),
        pu_workerPool = \<lparr>ch_buf = sl, ch_cap = 1000, ch_closed = False\<rparr>\<rparr>,
      ps_config = demo_config, ps_closed = False, ps_metrics = pm, ps_ctx = Background, ps_counter = k\<rparr>"

definition demo_tp :: "SubscriptionPubSub list \<Rightarrow> MessagePubSub list \<Rightarrow> counter \<Rightarrow> counter \<Rightarrow> TopicPubSub" where
  "demo_tp sbs q sq n =
     \<lparr>tp_Name = ''t'', tp_Subscribers = map (\<lambda>sb. (''s'', sb)) sbs,
      tp_MessageQueue = \<lparr>ch_buf = q, ch_cap = 10000, ch_closed = False\<rparr>, tp_closed = False,
      tp_metrics = \<lparr>tm_MessagesPublished = n, tm_MessagesDelivered = 0, tm_SubscriberCount = of_nat (length sbs),
        tm_QueueSize = 0, tm_QueueFullCount = 0\<rparr>,
      tp_sequence = sq\<rparr>"

definition demo_sb :: SubscriptionPubSub where
  "demo_sb = NewSubscription ''t'' ''s'' demo_handler no_filter demo_config"

definition demo_message :: MessagePubSub where
  "demo_message = \<lparr>mg_ID = generateMessageID 0 1, mg_Topic = ''t'', mg_Data = [1], mg_Headers = None, mg_Timestamp = 0,
     mg_RetryCount = 0, mg_Priority = 0, mg_TTL = 86400000000000, mg_Correlation = [], mg_TraceID = [], mg_Sequence = 1\<rparr>"

definition demo_call :: "pub_pc \<Rightarrow> pub_call" where
  "demo_call pc = \<lparr>pc_topic = ''t'', pc_ctx = WithTimeout 0 (30000000000) Background, pc_start = 0, pc_batch = False,
     pc_todo = [([1], None)], pc_at = pc\<rparr>"

definition demo_sys :: "PubSub \<Rightarrow> pub_call list \<Rightarrow> delivery list \<Rightarrow> ps_sys" where
  "demo_sys ps calls dels =
     \<lparr>sy_ps = ps, sy_now = 0, sy_calls = calls, sy_procs = (\<lambda>_. PrIdle), sy_dels = dels, sy_closing = None,
      sy_sent = (\<lambda>_. []), sy_taken = (\<lambda>_. []), sy_made = (\<lambda>_. 0), sy_since = (\<lambda>_. 0)\<rparr>"

lemmas demo_defs = demo_ps_def demo_tp_def demo_sb_def demo_call_def demo_sys_def demo_message_def
  NewCircuitBreakerPubSub_def upd_pm_def upd_um_def upd_publisher_def upd_topic_def topic_of_def Let_def

definition zum1 :: PublisherMetrics where "zum1 = zero_PublisherMetrics\<lparr>um_TopicsCreated := 1\<rparr>"
definition zpm1 :: PubSubMetricsPubSub where "zpm1 = zero_PubSubMetrics\<lparr>pm_TotalTopics := 1\<rparr>"
definition zpm2 :: PubSubMetricsPubSub where "zpm2 = zpm1\<lparr>pm_TotalSubscriptions := 1\<rparr>"

lemma run_new: "NewPubSub 0 (Some demo_config) = Inr (demo_ps [] [] zero_PublisherMetrics zero_PubSubMetrics 0)"
proof -
  have "validateConfigPubSub (Some demo_config) = None" "applyDefaultsPubSub demo_config = demo_config"
    by (simp_all add: demo_config_def validateConfigPubSub_def DefaultConfigPubSub_def pubsub_limits
        applyDefaultsPubSub_def Let_def)
  then show ?thesis
    by (simp add: NewPubSub_def demo_ps_def Let_def make_chan_def demo_config_def DefaultConfigPubSub_def pubsub_limits)
qed

lemma run_create:
  "PubSub_CreateTopic ascii_only 0 Background ''t'' (demo_ps [] [] zero_PublisherMetrics zero_PubSubMetrics 0)
     = (None, demo_ps [(''t'', demo_tp [] [] 0 0)] [] zum1 zpm1 0)"
  by (simp add: PubSub_CreateTopic_def demo_defs zum1_def zpm1_def NewTopic_def make_chan_def demo_config_def
      DefaultConfigPubSub_def pubsub_limits validateTopicName_def runes_def name_char_def alnum_def
      zero_PublisherMetrics_def zero_PubSubMetrics_def)

lemma run_subscribe:
  "PubSub_Subscribe ascii_only 0 Background ''t'' ''s'' (Some demo_handler) (Some f)
       (demo_ps [(''t'', demo_tp [] [] 0 0)] [] zum1 zpm1 0)
     = (Returns (Inr (NewSubscription ''t'' ''s'' demo_handler f demo_config)),
        demo_ps [(''t'', demo_tp [NewSubscription ''t'' ''s'' demo_handler f demo_config] [] 0 0)] [] zum1 zpm2 0)"
  by (simp add: PubSub_Subscribe_def demo_defs zpm2_def zpm1_def pubsub_limits validateSubscriptionID_def runes_def
      name_char_def alnum_def zero_PubSubMetrics_def)

text \<open>The call: its slot, its message, its send.\<close>

abbreviation demo_ctx :: ctx where "demo_ctx \<equiv> WithTimeout 0 (30000000000) Background"

lemma demo_ctx_live: "ctx_err 0 demo_ctx = None"
  by (simp add: ctx_err_def WithTimeout_def Background_def passed_def)

definition um_sent :: PublisherMetrics where "um_sent = zum1\<lparr>um_MessagesPublished := 1\<rparr>"
definition pm_sent :: PubSubMetricsPubSub where "pm_sent = zpm2\<lparr>pm_TotalMessages := 1\<rparr>"

lemma run_publish: "publish_check ascii_only 0 Background [1] None (demo_ps tps [] um pm k) = None"
  by (simp add: publish_check_def demo_ps_def validateMessage_def validateHeaders_def pubsub_limits)

lemma run_enter: "pb_enter 0 (ps_breaker (demo_ps tps sl um pm k)) = (True, NewCircuitBreakerPubSub 5 (60000000000))"
  by (simp add: demo_ps_def pb_enter_def CircuitBreakerPubSub_getState_def NewCircuitBreakerPubSub_def)

lemma run_entered: "upd_pcb (\<lambda>_. NewCircuitBreakerPubSub 5 (60000000000)) (demo_ps tps sl um pm k) = demo_ps tps sl um pm k"
  by (simp add: demo_ps_def upd_pcb_def upd_publisher_def)

lemma run_slot: "take_slot False 0 demo_ctx (demo_ps tps [] um pm k) = Inr (demo_ps tps [()] um pm k)"
  by (simp add: take_slot_def demo_ps_def select_send_def chan_send_def upd_publisher_def)

lemma run_make:
  "publish_prepare 0 demo_ctx ''t'' [1] None (demo_ps [(''t'', demo_tp [demo_sb] [] 0 0)] [()] um pm 0)
     = (Inr demo_message, 0, demo_ps [(''t'', demo_tp [demo_sb] [] 1 0)] [()] um pm 1)"
  by (simp add: publish_prepare_def demo_defs demo_config_def DefaultConfigPubSub_def pubsub_limits)

lemma run_send:
  "publish_send False 0 demo_ctx demo_message (demo_ps [(''t'', demo_tp [demo_sb] [] 1 0)] [()] zum1 zpm2 1)
     = (Returns None, demo_ps [(''t'', demo_tp [demo_sb] [demo_message] 1 1)] [()] um_sent pm_sent 1)"
  by (simp add: publish_send_def demo_defs queue_of_def select_send_def chan_send_def um_sent_def pm_sent_def zum1_def
      zpm2_def zpm1_def zero_PublisherMetrics_def zero_PubSubMetrics_def)

lemma run_sent: "give_slot (demo_ps tps [()] um pm k) = demo_ps tps [] um pm k"
  by (simp add: give_slot_def demo_ps_def upd_publisher_def chan_recv_def)

text \<open>The states.\<close>

definition demo_top :: "SubscriptionPubSub list \<Rightarrow> MessagePubSub list \<Rightarrow> counter \<Rightarrow> counter \<Rightarrow> (string \<times> TopicPubSub) list" where
  "demo_top sbs q sq n = [(''t'', demo_tp sbs q sq n)]"

definition at_start :: ps_sys where
  "at_start = demo_sys (demo_ps [] [] zero_PublisherMetrics zero_PubSubMetrics 0) [] []"

definition subscribed_to :: "MessageFilter \<Rightarrow> ps_sys" where
  "subscribed_to f =
     demo_sys (demo_ps (demo_top [NewSubscription ''t'' ''s'' demo_handler f demo_config] [] 0 0) [] zum1 zpm2 0) [] []"

definition subscribed :: ps_sys where
  "subscribed = demo_sys (demo_ps (demo_top [demo_sb] [] 0 0) [] zum1 zpm2 0) [] []"

definition calling :: "pub_pc \<Rightarrow> unit list \<Rightarrow> ps_sys" where
  "calling pc sl = demo_sys (demo_ps (demo_top [demo_sb] [] 0 0) sl zum1 zpm2 0) [demo_call pc] []"

definition making :: ps_sys where
  "making = (demo_sys (demo_ps (demo_top [demo_sb] [] 1 0) [()] zum1 zpm2 1) [demo_call (PbSend 0 0 demo_message)] [])
     \<lparr>sy_made := (\<lambda>_. 0)(''t'' := 1)\<rparr>"

definition call_over :: pub_call where
  "call_over = (demo_call (PbLeave None))\<lparr>pc_todo := []\<rparr>"

definition sent_one :: ps_sys where
  "sent_one = (demo_sys (demo_ps (demo_top [demo_sb] [demo_message] 1 1) [] um_sent pm_sent 1) [call_over] [])
     \<lparr>sy_made := (\<lambda>_. 0)(''t'' := 1), sy_sent := (\<lambda>_. [])(''t'' := [demo_message])\<rparr>"

lemma at_start_reach: "ps_reach at_start"
  using ps_reach.init [OF run_new, of 0] by (simp add: at_start_def demo_sys_def ps_start_def)

lemma subscribed_to_reach: "ps_reach (subscribed_to f)"
proof -
  have c: "ps_step at_start (at_start\<lparr>sy_ps := demo_ps (demo_top [] [] 0 0) [] zum1 zpm1 0\<rparr>)"
    by (rule ps_step.create [where uni = ascii_only and c = Background and name = "''t''"])
      (simp add: at_start_def demo_sys_def run_create demo_top_def)
  let ?s = "at_start\<lparr>sy_ps := demo_ps (demo_top [] [] 0 0) [] zum1 zpm1 0\<rparr>"
  let ?sb = "NewSubscription ''t'' ''s'' demo_handler f demo_config"
  have "PubSub_Subscribe ascii_only (sy_now ?s) Background ''t'' ''s'' (Some demo_handler) (Some f) (sy_ps ?s)
      = (Returns (Inr ?sb), demo_ps (demo_top [?sb] [] 0 0) [] zum1 zpm2 0)"
    by (simp add: at_start_def demo_sys_def run_subscribe demo_top_def)
  from ps_step.subscribe [OF this] have "ps_step ?s (subscribed_to f)"
    by (simp add: at_start_def subscribed_to_def demo_sys_def fun_upd_idem)
  with c at_start_reach show ?thesis by (blast intro: ps_reach.step)
qed

lemma subscribed_reach: "ps_reach subscribed"
  using subscribed_to_reach [of no_filter] by (simp add: subscribed_to_def subscribed_def demo_sb_def)

text \<open>A step of the only call.\<close>

lemma one_call:
  assumes "ps_reach s" "sy_calls s = [call]" "pb_step (sy_now s) (call, sy_ps s) l (call', ps')"
  shows "ps_reach (do_call 0 call' l ps' s)"
proof (rule ps_reach.step [OF assms(1) ps_step.call])
  show "0 < length (sy_calls s)" "pb_step (sy_now s) (sy_calls s ! 0, sy_ps s) l (call', ps')"
    using assms by simp_all
qed

lemma calling_reach: "ps_reach (calling PbEnter [])"
proof -
  have "publish_check ascii_only (sy_now subscribed) Background [1] None (sy_ps subscribed) = None"
    by (simp add: subscribed_def demo_sys_def run_publish)
  from ps_step.publish [OF this, of "''t''"] have "ps_step subscribed (calling PbEnter [])"
    by (simp add: subscribed_def calling_def demo_sys_def add_call_def publish_call_def demo_call_def demo_ps_def
        demo_config_def DefaultConfigPubSub_def pubsub_limits)
  with subscribed_reach show ?thesis by (blast intro: ps_reach.step)
qed

lemma calling_simps [simp]:
  "sy_calls (calling pc sl) = [demo_call pc]" "sy_now (calling pc sl) = 0"
  "sy_ps (calling pc sl) = demo_ps (demo_top [demo_sb] [] 0 0) sl zum1 zpm2 0"
  "pc_at (demo_call pc) = pc" "pc_ctx (demo_call pc) = demo_ctx" "pc_todo (demo_call pc) = [([1], None)]"
  "pc_topic (demo_call pc) = ''t''" "pc_batch (demo_call pc) = False" "(demo_call pc)\<lparr>pc_at := pc'\<rparr> = demo_call pc'"
  by (simp_all add: calling_def demo_sys_def demo_call_def)

lemma made_now_other [simp]:
  "\<not> made_now (demo_call PbEnter) c" "\<not> made_now (demo_call (PbTop a)) c" "\<not> made_now (demo_call (PbSend a t m)) c"
  "made_now (demo_call (PbMake a)) (demo_call (PbSend a t m))"
  by (simp_all add: made_now_def)

lemma call_to_calling:
  "\<not> made_now (demo_call pc) (demo_call pc')
     \<Longrightarrow> do_call 0 (demo_call pc') None (demo_ps (demo_top [demo_sb] [] 0 0) sl' zum1 zpm2 0) (calling pc sl) = calling pc' sl'"
  by (simp add: do_call_def Let_def calling_def demo_sys_def fun_upd_idem)

lemma call_enter:
  "pb_step 0 (demo_call PbEnter, demo_ps tps sl um pm k) None (demo_call (PbTop 0), demo_ps tps sl um pm k)"
  using pb_step.enter [of "demo_call PbEnter", OF _ run_enter] by (simp add: run_entered)

lemma call_slot:
  "pb_step 0 (demo_call (PbTop 0), demo_ps tps [] um pm k) None (demo_call (PbMake 0), demo_ps tps [()] um pm k)"
  using pb_step.slot [of "demo_call (PbTop 0)" 0 0 False] by (simp add: run_slot demo_ctx_live)

lemma call_make:
  "pb_step 0 (demo_call (PbMake 0), demo_ps (demo_top [demo_sb] [] 0 0) [()] um pm 0) None
     (demo_call (PbSend 0 0 demo_message), demo_ps (demo_top [demo_sb] [] 1 0) [()] um pm 1)"
  using pb_step.make [of "demo_call (PbMake 0)" 0 "[1]" None "[]" 0, simplified, OF run_make] by (simp add: demo_top_def)

lemma call_send:
  "pb_step 0 (demo_call (PbSend 0 0 demo_message), demo_ps (demo_top [demo_sb] [] 1 0) [()] zum1 zpm2 1) (Some demo_message)
     (call_over, demo_ps (demo_top [demo_sb] [demo_message] 1 1) [] um_sent pm_sent 1)"
  using pb_step.send [of "demo_call (PbSend 0 0 demo_message)" 0 0 demo_message 0 False, simplified, OF run_send]
  by (simp add: demo_top_def run_sent message_sent_def call_over_def) (simp add: demo_call_def)

lemma making_reach: "ps_reach making"
proof -
  have 1: "ps_reach (calling (PbTop 0) [])"
    using one_call [OF calling_reach calling_simps(1)] call_enter by (fastforce simp: call_to_calling)
  have 2: "ps_reach (calling (PbMake 0) [()])"
    using one_call [OF 1 calling_simps(1)] call_slot by (fastforce simp: call_to_calling)
  show ?thesis
    using one_call [OF 2 calling_simps(1), unfolded calling_simps, OF call_make]
    by (simp add: do_call_def calling_def making_def demo_sys_def fun_upd_idem)
qed

lemma making_fields:
  "sy_calls making = [demo_call (PbSend 0 0 demo_message)]" "sy_now making = 0"
  "sy_ps making = demo_ps (demo_top [demo_sb] [] 1 0) [()] zum1 zpm2 1" "sy_closing making = None"
  by (simp_all add: making_def demo_sys_def)

lemma sent_one_reach: "ps_reach sent_one"
  using one_call [OF making_reach making_fields(1), unfolded making_fields, OF call_send]
  by (simp add: do_call_def making_def sent_one_def demo_sys_def fun_upd_idem)


text \<open>The delivery.\<close>

definition demo_sub :: "unit list \<Rightarrow> counter \<Rightarrow> counter \<Rightarrow> SubscriptionPubSub" where
  "demo_sub sl r p = demo_sb\<lparr>sb_workerPool := \<lparr>ch_buf = sl, ch_cap = 10, ch_closed = False\<rparr>,
     sb_metrics := zero_SubscriptionMetrics\<lparr>sm_MessagesReceived := r, sm_MessagesProcessed := p\<rparr>\<rparr>"

definition demo_del :: "del_pc \<Rightarrow> delivery" where
  "demo_del pc = \<lparr>dv_topic = ''t'', dv_sid = ''s'', dv_msg = demo_message, dv_cur = demo_message, dv_begin = 0,
     dv_slot = (pc \<noteq> DvSpawned), dv_at = pc\<rparr>"

definition delivering :: "del_pc \<Rightarrow> SubscriptionPubSub \<Rightarrow> ps_sys" where
  "delivering pc sb = (demo_sys (demo_ps (demo_top [sb] [] 1 1) [] um_sent pm_sent 1) [call_over] [demo_del pc])
     \<lparr>sy_made := (\<lambda>_. 0)(''t'' := 1), sy_sent := (\<lambda>_. [])(''t'' := [demo_message]),
      sy_taken := (\<lambda>_. [])(''t'' := [demo_message]), sy_procs := (\<lambda>_. PrIdle)(''t'' := PrDelivering 30000000000 0 1)\<rparr>"

lemma demo_matches: "SubscriptionPubSub_matchesFilter demo_sb m"
  by (simp add: SubscriptionPubSub_matchesFilter_def demo_sb_def NewSubscription_def no_filter_def)

lemma demo_sb_sub: "demo_sb = demo_sub [] 0 0"
  by (simp add: demo_sub_def demo_sb_def NewSubscription_def make_chan_def zero_SubscriptionMetrics_def)

lemma taken_reach: "ps_reach (delivering DvSpawned demo_sb)"
proof -
  let ?tp = "demo_tp [demo_sb] [demo_message] 1 1" and ?q = "\<lparr>ch_buf = [], ch_cap = 10000, ch_closed = False\<rparr>"
  have t: "topic_of (sy_ps sent_one) ''t'' = Some ?tp"
    by (simp add: topic_of_def sent_one_def demo_sys_def demo_ps_def demo_top_def)
  have q: "chan_recv (tp_MessageQueue ?tp) = Received demo_message ?q" by (simp add: demo_tp_def chan_recv_def)
  have rs: "receivers demo_message (subs_of (sy_ps sent_one) ''t'') = [''s'']"
    by (simp add: subs_of_def t receivers_def demo_tp_def demo_matches) (simp add: demo_sb_def NewSubscription_def)
  have "sy_procs sent_one ''t'' = PrIdle" by (simp add: sent_one_def demo_sys_def)
  note take = ps_step.take [OF t this q]
  have "do_take ''t'' demo_message ?q sent_one = delivering DvSpawned demo_sb"
    unfolding do_take_def Let_def rs
    by (simp add: sent_one_def delivering_def demo_sys_def demo_ps_def demo_top_def upd_topic_def upd_publisher_def
        spawn_def demo_del_def) (simp add: demo_tp_def demo_config_def DefaultConfigPubSub_def pubsub_limits)
  with take sent_one_reach show ?thesis using ps_reach.step by fastforce
qed

lemma one_delivery:
  assumes "ps_reach (delivering pc sb)" "dv_step 0 demo_config Background (demo_del pc, sb) False (demo_del pc', sb')"
  shows "ps_reach (delivering pc' sb')"
proof -
  have "do_deliver 0 (demo_del pc') False sb' (delivering pc sb) = delivering pc' sb'"
    by (simp add: do_deliver_def delivering_def demo_sys_def demo_top_def demo_ps_def count_error_def set_sub_def
        upd_subs_def upd_topic_def upd_publisher_def upd_pm_def demo_del_def) (simp add: demo_tp_def)
  moreover have "sub_of (sy_ps (delivering pc sb)) ''t'' ''s'' = Some sb"
    by (simp add: sub_of_def subs_of_def topic_of_def delivering_def demo_sys_def demo_ps_def demo_top_def demo_tp_def)
  moreover have "sy_dels (delivering pc sb) = [demo_del pc]" "dv_topic (demo_del pc) = ''t''" "dv_sid (demo_del pc) = ''s''"
    "sy_now (delivering pc sb) = 0" "ps_config (sy_ps (delivering pc sb)) = demo_config"
    "ps_ctx (sy_ps (delivering pc sb)) = Background"
    by (simp_all add: delivering_def demo_sys_def demo_ps_def demo_del_def)
  ultimately show ?thesis
    using assms ps_step.deliver [of 0 "delivering pc sb" sb False "demo_del pc'" sb'] by (auto intro: ps_reach.step)
qed

text \<open>The handler sees the message and reports success at once.\<close>

definition delivered_one :: ps_sys where
  "delivered_one = delivering DvEnding (demo_sub [()] 1 1)"

lemma delivered_one_reach: "ps_reach delivered_one"
proof -
  let ?hc = "WithTimeout 0 30000000000 Background"
  have [simp]: "dv_at (demo_del pc) = pc" for pc by (simp add: demo_del_def)
  have 1: "ps_reach (delivering DvEnter (demo_sub [()] 1 0))"
  proof (rule one_delivery [OF taken_reach])
    have "deliver_begin False 0 Background demo_sb = Some (True, demo_sub [()] 1 0)"
      unfolding demo_sb_sub
      by (simp add: deliver_begin_def Let_def demo_sub_def select_send_def chan_send_def upd_sm_def zero_SubscriptionMetrics_def)
    from dv_step.begin_it [of "demo_del DvSpawned", OF _ this]
    show "dv_step 0 demo_config Background (demo_del DvSpawned, demo_sb) False (demo_del DvEnter, demo_sub [()] 1 0)"
      by (simp add: demo_del_def)
  qed
  have 2: "ps_reach (delivering (DvTop True 0 []) (demo_sub [()] 1 0))"
  proof (rule one_delivery [OF 1])
    have "pb_enter 0 (sb_CircuitBreaker (demo_sub [()] 1 0)) = (True, sb_CircuitBreaker (demo_sub [()] 1 0))"
      by (simp add: pb_enter_def demo_sub_def demo_sb_def NewSubscription_def NewCircuitBreakerPubSub_def
          CircuitBreakerPubSub_getState_def)
    from dv_step.enter [of "demo_del DvEnter", OF _ this]
    show "dv_step 0 demo_config Background (demo_del DvEnter, demo_sub [()] 1 0) False
        (demo_del (DvTop True 0 []), demo_sub [()] 1 0)"
      by (simp add: demo_del_def upd_scb_def)
  qed
  have 3: "ps_reach (delivering (DvHandling True 0 ?hc (Some (0, Returns None))) (demo_sub [()] 1 0))"
  proof (rule one_delivery [OF 2])
    have r: "0 \<le> sb_MaxRetries (demo_sub [()] 1 0)" "sb_Handler (demo_sub [()] 1 0) = demo_handler"
      and t: "cp_OperationTimeout demo_config = 30000000000"
      by (simp_all add: demo_sub_def demo_sb_def NewSubscription_def demo_config_def DefaultConfigPubSub_def pubsub_limits)
    have e: "(demo_del (DvTop True 0 []))\<lparr>dv_cur := (dv_cur (demo_del (DvTop True 0 [])))\<lparr>mg_RetryCount := 0\<rparr>,
        dv_at := DvHandling True 0 ?hc (Some (0, Returns None))\<rparr> = demo_del (DvHandling True 0 ?hc (Some (0, Returns None)))"
      by (simp add: demo_del_def demo_message_def)
    show "dv_step 0 demo_config Background (demo_del (DvTop True 0 []), demo_sub [()] 1 0) False
        (demo_del (DvHandling True 0 ?hc (Some (0, Returns None))), demo_sub [()] 1 0)"
      using dv_step.call [OF _ _ _ refl refl, of "demo_del (DvTop True 0 [])" True 0 "[]" "demo_sub [()] 1 0" 0 Background demo_config]
      by (simp add: r t e demo_handler_def)
  qed
  have 4: "ps_reach (delivering (DvOver True None) (demo_sub [()] 1 0))"
    by (rule one_delivery [OF 3])
      (use dv_step.handled [of "demo_del (DvHandling True 0 ?hc (Some (0, Returns None)))"] in
        \<open>simp add: after_handler_def handler_error_def demo_del_def\<close>)
  have 5: "ps_reach (delivering (DvCount None) (demo_sub [()] 1 0))"
  proof (rule one_delivery [OF 4])
    have "upd_scb (pb_leave 0 None) (demo_sub [()] 1 0) = demo_sub [()] 1 0"
      by (simp add: upd_scb_def pb_leave_def CircuitBreakerPubSub_recordSuccess_def CircuitBreakerPubSub_setState_def
          demo_sub_def demo_sb_def NewSubscription_def NewCircuitBreakerPubSub_def)
    then show "dv_step 0 demo_config Background (demo_del (DvOver True None), demo_sub [()] 1 0) False
        (demo_del (DvCount None), demo_sub [()] 1 0)"
      using dv_step.over_guarded [of "demo_del (DvOver True None)" None 0 demo_config Background "demo_sub [()] 1 0"]
      by (simp add: demo_del_def)
  qed
  show ?thesis
    unfolding delivered_one_def
  proof (rule one_delivery [OF 5])
    show "dv_step 0 demo_config Background (demo_del (DvCount None), demo_sub [()] 1 0) False
        (demo_del DvEnding, demo_sub [()] 1 1)"
      using dv_step.count [of "demo_del (DvCount None)" None demo_config 0 Background "demo_sub [()] 1 0"]
      by (simp add: demo_del_def dlq_call_def deliver_count_def upd_sm_def demo_sub_def)
  qed
qed

lemma delivered_one_topic: "topic_of (sy_ps delivered_one) ''t'' = Some (demo_tp [demo_sub [()] 1 1] [] 1 1)"
  by (simp add: topic_of_def delivered_one_def delivering_def demo_sys_def demo_ps_def demo_top_def)

lemma delivered_one_sub: "sub_of (sy_ps delivered_one) ''t'' ''s'' = Some (demo_sub [()] 1 1)"
  by (simp add: sub_of_def subs_of_def delivered_one_topic) (simp add: demo_tp_def)

lemma delivered_one_fields:
  "sy_taken delivered_one ''t'' = [demo_message]" "sy_sent delivered_one ''t'' = [demo_message]"
  "sy_made delivered_one ''t'' = 1" "sy_since delivered_one = (\<lambda>_. 0)" "sy_dels delivered_one = [demo_del DvEnding]"
  by (simp_all add: delivered_one_def delivering_def demo_sys_def)

lemma demo_sub_open: "\<not> sb_closed (demo_sub sl r p)"
  by (simp add: demo_sub_def demo_sb_def NewSubscription_def)

end
