(* ===== verification/PubSubBreaker.thy ===== *)
theory PubSubBreaker
  imports PubSubDelivery BreakerContract
begin

text \<open>
  The circuit breaker inside \<open>src/pubsub.go\<close> fulfils the contract of \<open>BreakerContract\<close>, and what that
  means for the calls of \<open>Publish\<close>.
\<close>

declare not_None_eq [simp del]

section \<open>The contract\<close>

definition pb_attempt :: "instant \<Rightarrow> instant \<Rightarrow> bool \<Rightarrow> CircuitBreakerPubSub \<Rightarrow> bool \<times> CircuitBreakerPubSub" where
  "pb_attempt t t' b cb =
     (let (allowed, cb1) = pb_enter t cb
      in (allowed, if allowed then pb_leave t' (if b then None else Some breaker_open) cb1 else cb1))"

definition pb_tripped :: "CircuitBreakerPubSub \<Rightarrow> bool" where "pb_tripped cb \<longleftrightarrow> pb_state cb = 1"

definition pb_healed :: "CircuitBreakerPubSub \<Rightarrow> bool" where "pb_healed cb \<longleftrightarrow> pb_state cb = 0"

text \<open>The first instant at which a call is let through.\<close>

definition pb_release :: "CircuitBreakerPubSub \<Rightarrow> instant" where
  "pb_release cb = (case pb_lastFailure cb of None \<Rightarrow> 0 | Some t \<Rightarrow> t + pb_timeout cb + 1)"

definition pb_budget :: "CircuitBreakerPubSub \<Rightarrow> nat" where
  "pb_budget cb = (if pb_state cb = 0 then nat (pb_threshold cb - sint (pb_failureCount cb)) else 1)"

definition pb_needed :: "CircuitBreakerPubSub \<Rightarrow> nat" where "pb_needed cb = 1"

definition pb_fit :: "nat \<Rightarrow> CircuitBreakerPubSub \<Rightarrow> bool" where
  "pb_fit n cb \<longleftrightarrow>
     0 < pb_threshold cb \<and> 0 \<le> sint (pb_failureCount cb) \<and> sint (pb_failureCount cb) + int n < 2 ^ 62
     \<and> pb_timeout cb < max_int64 \<and> min_int64 \<le> pb_timeout cb
     \<and> (pb_state cb = 0 \<and> sint (pb_failureCount cb) < pb_threshold cb
        \<or> (pb_state cb = 1 \<or> pb_state cb = 2) \<and> pb_threshold cb \<le> sint (pb_failureCount cb) \<and> pb_lastFailure cb \<noteq> None)"

lemma sint_0_counter [simp]: "sint (0 :: counter) = 0"
  by simp

lemmas pb_defs = pb_attempt_def pb_enter_def pb_leave_def CircuitBreakerPubSub_getState_def
  CircuitBreakerPubSub_setState_def CircuitBreakerPubSub_recordFailure_def CircuitBreakerPubSub_recordSuccess_def
  pb_tripped_def pb_healed_def pb_budget_def pb_needed_def

lemma reset_iff:
  "pb_fit n cb \<Longrightarrow> pb_lastFailure cb = Some t0 \<Longrightarrow>
     CircuitBreakerPubSub_shouldAttemptReset t cb \<longleftrightarrow> pb_release cb \<le> t"
  using sat64_gt_iff [of "pb_timeout cb" "t - t0"]
  by (auto simp: CircuitBreakerPubSub_shouldAttemptReset_def pb_release_def pb_fit_def time_sub_def)

text \<open>The three ways a call can go.\<close>

lemma pb_attempt_refused:
  assumes "pb_fit n cb" "pb_tripped cb" "t < pb_release cb"
  shows "pb_attempt t t' b cb = (False, cb)"
proof -
  obtain t0 where "pb_lastFailure cb = Some t0" using assms by (auto simp: pb_fit_def pb_tripped_def not_None_eq)
  with assms show ?thesis by (simp add: pb_defs reset_iff)
qed

lemma pb_enter_runs:
  assumes "pb_fit n cb" "\<not> pb_tripped cb \<or> pb_release cb \<le> t"
  shows "pb_enter t cb = (True, if pb_tripped cb then cb\<lparr>pb_state := 2\<rparr> else cb)"
proof (cases "pb_tripped cb")
  case True
  then obtain t0 where "pb_lastFailure cb = Some t0" using assms by (auto simp: pb_fit_def pb_tripped_def not_None_eq)
  with True assms show ?thesis by (simp add: pb_defs reset_iff)
qed (simp add: pb_defs)

lemma pb_attempt_success:
  assumes "pb_fit n cb" "\<not> pb_tripped cb \<or> pb_release cb \<le> t"
  shows "pb_attempt t t' True cb = (True, cb\<lparr>pb_failureCount := 0, pb_state := 0\<rparr>)"
  by (simp add: pb_attempt_def pb_enter_runs [OF assms])
    (simp add: pb_leave_def CircuitBreakerPubSub_recordSuccess_def CircuitBreakerPubSub_setState_def)

lemma pb_attempt_failure:
  assumes "pb_fit n cb" "\<not> pb_tripped cb \<or> pb_release cb \<le> t"
  shows "pb_attempt t t' False cb = (True,
    cb\<lparr>pb_failureCount := pb_failureCount cb + 1, pb_lastFailure := Some t',
       pb_state := (if pb_threshold cb \<le> sint (pb_failureCount cb) + 1 then 1 else pb_state cb)\<rparr>)"
proof -
  have inc: "sint (pb_failureCount cb + 1) = sint (pb_failureCount cb) + 1"
    using assms(1) by (intro sint_inc) (simp_all add: pb_fit_def)
  have "pb_threshold cb \<le> sint (pb_failureCount cb) + 1" if "pb_tripped cb"
    using assms(1) that by (auto simp: pb_fit_def pb_tripped_def)
  then show ?thesis
    by (cases "pb_tripped cb"; simp add: pb_attempt_def pb_enter_runs [OF assms])
      (simp_all add: pb_leave_def CircuitBreakerPubSub_recordFailure_def CircuitBreakerPubSub_setState_def Let_def inc)
qed

lemma pb_attempt_window: "pb_timeout (snd (pb_attempt t t' b cb)) = pb_timeout cb"
  by (simp add: pb_defs Let_def)

lemma pb_fit_attempt:
  assumes "pb_fit (Suc n) cb" "0 < t'"
  shows "pb_fit n (snd (pb_attempt t t' b cb))"
proof (cases "pb_tripped cb \<and> t < pb_release cb")
  case True
  with assms show ?thesis by (simp add: pb_attempt_refused) (simp add: pb_fit_def)
next
  case False
  then have r: "\<not> pb_tripped cb \<or> pb_release cb \<le> t" by auto
  show ?thesis
  proof (cases b)
    case True
    with assms show ?thesis by (simp add: pb_attempt_success [OF assms(1) r]) (simp add: pb_fit_def)
  next
    case False
    have inc: "sint (pb_failureCount cb + 1) = sint (pb_failureCount cb) + 1"
      using assms(1) by (intro sint_inc) (simp_all add: pb_fit_def)
    from False assms(1) show ?thesis
      by (simp add: pb_attempt_failure [OF assms(1) r]) (auto simp: pb_fit_def inc)
  qed
qed

interpretation pbk: breaker pb_fit pb_attempt pb_tripped pb_healed pb_release pb_timeout pb_budget pb_needed
proof unfold_locales
  fix n :: nat and s t t' b
  assume fit: "pb_fit (Suc n) s"
  show "pb_fit n (snd (pb_attempt t t' b s))" if "0 < t'" using fit that by (rule pb_fit_attempt)
  show "\<not> fst (pb_attempt t t' b s) \<and> pb_tripped (snd (pb_attempt t t' b s))
      \<and> pb_release (snd (pb_attempt t t' b s)) = pb_release s" if "pb_tripped s" "t < pb_release s"
    using pb_attempt_refused [OF fit that] that by simp
  show "fst (pb_attempt t t' b s)" if "\<not> pb_tripped s \<or> pb_release s \<le> t"
    using pb_enter_runs [OF fit that] by (simp add: pb_attempt_def)
  show "\<not> pb_tripped (snd (pb_attempt t t' True s))
      \<and> (if pb_needed s = 1 then pb_healed (snd (pb_attempt t t' True s))
         else Suc (pb_needed (snd (pb_attempt t t' True s))) = pb_needed s)" if "\<not> pb_tripped s \<or> pb_release s \<le> t"
    using pb_attempt_success [OF fit that] by (simp add: pb_tripped_def pb_healed_def pb_needed_def)
  show "pb_healed (snd (pb_attempt t t' True s))" if "pb_healed s"
  proof -
    have "\<not> pb_tripped s \<or> pb_release s \<le> t" using that by (simp add: pb_tripped_def pb_healed_def)
    from pb_attempt_success [OF fit this] show ?thesis by (simp add: pb_healed_def)
  qed
  assume nt: "\<not> pb_tripped s"
  then have fl: "pb_attempt t t' False s = (True,
      s\<lparr>pb_failureCount := pb_failureCount s + 1, pb_lastFailure := Some t',
        pb_state := (if pb_threshold s \<le> sint (pb_failureCount s) + 1 then 1 else pb_state s)\<rparr>)"
    by (intro pb_attempt_failure [OF fit]) simp
  have inc: "sint (pb_failureCount s + 1) = sint (pb_failureCount s) + 1"
    using fit by (intro sint_inc) (simp_all add: pb_fit_def)
  show "pb_tripped (snd (pb_attempt t t' False s)) \<and> pb_release (snd (pb_attempt t t' False s)) \<ge> t' + pb_timeout s"
    if "pb_budget s = 1"
  proof -
    have "pb_threshold s \<le> sint (pb_failureCount s) + 1"
      using that fit nt by (auto simp: pb_budget_def pb_fit_def pb_tripped_def split: if_splits)
    then show ?thesis by (simp add: fl pb_tripped_def pb_release_def)
  qed
  show "\<not> pb_tripped (snd (pb_attempt t t' False s)) \<and> Suc (pb_budget (snd (pb_attempt t t' False s))) = pb_budget s"
    if "pb_budget s \<noteq> 1"
  proof -
    have z: "pb_state s = 0" "sint (pb_failureCount s) + 1 < pb_threshold s"
      using that fit nt by (auto simp: pb_budget_def pb_fit_def pb_tripped_def split: if_splits)
    then have "Suc (nat (pb_threshold s - (sint (pb_failureCount s) + 1))) = nat (pb_threshold s - sint (pb_failureCount s))"
      by linarith
    with z show ?thesis by (simp add: fl pb_tripped_def pb_budget_def inc)
  qed
qed (simp_all add: pb_attempt_window pb_healed_def pb_tripped_def)

end
