(* ===== verification/PubSubPublish.thy ===== *)
theory PubSubPublish
  imports PubSubDemo PubSubBreaker
begin

text \<open>
  What one call of \<open>Publish\<close> or \<open>PublishBatch\<close> does, seen from its caller: messages end up in the queue
  of their topic in order, a batch that fails leaves its first messages there, and the circuit
  breaker of the publisher counts every failure, whatever the topic.
\<close>

section \<open>Publishing to a topic that does not exist\<close>

lemma give_taken_slot:
  assumes "take_slot pick now c ps = Inr ps'"
  shows "give_slot ps' = ps"
proof -
  from assms have ps': "ps' = upd_publisher (\<lambda>p. p\<lparr>pu_workerPool :=
      (slots_of ps)\<lparr>ch_buf := ch_buf (slots_of ps) @ [()]\<rparr>\<rparr>) ps"
    by (auto simp: take_slot_def select_send_iffs split: select_result.splits)
  have "chan_recv (slots_of ps') = Received () (slots_of ps)"
  proof (cases "ch_buf (slots_of ps)")
    case (Cons x xs)
    moreover have "xs @ [()] = x # xs" by (simp add: unit_list_eq)
    ultimately show ?thesis by (simp add: ps' upd_publisher_def chan_recv_def)
  qed (simp add: ps' upd_publisher_def chan_recv_def)
  then show ?thesis by (simp add: give_slot_def ps' upd_publisher_def)
qed

lemma publish_unknown:
  assumes "topic_of ps name = None"
  shows "\<exists>err. PubSub_publishMessage env a now c name data headers ps = (Returns (Some err), now, ps)"
proof (cases "take_slot (pe_slot env a) now c ps")
  case (Inr ps1)
  then have "topic_of ps1 name = None" using take_slot_cases(1) assms by simp
  then show ?thesis
    using Inr give_taken_slot [OF Inr] by (simp add: PubSub_publishMessage_def publish_prepare_def)
qed (simp add: PubSub_publishMessage_def)

lemma publish_attempts_unknown:
  assumes "topic_of ps name = None"
  shows "\<exists>err t ps'. publish_attempts env a n now c name data headers lastErr ps = (Returns (Some err), t, ps')
    \<and> now \<le> t \<and> (ps' = ps \<or> ps' = publish_failed ps)"
proof (induction n arbitrary: a now lastErr)
  case 0
  then show ?case by simp
next
  case (Suc n)
  obtain err where p: "PubSub_publishMessage env a now c name data headers ps = (Returns (Some err), now, ps)"
    using publish_unknown [OF assms] by blast
  obtain t over where w: "timer_wait (pe_lag env a) (pe_pick env a)
      (wrap64 (pu_retryDelay (ps_publisher ps) * (int a + 1))) now c = (t, over)" by force
  have le: "now \<le> t" using timer_wait_later [OF w] .
  show ?case
  proof (cases "ctx_err now c = None")
    case False
    then show ?thesis by (auto simp: not_None_eq)
  next
    case True
    show ?thesis
      using Suc.IH [of "Suc a" t "[err]"] Suc.IH [of "Suc a" now "[err]"] le
      by (cases over; cases "0 < n") (fastforce simp: True p w)+
  qed
qed

text \<open>One call of \<open>Publish\<close> is one failed attempt of the breaker, and otherwise changes counters only.\<close>

definition same_topics :: "PubSub \<Rightarrow> PubSub \<Rightarrow> bool" where
  "same_topics ps ps' \<longleftrightarrow> topic_of ps' = topic_of ps \<and> ps_config ps' = ps_config ps \<and> ps_closed ps' = ps_closed ps"

lemma breaker_of_updates [simp]:
  "ps_breaker (publish_ended b t0 t ps) = ps_breaker ps" "ps_breaker (upd_pcb f ps) = f (ps_breaker ps)"
  "ps_breaker (publish_failed ps) = ps_breaker ps"
  "ps_closed (publish_ended b t0 t ps) = ps_closed ps" "ps_closed (upd_pcb f ps) = ps_closed ps"
  "ps_closed (publish_failed ps) = ps_closed ps"
  by (simp_all add: publish_ended_def publish_failed_def upd_um_def upd_pm_def upd_pcb_def upd_publisher_def)

lemma pb_leave_err: "pb_leave t (Some e) cb = pb_leave t (Some e') cb"
  by (simp add: pb_leave_def)

lemma Publish_unknown:
  assumes "topic_of ps name = None" and chk: "publish_check uni now c data headers ps = None"
  shows "\<exists>err t ps'. PubSub_Publish uni env now c name data headers ps = (Returns (Some err), t, ps') \<and> now \<le> t
    \<and> same_topics ps ps' \<and> ps_breaker ps' = snd (pb_attempt now t False (ps_breaker ps))
    \<and> (\<not> fst (pb_attempt now t False (ps_breaker ps)) \<longrightarrow> err = breaker_open)"
proof -
  obtain ok cb where e: "pb_enter now (ps_breaker ps) = (ok, cb)" by force
  let ?ps1 = "upd_pcb (\<lambda>_. cb) ps"
  show ?thesis
  proof (cases ok)
    case False
    then show ?thesis
      by (simp add: PubSub_Publish_def chk Let_def CircuitBreakerPubSub_Execute_def e same_topics_def record_laws
          pb_attempt_def)
  next
    case True
    have "topic_of ?ps1 name = None" using assms(1) by (simp add: record_laws)
    from publish_attempts_unknown [OF this, of env 0 "nat (pu_maxRetries (ps_publisher ?ps1) + 1)" now
        "WithTimeout now (cp_OperationTimeout (ps_config ps)) c" data headers "[]"]
    obtain err t ps2 where r: "PubSub_publishWithRetry env now (WithTimeout now (cp_OperationTimeout (ps_config ps)) c) name
        data headers ?ps1 = (Returns (Some err), t, ps2)" "now \<le> t" "ps2 = ?ps1 \<or> ps2 = publish_failed ?ps1"
      unfolding PubSub_publishWithRetry_def by blast
    have ps2: "topic_of ps2 = topic_of ps" "ps_config ps2 = ps_config ps" "ps_closed ps2 = ps_closed ps" "ps_breaker ps2 = cb"
      using r(3) by (auto simp: record_laws)
    show ?thesis
      using True r(1,2) ps2
      by (simp add: PubSub_Publish_def chk Let_def CircuitBreakerPubSub_Execute_def e same_topics_def record_laws
          pb_attempt_def pb_leave_err [of t err _ breaker_open])
  qed
qed


text \<open>Calls of \<open>Publish\<close> one after the other: what each returns, and when.\<close>

type_synonym publish_args = "publish_env \<times> instant \<times> ctx \<times> 8 word list \<times> (string \<times> string) list option"

fun publish_calls ::
    "(nat \<Rightarrow> bool) \<Rightarrow> string \<Rightarrow> publish_args list \<Rightarrow> PubSub \<Rightarrow> (goerr option outcome \<times> instant) list \<times> PubSub" where
  "publish_calls uni name [] ps = ([], ps)"
| "publish_calls uni name ((env, now, c, data, headers) # calls) ps =
     (let (r, t, ps1) = PubSub_Publish uni env now c name data headers ps;
          (rs, ps2) = publish_calls uni name calls ps1
      in ((r, t) # rs, ps2))"

lemma publish_check_same: "same_topics ps ps' \<Longrightarrow> publish_check uni now c data headers ps' = publish_check uni now c data headers ps"
  by (simp add: publish_check_def same_topics_def)

lemma same_topics_trans: "same_topics ps ps1 \<Longrightarrow> same_topics ps1 ps2 \<Longrightarrow> same_topics ps ps2"
  by (simp add: same_topics_def)

text \<open>The checks every call of a list passes.\<close>

definition passes :: "(nat \<Rightarrow> bool) \<Rightarrow> PubSub \<Rightarrow> publish_args \<Rightarrow> bool" where
  "passes uni ps call = (case call of (env, now, c, data, headers) \<Rightarrow> publish_check uni now c data headers ps = None)"

definition call_time :: "publish_args \<Rightarrow> instant" where
  "call_time call = fst (snd call)"

lemma publish_calls_unknown:
  "topic_of ps name = None \<Longrightarrow> list_all (passes uni ps) calls
     \<Longrightarrow> \<exists>as ps'. snd (publish_calls uni name calls ps) = ps' \<and> same_topics ps ps'
       \<and> ps_breaker ps' = snd (pbk.attempts as (ps_breaker ps)) \<and> length as = length calls
       \<and> list_all2 (\<lambda>call a. started a = call_time call \<and> started a \<le> ended a \<and> \<not> succeeds a) calls as"
proof (induction calls arbitrary: ps)
  case Nil
  then show ?case by (simp add: same_topics_def)
next
  case (Cons call calls)
  obtain env now c data headers where call: "call = (env, now, c, data, headers)" by (cases call)
  from Cons.prems have "publish_check uni now c data headers ps = None" by (simp add: call passes_def)
  from Publish_unknown [OF Cons.prems(1) this, of env] obtain err t ps1 where
    p: "PubSub_Publish uni env now c name data headers ps = (Returns (Some err), t, ps1)" "now \<le> t" "same_topics ps ps1"
      "ps_breaker ps1 = snd (pb_attempt now t False (ps_breaker ps))" by blast
  have "topic_of ps1 name = None" using Cons.prems(1) p(3) by (simp add: same_topics_def)
  moreover have "list_all (passes uni ps1) calls"
    using Cons.prems(2) by (auto simp: list_all_iff passes_def publish_check_same [OF p(3)])
  ultimately obtain as ps' where IH: "snd (publish_calls uni name calls ps1) = ps'" "same_topics ps1 ps'"
    "ps_breaker ps' = snd (pbk.attempts as (ps_breaker ps1))" "length as = length calls"
    "list_all2 (\<lambda>call a. started a = call_time call \<and> started a \<le> ended a \<and> \<not> succeeds a) calls as"
    using Cons.IH by blast
  show ?case
    by (rule exI [of _ "Attempt now t False # as"], rule exI [of _ ps'])
      (use IH p in \<open>simp add: call pbk.attempts_simps split_beta call_time_def same_topics_trans [OF p(3) IH(2)]\<close>)
qed

text \<open>A call the breaker refuses.\<close>

lemma Publish_refused:
  assumes "publish_check uni now c data headers ps = None" and "\<not> fst (pb_attempt now t False (ps_breaker ps))"
  shows "fst (PubSub_Publish uni env now c name data headers ps) = Returns (Some breaker_open)"
  using assms by (auto simp: PubSub_Publish_def CircuitBreakerPubSub_Execute_def pb_attempt_def Let_def split: prod.splits)

lemma attempts_snoc: "fst (pbk.attempts (as @ [Attempt t t' b]) cb)
   = fst (pbk.attempts as cb) @ [fst (pb_attempt t t' b (snd (pbk.attempts as cb)))]"
proof (induction as arbitrary: cb)
  case (Cons a as)
  then show ?case by (cases a) (simp add: pbk.attempts_simps split_beta)
qed (simp add: split_beta)

text \<open>Property C36: the publisher has one circuit breaker for all topics, and publishing to a topic that does
  not exist counts as a failure. Once as many calls for an unknown topic have been made within the
  breaker's timeout as it has failures left, every further call within that timeout is refused with
  the open-breaker error, also for a topic that exists and has room.\<close>

theorem unknown_topic_blocks_publisher:
  assumes "topic_of ps bad = None" and "list_all (passes uni ps) calls"
    and "pb_fit (Suc (length calls)) (ps_breaker ps)" and "\<not> pb_tripped (ps_breaker ps)"
    and "pb_budget (ps_breaker ps) \<le> length calls"
    and "0 < t0" and "\<forall>call\<in>set calls. t0 \<le> call_time call \<and> call_time call < t0 + pb_timeout (ps_breaker ps)"
    and "t0 \<le> now" and "now < t0 + pb_timeout (ps_breaker ps)"
    and "publish_check uni now c data headers ps = None"
  shows "fst (PubSub_Publish uni env now c good data headers (snd (publish_calls uni bad calls ps)))
    = Returns (Some breaker_open)"
proof -
  from publish_calls_unknown [OF assms(1,2)] obtain as ps' where ps': "snd (publish_calls uni bad calls ps) = ps'"
    "same_topics ps ps'" "ps_breaker ps' = snd (pbk.attempts as (ps_breaker ps))" "length as = length calls"
    and as: "list_all2 (\<lambda>call a. started a = call_time call \<and> started a \<le> ended a \<and> \<not> succeeds a) calls as" by blast
  have "pbk.outage t0 (pb_timeout (ps_breaker ps)) (as @ [Attempt now now False])"
    unfolding pbk.outage_def
  proof
    fix a assume "a \<in> set (as @ [Attempt now now False])"
    then consider (old) "a \<in> set as" | (new) "a = Attempt now now False" by auto
    then show "\<not> succeeds a \<and> t0 \<le> started a \<and> started a < t0 + pb_timeout (ps_breaker ps) \<and> started a \<le> ended a \<and> 0 < ended a"
    proof cases
      case old
      then obtain call where "call \<in> set calls" "started a = call_time call" "started a \<le> ended a" "\<not> succeeds a"
        using as unfolding list_all2_conv_all_nth in_set_conv_nth by metis
      with assms(6,7) show ?thesis by force
    next
      case new
      with assms(6,8,9) show ?thesis by simp
    qed
  qed
  from pbk.outage_cost [OF _ assms(4) _ this] assms(3,5) ps'(4)
  have flags: "fst (pbk.attempts (as @ [Attempt now now False]) (ps_breaker ps))
      = replicate (pb_budget (ps_breaker ps)) True @ replicate (Suc (length calls) - pb_budget (ps_breaker ps)) False"
    using assms(4) by (auto simp: pb_fit_def pb_budget_def pb_tripped_def min_def)
  then have "last (fst (pbk.attempts (as @ [Attempt now now False]) (ps_breaker ps))) = False"
    using assms(5) by (simp add: last_append last_replicate)
  then have "\<not> fst (pb_attempt now now False (ps_breaker ps'))"
    by (simp add: attempts_snoc ps'(3))
  moreover have "publish_check uni now c data headers ps' = None"
    using assms(10) publish_check_same [OF ps'(2)] by simp
  ultimately show ?thesis using Publish_refused ps'(1) by blast
qed


definition one_try :: publish_args where
  "one_try = (\<lparr>pe_slot = \<lambda>_. False, pe_send = \<lambda>_. False, pe_lag = \<lambda>_. 0, pe_pick = \<lambda>_. False\<rparr>, 1, Background, [1], None)"

lemma demo_breaker: "ps_breaker (demo_ps tps sl um pm k) = NewCircuitBreakerPubSub 5 60000000000"
  by (simp add: demo_ps_def)

lemma demo_check: "publish_check uni now Background [1] None (demo_ps tps sl um pm k) = None"
  by (simp add: publish_check_def demo_ps_def validateMessage_def validateHeaders_def pubsub_limits)

theorem unknown_topic_blocks_publisher_witness:
  "fst (PubSub_Publish ascii_only (fst one_try) 2 Background ''t'' [1] None
      (snd (publish_calls ascii_only ''x'' (replicate 5 one_try) (demo_ps (demo_top [] [] 0 0) [] zum1 zpm1 0))))
    = Returns (Some breaker_open)"
proof (rule unknown_topic_blocks_publisher [where ?t0.0 = 1])
  let ?ps = "demo_ps (demo_top [] [] 0 0) [] zum1 zpm1 0"
  show "topic_of ?ps ''x'' = None" by (simp add: topic_of_def demo_ps_def demo_top_def)
  show "list_all (passes ascii_only ?ps) (replicate 5 one_try)"
    by (simp add: list_all_iff passes_def one_try_def demo_check)
  show "pb_fit (Suc (length (replicate 5 one_try))) (ps_breaker ?ps)" "\<not> pb_tripped (ps_breaker ?ps)"
    "pb_budget (ps_breaker ?ps) \<le> length (replicate 5 one_try)"
    unfolding demo_breaker
    by (simp_all add: NewCircuitBreakerPubSub_def pb_fit_def pb_tripped_def pb_budget_def max_int64_def min_int64_def)
  show "\<forall>call\<in>set (replicate 5 one_try). 1 \<le> call_time call \<and> call_time call < 1 + pb_timeout (ps_breaker ?ps)"
    "(2::int) < 1 + pb_timeout (ps_breaker ?ps)"
    unfolding demo_breaker by (simp_all add: NewCircuitBreakerPubSub_def one_try_def call_time_def)
  show "publish_check ascii_only 2 Background [1] None ?ps = None" by (rule demo_check)
qed simp_all

section \<open>Publishing to a topic\<close>




section \<open>Batches\<close>

definition content :: "MessagePubSub \<Rightarrow> 8 word list \<times> (string \<times> string) list option" where
  "content m = (mg_Data m, mg_Headers m)"

text \<open>A queue that has grown by some messages.\<close>

definition grown :: "MessagePubSub list \<Rightarrow> string \<Rightarrow> PubSub \<Rightarrow> PubSub \<Rightarrow> bool" where
  "grown new name ps ps' \<longleftrightarrow>
     (case (topic_of ps name, topic_of ps' name) of
        (Some tp, Some tp') \<Rightarrow> ch_buf (tp_MessageQueue tp') = ch_buf (tp_MessageQueue tp) @ new
      | _ \<Rightarrow> False)"

lemma grown_trans: "grown a name ps ps1 \<Longrightarrow> grown b name ps1 ps2 \<Longrightarrow> grown (a @ b) name ps ps2"
  by (auto simp: grown_def split: option.splits)

lemma grown_topics: "topic_of ps' = topic_of ps1 \<Longrightarrow> grown new name ps ps1 \<Longrightarrow> grown new name ps ps'"
  by (simp add: grown_def)

lemma grown_refl: "topic_of ps name \<noteq> None \<Longrightarrow> grown [] name ps ps"
  by (auto simp: grown_def not_None_eq)

lemma publish_one_grows:
  assumes "topic_of ps name \<noteq> None" and st: "PubSub_publishMessage env a now c name data headers ps = (r, t, ps')"
  shows "\<exists>new. grown new name ps ps' \<and> map content new = (if r = Returns None then [(data, headers)] else [])"
proof (cases "take_slot (pe_slot env a) now c ps")
  case (Inl e)
  with assms show ?thesis by (auto simp: PubSub_publishMessage_def intro: grown_refl)
next
  case (Inr ps1)
  note f = take_slot_cases [OF Inr]
  obtain m t1 ps2 where p: "publish_prepare now c name data headers ps1 = (m, t1, ps2)" by (cases "publish_prepare now c name data headers ps1")
  have g1: "grown [] name ps ps1" using assms(1) f by (intro grown_topics [OF f(1)] grown_refl)
  from p show ?thesis
  proof (cases rule: publish_prepare_cases)
    case (1 err)
    with st Inr p g1 show ?thesis
      by (auto simp: PubSub_publishMessage_def intro!: exI [of _ "[]"] grown_topics [OF _ g1] simp: record_laws)
  next
    case (2 mg tp)
    have g2: "grown [] name ps1 ps2" using 2 by (simp add: grown_def record_laws)
    obtain r1 ps3 where s: "publish_send (pe_send env a) t1 c mg ps2 = (r1, ps3)" by force
    have res: "r = r1" "topic_of ps' = topic_of ps3"
      using st Inr p 2 s by (auto simp: PubSub_publishMessage_def record_laws)
    have t2: "topic_of ps2 (mg_Topic mg) = Some (tp\<lparr>tp_sequence := tp_sequence tp + 1\<rparr>)" using 2 by (simp add: record_laws)
    show ?thesis
    proof (cases "r1 = Returns None")
      case True
      from publish_send_ok(1) [OF s [unfolded True] t2] have "grown [mg] name ps2 ps3"
        using 2 t2 by (simp add: grown_def enqueue_def)
      from grown_trans [OF grown_trans [OF g1 g2] this] have "grown [mg] name ps ps3" by simp
      then show ?thesis using res True 2 by (intro exI [of _ "[mg]"]) (simp add: grown_topics content_def)
    next
      case False
      from publish_send_not_ok(1) [OF s False, of name] have "grown [] name ps2 ps3"
        using 2 t2 by (auto simp: grown_def)
      from grown_trans [OF grown_trans [OF g1 g2] this] have "grown [] name ps ps3" by simp
      then show ?thesis using res False by (intro exI [of _ "[]"]) (simp add: grown_topics)
    qed
  qed
qed

lemma grown_exists: "grown new name ps ps' \<Longrightarrow> topic_of ps' name \<noteq> None"
  by (auto simp: grown_def split: option.splits)

lemma publish_all_grows:
  "topic_of ps name \<noteq> None \<Longrightarrow> publish_all env i c name ms now ps = (r, t, ps')
     \<Longrightarrow> \<exists>new. grown new name ps ps' \<and> length new \<le> length ms
       \<and> map content new = map content (take (length new) ms) \<and> (r = Returns None \<longleftrightarrow> length new = length ms)"
proof (induction ms arbitrary: i now ps)
  case Nil
  then show ?case by (auto intro: grown_refl)
next
  case (Cons m ms)
  obtain r1 t1 ps1 where p: "PubSub_publishMessage env i now c name (mg_Data m) (mg_Headers m) ps = (r1, t1, ps1)"
    by (cases "PubSub_publishMessage env i now c name (mg_Data m) (mg_Headers m) ps")
  from publish_one_grows [OF Cons.prems(1) p] obtain new where
    g: "grown new name ps ps1" "map content new = (if r1 = Returns None then [content m] else [])"
    by (auto simp: content_def)
  show ?case
  proof (cases "r1 = Returns None")
    case True
    with Cons.prems(2) p have "publish_all env (Suc i) c name ms t1 ps1 = (r, t, ps')" by simp
    from Cons.IH [OF grown_exists [OF g(1)] this] obtain more where
      more: "grown more name ps1 ps'" "length more \<le> length ms" "map content more = map content (take (length more) ms)"
        "r = Returns None \<longleftrightarrow> length more = length ms" by blast
    from g(2) True obtain m1 where "new = [m1]" "content m1 = content m" by (cases new) auto
    with grown_trans [OF g(1) more(1)] more show ?thesis by (intro exI [of _ "m1 # more"]) simp
  next
    case False
    with g(2) have "new = []" by simp
    moreover have "r \<noteq> Returns None" "ps' = ps1"
      using False Cons.prems(2) p by (auto split: outcome.splits option.splits)
    ultimately show ?thesis using g(1) by (intro exI [of _ "[]"]) simp
  qed
qed

text \<open>Property C40: what a batch leaves in the queue of its topic is a prefix of the batch, in order, with the data
  and headers of the batch; it is the whole batch exactly when the call returns without an error. So
  a batch that fails half-way stays there, and a caller who tries again publishes its beginning twice.\<close>

theorem PublishBatch_prefix:
  assumes "topic_of ps name \<noteq> None" and "ms \<noteq> []"
    and "PubSub_PublishBatch uni env now c name ms ps = (r, t, ps')"
  shows "\<exists>new. grown new name ps ps' \<and> length new \<le> length ms
    \<and> map content new = map content (take (length new) ms) \<and> (r = Returns None \<longleftrightarrow> length new = length ms)"
proof (cases "batch_check now c ms ps = None \<and> first_bad_message uni ms = None \<and> fst (pb_enter now (ps_breaker ps))")
  case True
  let ?c = "WithTimeout now (cp_OperationTimeout (ps_config ps)) c"
  let ?ps1 = "upd_pcb (\<lambda>_. snd (pb_enter now (ps_breaker ps))) ps"
  obtain r2 t2 ps2 where p: "publish_all env 0 ?c name ms now ?ps1 = (r2, t2, ps2)"
    by (cases "publish_all env 0 ?c name ms now ?ps1")
  have tp: "topic_of ?ps1 = topic_of ps" by (simp add: record_laws)
  have res: "r = r2 \<and> topic_of ps' = topic_of ps2"
    using assms(3) True p
    by (cases r2) (auto simp: PubSub_PublishBatch_def CircuitBreakerPubSub_Execute_def Let_def record_laws split: prod.splits)
  have "topic_of ?ps1 name \<noteq> None" using assms(1) tp by simp
  from publish_all_grows [OF this p] res show ?thesis by (auto simp: grown_def tp)
next
  case False
  then have "r \<noteq> Returns None \<and> topic_of ps' = topic_of ps"
    using assms(3)
    by (auto simp: PubSub_PublishBatch_def CircuitBreakerPubSub_Execute_def Let_def record_laws not_None_eq
        split: prod.splits option.splits)
  with assms(1,2) show ?thesis by (intro exI [of _ "[]"]) (auto intro: grown_topics [OF _ grown_refl])
qed


text \<open>A topic with room for one message.\<close>

definition tight :: PubSub where
  "tight = demo_ps [(''t'', (demo_tp [] [] 0 0)\<lparr>tp_MessageQueue := make_chan 1\<rparr>)] [] zum1 zpm1 0"

lemma tight_batch:
  "fst (PubSub_PublishBatch ascii_only (fst one_try) 0 Background ''t'' [demo_message, demo_message] tight) \<noteq> Returns None"
  by code_simp

theorem PublishBatch_prefix_witness:
  "\<exists>r t ps' new. PubSub_PublishBatch ascii_only (fst one_try) 0 Background ''t'' [demo_message, demo_message] tight = (r, t, ps')
    \<and> r \<noteq> Returns None \<and> grown new ''t'' tight ps' \<and> length new < 2 \<and> map content new = map content (take (length new) [demo_message, demo_message])"
proof -
  obtain r t ps' where p: "PubSub_PublishBatch ascii_only (fst one_try) 0 Background ''t'' [demo_message, demo_message] tight = (r, t, ps')"
    by (cases "PubSub_PublishBatch ascii_only (fst one_try) 0 Background ''t'' [demo_message, demo_message] tight")
  have "topic_of tight ''t'' \<noteq> None" by (simp add: tight_def topic_of_def demo_ps_def)
  from PublishBatch_prefix [OF this _ p] tight_batch p show ?thesis by fastforce
qed

end
