(* ===== verification/PubSubDeliverProps.thy ===== *)
theory PubSubDeliverProps
  imports PubSubDemo
begin

text \<open>
  One delivery: which error it ends with, how long it can take, what an open circuit breaker changes,
  and under which keys messages are stored.
\<close>

section \<open>The retry loop of a delivery against its specification\<close>

text \<open>The outcome of the attempts, given the error of each: the end of the loop, and how many were retried.\<close>

fun deliver_spec :: "goerr list \<Rightarrow> goerr option list \<Rightarrow> goerr option \<times> nat" where
  "deliver_spec lastErr [] = (Some (Errorf lastErr), 0)"
| "deliver_spec lastErr (None # _) = (None, 0)"
| "deliver_spec lastErr (Some e # errs) =
     (if is_timeout e then (Some e, 0) else (let (r, k) = deliver_spec [e] errs in (r, Suc k)))"

text \<open>
  A handler whose behaviour depends on the attempt alone: after \<open>fst\<close> nanoseconds it returns or panics,
  or it never comes back.
\<close>

definition behaves :: "MessageHandlerPubSub \<Rightarrow> (int \<Rightarrow> (duration \<times> goerr option outcome) option) \<Rightarrow> bool" where
  "behaves handler b \<longleftrightarrow>
     (\<forall>t c m. handler t c m = map_option (\<lambda>(d, r). (t + d, r)) (b (mg_RetryCount m)))"

abbreviation timeout_error :: goerr where "timeout_error \<equiv> wrapping (pubsub_sentinel ErrTimeoutPubSub)"

definition attempt_error :: "duration \<Rightarrow> (duration \<times> goerr option outcome) option \<Rightarrow> goerr option" where
  "attempt_error timeout b =
     (case b of
        None \<Rightarrow> Some timeout_error
      | Some (d, r) \<Rightarrow>
          if timeout < d then Some timeout_error
          else (case r of Returns e \<Rightarrow> e | Panics p \<Rightarrow> Some (wrapping (pubsub_sentinel ErrPanicRecoveredPubSub))))"

text \<open>No attempt takes exactly as long as the timeout; then the choice would be the scheduler's.\<close>

definition off_limit :: "duration \<Rightarrow> (int \<Rightarrow> (duration \<times> goerr option outcome) option) \<Rightarrow> bool" where
  "off_limit timeout b \<longleftrightarrow> (\<forall>a d r. b a = Some (d, r) \<longrightarrow> d \<noteq> timeout)"

lemma call_handler_behaves:
  assumes "behaves h b" and "0 < timeout" and "off_limit timeout b"
  shows "\<exists>t. call_handler pick timeout now Background h m = Some (t, attempt_error timeout (b (mg_RetryCount m)))"
proof (cases "b (mg_RetryCount m)")
  case None
  with assms(1,2) show ?thesis
    by (simp add: call_handler_def behaves_def WithTimeout_def Background_def done_at_def Let_def attempt_error_def)
next
  case (Some x)
  obtain d r where x: "x = (d, r)" by force
  with Some assms(3) have "d \<noteq> timeout" unfolding off_limit_def by blast
  with Some x assms(1,2) show ?thesis
    by (auto simp: call_handler_def behaves_def WithTimeout_def Background_def done_at_def Let_def attempt_error_def)
qed

lemma timer_wait_Background: "\<exists>t. timer_wait lag pick d now Background = (t, False)"
  by (simp add: timer_wait_def Let_def)

definition retried_by :: "nat \<Rightarrow> SubscriptionPubSub \<Rightarrow> SubscriptionPubSub" where
  "retried_by k = upd_sm (\<lambda>x. x\<lparr>sm_MessagesRetried := sm_MessagesRetried x + of_nat k\<rparr>)"

lemma retried_by_simps:
  "retried_by 0 s = s" "retried_by k (upd_sm (\<lambda>x. x\<lparr>sm_MessagesRetried := sm_MessagesRetried x + 1\<rparr>) s) = retried_by (Suc k) s"
  "sb_Handler (upd_sm f s) = sb_Handler s"
  by (simp_all add: retried_by_def upd_sm_def algebra_simps)

lemma deliver_attempts_spec:
  assumes "0 < timeout"
    and "off_limit timeout b"
  shows "behaves (sb_Handler s) b \<Longrightarrow>
    (case deliver_spec lastErr (map (\<lambda>i. attempt_error timeout (b (int i))) [a..<a + n]) of
       (r, k) \<Rightarrow> \<exists>t m'. deliver_attempts dv timeout a n Background lastErr now (m, s) = (r, t, m', retried_by k s))"
proof (induction n arbitrary: a lastErr now m s)
  case 0
  then show ?case by (simp add: retried_by_simps)
next
  case (Suc n)
  let ?m = "m\<lparr>mg_RetryCount := int a\<rparr>" and ?e = "attempt_error timeout (b (int a))"
  obtain t where call: "call_handler (dv_result dv a) timeout now Background (sb_Handler s) ?m = Some (t, ?e)"
    using call_handler_behaves [OF Suc.prems assms(1,2), of "dv_result dv a" now ?m] by auto
  have up: "map f [a..<a + Suc n] = f a # map f [Suc a..<Suc a + n]" for f :: "nat \<Rightarrow> goerr option"
    by (simp add: upt_conv_Cons del: upt_Suc)
  show ?case
  proof (cases ?e)
    case None
    then show ?thesis using call unfolding up by (simp add: retried_by_simps del: upt_Suc)
  next
    case (Some e)
    show ?thesis
    proof (cases "is_timeout e")
      case True
      then show ?thesis using call Some unfolding up by (simp add: retried_by_simps del: upt_Suc)
    next
      case False
      let ?s = "upd_sm (\<lambda>x. x\<lparr>sm_MessagesRetried := sm_MessagesRetried x + 1\<rparr>) s"
      have h: "behaves (sb_Handler ?s) b" using Suc.prems by (simp add: retried_by_simps)
      obtain t2 where w: "timer_wait (dv_lag dv a) (dv_wait dv a) (wrap64 (sb_RetryDelay ?s * (int a + 1))) t Background = (t2, False)"
        using timer_wait_Background by blast
      obtain r k where sp: "deliver_spec [e] (map (\<lambda>i. attempt_error timeout (b (int i))) [Suc a..<Suc a + n]) = (r, k)" by force
      have step: "\<exists>t'. deliver_attempts dv timeout a (Suc n) Background lastErr now (m, s)
          = deliver_attempts dv timeout (Suc a) n Background [e] t' (?m, ?s)"
        using call Some False w by (cases "0 < n") (auto simp: Let_def)
      then obtain t' where st: "deliver_attempts dv timeout a (Suc n) Background lastErr now (m, s)
          = deliver_attempts dv timeout (Suc a) n Background [e] t' (?m, ?s)" by blast
      have "\<exists>t m'. deliver_attempts dv timeout (Suc a) n Background [e] t' (?m, ?s) = (r, t, m', retried_by k ?s)"
        using Suc.IH [OF h, where lastErr = "[e]" and a = "Suc a" and now = t' and m = ?m] unfolding sp by simp
      with st Some False sp show ?thesis unfolding up by (simp add: retried_by_simps del: upt_Suc deliver_attempts.simps)
    qed
  qed
qed

text \<open>Property C17: for a handler whose outcome depends on the attempt alone, a delivery whose context is
  not cancelled ends exactly as the specification says: with success at the first attempt that
  succeeds, at once with a timeout, and after \<open>MaxRetries + 1\<close> failures with the last error wrapped; the
  retry counter grows by the failures before that, and nothing else of the subscription changes.\<close>

theorem delivery_meets_spec:
  assumes "behaves (sb_Handler s) b" and "0 < cp_OperationTimeout cfg"
    and "off_limit (cp_OperationTimeout cfg) b"
    and "deliver_spec [] (map (\<lambda>a. attempt_error (cp_OperationTimeout cfg) (b (int a))) [0..<nat (sb_MaxRetries s + 1)]) = (r, k)"
  shows "\<exists>t m'. PubSub_deliverWithRetry dv cfg Background now (m, s) = (r, t, m', retried_by k s)"
  using deliver_attempts_spec [OF assms(2,3,1), where lastErr = "[]" and a = 0 and n = "nat (sb_MaxRetries s + 1)"] assms(4)
  by (simp add: PubSub_deliverWithRetry_def)

text \<open>A handler that fails twice and then succeeds, after a second each time.\<close>

definition third_time :: "int \<Rightarrow> (duration \<times> goerr option outcome) option" where
  "third_time a = Some (1000000000, if a < 2 then Returns (Some (ErrText ''busy'')) else Returns None)"

definition third_time_handler :: MessageHandlerPubSub where
  "third_time_handler t c m = map_option (\<lambda>(d, r). (t + d, r)) (third_time (mg_RetryCount m))"

lemma third_time_error:
  "attempt_error 30000000000 (third_time a) = (if a < 2 then Some (ErrText ''busy'') else None)"
  by (simp add: attempt_error_def third_time_def)

theorem delivery_meets_spec_witness:
  "\<forall>dv. \<exists>t m'. PubSub_deliverWithRetry dv demo_config Background 0 (demo_message, demo_sb\<lparr>sb_Handler := third_time_handler\<rparr>)
    = (None, t, m', retried_by 2 (demo_sb\<lparr>sb_Handler := third_time_handler\<rparr>))"
proof (rule allI, rule delivery_meets_spec [where b = third_time])
  let ?s = "demo_sb\<lparr>sb_Handler := third_time_handler\<rparr>"
  have t: "cp_OperationTimeout demo_config = 30000000000" "sb_MaxRetries demo_sb = 3"
    by (simp_all add: demo_sb_def NewSubscription_def demo_config_def DefaultConfigPubSub_def pubsub_limits)
  show "behaves (sb_Handler ?s) third_time" by (simp add: behaves_def third_time_handler_def)
  show "0 < cp_OperationTimeout demo_config" by (simp add: t)
  show "off_limit (cp_OperationTimeout demo_config) third_time" by (simp add: t third_time_def off_limit_def)
  have "\<not> is_timeout (ErrText ''busy'')" by code_simp
  then show "deliver_spec [] (map (\<lambda>a. attempt_error (cp_OperationTimeout demo_config) (third_time (int a)))
      [0..<nat (sb_MaxRetries ?s + 1)]) = (None, 2)"
    by (simp add: t third_time_error upt_rec eval_nat_numeral)
qed

section \<open>How long a delivery takes\<close>

text \<open>A handler does not return before it was called.\<close>

definition causal :: "MessageHandlerPubSub \<Rightarrow> bool" where
  "causal h \<longleftrightarrow> (\<forall>t0 c m t r. h t0 c m = Some (t, r) \<longrightarrow> t0 \<le> t)"

lemma call_handler_in_time:
  assumes "causal h"
  shows "\<exists>t err. call_handler pick timeout now c h m = Some (t, err) \<and> now \<le> t \<and> t \<le> now + max 0 timeout"
proof -
  let ?hc = "WithTimeout now timeout c"
  have "\<exists>d. done_at ?hc = Some d \<and> d \<le> now + timeout"
    by (cases "cancelled_at c"; cases "deadline c") (simp_all add: done_at_def WithTimeout_def)
  then obtain d where d: "done_at ?hc = Some d" "d \<le> now + timeout" by blast
  show ?thesis
  proof (cases "h now ?hc m")
    case None
    with d show ?thesis by (auto simp: call_handler_def Let_def)
  next
    case (Some x)
    obtain t r where x: "x = (t, r)" by force
    with Some have "now \<le> t" using assms unfolding causal_def x by blast
    with Some d x show ?thesis by (auto simp: call_handler_def Let_def)
  qed
qed

lemma timer_wait_bound:
  "timer_wait lag pick d now c = (t, b) \<Longrightarrow> now \<le> t \<and> t \<le> now + max 0 d + int lag"
  by (auto simp: timer_wait_def Let_def min_def max_def split: option.splits if_splits)

text \<open>The longest the attempts from number \<open>a\<close> on can take: \<open>n\<close> calls and the waits between them.\<close>

fun delivery_bound :: "(nat \<Rightarrow> nat) \<Rightarrow> duration \<Rightarrow> duration \<Rightarrow> nat \<Rightarrow> nat \<Rightarrow> int" where
  "delivery_bound lag timeout delay a 0 = 0"
| "delivery_bound lag timeout delay a (Suc n) =
     max 0 timeout + max 0 (wrap64 (delay * (int a + 1))) + int (lag a) + delivery_bound lag timeout delay (Suc a) n"

lemma delivery_bound_nonneg: "0 \<le> delivery_bound lag timeout delay a n"
  by (induction n arbitrary: a) (simp_all add: add_nonneg_nonneg)

lemma deliver_attempts_in_time:
  assumes "causal (sb_Handler s)"
    and "deliver_attempts dv timeout a n c lastErr now (m, s) = (err, t, m', s')"
  shows "now \<le> t \<and> t \<le> now + delivery_bound (dv_lag dv) timeout (sb_RetryDelay s) a n"
  using assms
proof (induction n arbitrary: a lastErr now m s)
  case 0
  then show ?case by simp
next
  case (Suc n)
  let ?m = "m\<lparr>mg_RetryCount := int a\<rparr>" and ?s = "upd_sm (\<lambda>x. x\<lparr>sm_MessagesRetried := sm_MessagesRetried x + 1\<rparr>) s"
  note nn = delivery_bound_nonneg [of "dv_lag dv" timeout "sb_RetryDelay s" "Suc a" n]
  have same: "sb_Handler ?s = sb_Handler s" "sb_RetryDelay ?s = sb_RetryDelay s" by (simp_all add: upd_sm_def)
  obtain t1 e1 where c1: "call_handler (dv_result dv a) timeout now c (sb_Handler s) ?m = Some (t1, e1)"
    "now \<le> t1" "t1 \<le> now + max 0 timeout"
    using call_handler_in_time [OF Suc.prems(1)] by blast
  obtain t2 b where w: "timer_wait (dv_lag dv a) (dv_wait dv a) (wrap64 (sb_RetryDelay s * (int a + 1))) t1 c = (t2, b)" by force
  note wb = timer_wait_bound [OF w]
  have IH: "deliver_attempts dv timeout (Suc a) n c le t0 (?m, ?s) = (err, t, m', s') \<Longrightarrow>
      t0 \<le> t \<and> t \<le> t0 + delivery_bound (dv_lag dv) timeout (sb_RetryDelay s) (Suc a) n" for le t0
    using Suc.IH [of ?s "Suc a" le t0 ?m] Suc.prems(1) unfolding same by blast
  consider (stop) "t = now \<or> t = t1" | (waited) "t = t2"
    | (next1) le where "deliver_attempts dv timeout (Suc a) n c le t1 (?m, ?s) = (err, t, m', s')"
    | (next2) le where "deliver_attempts dv timeout (Suc a) n c le t2 (?m, ?s) = (err, t, m', s')"
    using Suc.prems(2) c1(1) w
    by (auto simp: Let_def same split: option.splits if_splits bool.splits)
  then show ?case using c1 wb nn by cases (auto dest!: IH)
qed

text \<open>Property C22: a delivery ends, whatever the handler does, also when it never returns: every attempt
  takes the operation timeout at most, so all of them with their waits are over after the bound, which
  only the delays of the scheduler (\<open>dv_lag\<close>) can stretch.\<close>

theorem delivery_returns_in_time:
  assumes "causal (sb_Handler s)"
  shows "\<exists>err t m' s'. PubSub_deliverWithRetry dv cfg c now (m, s) = (err, t, m', s') \<and> now \<le> t
    \<and> t \<le> now + delivery_bound (dv_lag dv) (cp_OperationTimeout cfg) (sb_RetryDelay s) 0 (nat (sb_MaxRetries s + 1))"
proof -
  obtain err t m' s' where r: "PubSub_deliverWithRetry dv cfg c now (m, s) = (err, t, m', s')"
    by (cases "PubSub_deliverWithRetry dv cfg c now (m, s)")
  then have "deliver_attempts dv (cp_OperationTimeout cfg) 0 (nat (sb_MaxRetries s + 1)) c [] now (m, s) = (err, t, m', s')"
    by (simp add: PubSub_deliverWithRetry_def)
  from deliver_attempts_in_time [OF assms this] r show ?thesis by blast
qed

theorem delivery_returns_in_time_witness:
  "\<exists>err t m' s'. PubSub_deliverWithRetry \<lparr>dv_result = \<lambda>_. False, dv_lag = \<lambda>_. 0, dv_wait = \<lambda>_. False\<rparr> demo_config Background 0
      (demo_message, demo_sb\<lparr>sb_Handler := \<lambda>t c m. None\<rparr>) = (err, t, m', s')
    \<and> 0 \<le> t \<and> t \<le> 121000000000"
proof -
  have t: "cp_OperationTimeout demo_config = 30000000000" "sb_MaxRetries demo_sb = 3" "sb_RetryDelay demo_sb = 100000000"
    by (simp_all add: demo_sb_def NewSubscription_def demo_config_def DefaultConfigPubSub_def pubsub_limits)
  have "causal (sb_Handler (demo_sb\<lparr>sb_Handler := \<lambda>t c m. None\<rparr>))" by (simp add: causal_def)
  from delivery_returns_in_time [OF this, of "\<lparr>dv_result = \<lambda>_. False, dv_lag = \<lambda>_. 0, dv_wait = \<lambda>_. False\<rparr>" demo_config Background 0 demo_message]
  show ?thesis by (simp add: t eval_nat_numeral wrap64_def)
qed


section \<open>What an open breaker changes\<close>

text \<open>The circuit breaker of a subscription protects nothing: while it is open and not yet due
  for a reset, a delivery calls the handler all the same, with all its retries, outside the breaker,
  whose state stays as it is.\<close>

theorem open_breaker_still_delivers:
  assumes "pb_state (sb_CircuitBreaker s) = 1" and "\<not> CircuitBreakerPubSub_shouldAttemptReset now (sb_CircuitBreaker s)"
  shows "deliver_guarded env cfg c now (m, s) = PubSub_deliverWithRetry (de_direct env) cfg c now (m, s)"
proof -
  have "errors_is breaker_open breaker_open" by code_simp
  moreover have "upd_scb (\<lambda>_. sb_CircuitBreaker s) s = s" by (simp add: upd_scb_def)
  ultimately show ?thesis
    using assms by (simp add: deliver_guarded_def CircuitBreakerPubSub_Execute_def pb_enter_def
        CircuitBreakerPubSub_getState_def)
qed

theorem open_breaker_still_delivers_witness:
  "\<forall>dv. deliver_guarded \<lparr>de_slot = False, de_first = dv, de_direct = dv\<rparr> demo_config Background 1
      (demo_message, demo_sb\<lparr>sb_CircuitBreaker := \<lparr>pb_failureCount = 5, pb_lastFailure = Some 0, pb_state = 1,
         pb_threshold = 5, pb_timeout = 60\<rparr>\<rparr>)
    = PubSub_deliverWithRetry dv demo_config Background 1
      (demo_message, demo_sb\<lparr>sb_CircuitBreaker := \<lparr>pb_failureCount = 5, pb_lastFailure = Some 0, pb_state = 1,
         pb_threshold = 5, pb_timeout = 60\<rparr>\<rparr>)"
  by (rule allI, subst open_breaker_still_delivers)
    (simp_all add: CircuitBreakerPubSub_shouldAttemptReset_def time_sub_def sat64_def max_int64_def min_int64_def)

section \<open>Keys of the store\<close>

text \<open>Ranging over a string meets every ASCII byte of it.\<close>

lemma code_points_step:
  assumes "128 \<le> h"
  shows "(\<exists>y. code_points (h # bs) = y # code_points bs)
    \<or> (\<exists>y b1 r. bs = b1 # r \<and> cont_byte b1 \<and> code_points (h # bs) = y # code_points r)
    \<or> (\<exists>y b1 b2 r. bs = b1 # b2 # r \<and> cont_byte b1 \<and> cont_byte b2 \<and> code_points (h # bs) = y # code_points r)
    \<or> (\<exists>y b1 b2 b3 r. bs = b1 # b2 # b3 # r \<and> cont_byte b1 \<and> cont_byte b2 \<and> cont_byte b3
         \<and> code_points (h # bs) = y # code_points r)"
proof (cases bs)
  case (Cons b1 r1)
  then show ?thesis
  proof (cases r1)
    case (Cons b2 r2)
    with \<open>bs = b1 # r1\<close> assms show ?thesis by (cases r2) simp_all
  qed (use assms in simp)
qed (use assms in simp)

lemma code_points_ascii: "b < 128 \<Longrightarrow> b \<in> set bs \<Longrightarrow> b \<in> set (code_points bs)"
proof (induction bs rule: length_induct)
  case (1 bs)
  show ?case
  proof (cases bs)
    case (Cons h t)
    show ?thesis
    proof (cases "h < 128")
      case True
      with 1 Cons show ?thesis by auto
    next
      case False
      then have "128 \<le> h" by simp
      have IH: "b \<in> set r \<Longrightarrow> length r < length bs \<Longrightarrow> b \<in> set (code_points r)" for r using 1 by blast
      have "b \<in> set t" using 1 Cons False by auto
      with code_points_step [OF \<open>128 \<le> h\<close>, of t] IH 1(2) show ?thesis
        unfolding Cons by (fastforce simp: cont_byte_def)
    qed
  qed (use 1 in simp)
qed

lemma topic_name_without_colon:
  assumes "validateTopicName uni name = None"
  shows "CHR '':'' \<notin> set name"
proof
  assume "CHR '':'' \<in> set name"
  then have "(58 :: nat) \<in> of_char ` set name" by (auto intro!: image_eqI [of _ _ "CHR '':''"])
  then have "58 \<in> set (runes name)" by (simp add: runes_def code_points_ascii)
  moreover have "\<not> name_char uni 58" by (simp add: name_char_def alnum_def)
  ultimately show False using assms by (auto simp: validateTopicName_def list_all_iff split: if_splits)
qed

lemma split_at_char:
  assumes "xs @ c # ys = xs' @ c # ys'" "c \<notin> set xs" "c \<notin> set xs'"
  shows "xs = xs' \<and> ys = ys'"
  using assms by (induction xs arbitrary: xs') (case_tac xs'; auto)+

text \<open>The key under which a message is stored determines its topic and its ID, provided the
  topic names are ones \<open>CreateTopic\<close> accepts: no such name contains the separator.\<close>

theorem store_keys_distinct:
  assumes "validateTopicName uni (mg_Topic m) = None" and "validateTopicName uni (mg_Topic m') = None"
    and "message_key cfg m = message_key cfg m'"
  shows "mg_Topic m = mg_Topic m' \<and> mg_ID m = mg_ID m'"
proof -
  have "mg_Topic m @ CHR '':'' # mg_ID m = mg_Topic m' @ CHR '':'' # mg_ID m'"
    using assms(3) by (simp add: message_key_def)
  from split_at_char [OF this topic_name_without_colon [OF assms(1)] topic_name_without_colon [OF assms(2)]]
  show ?thesis .
qed

theorem store_keys_distinct_witness:
  "mg_Topic demo_message = mg_Topic (demo_message\<lparr>mg_Priority := 7\<rparr>) \<and> mg_ID demo_message = mg_ID (demo_message\<lparr>mg_Priority := 7\<rparr>)"
  by (rule store_keys_distinct [where uni = ascii_only and cfg = demo_config])
    (simp_all add: demo_message_def message_key_def validateTopicName_def pubsub_limits runes_def name_char_def alnum_def)

section \<open>Priorities\<close>

definition no_priority :: "pub_call \<Rightarrow> bool" where
  "no_priority call \<longleftrightarrow> (case pc_at call of PbSend a t m \<Rightarrow> mg_Priority m = 0 | _ \<Rightarrow> True)"

definition priority_inv :: "ps_sys \<Rightarrow> bool" where
  "priority_inv s \<longleftrightarrow> (\<forall>n. list_all (\<lambda>m. mg_Priority m = 0) (sy_sent s n)) \<and> list_all no_priority (sy_calls s)"

lemma attempt_failed_no_priority: "attempt_failed now a err call ps = (call', ps') \<Longrightarrow> no_priority call'"
  by (auto simp: attempt_failed_def no_priority_def split: if_splits)

lemma pb_step_priority:
  assumes st: "pb_step now (call, ps) l (call', ps')" and ok: "no_priority call"
  shows "no_priority call' \<and> list_all (\<lambda>m. mg_Priority m = 0) (sent_to n call l)"
  using st
proof (cases rule: pb_stepE)
  case (no_slot a pick err)
  show ?thesis using attempt_failed_no_priority [OF no_slot(2) [symmetric]] by (simp add: sent_to_def no_slot(1))
next
  case (make a data headers todo m t)
  from make(5) show ?thesis
    by (cases rule: publish_prepare_cases) (use make in \<open>auto simp: no_priority_def sent_to_def\<close>)
next
  case (make_fails a data headers todo err t ps1)
  show ?thesis using attempt_failed_no_priority [OF make_fails(2) [symmetric]] by (simp add: sent_to_def make_fails(1))
next
  case (send a t m pick ps1)
  then show ?thesis using ok by (auto simp: no_priority_def sent_to_def message_sent_def)
next
  case (send_fails a t m pick err ps1)
  show ?thesis using attempt_failed_no_priority [OF send_fails(2) [symmetric]] by (simp add: sent_to_def send_fails(1))
qed (auto simp: no_priority_def sent_to_def)

lemma ps_step_priority:
  assumes "ps_step s s'" "priority_inv s"
  shows "priority_inv s'"
  using assms(1)
proof (cases rule: ps_stepE)
  case (call i l call' ps')
  have "no_priority (sy_calls s ! i)" using assms(2) call by (simp add: priority_inv_def list_all_length)
  note st = pb_step_priority [OF call(3) this]
  then have "list_all no_priority ((sy_calls s)[i := call'])"
    using assms(2) call(2) by (simp add: priority_inv_def list_all_length nth_list_update)
  with st assms(2) show ?thesis by (simp add: priority_inv_def call(1))
qed (use assms(2) in \<open>simp add: priority_inv_def publish_call_def no_priority_def\<close>)+

lemma reach_priority: "ps_reach s \<Longrightarrow> priority_inv s"
proof (induction rule: ps_reach.induct)
  case (init counter config ps now)
  show ?case by (simp add: priority_inv_def ps_start_def)
next
  case (step s s')
  then show ?case by (blast intro: ps_step_priority)
qed

text \<open>Nothing the library publishes has a priority, so a subscription that asks for one above
  zero is never given a message, in any reachable state.\<close>

theorem priority_filter_never_matches:
  assumes "ps_reach s" and "sub_of (sy_ps s) n sid = Some sb" and "\<not> sb_closed sb" and "0 < fl_Priority (sb_Filter sb)"
  shows "filter (dv_of n sid) (sy_dels s) = []"
proof -
  from assms(2) obtain tp where "topic_of (sy_ps s) n = Some tp" by (cases "topic_of (sy_ps s) n") (auto simp: sub_of_def subs_of_def)
  moreover have "queue_ok s n" using reach_calls_inv [OF assms(1)] by (simp add: calls_inv_def)
  ultimately have "set (sy_taken s n) \<subseteq> set (sy_sent s n)" by (simp add: queue_ok_def)
  then have "\<forall>m\<in>set (drop (sy_since s (n, sid)) (sy_taken s n)). mg_Priority m = 0"
    using reach_priority [OF assms(1)] by (auto simp: priority_inv_def list_all_iff dest: in_set_dropD)
  then have "filter (SubscriptionPubSub_matchesFilter sb) (drop (sy_since s (n, sid)) (sy_taken s n)) = []"
    using assms(4) by (auto simp: filter_empty_conv SubscriptionPubSub_matchesFilter_def Let_def)
  moreover have "map dv_msg (filter (dv_of n sid) (sy_dels s))
      = filter (SubscriptionPubSub_matchesFilter sb) (drop (sy_since s (n, sid)) (sy_taken s n))"
    using subs_invD(3) [OF reach_subs_inv [OF assms(1)] assms(2)] assms(3) by (simp add: sub_ok_def)
  ultimately show ?thesis by simp
qed


theorem priority_filter_never_matches_witness:
  "filter (dv_of ''t'' ''s'') (sy_dels (subscribed_to (no_filter\<lparr>fl_Priority := 5\<rparr>))) = []"
proof (rule priority_filter_never_matches [OF subscribed_to_reach])
  let ?sb = "NewSubscription ''t'' ''s'' demo_handler (no_filter\<lparr>fl_Priority := 5\<rparr>) demo_config"
  show "sub_of (sy_ps (subscribed_to (no_filter\<lparr>fl_Priority := 5\<rparr>))) ''t'' ''s'' = Some ?sb"
    by (simp add: sub_of_def subs_of_def topic_of_def subscribed_to_def demo_sys_def demo_ps_def demo_top_def)
      (simp add: demo_tp_def)
  show "\<not> sb_closed ?sb" "0 < fl_Priority (sb_Filter ?sb)" by (simp_all add: NewSubscription_def)
qed

end
