(* ===== verification/PubSubProps.thy ===== *)
theory PubSubProps
  imports PubSubPublish PubSubDeliverProps
begin

text \<open>
  The properties of \<open>src/pubsub.go\<close>: queues and deliveries in every reachable state of the running
  system.
\<close>

section \<open>Reachable states\<close>

lemma uint_of_nat_counter: "uint (of_nat n :: counter) = int n mod 2 ^ 64"
  by (simp add: unsigned_of_nat take_bit_eq_mod of_nat_mod)

lemma of_nat_counter_inj:
  assumes "n < 2 ^ 64"
  shows "distinct (map (of_nat :: nat \<Rightarrow> counter) [1..<Suc n])"
proof -
  have "inj_on (of_nat :: nat \<Rightarrow> counter) {1..<Suc n}"
  proof (rule inj_onI)
    fix x y
    assume xy: "x \<in> {1..<Suc n}" "y \<in> {1..<Suc n}" "of_nat x = (of_nat y :: counter)"
    then have "int x mod 2 ^ 64 = int y mod 2 ^ 64" by (metis uint_of_nat_counter)
    with xy(1,2) assms show "x = y" by simp
  qed
  then show ?thesis by (simp only: distinct_map set_upt distinct_upt simp_thms)
qed

lemma distinct_sub_mset:
  assumes "mset xs + M \<subseteq># mset ys" "distinct ys"
  shows "distinct xs"
proof -
  have "count (mset xs) x \<le> count (mset ys) x" for x
    using mset_subset_eq_count [OF assms(1), of x] by simp
  moreover have "count (mset ys) x \<le> 1" for x
    using assms(2) by (cases "x \<in> set ys") (simp_all add: distinct_count_atmost_1 count_mset_0_iff)
  ultimately have le: "count (mset xs) x \<le> 1" for x using le_trans by blast
  show ?thesis
    unfolding distinct_count_atmost_1
  proof (intro allI)
    fix a
    show "count (mset xs) a = (if a \<in> set xs then 1 else 0)"
      using le [of a] by (cases "a \<in> set xs") (auto simp: le_Suc_eq count_mset_0_iff)
  qed
qed

text \<open>Property C10: In every reachable state and for every topic: the messages queued on the topic are, in
  order, those its processor has taken and those still in the queue; the queue is never longer than
  the configured buffer; the counter of published messages is the number of messages queued so far;
  and as long as fewer than \<open>2\<^sup>6\<^sup>4\<close> were made, no two of them have the same sequence number.\<close>

theorem topic_fifo:
  assumes "ps_reach s" and "topic_of (sy_ps s) n = Some tp"
  shows "sy_sent s n = sy_taken s n @ ch_buf (tp_MessageQueue tp)
    \<and> length (ch_buf (tp_MessageQueue tp)) \<le> nat (cp_BufferSize (ps_config (sy_ps s)))
    \<and> uint (tm_MessagesPublished (tp_metrics tp)) = int (length (sy_sent s n)) mod 2 ^ 64
    \<and> (sy_made s n < 2 ^ 64 \<longrightarrow> distinct (map mg_Sequence (sy_sent s n)))"
proof -
  have inv: "queue_ok s n" "seqs s n \<subseteq># mset (map of_nat [1..<Suc (sy_made s n)])"
    using reach_calls_inv [OF assms(1)] by (simp_all add: calls_inv_def)
  then have "distinct (map mg_Sequence (sy_sent s n))" if "sy_made s n < 2 ^ 64"
    using distinct_sub_mset [OF _ of_nat_counter_inj [OF that]] by (simp add: seqs_def)
  moreover have "sy_sent s n = sy_taken s n @ ch_buf (tp_MessageQueue tp)"
    "length (ch_buf (tp_MessageQueue tp)) \<le> nat (cp_BufferSize (ps_config (sy_ps s)))"
    "tm_MessagesPublished (tp_metrics tp) = of_nat (length (sy_sent s n))"
    using inv(1) assms(2) by (simp_all add: queue_ok_def)
  ultimately show ?thesis by (metis uint_of_nat_counter)
qed

theorem topic_fifo_witness:
  "sy_sent sent_one ''t'' = [demo_message] \<and> sy_taken sent_one ''t'' = []
   \<and> sy_sent delivered_one ''t'' = sy_taken delivered_one ''t'' @ []
   \<and> uint (tm_MessagesPublished (tp_metrics (demo_tp [demo_sub [()] 1 1] [] 1 1))) = 1"
  using topic_fifo [OF delivered_one_reach delivered_one_topic]
  by (simp add: sent_one_def demo_sys_def demo_tp_def delivered_one_fields)


text \<open>Property C26: In every reachable state the number of calls that are between the two \<open>select\<close>s of
  \<open>publishMessage\<close> is what the semaphore holds, and never more than \<open>MaxConcurrentOperations\<close>.\<close>

theorem publish_slots:
  assumes "ps_reach s"
  shows "length (ch_buf (pu_workerPool (ps_publisher (sy_ps s)))) = countp holds_slot (sy_calls s)
    \<and> int (countp holds_slot (sy_calls s)) \<le> max 0 (cp_MaxConcurrentOperations (ps_config (sy_ps s)))"
  using reach_calls_inv [OF assms] by (auto simp: calls_inv_def)

theorem publish_slots_witness:
  "length (ch_buf (pu_workerPool (ps_publisher (sy_ps (calling PbEnter []))))) = 0 \<and> countp holds_slot [demo_call PbEnter] = 0"
  using publish_slots [OF calling_reach] by (simp add: demo_ps_def holds_slot_def)

text \<open>Property C11: In every reachable state: a subscription that is open has been given exactly the
  messages its topic has taken since the subscription was made and that match its filter, each once
  and in order.\<close>

theorem delivered_exactly_once:
  assumes "ps_reach s" and "sub_of (sy_ps s) n sid = Some sb" and "\<not> sb_closed sb"
  shows "map dv_msg (filter (dv_of n sid) (sy_dels s))
    = filter (SubscriptionPubSub_matchesFilter sb) (drop (sy_since s (n, sid)) (sy_taken s n))"
  using subs_invD(3) [OF reach_subs_inv [OF assms(1)] assms(2)] assms(3) by (simp add: sub_ok_def)

theorem delivered_exactly_once_witness:
  "map dv_msg (filter (dv_of ''t'' ''s'') (sy_dels delivered_one)) = [demo_message]"
  using delivered_exactly_once [OF delivered_one_reach delivered_one_sub demo_sub_open]
  by (simp add: delivered_one_fields demo_matches dv_of_def demo_del_def)

text \<open>Property C14: In every reachable state and for every subscription: the messages received are those
  processed, those failed and those of deliveries under way (as 64-bit counters); its semaphore holds
  one slot per delivery that took one, at most ten.\<close>

theorem subscription_accounting:
  assumes "ps_reach s" and "sub_of (sy_ps s) n sid = Some sb"
  shows "sm_MessagesReceived (sb_metrics sb)
      = sm_MessagesProcessed (sb_metrics sb) + sm_MessagesFailed (sb_metrics sb)
        + of_nat (countp (\<lambda>d. dv_of n sid d \<and> dv_active d) (sy_dels s))
    \<and> length (ch_buf (sb_workerPool sb)) = countp (\<lambda>d. dv_of n sid d \<and> dv_in_slot d) (sy_dels s)
    \<and> countp (\<lambda>d. dv_of n sid d \<and> dv_in_slot d) (sy_dels s) \<le> 10"
proof -
  note ok = subs_invD(3) [OF reach_subs_inv [OF assms(1)] assms(2), unfolded sub_ok_def]
  have "balance sb = of_nat (countp (\<lambda>d. dv_of n sid d \<and> dv_active d) (sy_dels s))" using ok by blast
  with ok show ?thesis by (auto simp: balance_def algebra_simps)
qed

theorem subscription_accounting_witness:
  "sm_MessagesReceived (sb_metrics (demo_sub [()] 1 1)) = 1
   \<and> countp (\<lambda>d. dv_of ''t'' ''s'' d \<and> dv_in_slot d) (sy_dels delivered_one) = 1"
  using subscription_accounting [OF delivered_one_reach delivered_one_sub]
  by (simp add: demo_sub_def)


section \<open>Closing\<close>

text \<open>A call of \<open>Publish\<close> that has passed its checks when \<open>Close\<close> starts can find the queue of its
  topic closed when it sends: the send on a closed channel panics, in a goroutine of the caller.\<close>

theorem publish_close_race_panics:
  "\<exists>s. ps_reach s \<and> (\<exists>call\<in>set (sy_calls s). pc_at call = PbPanicked SendOnClosedChannel)"
proof -
  let ?tp = "demo_tp [demo_sb] [] 1 0"
  let ?tp' = "?tp\<lparr>tp_closed := True, tp_MessageQueue := (tp_MessageQueue ?tp)\<lparr>ch_closed := True\<rparr>\<rparr>"
  define ps1 where "ps1 = (sy_ps making)\<lparr>ps_closed := True, ps_ctx := (ps_ctx (sy_ps making))\<lparr>cancelled_at := Some 0\<rparr>\<rparr>"
  let ?s1 = "making\<lparr>sy_ps := ps1, sy_closing := Some [''t'']\<rparr>"
  let ?s2 = "?s1\<lparr>sy_ps := upd_topic ''t'' (\<lambda>_. ?tp') ps1, sy_closing := Some []\<rparr>"
  have tops: "topic_of ps1 ''t'' = Some ?tp"
    by (simp add: ps1_def topic_of_def making_fields demo_ps_def demo_top_def)
  have "PubSub_Close_flag (sy_now making) (sy_ps making) = (None, ps1)"
    by (simp add: PubSub_Close_flag_def ps1_def making_fields) (simp add: demo_ps_def)
  from ps_step.close [OF this] have "ps_step making ?s1"
    by (simp add: ps1_def making_fields demo_ps_def demo_top_def)
  moreover have "ps_step ?s1 ?s2"
    using ps_step.close_queue [of ?s1 "''t''" "[]" ?tp ?tp'] tops
    by (simp add: close_topic_def chan_close_def demo_tp_def)
  ultimately have s2: "ps_reach ?s2" using making_reach by (blast intro: ps_reach.step)
  have q: "queue_of (sy_ps ?s2) ''t'' = (tp_MessageQueue ?tp)\<lparr>ch_closed := True\<rparr>"
    by (simp add: queue_of_def topic_of_upd_topic tops)
  have send: "publish_send False 0 demo_ctx demo_message (sy_ps ?s2) = (Panics SendOnClosedChannel, sy_ps ?s2)"
    using q demo_ctx_live by (simp add: publish_send_def select_send_def chan_send_def demo_message_def)
  have "pb_step (sy_now ?s2) (demo_call (PbSend 0 0 demo_message), sy_ps ?s2) None
      ((demo_call (PbSend 0 0 demo_message))\<lparr>pc_at := PbPanicked SendOnClosedChannel\<rparr>, give_slot (sy_ps ?s2))"
    by (rule pb_step.send_panics [where pick = False and a = 0 and t = 0 and m = demo_message]) (use send in \<open>simp_all add: making_fields\<close>)
  from one_call [OF s2 _ this] have "ps_reach (do_call 0 (demo_call (PbPanicked SendOnClosedChannel)) None (give_slot (sy_ps ?s2)) ?s2)"
    by (simp add: making_fields)
  moreover have "demo_call (PbPanicked SendOnClosedChannel)
      \<in> set (sy_calls (do_call 0 (demo_call (PbPanicked SendOnClosedChannel)) None (give_slot (sy_ps ?s2)) ?s2))"
    by (simp add: making_fields)
  ultimately show ?thesis by (metis calling_simps(4))
qed

end
